(* ===== verification/Prelude.thy ===== *)
theory Prelude
  imports Main "HOL-Library.Code_Target_Numeral"
begin

text \<open>
  Shared vocabulary of the development.  A Rust \<^verbatim>\<open>str\<close> is its sequence of UTF-8 bytes, and so
  is a \<open>string\<close> here: \<open>length\<close> is \<^verbatim>\<open>len()\<close>, byte indexing is byte indexing, and every search for
  an ASCII character finds the same position as in the source.  A Rust \<^verbatim>\<open>char\<close> taken out of a
  string is the byte sequence that encodes it (\<open>utf8_chars\<close>).  The functions below are the
  \<^verbatim>\<open>std::str\<close> operations the code uses, each with the characterisation its callers need;
  \<open>str_simps\<close> collects them.
\<close>

named_theorems str_simps

subsection \<open>ASCII classes of a byte\<close>

abbreviation code :: "char \<Rightarrow> nat" where
  "code c \<equiv> of_char c"

definition is_ascii_digit :: "char \<Rightarrow> bool" where
  "is_ascii_digit c \<longleftrightarrow> 48 \<le> code c \<and> code c \<le> 57"

definition is_ascii_uppercase :: "char \<Rightarrow> bool" where
  "is_ascii_uppercase c \<longleftrightarrow> 65 \<le> code c \<and> code c \<le> 90"

definition is_ascii_lowercase :: "char \<Rightarrow> bool" where
  "is_ascii_lowercase c \<longleftrightarrow> 97 \<le> code c \<and> code c \<le> 122"

definition is_ascii_alphabetic :: "char \<Rightarrow> bool" where
  "is_ascii_alphabetic c \<longleftrightarrow> is_ascii_uppercase c \<or> is_ascii_lowercase c"

definition is_ascii_alphanumeric :: "char \<Rightarrow> bool" where
  "is_ascii_alphanumeric c \<longleftrightarrow> is_ascii_alphabetic c \<or> is_ascii_digit c"

definition to_ascii_lower :: "char \<Rightarrow> char" where
  "to_ascii_lower c = (if is_ascii_uppercase c then char_of (code c + 32) else c)"

definition to_ascii_lowercase :: "string \<Rightarrow> string" where
  "to_ascii_lowercase s = map to_ascii_lower s"

definition eq_ignore_ascii_case :: "string \<Rightarrow> string \<Rightarrow> bool" where
  "eq_ignore_ascii_case s t \<longleftrightarrow> to_ascii_lowercase s = to_ascii_lowercase t"

lemmas ascii_class_defs =
  is_ascii_digit_def is_ascii_uppercase_def is_ascii_lowercase_def
  is_ascii_alphabetic_def is_ascii_alphanumeric_def

lemma code_less_256: "code c < 256"
  by simp

lemma to_ascii_lower_idem [simp]: "to_ascii_lower (to_ascii_lower c) = to_ascii_lower c"
  by (auto simp: to_ascii_lower_def is_ascii_uppercase_def)

lemma code_to_ascii_lower:
  "code (to_ascii_lower c) = (if is_ascii_uppercase c then code c + 32 else code c)"
  by (auto simp: to_ascii_lower_def is_ascii_uppercase_def)

lemma length_to_ascii_lowercase [simp]: "length (to_ascii_lowercase s) = length s"
  by (simp add: to_ascii_lowercase_def)

lemma to_ascii_lowercase_idem [simp]:
  "to_ascii_lowercase (to_ascii_lowercase s) = to_ascii_lowercase s"
  by (simp add: to_ascii_lowercase_def)

lemma to_ascii_lowercase_append [simp]:
  "to_ascii_lowercase (s @ t) = to_ascii_lowercase s @ to_ascii_lowercase t"
  by (simp add: to_ascii_lowercase_def)

subsection \<open>Characters and their boundaries\<close>

definition is_cont_byte :: "char \<Rightarrow> bool" where
  "is_cont_byte c \<longleftrightarrow> 128 \<le> code c \<and> code c < 192"

definition is_char_boundary :: "string \<Rightarrow> nat \<Rightarrow> bool" where
  "is_char_boundary s i \<longleftrightarrow>
     i = 0 \<or> i = length s \<or> (i < length s \<and> \<not> is_cont_byte (s ! i))"

text \<open>\<^verbatim>\<open>s.chars()\<close>: a lead byte together with the continuation bytes behind it.\<close>

function utf8_chars :: "string \<Rightarrow> string list" where
  "utf8_chars [] = []"
| "utf8_chars (b # bs) = (b # takeWhile is_cont_byte bs) # utf8_chars (dropWhile is_cont_byte bs)"
  by pat_completeness auto
termination
  by (relation "measure length") (auto simp: length_dropWhile_le le_imp_less_Suc)

text \<open>A predicate on a \<^verbatim>\<open>char\<close> that only ASCII characters can satisfy, lifted from bytes.\<close>

definition ascii_char :: "(char \<Rightarrow> bool) \<Rightarrow> string \<Rightarrow> bool" where
  "ascii_char P ch = (case ch of [c] \<Rightarrow> P c | _ \<Rightarrow> False)"

lemma ascii_char_simps [simp]:
  "ascii_char P [c] = P c" "ascii_char P [] = False" "ascii_char P (c # d # ds) = False"
  by (simp_all add: ascii_char_def)

lemma concat_utf8_chars [simp]: "concat (utf8_chars s) = s"
  by (induction s rule: utf8_chars.induct) auto

text \<open>
  \<^verbatim>\<open>s.chars().all(p)\<close> for such a predicate is the same test on the bytes, which is how the model
  writes it: a non-ASCII character has no byte below 128.
\<close>

lemma all_utf8_chars_bytes:
  assumes "\<And>c. P c \<Longrightarrow> code c < 128"
  shows "list_all (ascii_char P) (utf8_chars s) \<longleftrightarrow> list_all P s"
proof (induction s rule: utf8_chars.induct)
  case 1
  then show ?case by simp
next
  case (2 b bs)
  have no_cont: "\<not> is_cont_byte c" if "P c" for c
    using assms [OF that] by (simp add: is_cont_byte_def)
  show ?case
  proof (cases bs)
    case Nil
    then show ?thesis by simp
  next
    case (Cons d ds)
    then show ?thesis
      using 2 no_cont [of d] by (cases "is_cont_byte d") (auto simp: ascii_char_def)
  qed
qed

text \<open>\<^verbatim>\<open>char::is_whitespace\<close>, the Unicode White-Space set in its UTF-8 encodings, and \<^verbatim>\<open>str::trim\<close>.\<close>

definition is_whitespace :: "string \<Rightarrow> bool" where
  "is_whitespace ch = (case map code ch of
     [a] \<Rightarrow> (9 \<le> a \<and> a \<le> 13) \<or> a = 32
   | [a, b] \<Rightarrow> a = 0xC2 \<and> b \<in> {0x85, 0xA0}
   | [a, b, c] \<Rightarrow>
       (a = 0xE1 \<and> b = 0x9A \<and> c = 0x80)
       \<or> (a = 0xE2 \<and> b = 0x80 \<and> ((0x80 \<le> c \<and> c \<le> 0x8A) \<or> c \<in> {0xA8, 0xA9, 0xAF}))
       \<or> (a = 0xE2 \<and> b = 0x81 \<and> c = 0x9F)
       \<or> (a = 0xE3 \<and> b = 0x80 \<and> c = 0x80)
   | _ \<Rightarrow> False)"

definition str_trim :: "string \<Rightarrow> string" where
  "str_trim s =
     concat (rev (dropWhile is_whitespace (rev (dropWhile is_whitespace (utf8_chars s)))))"

text \<open>Whether a byte string is UTF-8, which is when an \<^verbatim>\<open>OsString\<close> becomes a \<^verbatim>\<open>String\<close>.\<close>

fun is_utf8_bytes :: "nat list \<Rightarrow> bool" where
  "is_utf8_bytes [] = True"
| "is_utf8_bytes (a # s) =
     (if a < 0x80 then is_utf8_bytes s
      else (case s of
        [] \<Rightarrow> False
      | b # s2 \<Rightarrow>
          if 0xC2 \<le> a \<and> a \<le> 0xDF then 0x80 \<le> b \<and> b \<le> 0xBF \<and> is_utf8_bytes s2
          else (case s2 of
            [] \<Rightarrow> False
          | c # s3 \<Rightarrow>
              if 0xE0 \<le> a \<and> a \<le> 0xEF
              then (if a = 0xE0 then 0xA0 else 0x80) \<le> b \<and> b \<le> (if a = 0xED then 0x9F else 0xBF)
                   \<and> 0x80 \<le> c \<and> c \<le> 0xBF \<and> is_utf8_bytes s3
              else (case s3 of
                [] \<Rightarrow> False
              | d # s4 \<Rightarrow>
                  0xF0 \<le> a \<and> a \<le> 0xF4
                  \<and> (if a = 0xF0 then 0x90 else 0x80) \<le> b \<and> b \<le> (if a = 0xF4 then 0x8F else 0xBF)
                  \<and> 0x80 \<le> c \<and> c \<le> 0xBF \<and> 0x80 \<le> d \<and> d \<le> 0xBF \<and> is_utf8_bytes s4))))"

definition is_utf8 :: "string \<Rightarrow> bool" where
  "is_utf8 s = is_utf8_bytes (map code s)"

text \<open>\<^verbatim>\<open>str::parse\<close> for an unsigned integer below a bound: an optional \<^verbatim>\<open>+\<close>, then digits.\<close>

definition dec_value :: "string \<Rightarrow> nat" where
  "dec_value ds = foldl (\<lambda>n d. 10 * n + (code d - 48)) 0 ds"

definition parse_unsigned :: "nat \<Rightarrow> string \<Rightarrow> nat option" where
  "parse_unsigned bound s =
     (let ds = (case s of c # cs \<Rightarrow> if c = CHR ''+'' then cs else s | [] \<Rightarrow> s) in
      if ds = [] \<or> \<not> list_all is_ascii_digit ds then None
      else if dec_value ds < bound then Some (dec_value ds) else None)"

text \<open>Saturating arithmetic on \<^verbatim>\<open>u64\<close>.\<close>

definition U64_MAX :: nat where
  "U64_MAX = 2 ^ 64 - 1"

definition sat_add64 :: "nat \<Rightarrow> nat \<Rightarrow> nat" where
  "sat_add64 a b = min (a + b) U64_MAX"

definition sat_mul64 :: "nat \<Rightarrow> nat \<Rightarrow> nat" where
  "sat_mul64 a b = min (a * b) U64_MAX"

subsection \<open>Searching and splitting\<close>

text \<open>
  \<^verbatim>\<open>s.find(c)\<close> followed by the slices left and right of the hit, and \<^verbatim>\<open>s.split_once(c)\<close>: the
  source writes both, they are the same function.
\<close>

fun split_once :: "char \<Rightarrow> string \<Rightarrow> (string \<times> string) option" where
  "split_once c [] = None"
| "split_once c (x # xs) =
     (if x = c then Some ([], xs)
      else (case split_once c xs of None \<Rightarrow> None | Some (a, b) \<Rightarrow> Some (x # a, b)))"

definition starts_with :: "string \<Rightarrow> string \<Rightarrow> bool" where
  "starts_with s p \<longleftrightarrow> take (length p) s = p"

definition ends_with :: "string \<Rightarrow> string \<Rightarrow> bool" where
  "ends_with s p \<longleftrightarrow> length p \<le> length s \<and> drop (length s - length p) s = p"

definition strip_prefix :: "string \<Rightarrow> string \<Rightarrow> string option" where
  "strip_prefix p s = (if starts_with s p then Some (drop (length p) s) else None)"

fun contains_str :: "string \<Rightarrow> string \<Rightarrow> bool" where
  "contains_str [] p = (p = [])"
| "contains_str (x # xs) p = (starts_with (x # xs) p \<or> contains_str xs p)"

lemma split_once_append [simp]: "c \<notin> set a \<Longrightarrow> split_once c (a @ c # b) = Some (a, b)"
  by (induction a) auto

lemma split_once_SomeD: "split_once c s = Some (a, b) \<Longrightarrow> s = a @ c # b \<and> c \<notin> set a"
  by (induction s arbitrary: a) (fastforce split: if_splits option.splits)+

lemma split_once_Some [str_simps]:
  "split_once c s = Some (a, b) \<longleftrightarrow> s = a @ c # b \<and> c \<notin> set a"
  using split_once_SomeD by auto

lemma split_once_None [str_simps]: "split_once c s = None \<longleftrightarrow> c \<notin> set s"
  by (induction s) (auto split: option.split)

lemma starts_with_iff: "starts_with s p \<longleftrightarrow> (\<exists>t. s = p @ t)"
  by (metis append_eq_conv_conj append_take_drop_id starts_with_def)

lemma starts_with_append [simp]: "starts_with (p @ t) p"
  by (simp add: starts_with_def)

lemma ends_with_iff: "ends_with s p \<longleftrightarrow> (\<exists>t. s = t @ p)"
proof
  assume "ends_with s p"
  then have "s = take (length s - length p) s @ p"
    by (metis append_take_drop_id ends_with_def)
  then show "\<exists>t. s = t @ p" ..
qed (auto simp: ends_with_def)

lemma strip_prefix_Some [str_simps]: "strip_prefix p s = Some t \<longleftrightarrow> s = p @ t"
  by (auto simp: strip_prefix_def starts_with_iff)

lemma strip_prefix_None [str_simps]: "strip_prefix p s = None \<longleftrightarrow> \<not> starts_with s p"
  by (simp add: strip_prefix_def)

lemma contains_str_iff: "contains_str s p \<longleftrightarrow> (\<exists>a b. s = a @ p @ b)"
proof (induction s)
  case Nil
  then show ?case by auto
next
  case (Cons x xs)
  have "(\<exists>a b. x # xs = a @ p @ b) \<longleftrightarrow> (\<exists>b. x # xs = p @ b) \<or> (\<exists>a b. xs = a @ p @ b)"
    by (metis append_Cons append_Nil list.exhaust list.sel(3))
  with Cons show ?case by (simp add: starts_with_iff)
qed

subsection \<open>Results\<close>

text \<open>\<^verbatim>\<open>Result<T, E>\<close> is \<open>'e + 'a\<close>: \<open>Inl\<close> the error, \<open>Inr\<close> the value.\<close>

definition is_ok :: "'e + 'a \<Rightarrow> bool" where
  "is_ok r = (case r of Inl _ \<Rightarrow> False | Inr _ \<Rightarrow> True)"

definition map_err :: "('e \<Rightarrow> 'f) \<Rightarrow> 'e + 'a \<Rightarrow> 'f + 'a" where
  "map_err f r = (case r of Inl e \<Rightarrow> Inl (f e) | Inr a \<Rightarrow> Inr a)"

definition map_ok :: "('a \<Rightarrow> 'b) \<Rightarrow> 'e + 'a \<Rightarrow> 'e + 'b" where
  "map_ok f r = (case r of Inl e \<Rightarrow> Inl e | Inr a \<Rightarrow> Inr (f a))"

lemma is_ok_simps [simp]: "is_ok (Inr a)" "\<not> is_ok (Inl e)"
  by (simp_all add: is_ok_def)

lemma is_ok_iff: "is_ok r \<longleftrightarrow> (\<exists>a. r = Inr a)"
  by (cases r) simp_all

lemma map_err_Inr [simp]: "map_err f r = Inr a \<longleftrightarrow> r = Inr a"
  by (cases r) (simp_all add: map_err_def)

lemma map_ok_Inr [simp]: "map_ok f r = Inr b \<longleftrightarrow> (\<exists>a. r = Inr a \<and> b = f a)"
  by (cases r) (auto simp: map_ok_def)

lemma map_ok_simps [simp]: "map_ok f (Inr a) = Inr (f a)" "map_ok f (Inl e) = Inl e"
  by (simp_all add: map_ok_def)

lemma map_err_simps [simp]: "map_err f (Inl e) = Inl (f e)"
  by (simp add: map_err_def)

subsection \<open>Digests\<close>

text \<open>
  SHA-256 (crate \<^verbatim>\<open>sha2\<close>) and \<^verbatim>\<open>hex::encode\<close> (crate \<^verbatim>\<open>hex\<close>) are parameters \<open>sha\<close> and \<open>hx\<close> of
  every definition that calls them.  The code relies on their output format only: 32 bytes, and
  two lowercase hexadecimal digits for each byte, distinct for distinct bytes.
\<close>

definition is_lower_hex :: "char \<Rightarrow> bool" where
  "is_lower_hex c \<longleftrightarrow> is_ascii_digit c \<or> (97 \<le> code c \<and> code c \<le> 102)"

definition hash_format :: "(string \<Rightarrow> string) \<Rightarrow> (string \<Rightarrow> string) \<Rightarrow> bool" where
  "hash_format sha hx \<longleftrightarrow> (\<forall>x. length (sha x) = 32)
     \<and> (\<forall>b. length (hx b) = 2 * length b \<and> list_all is_lower_hex (hx b)) \<and> inj hx"

text \<open>An instance, for evaluating the model: a toy digest and the usual hexadecimal rendering, which
  is also what a \<^verbatim>\<open>{:02x}\<close> per byte of the formatting machinery prints.\<close>

definition toy_sha :: "string \<Rightarrow> string" where
  "toy_sha x = take 32 (rev x @ replicate 32 CHR 0x00)"

definition hex_digit :: "nat \<Rightarrow> char" where
  "hex_digit n = ''0123456789abcdef'' ! (n mod 16)"

definition hex_lower :: "string \<Rightarrow> string" where
  "hex_lower b = concat (map (\<lambda>c. [hex_digit (code c div 16), hex_digit (code c)]) b)"

lemma hex_digit_table:
  "list_all (\<lambda>n. is_lower_hex (hex_digit n)) [0..<16]" "distinct (map hex_digit [0..<16])"
  by code_simp+

lemma hex_digit_hex: "is_lower_hex (hex_digit n)"
proof -
  have "is_lower_hex (hex_digit (n mod 16))"
    using hex_digit_table(1) by (simp only: list_all_iff set_upt) simp
  then show ?thesis by (simp add: hex_digit_def)
qed

lemma hex_digit_inj: "hex_digit m = hex_digit n \<Longrightarrow> m mod 16 = n mod 16"
proof -
  assume "hex_digit m = hex_digit n"
  then have e: "hex_digit (m mod 16) = hex_digit (n mod 16)" by (simp add: hex_digit_def)
  have "inj_on hex_digit {0..<16}"
    using hex_digit_table(2) by (simp only: distinct_map set_upt)
  with e show ?thesis by (auto dest: inj_onD)
qed

lemma hex_lower_inj: "hex_lower a = hex_lower b \<Longrightarrow> a = b"
proof (induction a arbitrary: b)
  case Nil
  then show ?case by (cases b) (simp_all add: hex_lower_def)
next
  case (Cons c a)
  then obtain d b' where b: "b = d # b'" by (cases b) (simp_all add: hex_lower_def)
  with Cons.prems have "hex_digit (code c div 16) = hex_digit (code d div 16)"
      "hex_digit (code c) = hex_digit (code d)" "hex_lower a = hex_lower b'"
    by (simp_all add: hex_lower_def)
  moreover have "code x div 16 < 16" for x
    by (rule less_mult_imp_div_less) simp
  ultimately have "code c div 16 = code d div 16" "code c mod 16 = code d mod 16" "a = b'"
    using hex_digit_inj [of "code c div 16" "code d div 16"] hex_digit_inj [of "code c" "code d"] Cons.IH
    by (metis mod_less)+
  then show ?case
    using b by (metis div_mult_mod_eq of_char_eq_iff)
qed

lemma hash_format_toy: "hash_format toy_sha hex_lower"
proof -
  have "length (hex_lower b) = 2 * length b \<and> list_all is_lower_hex (hex_lower b)" for b
    by (induction b) (simp_all add: hex_lower_def hex_digit_hex)
  then show ?thesis
    by (auto simp: hash_format_def toy_sha_def intro: injI hex_lower_inj)
qed

end
