(* ===== verification/Refs.thy ===== *)
theory Refs
  imports Prelude
begin

text \<open>
  Paper references (\<^verbatim>\<open>crates/doiget-core/src/lib.rs\<close>): the types \<^verbatim>\<open>Doi\<close>, \<^verbatim>\<open>ArxivId\<close> and \<^verbatim>\<open>Ref\<close>,
  their parsers with every rejection category, and the file-system key \<^verbatim>\<open>Ref::safekey\<close>.
  SHA-256 (crate \<^verbatim>\<open>sha2\<close>) and \<^verbatim>\<open>hex::encode\<close> are parameters \<open>sha\<close> and \<open>hx\<close> on byte strings.
\<close>

subsection \<open>Types\<close>

datatype doi = Doi string
datatype arxiv_id = ArxivId string
datatype paper_ref = RefDoi doi | RefArxiv arxiv_id

datatype ref_parse_error =
    Empty
  | MissingDoiPrefix
  | MissingDoiSuffixSeparator
  | InvalidDoiRegistrant
  | EmptyDoiSuffix
  | DoiSuffixTooLong nat nat
  | InvalidDoiSuffixChar string
  | InvalidArxivShape
  | UnrecognisedShape

definition DOI_SUFFIX_MAX_LEN :: nat where
  "DOI_SUFFIX_MAX_LEN = 256"

fun doi_as_str :: "doi \<Rightarrow> string" where
  "doi_as_str (Doi s) = s"

fun arxiv_as_str :: "arxiv_id \<Rightarrow> string" where
  "arxiv_as_str (ArxivId s) = s"

fun as_input_str :: "paper_ref \<Rightarrow> string" where
  "as_input_str (RefDoi d) = doi_as_str d"
| "as_input_str (RefArxiv a) = arxiv_as_str a"

definition doi_prefix :: "doi \<Rightarrow> string" where
  "doi_prefix d = (case split_once CHR ''/'' (doi_as_str d) of
     Some (p, _) \<Rightarrow> p | None \<Rightarrow> doi_as_str d)"

subsection \<open>Parser internals\<close>

definition has_doi_scheme :: "string \<Rightarrow> bool" where
  "has_doi_scheme s \<longleftrightarrow>
     4 \<le> length s \<and> is_char_boundary s 4 \<and> eq_ignore_ascii_case (take 4 s) ''doi:''"

definition has_arxiv_scheme :: "string \<Rightarrow> bool" where
  "has_arxiv_scheme s \<longleftrightarrow>
     6 \<le> length s \<and> is_char_boundary s 6 \<and> eq_ignore_ascii_case (take 6 s) ''arxiv:''"

definition strip_doi_scheme :: "string \<Rightarrow> string" where
  "strip_doi_scheme s = (if has_doi_scheme s then drop 4 s else s)"

definition strip_arxiv_scheme :: "string \<Rightarrow> string" where
  "strip_arxiv_scheme s = (if has_arxiv_scheme s then drop 6 s else s)"

definition is_doi_suffix_char :: "char \<Rightarrow> bool" where
  "is_doi_suffix_char c \<longleftrightarrow> is_ascii_alphanumeric c \<or> c \<in> set ''._/()-:''"

definition validate_doi :: "string \<Rightarrow> ref_parse_error + unit" where
  "validate_doi s =
     (if s = [] then Inl Empty
      else case strip_prefix ''10.'' s of
        None \<Rightarrow> Inl MissingDoiPrefix
      | Some rest \<Rightarrow>
          (case split_once CHR ''/'' rest of
             None \<Rightarrow> Inl MissingDoiSuffixSeparator
           | Some (registrant, suffix) \<Rightarrow>
               if length registrant < 4 \<or> 9 < length registrant
                  \<or> \<not> list_all is_ascii_digit registrant
               then Inl InvalidDoiRegistrant
               else if suffix = [] then Inl EmptyDoiSuffix
               else if DOI_SUFFIX_MAX_LEN < length suffix
               then Inl (DoiSuffixTooLong (length suffix) DOI_SUFFIX_MAX_LEN)
               else (case find (\<lambda>ch. \<not> ascii_char is_doi_suffix_char ch) (utf8_chars suffix) of
                       Some bad \<Rightarrow> Inl (InvalidDoiSuffixChar bad)
                     | None \<Rightarrow> Inr ())))"

text \<open>
  The optional \<^verbatim>\<open>vN\<close> behind the digits of an arXiv id; both shapes end with this same loop.
\<close>

definition version_suffix_ok :: "string \<Rightarrow> bool" where
  "version_suffix_ok rest = (case rest of
     [] \<Rightarrow> True
   | c # v \<Rightarrow> c = CHR ''v'' \<and> v \<noteq> [] \<and> dropWhile is_ascii_digit v = [])"

definition validate_arxiv_new :: "string \<Rightarrow> bool" where
  "validate_arxiv_new s = (case split_once CHR ''.'' s of
     None \<Rightarrow> False
   | Some (head, tail) \<Rightarrow>
       if length head \<noteq> 4 \<or> \<not> list_all is_ascii_digit head then False
       else let digits_len = length (takeWhile is_ascii_digit tail) in
         if \<not> (4 \<le> digits_len \<and> digits_len \<le> 5) then False
         else version_suffix_ok (drop digits_len tail))"

definition arxiv_class_ok :: "string \<Rightarrow> bool" where
  "arxiv_class_ok cls =
     (let (core_class, dot_part) =
            (case split_once CHR ''.'' cls of
               Some (c, d) \<Rightarrow> (c, Some d)
             | None \<Rightarrow> (cls, None)) in
      if core_class = []
         \<or> \<not> list_all (\<lambda>c. is_ascii_lowercase c \<or> c = CHR ''-'') core_class
         \<or> starts_with core_class ''-'' \<or> ends_with core_class ''-''
      then False
      else (case dot_part of
              None \<Rightarrow> True
            | Some dp \<Rightarrow> \<not> (length dp \<noteq> 2 \<or> \<not> list_all is_ascii_uppercase dp)))"

definition validate_arxiv_old :: "string \<Rightarrow> bool" where
  "validate_arxiv_old s = (case split_once CHR ''/'' s of
     None \<Rightarrow> False
   | Some (cls, idp) \<Rightarrow>
       if \<not> arxiv_class_ok cls then False
       else let digits_len = length (takeWhile is_ascii_digit idp) in
         if digits_len \<noteq> 7 then False
         else version_suffix_ok (drop digits_len idp))"

definition validate_arxiv :: "string \<Rightarrow> ref_parse_error + unit" where
  "validate_arxiv s =
     (if s = [] then Inl Empty
      else if validate_arxiv_new s \<or> validate_arxiv_old s then Inr ()
      else Inl InvalidArxivShape)"

subsection \<open>The public parsers\<close>

definition doi_parse :: "string \<Rightarrow> ref_parse_error + doi" where
  "doi_parse s = (let stripped = strip_doi_scheme s in
     case validate_doi stripped of Inl e \<Rightarrow> Inl e | Inr _ \<Rightarrow> Inr (Doi stripped))"

definition arxiv_parse :: "string \<Rightarrow> ref_parse_error + arxiv_id" where
  "arxiv_parse s = (let stripped = strip_arxiv_scheme s in
     case validate_arxiv stripped of Inl e \<Rightarrow> Inl e | Inr _ \<Rightarrow> Inr (ArxivId stripped))"

definition ref_parse :: "string \<Rightarrow> ref_parse_error + paper_ref" where
  "ref_parse s =
     (if s = [] then Inl Empty
      else if has_doi_scheme s then map_ok RefDoi (doi_parse s)
      else if has_arxiv_scheme s then map_ok RefArxiv (arxiv_parse s)
      else if starts_with s ''10.'' then map_ok RefDoi (doi_parse s)
      else map_err (\<lambda>_. UnrecognisedShape) (map_ok RefArxiv (arxiv_parse s)))"

subsection \<open>Safekey\<close>

datatype safekey = Safekey string

fun safekey_as_str :: "safekey \<Rightarrow> string" where
  "safekey_as_str (Safekey s) = s"

definition is_safekey_char :: "char \<Rightarrow> bool" where
  "is_safekey_char c \<longleftrightarrow> is_ascii_alphanumeric c \<or> c \<in> set ''.-_''"

text \<open>Step 1: every character outside the safe set, ASCII or not, becomes one underscore.\<close>

definition escape_chars :: "string \<Rightarrow> string" where
  "escape_chars raw =
     concat (map (\<lambda>ch. if ascii_char is_safekey_char ch then ch else ''_'') (utf8_chars raw))"

text \<open>Step 2: the loop with \<^verbatim>\<open>last_was_underscore\<close> as its state.\<close>

fun collapse_underscores :: "bool \<Rightarrow> string \<Rightarrow> string" where
  "collapse_underscores last_was_underscore [] = []"
| "collapse_underscores last_was_underscore (c # cs) =
     (if c = CHR ''_''
      then (if last_was_underscore then collapse_underscores True cs
            else c # collapse_underscores True cs)
      else c # collapse_underscores False cs)"

definition trim_matches :: "char \<Rightarrow> string \<Rightarrow> string" where
  "trim_matches c s = rev (dropWhile (\<lambda>x. x = c) (rev (dropWhile (\<lambda>x. x = c) s)))"

definition safekey_raw :: "paper_ref \<Rightarrow> string" where
  "safekey_raw r = (case r of
     RefDoi d \<Rightarrow> ''doi_'' @ doi_as_str d
   | RefArxiv a \<Rightarrow> ''arxiv_'' @ arxiv_as_str a)"

definition SAFEKEY_MAX_LEN :: nat where
  "SAFEKEY_MAX_LEN = 192"

definition safekey_trimmed :: "string \<Rightarrow> string" where
  "safekey_trimmed raw = trim_matches CHR ''_'' (collapse_underscores False (escape_chars raw))"

definition ref_safekey :: "(string \<Rightarrow> string) \<Rightarrow> (string \<Rightarrow> string) \<Rightarrow> paper_ref \<Rightarrow> safekey" where
  "ref_safekey sha hx r =
     (let raw = safekey_raw r; trimmed = safekey_trimmed raw in
      Safekey (if SAFEKEY_MAX_LEN < length trimmed
               then take SAFEKEY_MAX_LEN trimmed @ ''_'' @ hx (take 4 (sha raw))
               else trimmed))"

subsection \<open>What the parsers accept\<close>

lemma is_doi_suffix_char_ascii: "is_doi_suffix_char c \<Longrightarrow> code c < 128"
  by (auto simp: is_doi_suffix_char_def ascii_class_defs)

lemma is_safekey_char_ascii: "is_safekey_char c \<Longrightarrow> code c < 128"
  by (auto simp: is_safekey_char_def ascii_class_defs)

lemma find_bad_suffix_char:
  "find (\<lambda>ch. \<not> ascii_char is_doi_suffix_char ch) (utf8_chars s) = None
     \<longleftrightarrow> list_all is_doi_suffix_char s"
  using all_utf8_chars_bytes [of is_doi_suffix_char s] is_doi_suffix_char_ascii
  by (fastforce simp: find_None_iff list_all_iff)

text \<open>The DOI grammar of \<^verbatim>\<open>docs/SECURITY.md\<close> section 1.1, as a declarative predicate.\<close>

definition doi_grammar :: "string \<Rightarrow> string \<Rightarrow> string \<Rightarrow> bool" where
  "doi_grammar s registrant suffix \<longleftrightarrow>
     s = ''10.'' @ registrant @ ''/'' @ suffix
     \<and> length registrant \<in> {4..9} \<and> list_all is_ascii_digit registrant
     \<and> suffix \<noteq> [] \<and> length suffix \<le> DOI_SUFFIX_MAX_LEN \<and> list_all is_doi_suffix_char suffix"

lemma digit_not_slash: "list_all is_ascii_digit xs \<Longrightarrow> CHR ''/'' \<notin> set xs"
  by (auto simp: list_all_iff is_ascii_digit_def)

lemma validate_doi_grammar:
  "validate_doi s = Inr () \<longleftrightarrow> (\<exists>registrant suffix. doi_grammar s registrant suffix)"
proof
  assume ok: "validate_doi s = Inr ()"
  then obtain rest where rest: "strip_prefix ''10.'' s = Some rest"
    by (auto simp: validate_doi_def split: if_splits option.splits)
  with ok obtain r f where rf: "split_once CHR ''/'' rest = Some (r, f)"
    by (auto simp: validate_doi_def split: if_splits option.splits)
  from ok rest rf have "doi_grammar s r f"
    by (auto simp: validate_doi_def doi_grammar_def strip_prefix_Some split_once_Some
        find_bad_suffix_char split: if_splits option.splits)
  then show "\<exists>r f. doi_grammar s r f" by blast
next
  assume "\<exists>r f. doi_grammar s r f"
  then obtain r f where g: "doi_grammar s r f" by blast
  then have "strip_prefix ''10.'' s = Some (r @ CHR ''/'' # f)" "s \<noteq> []"
    by (auto simp: strip_prefix_Some doi_grammar_def)
  moreover from g have "CHR ''/'' \<notin> set r"
    by (simp add: doi_grammar_def digit_not_slash)
  moreover from g have "find (\<lambda>ch. \<not> ascii_char is_doi_suffix_char ch) (utf8_chars f) = None"
    by (simp add: find_bad_suffix_char doi_grammar_def)
  ultimately show "validate_doi s = Inr ()"
    using g by (simp add: validate_doi_def doi_grammar_def)
qed

lemma version_suffix_chars:
  assumes "version_suffix_ok rest"
  shows "list_all (\<lambda>c. is_ascii_digit c \<or> c = CHR ''v'') rest"
proof (cases rest)
  case (Cons c v)
  with assms have "dropWhile is_ascii_digit v = []" and "c = CHR ''v''"
    by (simp_all add: version_suffix_ok_def)
  with Cons show ?thesis
    by (auto simp: list_all_iff dropWhile_eq_Nil_conv)
qed simp

definition is_arxiv_char :: "char \<Rightarrow> bool" where
  "is_arxiv_char c \<longleftrightarrow> is_ascii_alphanumeric c \<or> c \<in> set ''./-''"

lemma is_arxiv_charI [intro]:
  "is_ascii_digit c \<Longrightarrow> is_arxiv_char c" "is_arxiv_char CHR ''v''"
  "is_ascii_lowercase c \<Longrightarrow> is_arxiv_char c" "is_ascii_uppercase c \<Longrightarrow> is_arxiv_char c"
  by (simp_all add: is_arxiv_char_def is_ascii_alphanumeric_def is_ascii_alphabetic_def
      is_ascii_lowercase_def)

lemma digits_then_version_chars:
  assumes "version_suffix_ok (drop (length (takeWhile is_ascii_digit t)) t)"
  shows "list_all is_arxiv_char t"
proof -
  have "list_all (\<lambda>c. is_ascii_digit c \<or> c = CHR ''v'') (dropWhile is_ascii_digit t)"
    using assms by (intro version_suffix_chars) (simp add: dropWhile_eq_drop)
  then have "list_all (\<lambda>c. is_ascii_digit c \<or> c = CHR ''v'')
      (takeWhile is_ascii_digit t @ dropWhile is_ascii_digit t)"
    unfolding list_all_append by (auto simp: list_all_iff dest: set_takeWhileD)
  then have "list_all (\<lambda>c. is_ascii_digit c \<or> c = CHR ''v'') t"
    by (simp only: takeWhile_dropWhile_id)
  then show ?thesis
    by (auto simp: list_all_iff)
qed

lemma validate_arxiv_new_shape:
  assumes "validate_arxiv_new s"
  shows "\<exists>head tail. s = head @ CHR ''.'' # tail \<and> length head = 4
           \<and> list_all is_ascii_digit head \<and> list_all is_arxiv_char tail"
proof -
  from assms obtain head tail where sp: "split_once CHR ''.'' s = Some (head, tail)"
    by (auto simp: validate_arxiv_new_def split: option.splits)
  from assms have "length head = 4 \<and> list_all is_ascii_digit head
      \<and> version_suffix_ok (drop (length (takeWhile is_ascii_digit tail)) tail)"
    by (simp add: validate_arxiv_new_def sp Let_def split: if_splits)
  with sp digits_then_version_chars [of tail] show ?thesis
    unfolding split_once_Some by blast
qed

lemma arxiv_class_ok_shape:
  assumes "arxiv_class_ok cls"
  shows "\<exists>c cs. cls = c # cs \<and> is_ascii_lowercase c \<and> list_all is_arxiv_char cls"
proof -
  have core: "is_ascii_lowercase (hd core) \<and> core \<noteq> [] \<and> list_all is_arxiv_char core"
    if "core \<noteq> []" "list_all (\<lambda>c. is_ascii_lowercase c \<or> c = CHR ''-'') core"
      "\<not> starts_with core ''-''" for core
    using that by (cases core) (auto simp: starts_with_def list_all_iff is_arxiv_char_def ascii_class_defs)
  show ?thesis
  proof (cases "split_once CHR ''.'' cls")
    case None
    with assms core [of cls] show ?thesis
      by (cases cls) (auto simp: arxiv_class_ok_def split: if_splits)
  next
    case (Some p)
    obtain c d where p: "p = (c, d)" by (cases p)
    from Some p have cls: "cls = c @ CHR ''.'' # d" by (simp add: split_once_Some)
    from assms Some p have "c \<noteq> []" "list_all (\<lambda>c. is_ascii_lowercase c \<or> c = CHR ''-'') c"
        "\<not> starts_with c ''-''" "list_all is_ascii_uppercase d"
      by (auto simp: arxiv_class_ok_def split: if_splits)
    moreover from this(4) have "list_all is_arxiv_char d"
      by (auto simp: list_all_iff is_arxiv_char_def ascii_class_defs)
    ultimately show ?thesis
      using core [of c] cls by (cases c) (auto simp: is_arxiv_char_def)
  qed
qed

lemma validate_arxiv_old_shape:
  assumes "validate_arxiv_old s"
  shows "\<exists>c cls idp. s = c # cls @ CHR ''/'' # idp \<and> is_ascii_lowercase c
           \<and> list_all is_arxiv_char cls \<and> list_all is_arxiv_char idp"
proof -
  from assms obtain cls idp where sp: "split_once CHR ''/'' s = Some (cls, idp)"
    by (auto simp: validate_arxiv_old_def split: option.splits)
  with assms have "arxiv_class_ok cls"
      "version_suffix_ok (drop (length (takeWhile is_ascii_digit idp)) idp)"
    by (auto simp: validate_arxiv_old_def Let_def split: if_splits)
  with digits_then_version_chars [of idp] arxiv_class_ok_shape [of cls] obtain c cs
    where "cls = c # cs" "is_ascii_lowercase c" "list_all is_arxiv_char cs" "list_all is_arxiv_char idp"
    by auto
  with sp show ?thesis
    unfolding split_once_Some by (metis append_Cons)
qed

lemma validate_arxiv_chars:
  assumes "validate_arxiv s = Inr ()"
  shows "s \<noteq> []" "list_all is_arxiv_char s" "\<not> starts_with s ''10.''"
proof -
  from assms have *: "validate_arxiv_new s \<or> validate_arxiv_old s"
    by (auto simp: validate_arxiv_def split: if_splits)
  from assms show "s \<noteq> []" by (auto simp: validate_arxiv_def)
  from * show "list_all is_arxiv_char s"
  proof
    assume "validate_arxiv_new s"
    from validate_arxiv_new_shape [OF this] show ?thesis
      by (auto simp: list_all_iff is_arxiv_char_def ascii_class_defs)
  next
    assume "validate_arxiv_old s"
    from validate_arxiv_old_shape [OF this] show ?thesis
      by (auto simp: is_arxiv_char_def ascii_class_defs)
  qed
  from * show "\<not> starts_with s ''10.''"
  proof
    assume "validate_arxiv_new s"
    then obtain head tail where h: "s = head @ CHR ''.'' # tail" "length head = 4"
        "list_all is_ascii_digit head"
      using validate_arxiv_new_shape by blast
    then show ?thesis
      by (auto simp: starts_with_iff length_Suc_conv numeral_eq_Suc is_ascii_digit_def)
  next
    assume "validate_arxiv_old s"
    from validate_arxiv_old_shape [OF this] show ?thesis
      by (auto simp: starts_with_iff is_ascii_lowercase_def)
  qed
qed

lemma to_ascii_lower_fixed:
  "code d < 97 \<Longrightarrow> \<not> is_ascii_uppercase d \<Longrightarrow> to_ascii_lower c = d \<longleftrightarrow> c = d"
  using code_to_ascii_lower [of c] of_char_eq_iff [of c d]
  by (auto simp: to_ascii_lower_def is_ascii_uppercase_def split: if_splits)

lemma scheme_match:
  assumes "eq_ignore_ascii_case (take n s) p" and "c \<in> set p" and "code c < 97"
    and "\<not> is_ascii_uppercase c"
  shows "c \<in> set s"
proof -
  from assms(1) have "map to_ascii_lower (take n s) = map to_ascii_lower p"
    by (simp add: eq_ignore_ascii_case_def to_ascii_lowercase_def)
  then have "to_ascii_lower ` set (take n s) = to_ascii_lower ` set p"
    by (metis list.set_map)
  moreover have "c \<in> to_ascii_lower ` set p"
    using assms(2-4) to_ascii_lower_fixed [of c c] by (metis imageI)
  ultimately have "c \<in> to_ascii_lower ` set (take n s)"
    by simp
  then obtain d where "d \<in> set (take n s)" "to_ascii_lower d = c"
    by (metis imageE)
  then have "c \<in> set (take n s)"
    using to_ascii_lower_fixed [OF assms(3,4)] by simp
  then show ?thesis by (rule in_set_takeD)
qed

lemma scheme_not_digit:
  assumes "eq_ignore_ascii_case (take (Suc n) s) (x # p)" and "97 \<le> code x"
  shows "\<not> starts_with s ''10.''"
proof
  assume "starts_with s ''10.''"
  then obtain t where "s = CHR ''1'' # t" by (auto simp: starts_with_iff)
  with assms(1) have "to_ascii_lower CHR ''1'' = to_ascii_lower x"
    by (simp add: eq_ignore_ascii_case_def to_ascii_lowercase_def)
  with assms(2) show False
    by (auto simp: to_ascii_lower_def is_ascii_uppercase_def)
qed

lemma has_doi_schemeD:
  assumes "has_doi_scheme s"
  shows "CHR '':'' \<in> set s" "\<not> starts_with s ''10.''"
proof -
  from assms have e: "eq_ignore_ascii_case (take (Suc 3) s) ''doi:''"
    by (simp add: has_doi_scheme_def)
  show "CHR '':'' \<in> set s"
    by (rule scheme_match [OF e]) (simp_all add: is_ascii_uppercase_def)
  show "\<not> starts_with s ''10.''"
    by (rule scheme_not_digit [OF e]) simp
qed

lemma has_arxiv_schemeD:
  assumes "has_arxiv_scheme s"
  shows "CHR '':'' \<in> set s" "\<not> starts_with s ''10.''"
proof -
  from assms have e: "eq_ignore_ascii_case (take (Suc 5) s) ''arxiv:''"
    by (simp add: has_arxiv_scheme_def)
  show "CHR '':'' \<in> set s"
    by (rule scheme_match [OF e]) (simp_all add: is_ascii_uppercase_def)
  show "\<not> starts_with s ''10.''"
    by (rule scheme_not_digit [OF e]) simp
qed

subsection \<open>The type invariant of parsed references\<close>

fun ref_wf :: "paper_ref \<Rightarrow> bool" where
  "ref_wf (RefDoi (Doi s)) = (validate_doi s = Inr ())"
| "ref_wf (RefArxiv (ArxivId s)) = (validate_arxiv s = Inr ())"

lemma doi_parse_wf: "doi_parse s = Inr d \<Longrightarrow> ref_wf (RefDoi d)"
  by (auto simp: doi_parse_def Let_def split: sum.splits)

lemma arxiv_parse_wf: "arxiv_parse s = Inr a \<Longrightarrow> ref_wf (RefArxiv a)"
  by (auto simp: arxiv_parse_def Let_def split: sum.splits)

lemma ref_parse_wf: "ref_parse s = Inr r \<Longrightarrow> ref_wf r"
  by (auto simp: ref_parse_def doi_parse_wf arxiv_parse_wf split: if_splits)

lemma validate_doi_starts: "validate_doi s = Inr () \<Longrightarrow> starts_with s ''10.''"
  by (auto simp: validate_doi_grammar doi_grammar_def starts_with_def)

lemma wf_doi_parse: "validate_doi s = Inr () \<Longrightarrow> doi_parse s = Inr (Doi s)"
  using validate_doi_starts has_doi_schemeD(2)
  by (auto simp: doi_parse_def strip_doi_scheme_def)

lemma arxiv_no_colon: "validate_arxiv s = Inr () \<Longrightarrow> CHR '':'' \<notin> set s"
  by (force dest!: validate_arxiv_chars(2) simp: list_all_iff is_arxiv_char_def ascii_class_defs)

lemma wf_arxiv_parse: "validate_arxiv s = Inr () \<Longrightarrow> arxiv_parse s = Inr (ArxivId s)"
  using arxiv_no_colon has_arxiv_schemeD(1) [of s]
  by (auto simp: arxiv_parse_def strip_arxiv_scheme_def)

lemma wf_ref_parse: "ref_wf r \<Longrightarrow> ref_parse (as_input_str r) = Inr r"
proof (induction r rule: ref_wf.induct)
  case (1 s)
  then have "validate_doi s = Inr ()" by simp
  with validate_doi_starts [of s] has_doi_schemeD [of s] has_arxiv_schemeD [of s] wf_doi_parse [of s] show ?case
    by (auto simp: ref_parse_def validate_doi_def)
next
  case (2 s)
  then have "validate_arxiv s = Inr ()" by simp
  with arxiv_no_colon [of s] has_doi_schemeD [of s] has_arxiv_schemeD [of s] validate_arxiv_chars [of s] wf_arxiv_parse [of s]
  show ?case by (auto simp: ref_parse_def)
qed

subsection \<open>Safekey lemmas\<close>

lemma utf8_chars_single:
  "list_all (\<lambda>c. code c < 128) s \<Longrightarrow> utf8_chars s = map (\<lambda>c. [c]) s"
proof (induction s rule: utf8_chars.induct)
  case (2 b bs)
  then have none: "takeWhile is_cont_byte bs = []" "dropWhile is_cont_byte bs = bs"
    by (cases bs; simp add: is_cont_byte_def)+
  with 2 show ?case by simp
qed simp

lemma trim_ascii_word:
  assumes "list_all (\<lambda>c. code c < 128 \<and> \<not> is_whitespace [c]) s"
  shows "str_trim s = s"
proof -
  from assms have "utf8_chars s = map (\<lambda>c. [c]) s"
    by (intro utf8_chars_single) (auto simp: list_all_iff)
  moreover from assms have "dropWhile is_whitespace (map (\<lambda>c. [c]) s) = map (\<lambda>c. [c]) s"
      "dropWhile is_whitespace (rev (map (\<lambda>c. [c]) s)) = rev (map (\<lambda>c. [c]) s)"
    by (auto simp: dropWhile_eq_self_iff list_all_iff hd_map hd_rev last_map)
  moreover have "concat (map (\<lambda>c. [c]) s) = s"
    by (induction s) simp_all
  ultimately show ?thesis by (simp add: str_trim_def)
qed

lemma escape_chars_ascii:
  assumes "list_all (\<lambda>c. code c < 128) s"
  shows "escape_chars s = map (\<lambda>c. if is_safekey_char c then c else CHR ''_'') s"
proof -
  have "concat (map (\<lambda>ch. if ascii_char is_safekey_char ch then ch else ''_'') (map (\<lambda>c. [c]) s))
          = map (\<lambda>c. if is_safekey_char c then c else CHR ''_'') s"
    by (induction s) auto
  with assms show ?thesis
    by (simp add: escape_chars_def utf8_chars_single)
qed

lemma set_escape_chars: "c \<in> set (escape_chars raw) \<Longrightarrow> is_safekey_char c"
  by (auto simp: escape_chars_def is_safekey_char_def ascii_char_def
      split: if_splits list.splits)

lemma set_collapse: "set (collapse_underscores b s) \<subseteq> set s"
  by (induction b s rule: collapse_underscores.induct) auto

lemma set_trim_matches: "set (trim_matches c s) \<subseteq> set s"
  unfolding trim_matches_def by (auto dest!: set_dropWhileD)

lemma safekey_trimmed_chars: "list_all is_safekey_char (safekey_trimmed raw)"
  unfolding safekey_trimmed_def list_all_iff
  using set_trim_matches set_collapse set_escape_chars by (meson subsetD)

lemma collapse_no_run:
  "collapse_underscores b s = p @ CHR ''_'' # CHR ''_'' # t \<Longrightarrow> False"
proof (induction b s arbitrary: p rule: collapse_underscores.induct)
  case (2 b c cs)
  have head: "collapse_underscores True xs = CHR ''_'' # ys \<Longrightarrow> False" for xs ys
    by (induction xs) (auto split: if_splits)
  from 2 show ?case
    by (cases p) (auto split: if_splits dest: head)
qed simp

lemma trim_keeps_inner:
  assumes "l \<noteq> c" and "x \<noteq> c"
  shows "\<exists>y. trim_matches c (x # p @ l # rest) = x # p @ l # y"
proof -
  have "dropWhile (\<lambda>z. z = c) (rev rest @ l # rev p @ [x])
      = dropWhile (\<lambda>z. z = c) (rev rest) @ l # rev p @ [x]"
    using assms(1) by (simp add: dropWhile_append dropWhile_eq_Nil_conv)
  then show ?thesis
    using assms(2) by (simp add: trim_matches_def)
qed

lemma ref_wf_ascii: "ref_wf r \<Longrightarrow> list_all (\<lambda>c. code c < 128) (safekey_raw r)"
proof (induction r rule: ref_wf.induct)
  case (1 s)
  then obtain a b where "doi_grammar s a b"
    by (auto simp: validate_doi_grammar)
  then show ?case
    by (auto simp: safekey_raw_def doi_grammar_def list_all_iff is_doi_suffix_char_ascii
        is_ascii_digit_def)
next
  case (2 s)
  then have "list_all is_arxiv_char s"
    using validate_arxiv_chars by simp
  then show ?case
    by (auto simp: safekey_raw_def list_all_iff is_arxiv_char_def ascii_class_defs)
qed

lemma validate_arxiv_first:
  assumes "validate_arxiv s = Inr ()"
  shows "\<exists>c t. s = c # t \<and> is_safekey_char c \<and> c \<noteq> CHR ''_''"
proof -
  have safe: "is_safekey_char c \<and> c \<noteq> CHR ''_''" if "is_ascii_digit c \<or> is_ascii_lowercase c" for c
    using that by (auto simp: is_safekey_char_def ascii_class_defs)
  from assms have "validate_arxiv_new s \<or> validate_arxiv_old s"
    by (auto simp: validate_arxiv_def split: if_splits)
  then have "\<exists>c t. s = c # t \<and> (is_ascii_digit c \<or> is_ascii_lowercase c)"
  proof
    assume "validate_arxiv_new s"
    then obtain head tail where h: "s = head @ CHR ''.'' # tail" "length head = 4"
        "list_all is_ascii_digit head"
      using validate_arxiv_new_shape by blast
    then show ?thesis by (cases head) auto
  next
    assume "validate_arxiv_old s"
    from validate_arxiv_old_shape [OF this] show ?thesis by blast
  qed
  with safe show ?thesis by blast
qed

definition kind_prefix :: "paper_ref \<Rightarrow> string" where
  "kind_prefix r = (case r of RefDoi _ \<Rightarrow> ''doi_10.'' | RefArxiv _ \<Rightarrow> ''arxiv_'')"

lemma trimmed_prefix:
  assumes "ref_wf r"
  shows "\<exists>y. safekey_trimmed (safekey_raw r) = kind_prefix r @ y"
proof (cases r)
  case (RefDoi d)
  obtain s where d: "d = Doi s" by (cases d)
  with assms RefDoi obtain t where s: "s = ''10.'' @ t"
    using validate_doi_starts by (auto simp: starts_with_iff)
  have "escape_chars (safekey_raw r) = ''doi_10.'' @ map (\<lambda>c. if is_safekey_char c then c else CHR ''_'') t"
    using ref_wf_ascii [OF assms] RefDoi d s
    by (simp add: escape_chars_ascii safekey_raw_def is_safekey_char_def ascii_class_defs)
  then obtain z where "collapse_underscores False (escape_chars (safekey_raw r))
      = CHR ''d'' # ''oi_10'' @ CHR ''.'' # z"
    by simp
  then show ?thesis
    using trim_keeps_inner [of "CHR ''.''" "CHR ''_''" "CHR ''d''" "''oi_10''" z] RefDoi
    by (auto simp: safekey_trimmed_def kind_prefix_def)
next
  case (RefArxiv a)
  obtain s where a: "a = ArxivId s" by (cases a)
  from assms RefArxiv a have v: "validate_arxiv s = Inr ()" by simp
  from v validate_arxiv_first [OF v] obtain c t where s: "s = c # t"
      and c: "is_safekey_char c" "c \<noteq> CHR ''_''"
    by blast
  have "escape_chars (safekey_raw r) = ''arxiv_'' @ c # map (\<lambda>c. if is_safekey_char c then c else CHR ''_'') t"
    using ref_wf_ascii [OF assms] RefArxiv a s c
    by (simp add: escape_chars_ascii safekey_raw_def is_safekey_char_def ascii_class_defs)
  with c obtain z where "collapse_underscores False (escape_chars (safekey_raw r))
      = CHR ''a'' # ''rxiv_'' @ c # z"
    by simp
  then show ?thesis
    using trim_keeps_inner [of c "CHR ''_''" "CHR ''a''" "''rxiv_''" z] RefArxiv c
    by (auto simp: safekey_trimmed_def kind_prefix_def)
qed

lemma lower_hex_safekey: "is_lower_hex c \<Longrightarrow> is_safekey_char c"
  by (auto simp: is_lower_hex_def is_safekey_char_def ascii_class_defs)

lemma safekey_chars:
  assumes "hash_format sha hx"
  shows "list_all is_safekey_char (safekey_as_str (ref_safekey sha hx r))"
proof -
  have "list_all is_safekey_char (take n (safekey_trimmed raw))" for n raw
    using safekey_trimmed_chars [of raw] by (auto simp: list_all_iff dest: in_set_takeD)
  then show ?thesis
    using assms safekey_trimmed_chars
    by (auto simp: ref_safekey_def Let_def hash_format_def is_safekey_char_def [of "CHR ''_''"]
        list_all_iff intro: lower_hex_safekey)
qed

lemma safekey_length:
  assumes "hash_format sha hx"
  shows "length (safekey_as_str (ref_safekey sha hx r)) \<le> 201"
  using assms by (auto simp: ref_safekey_def Let_def hash_format_def SAFEKEY_MAX_LEN_def)

lemma safekey_prefix:
  assumes "ref_wf r"
  shows "\<exists>y. safekey_as_str (ref_safekey sha hx r) = kind_prefix r @ y"
proof -
  from trimmed_prefix [OF assms] obtain y where y: "safekey_trimmed (safekey_raw r) = kind_prefix r @ y" ..
  have "length (kind_prefix r) \<le> SAFEKEY_MAX_LEN"
    by (cases r) (simp_all add: kind_prefix_def SAFEKEY_MAX_LEN_def)
  with y show ?thesis
    by (auto simp: ref_safekey_def Let_def)
qed

subsection \<open>Properties of references\<close>

text \<open>\<^verbatim>\<open>Doi::parse\<close> accepts exactly the strings that, once one case-insensitive \<^verbatim>\<open>doi:\<close> scheme is
  taken off, match \<^verbatim>\<open>10.<4 to 9 digits>/<1 to 256 bytes of [A-Za-z0-9._/()-:]>\<close>, and returns that
  bare string; in particular the stored identifier never carries the scheme.\<close>

theorem doi_parse_exact:
  "doi_parse s = Inr d \<longleftrightarrow>
     d = Doi (strip_doi_scheme s)
     \<and> (\<exists>registrant suffix. doi_grammar (strip_doi_scheme s) registrant suffix)"
  unfolding doi_parse_def Let_def
  by (auto simp flip: validate_doi_grammar split: sum.splits)

text \<open>C21: Every reference the parser returns is a fixed point of parsing its own rendering: the
  scheme-less string written to the provenance log and the metadata file (\<^verbatim>\<open>Ref::as_input_str\<close>) parses
  back to the same reference, of the same kind.\<close>

theorem ref_parse_roundtrip:
  assumes "ref_parse s = Inr r"
  shows "ref_parse (as_input_str r) = Inr r"
  using assms by (rule wf_ref_parse [OF ref_parse_wf])

theorem ref_parse_roundtrip_witness:
  "ref_parse (as_input_str (RefArxiv (ArxivId ''2401.12345v2'')))
     = Inr (RefArxiv (ArxivId ''2401.12345v2''))"
proof (rule ref_parse_roundtrip)
  show "ref_parse ''ArXiv:2401.12345v2'' = Inr (RefArxiv (ArxivId ''2401.12345v2''))"
    by code_simp
qed

text \<open>C22: The safekey of every parsed reference is a safe file name: only \<^verbatim>\<open>[A-Za-z0-9._-]\<close> (so no path
  separator, no NUL, no byte above 127), at most 201 bytes, and it starts with \<^verbatim>\<open>doi_10.\<close> or \<^verbatim>\<open>arxiv_\<close>
  according to the kind, so it is never empty, hidden, or equal to the key of a reference of the
  other kind.\<close>

theorem safekey_is_safe_filename:
  assumes "hash_format sha hx" and "ref_parse s = Inr r"
  shows "list_all is_safekey_char (safekey_as_str (ref_safekey sha hx r))
    \<and> length (safekey_as_str (ref_safekey sha hx r)) \<le> 201
    \<and> starts_with (safekey_as_str (ref_safekey sha hx r))
        (case r of RefDoi _ \<Rightarrow> ''doi_10.'' | RefArxiv _ \<Rightarrow> ''arxiv_'')"
  using safekey_chars [OF assms(1)] safekey_length [OF assms(1)]
    safekey_prefix [OF ref_parse_wf [OF assms(2)]]
  by (auto simp: kind_prefix_def starts_with_iff)

theorem safekey_is_safe_filename_witness:
  "starts_with (safekey_as_str (ref_safekey toy_sha hex_lower (RefDoi (Doi ''10.1234/a(b)//c'')))) ''doi_10.''"
proof -
  have "ref_parse ''DOI:10.1234/a(b)//c'' = Inr (RefDoi (Doi ''10.1234/a(b)//c''))"
    by code_simp
  from safekey_is_safe_filename [OF hash_format_toy this] show ?thesis by simp
qed

text \<open>
  The key is not injective, though: escaping and collapsing identify distinct valid DOIs, before any
  truncation.
\<close>

theorem safekey_collision:
  "ref_parse ''10.1234/a(b'' = Inr (RefDoi (Doi ''10.1234/a(b''))
   \<and> ref_parse ''10.1234/a_b'' = Inr (RefDoi (Doi ''10.1234/a_b''))
   \<and> ref_safekey sha hx (RefDoi (Doi ''10.1234/a(b'')) = ref_safekey sha hx (RefDoi (Doi ''10.1234/a_b''))"
proof (intro conjI)
  have t: "safekey_trimmed (safekey_raw (RefDoi (Doi ''10.1234/a(b''))) = ''doi_10.1234_a_b''"
    "safekey_trimmed (safekey_raw (RefDoi (Doi ''10.1234/a_b''))) = ''doi_10.1234_a_b''"
    by code_simp+
  show "ref_safekey sha hx (RefDoi (Doi ''10.1234/a(b'')) = ref_safekey sha hx (RefDoi (Doi ''10.1234/a_b''))"
    unfolding ref_safekey_def Let_def t by (simp add: SAFEKEY_MAX_LEN_def)
qed code_simp+

end
