(* ===== verification/Canonical.thy ===== *)
theory Canonical
  imports Refs
begin

text \<open>
  The audit identity of a fetched paper (\<^verbatim>\<open>crates/doiget-core/src/canonical.rs\<close>, ADR-0021): the
  four-tuple \<^verbatim>\<open>CanonicalRef\<close>, the byte string its digest is taken of, and \<^verbatim>\<open>Ref::promote\<close>.  The hasher
  is fed field by field in the source; the concatenation of those updates is \<open>digest_input\<close>.
\<close>

datatype source_type = STDoi | STArxiv

fun source_type_wire :: "source_type \<Rightarrow> string" where
  "source_type_wire STDoi = ''doi''"
| "source_type_wire STArxiv = ''arxiv''"

record canonical_ref =
  source_type :: source_type
  source_id :: string
  resolver_profile :: string
  version :: "string option"

definition canonical_new ::
  "source_type \<Rightarrow> string \<Rightarrow> string \<Rightarrow> string option \<Rightarrow> canonical_ref" where
  "canonical_new st i p v = \<lparr> source_type = st, source_id = i, resolver_profile = p, version = v \<rparr>"

abbreviation NUL :: char where
  "NUL \<equiv> CHR 0x00"

definition digest_input :: "canonical_ref \<Rightarrow> string" where
  "digest_input c =
     source_type_wire (source_type c) @ [NUL] @ source_id c @ [NUL] @ resolver_profile c @ [NUL]
     @ (case version c of None \<Rightarrow> [] | Some v \<Rightarrow> v)"

definition canonical_digest :: "(string \<Rightarrow> string) \<Rightarrow> canonical_ref \<Rightarrow> string" where
  "canonical_digest sha c = sha (digest_input c)"

definition digest_hex :: "(string \<Rightarrow> string) \<Rightarrow> (string \<Rightarrow> string) \<Rightarrow> canonical_ref \<Rightarrow> string" where
  "digest_hex sha hx c = hx (canonical_digest sha c)"

definition promote :: "paper_ref \<Rightarrow> string \<Rightarrow> string option \<Rightarrow> canonical_ref" where
  "promote r profile v =
     (let (st, i) = (case r of
        RefDoi d \<Rightarrow> (STDoi, doi_as_str d)
      | RefArxiv a \<Rightarrow> (STArxiv, arxiv_as_str a)) in
      \<lparr> source_type = st, source_id = i, resolver_profile = profile, version = v \<rparr>)"

definition version_or_empty :: "string option \<Rightarrow> string" where
  "version_or_empty v = (case v of None \<Rightarrow> [] | Some v \<Rightarrow> v)"

text \<open>The encoding is injective as long as the first fields hold no separator.\<close>

lemma nul_split:
  "NUL \<notin> set a \<Longrightarrow> NUL \<notin> set b \<Longrightarrow> a @ NUL # x = b @ NUL # y \<longleftrightarrow> a = b \<and> x = y"
  using split_once_append [of NUL a x] split_once_append [of NUL b y] by (metis option.inject prod.inject)

lemma wire_no_nul: "NUL \<notin> set (source_type_wire st)"
  by (cases st) simp_all

lemma wire_inj: "source_type_wire s = source_type_wire t \<longleftrightarrow> s = t"
  by (cases s; cases t) simp_all

lemma digest_input_eq:
  assumes "NUL \<notin> set (source_id c)" "NUL \<notin> set (source_id d)"
    and "NUL \<notin> set (resolver_profile c)" "NUL \<notin> set (resolver_profile d)"
  shows "digest_input c = digest_input d \<longleftrightarrow>
    source_type c = source_type d \<and> source_id c = source_id d
    \<and> resolver_profile c = resolver_profile d
    \<and> version_or_empty (version c) = version_or_empty (version d)"
  using assms wire_no_nul
  by (simp add: digest_input_def nul_split wire_inj version_or_empty_def)

lemma ref_wf_no_nul: "ref_wf r \<Longrightarrow> NUL \<notin> set (as_input_str r)"
proof (induction r rule: ref_wf.induct)
  case (1 s)
  then obtain a b where "doi_grammar s a b" by (auto simp: validate_doi_grammar)
  then show ?case
    by (auto simp: doi_grammar_def list_all_iff is_doi_suffix_char_def ascii_class_defs)
next
  case (2 s)
  then have "list_all is_arxiv_char s" using validate_arxiv_chars by simp
  then show ?case by (auto simp: list_all_iff is_arxiv_char_def ascii_class_defs)
qed

lemma promote_simps [simp]:
  "source_id (promote r p v) = as_input_str r" "resolver_profile (promote r p v) = p"
  "version (promote r p v) = v"
  "source_type (promote r p v) = (case r of RefDoi _ \<Rightarrow> STDoi | RefArxiv _ \<Rightarrow> STArxiv)"
  by (cases r; simp add: promote_def)+

lemma promote_ref_inj:
  "source_type (promote r p v) = source_type (promote q p' v') \<Longrightarrow> as_input_str r = as_input_str q \<Longrightarrow> r = q"
  by (cases r; cases q; simp; metis doi_as_str.elims arxiv_as_str.elims)

text \<open>The canonical digest is an audit identity: if two promoted references have the same
  hexadecimal digest, then reference, resolver profile and version (with the absent version and the
  empty one identified, as ADR-0021 prescribes) all agree, or the two digest inputs are a SHA-256
  collision.  The version may hold any byte; the fields before it must be free of NUL, which the
  parser guarantees for the identifier.\<close>

theorem canonical_digest_identity:
  assumes "hash_format sha hx"
    and "ref_parse s = Inr r" and "ref_parse t = Inr q"
    and "NUL \<notin> set p" and "NUL \<notin> set p'"
    and "digest_hex sha hx (promote r p v) = digest_hex sha hx (promote q p' w)"
  shows "(r = q \<and> p = p' \<and> version_or_empty v = version_or_empty w)
    \<or> (digest_input (promote r p v) \<noteq> digest_input (promote q p' w)
       \<and> sha (digest_input (promote r p v)) = sha (digest_input (promote q p' w)))"
proof (cases "digest_input (promote r p v) = digest_input (promote q p' w)")
  case True
  have "NUL \<notin> set (as_input_str r)" "NUL \<notin> set (as_input_str q)"
    using ref_wf_no_nul ref_parse_wf assms(2,3) by blast+
  with True digest_input_eq [of "promote r p v" "promote q p' w", unfolded promote_simps] assms(4,5)
  have "source_type (promote r p v) = source_type (promote q p' w) \<and> as_input_str r = as_input_str q
      \<and> p = p' \<and> version_or_empty v = version_or_empty w"
    unfolding promote_simps by blast
  then show ?thesis using promote_ref_inj by blast
next
  case False
  with assms(1,6) show ?thesis
    by (auto simp: digest_hex_def canonical_digest_def hash_format_def dest: injD)
qed

theorem canonical_digest_identity_witness:
  "promote (RefDoi (Doi ''10.1234/x'')) ''crossref'' None \<noteq> promote (RefDoi (Doi ''10.1234/x'')) ''crossref'' (Some [])
   \<and> version_or_empty None = version_or_empty (Some [])"
proof -
  have p: "ref_parse ''doi:10.1234/x'' = Inr (RefDoi (Doi ''10.1234/x''))" by code_simp
  have "digest_hex toy_sha hex_lower (promote (RefDoi (Doi ''10.1234/x'')) ''crossref'' None)
      = digest_hex toy_sha hex_lower (promote (RefDoi (Doi ''10.1234/x'')) ''crossref'' (Some []))"
    by (simp add: digest_hex_def canonical_digest_def digest_input_def promote_def)
  from canonical_digest_identity [OF hash_format_toy p p _ _ this] show ?thesis
    by (auto simp: promote_def digest_input_def)
qed

text \<open>Two resolvers give distinct digest inputs for the same paper, which is what the tuple is for.\<close>

lemma resolver_distinction:
  assumes "ref_wf r" and "NUL \<notin> set p" and "NUL \<notin> set p'" and "p \<noteq> p'"
  shows "digest_input (promote r p v) \<noteq> digest_input (promote r p' w)"
  using digest_input_eq [of "promote r p v" "promote r p' w"] assms ref_wf_no_nul [of r] by simp

end
