(* ===== verification/Errors.thy ===== *)
theory Errors
  imports Refs
begin

text \<open>
  The error model shared by every surface: \<^verbatim>\<open>ErrorCode\<close>, \<^verbatim>\<open>Disposition\<close>, \<^verbatim>\<open>DenialReason\<close> and
  \<^verbatim>\<open>DenialContext\<close> (\<^verbatim>\<open>crates/doiget-core/src/lib.rs\<close>), \<^verbatim>\<open>HttpError\<close> (\<^verbatim>\<open>http.rs\<close>), \<^verbatim>\<open>FetchError\<close>
  (\<^verbatim>\<open>source.rs\<close>), \<^verbatim>\<open>LogError\<close> (\<^verbatim>\<open>provenance.rs\<close>) and \<^verbatim>\<open>GraphError\<close> (\<^verbatim>\<open>citation_graph.rs\<close>), with the
  conversions between them.  A \<^verbatim>\<open>reqwest::Error\<close> is what the code looks at in one: the chain of
  its \<^verbatim>\<open>source()\<close> links, each of which is an \<^verbatim>\<open>HttpError\<close> or something else.
\<close>

subsection \<open>Codes and dispositions\<close>

datatype error_code =
    InvalidRef | NoOaAvailable | RateLimited | NetworkError | NotFound | Ambiguous | StoreError
  | LogError | CapabilityDenied | FetchTimeout | SchemaTooNew | LockTimeout | InternalError
  | NotImplemented | TextUnavailable

datatype disposition = Terminal | RetryAfter | NeedsConfig

fun disposition_wire :: "disposition \<Rightarrow> string" where
  "disposition_wire Terminal = ''terminal''"
| "disposition_wire RetryAfter = ''retry_after''"
| "disposition_wire NeedsConfig = ''needs_config''"

fun code_disposition :: "error_code \<Rightarrow> disposition" where
  "code_disposition InvalidRef = Terminal"
| "code_disposition NotFound = Terminal"
| "code_disposition InternalError = Terminal"
| "code_disposition NotImplemented = Terminal"
| "code_disposition Ambiguous = Terminal"
| "code_disposition TextUnavailable = Terminal"
| "code_disposition RateLimited = RetryAfter"
| "code_disposition NetworkError = RetryAfter"
| "code_disposition FetchTimeout = RetryAfter"
| "code_disposition LockTimeout = RetryAfter"
| "code_disposition NoOaAvailable = NeedsConfig"
| "code_disposition CapabilityDenied = NeedsConfig"
| "code_disposition SchemaTooNew = NeedsConfig"
| "code_disposition StoreError = NeedsConfig"
| "code_disposition LogError = NeedsConfig"

definition ALL_codes :: "error_code list" where
  "ALL_codes = [InvalidRef, NoOaAvailable, RateLimited, NetworkError, NotFound, Ambiguous,
     StoreError, LogError, CapabilityDenied, FetchTimeout, SchemaTooNew, LockTimeout,
     InternalError, NotImplemented, TextUnavailable]"

fun code_as_wire :: "error_code \<Rightarrow> string" where
  "code_as_wire InvalidRef = ''INVALID_REF''"
| "code_as_wire NoOaAvailable = ''NO_OA_AVAILABLE''"
| "code_as_wire RateLimited = ''RATE_LIMITED''"
| "code_as_wire NetworkError = ''NETWORK_ERROR''"
| "code_as_wire NotFound = ''NOT_FOUND''"
| "code_as_wire Ambiguous = ''AMBIGUOUS''"
| "code_as_wire StoreError = ''STORE_ERROR''"
| "code_as_wire LogError = ''LOG_ERROR''"
| "code_as_wire CapabilityDenied = ''CAPABILITY_DENIED''"
| "code_as_wire FetchTimeout = ''FETCH_TIMEOUT''"
| "code_as_wire SchemaTooNew = ''SCHEMA_TOO_NEW''"
| "code_as_wire LockTimeout = ''LOCK_TIMEOUT''"
| "code_as_wire InternalError = ''INTERNAL_ERROR''"
| "code_as_wire NotImplemented = ''NOT_IMPLEMENTED''"
| "code_as_wire TextUnavailable = ''TEXT_UNAVAILABLE''"

definition code_from_wire :: "string \<Rightarrow> error_code option" where
  "code_from_wire s = find (\<lambda>c. code_as_wire c = s) ALL_codes"

lemma ALL_codes_complete: "c \<in> set ALL_codes"
  by (cases c) (simp_all add: ALL_codes_def)

lemma code_as_wire_inj_on: "distinct (map code_as_wire ALL_codes)"
  by code_simp

lemma code_as_wire_inj: "code_as_wire c = code_as_wire d \<longleftrightarrow> c = d"
  using code_as_wire_inj_on ALL_codes_complete
  by (metis distinct_map inj_onD)

text \<open>Wire tokens of error codes round-trip: reading a token back from the log's \<^verbatim>\<open>error_code\<close>
  column yields exactly the code that prints as it, for every code of the enumeration, and nothing
  for any other string.\<close>

theorem error_code_wire_roundtrip:
  "code_from_wire s = Some c \<longleftrightarrow> s = code_as_wire c"
proof
  assume "code_from_wire s = Some c"
  then show "s = code_as_wire c"
    by (auto simp: code_from_wire_def find_Some_iff)
next
  assume s: "s = code_as_wire c"
  have "code_from_wire s \<noteq> None"
    using ALL_codes_complete [of c] s by (auto simp: code_from_wire_def find_None_iff)
  then obtain d where d: "code_from_wire s = Some d" by blast
  then have "s = code_as_wire d" by (auto simp: code_from_wire_def find_Some_iff)
  with s d show "code_from_wire s = Some c" by (simp add: code_as_wire_inj)
qed

subsection \<open>Denials\<close>

datatype denial_reason =
    RedirectNotInAllowlist | InsecureScheme | HostInBlockList | SizeCapExceeded | SchemaDrift
  | CapabilityNotGranted | RateLimitWindow | SsrfPrivateAddress | ContentTypeMismatch

record denial_context =
  reason :: denial_reason
  dc_source :: "string option"
  attempted :: "string option"
  expected :: "string list option"
  hop_index :: "nat option"
  cap :: "nat option"
  actual :: "nat option"

datatype http_error =
    Network "chain_link list"
  | RedirectDenied string string "string list"
  | InsecureRedirect string
  | OversizedBody nat nat
  | NotAPdf string
  | HttpStatus nat string "nat option"
  | UnknownSource string
  | InvalidHeader string string
and chain_link = Foreign | Wrapped http_error

fun http_denial :: "http_error \<Rightarrow> denial_context option"
  and chain_denial :: "chain_link list \<Rightarrow> denial_context option" where
  "http_denial (RedirectDenied source_key host expected_hosts) =
     Some \<lparr> reason = RedirectNotInAllowlist, dc_source = Some source_key, attempted = Some host,
            expected = Some expected_hosts, hop_index = None, cap = None, actual = None \<rparr>"
| "http_denial (OversizedBody act cp) =
     Some \<lparr> reason = SizeCapExceeded, dc_source = None, attempted = None, expected = None,
            hop_index = None, cap = Some cp, actual = Some act \<rparr>"
| "http_denial (NotAPdf got) =
     Some \<lparr> reason = ContentTypeMismatch, dc_source = None, attempted = Some (hex_lower got),
            expected = Some [''%PDF-''], hop_index = None, cap = None, actual = None \<rparr>"
| "http_denial (InsecureRedirect scheme) =
     Some \<lparr> reason = InsecureScheme, dc_source = None, attempted = Some (scheme @ '':...''),
            expected = Some [''https''], hop_index = None, cap = None, actual = None \<rparr>"
| "http_denial (Network links) = chain_denial links"
| "http_denial (HttpStatus _ _ _) = None"
| "http_denial (UnknownSource _) = None"
| "http_denial (InvalidHeader _ _) = None"
| "chain_denial [] = None"
| "chain_denial (Foreign # links) = chain_denial links"
| "chain_denial (Wrapped e # links) = http_denial e"

datatype log_error = LogIo string | LogSerialize | NotARegularFile string

datatype fetch_error =
    NotEligible string
  | FENoOaAvailable
  | FENotFound string
  | FEAmbiguous string
  | FEHttp http_error
  | FELog log_error
  | FEInvalidRef ref_parse_error
  | NotRetrievable string string
  | SourceSchema string
  | TooManyRefs nat nat
  | FETextUnavailable arxiv_id
  | SourceUnavailable arxiv_id string
  | Replayed error_code string "nat option"

definition parse_error_code :: "ref_parse_error \<Rightarrow> error_code" where
  "parse_error_code _ = InvalidRef"

fun fetch_error_code :: "fetch_error \<Rightarrow> error_code" where
  "fetch_error_code (NotEligible _) = CapabilityDenied"
| "fetch_error_code FENoOaAvailable = NoOaAvailable"
| "fetch_error_code (FENotFound _) = NotFound"
| "fetch_error_code (FEAmbiguous _) = Ambiguous"
| "fetch_error_code (FEHttp (HttpStatus status _ _)) =
     (if status \<in> {404, 410, 451} then NotFound
      else if status \<in> {401, 403} then CapabilityDenied
      else NetworkError)"
| "fetch_error_code (FEHttp (RedirectDenied _ _ _)) = CapabilityDenied"
| "fetch_error_code (FEHttp (InsecureRedirect _)) = CapabilityDenied"
| "fetch_error_code (FEHttp (OversizedBody _ _)) = NoOaAvailable"
| "fetch_error_code (FEHttp (NotAPdf _)) = NoOaAvailable"
| "fetch_error_code (FEHttp (UnknownSource _)) = InternalError"
| "fetch_error_code (FEHttp (InvalidHeader _ _)) = InternalError"
| "fetch_error_code (FEHttp (Network _)) = NetworkError"
| "fetch_error_code (FELog _) = LogError"
| "fetch_error_code (FEInvalidRef _) = InvalidRef"
| "fetch_error_code (NotRetrievable _ _) = NoOaAvailable"
| "fetch_error_code (SourceSchema _) = InternalError"
| "fetch_error_code (TooManyRefs _ _) = InvalidRef"
| "fetch_error_code (FETextUnavailable _) = TextUnavailable"
| "fetch_error_code (SourceUnavailable _ _) = TextUnavailable"
| "fetch_error_code (Replayed c _ _) = c"

fun retry_after_ms :: "fetch_error \<Rightarrow> nat option" where
  "retry_after_ms (FEHttp (HttpStatus _ _ ms)) = ms"
| "retry_after_ms (Replayed _ _ secs) = map_option (\<lambda>s. s * 1000) secs"
| "retry_after_ms _ = None"

fun is_replayed :: "fetch_error \<Rightarrow> bool" where
  "is_replayed (Replayed _ _ _) = True"
| "is_replayed _ = False"

fun fetch_denial :: "fetch_error \<Rightarrow> denial_context option" where
  "fetch_denial (NotEligible source_key) =
     Some \<lparr> reason = CapabilityNotGranted, dc_source = Some source_key, attempted = None,
            expected = None, hop_index = None, cap = None, actual = None \<rparr>"
| "fetch_denial (FEHttp e) = http_denial e"
| "fetch_denial _ = None"

datatype graph_error = GESource fetch_error | GELog log_error | SeedNotIndexed | GECapabilityDenied

fun graph_error_code :: "graph_error \<Rightarrow> error_code" where
  "graph_error_code GECapabilityDenied = CapabilityDenied"
| "graph_error_code SeedNotIndexed = NoOaAvailable"
| "graph_error_code (GESource fe) = fetch_error_code fe"
| "graph_error_code (GELog _) = LogError"

text \<open>An agent is told to retry exactly when a retry can help: the disposition of a fetch error is
  \<^verbatim>\<open>retry_after\<close> iff it is a transport failure, an HTTP status other than 401, 403, 404, 410 and 451,
  or the replay of an answer that already said so.  Policy denials, oversized or non-PDF bodies, missing
  capabilities and parse errors never are.\<close>

theorem retry_disposition_exact:
  "code_disposition (fetch_error_code e) = RetryAfter \<longleftrightarrow>
     (\<exists>links. e = FEHttp (Network links))
     \<or> (\<exists>status url ms. e = FEHttp (HttpStatus status url ms) \<and> status \<notin> {401, 403, 404, 410, 451})
     \<or> (\<exists>c m s. e = Replayed c m s \<and> code_disposition c = RetryAfter)"
proof (cases e)
  case (FEHttp h)
  then show ?thesis by (cases h) auto
qed auto

text \<open>The structured denial channel and the error code agree: whenever a fetch error that is not a
  transport failure carries a \<^verbatim>\<open>DenialContext\<close>, its code asks for a configuration change (never for a
  retry), and the context names its reason with the reserved reasons never produced.\<close>

theorem denial_needs_config:
  assumes "fetch_denial e = Some ctx" and "\<nexists>links. e = FEHttp (Network links)"
  shows "code_disposition (fetch_error_code e) = NeedsConfig
    \<and> reason ctx \<in> {RedirectNotInAllowlist, InsecureScheme, SizeCapExceeded, ContentTypeMismatch, CapabilityNotGranted}"
  using assms
proof (cases e)
  case (FEHttp h)
  then show ?thesis using assms by (cases h) auto
qed auto

theorem denial_needs_config_witness:
  "code_disposition (fetch_error_code (FEHttp (NotAPdf ''<html''))) = NeedsConfig"
proof -
  have "fetch_denial (FEHttp (NotAPdf ''<html'')) =
      Some \<lparr> reason = ContentTypeMismatch, dc_source = None, attempted = Some (hex_lower ''<html''),
             expected = Some [''%PDF-''], hop_index = None, cap = None, actual = None \<rparr>"
    by simp
  from denial_needs_config [OF this] show ?thesis by simp
qed

text \<open>
  The exception is real.  A redirect refused by the policy closure reaches the caller wrapped in a
  transport error: the denial context is recovered from the chain, but the code still says retry.
\<close>

theorem wrapped_denial_says_retry:
  "fetch_denial (FEHttp (Network [Foreign, Wrapped (RedirectDenied k h hs)])) \<noteq> None
   \<and> code_disposition (fetch_error_code (FEHttp (Network [Foreign, Wrapped (RedirectDenied k h hs)])))
       = RetryAfter"
  by simp

end
