(* ===== verification/Capability.thy ===== *)
theory Capability
  imports Prelude
begin

text \<open>
  The startup capability gate (\<^verbatim>\<open>CapabilityProfile::from_env\<close> and its helpers, and the per-source rate
  table, in \<^verbatim>\<open>crates/doiget-core/src/lib.rs\<close>; the parsed credentials file in \<^verbatim>\<open>credentials.rs\<close>).
  The process environment is a parameter \<open>env\<close>: the raw bytes of a variable, if it is set.  The
  compiled Cargo features are the parameter \<open>cfg\<close>, the clock reading is \<open>now\<close>, and the entries of
  \<^verbatim>\<open>credentials.toml\<close> as the TOML parser returns them (a sorted map) are a list of \<open>raw_entry\<close>.
  Warnings sent to the \<^verbatim>\<open>tracing\<close> subscriber are not modelled.
\<close>

subsection \<open>Rate limits\<close>

definition MAX_CONCURRENT_FETCHES :: nat where
  "MAX_CONCURRENT_FETCHES = 5"

definition MAX_FETCHES_PER_SECOND :: nat where
  "MAX_FETCHES_PER_SECOND = 5"

record rate_limits =
  max_concurrent_fetches :: nat
  max_fetches_per_second :: nat
  per_source_backoff_ms :: nat

definition HARD_CODED :: rate_limits where
  "HARD_CODED = \<lparr> max_concurrent_fetches = MAX_CONCURRENT_FETCHES,
     max_fetches_per_second = MAX_FETCHES_PER_SECOND, per_source_backoff_ms = 200 \<rparr>"

record source_rate_t =
  min_interval_ms :: nat
  max_concurrent :: nat

definition SOURCE_RATE_OVERRIDES :: "(string \<times> source_rate_t) list" where
  "SOURCE_RATE_OVERRIDES =
     [(''arxiv'', \<lparr> min_interval_ms = 3000, max_concurrent = 1 \<rparr>),
      (''biorxiv'', \<lparr> min_interval_ms = 1000, max_concurrent = 1 \<rparr>),
      (''ads'', \<lparr> min_interval_ms = 1000, max_concurrent = 1 \<rparr>),
      (''inspire'', \<lparr> min_interval_ms = 334, max_concurrent = 1 \<rparr>),
      (''ncbi'', \<lparr> min_interval_ms = 334, max_concurrent = 1 \<rparr>)]"

definition source_rate :: "string \<Rightarrow> source_rate_t option" where
  "source_rate source = map_option snd (find (\<lambda>(k, _). k = source) SOURCE_RATE_OVERRIDES)"

definition backoff_ms_for :: "rate_limits \<Rightarrow> string \<Rightarrow> nat" where
  "backoff_ms_for l source = (case source_rate source of
     Some r \<Rightarrow> max (min_interval_ms r) (per_source_backoff_ms l)
   | None \<Rightarrow> per_source_backoff_ms l)"

definition max_concurrent_for :: "rate_limits \<Rightarrow> string \<Rightarrow> nat" where
  "max_concurrent_for l source = (case source_rate source of
     Some r \<Rightarrow> min (max_concurrent r) (max_concurrent_fetches l)
   | None \<Rightarrow> max_concurrent_fetches l)"

subsection \<open>The credentials file\<close>

definition PUBLISHERS :: "string list" where
  "PUBLISHERS = [''elsevier'', ''aps'', ''springer'', ''ieee'']"

datatype advisory =
    InsecurePermissions string nat
  | UnknownPublisher string
  | AgreedIgnored string
  | BlankKey string

record raw_entry =
  re_api_key :: "string option"
  re_agreed :: "bool option"

record credentials =
  keys :: "(string \<times> string) list"
  advisories :: "advisory list"

definition creds_api_key :: "credentials \<Rightarrow> string \<Rightarrow> string option" where
  "creds_api_key c publisher = map_option snd (find (\<lambda>(p, _). p = publisher) (keys c))"

text \<open>One round of the loop of \<^verbatim>\<open>credentials::parse\<close> over the \<^verbatim>\<open>[tdm.*]\<close> tables.\<close>

definition creds_entry :: "string \<times> raw_entry \<Rightarrow> credentials \<Rightarrow> credentials" where
  "creds_entry pe c = (case pe of (publisher, entry) \<Rightarrow>
     if publisher \<notin> set PUBLISHERS
     then c\<lparr>advisories := advisories c @ [UnknownPublisher publisher]\<rparr>
     else
       let c = (if re_agreed entry \<noteq> None
                then c\<lparr>advisories := advisories c @ [AgreedIgnored publisher]\<rparr> else c) in
       (case re_api_key entry of
          None \<Rightarrow> c
        | Some raw \<Rightarrow>
            (let key = str_trim raw in
             if key = [] then c\<lparr>advisories := advisories c @ [BlankKey publisher]\<rparr>
             else c\<lparr>keys := keys c @ [(publisher, key)]\<rparr>)))"

definition creds_parse :: "(string \<times> raw_entry) list option \<Rightarrow> credentials" where
  "creds_parse tdm = (case tdm of
     None \<Rightarrow> \<lparr> keys = [], advisories = [] \<rparr>
   | Some t \<Rightarrow> fold creds_entry t \<lparr> keys = [], advisories = [] \<rparr>)"

subsection \<open>The profile\<close>

record tdm_grant =
  api_key :: string
  agree_env_var :: string
  agreed_at :: nat

record metadata_access =
  openalex :: bool
  semantic_scholar :: bool
  doaj :: bool
  datacite :: bool
  hal :: bool
  openaire :: bool
  core :: bool
  europe_pmc :: bool
  biorxiv :: bool
  inspire :: bool
  ads :: bool

record capability_profile =
  metadata :: metadata_access
  tdm_elsevier :: "tdm_grant option"
  tdm_aps :: "tdm_grant option"
  tdm_springer :: "tdm_grant option"
  tdm_ieee :: "tdm_grant option"
  limits :: rate_limits

datatype capability_error =
    AgreedButNoKey string string
  | KeyButNotAgreed string

text \<open>\<^verbatim>\<open>std::env::var(..).ok()\<close>: set, and valid UTF-8.\<close>

definition env_var :: "(string \<Rightarrow> string option) \<Rightarrow> string \<Rightarrow> string option" where
  "env_var env v = (case env v of Some s \<Rightarrow> if is_utf8 s then Some s else None | None \<Rightarrow> None)"

definition nonblank :: "string option \<Rightarrow> string option" where
  "nonblank v = (case v of Some s \<Rightarrow> if str_trim s = [] then None else Some s | None \<Rightarrow> None)"

definition resolve_metadata_flag :: "(string \<Rightarrow> string option) \<Rightarrow> string \<Rightarrow> bool \<Rightarrow> bool" where
  "resolve_metadata_flag env v feature_enabled =
     (case (env v \<noteq> None, feature_enabled) of
        (True, True) \<Rightarrow> True
      | (True, False) \<Rightarrow> False
      | (False, _) \<Rightarrow> False)"

definition build_tdm_grant :: "nat \<Rightarrow> string \<Rightarrow> string \<Rightarrow> tdm_grant" where
  "build_tdm_grant now agree_var key =
     \<lparr> api_key = key, agree_env_var = agree_var, agreed_at = now \<rparr>"

definition tdm_key :: "(string \<Rightarrow> string option) \<Rightarrow> string \<Rightarrow> string option \<Rightarrow> string option" where
  "tdm_key env key_var file_key = (case nonblank (env_var env key_var) of
     Some k \<Rightarrow> Some k | None \<Rightarrow> file_key)"

definition resolve_tdm_grant ::
  "(string \<Rightarrow> string option) \<Rightarrow> nat \<Rightarrow> string \<Rightarrow> string \<Rightarrow> bool \<Rightarrow> string option
     \<Rightarrow> capability_error + tdm_grant option" where
  "resolve_tdm_grant env now agree_var key_var feature_enabled file_key =
     (let agree_raw = env_var env agree_var;
          agreed = (agree_raw = Some ''1'');
          agree_present = (agree_raw \<noteq> None);
          key_value = tdm_key env key_var file_key in
      case (agreed, agree_present, key_value) of
        (True, _, Some key) \<Rightarrow>
          if feature_enabled then Inr (Some (build_tdm_grant now agree_var key)) else Inr None
      | (True, _, None) \<Rightarrow> Inl (AgreedButNoKey agree_var key_var)
      | (False, True, Some _) \<Rightarrow> Inl (KeyButNotAgreed agree_var)
      | (False, False, Some _) \<Rightarrow> Inl (KeyButNotAgreed agree_var)
      | (False, True, None) \<Rightarrow> Inr None
      | (False, False, None) \<Rightarrow> Inr None)"

definition from_env ::
  "(string \<Rightarrow> bool) \<Rightarrow> nat \<Rightarrow> (string \<Rightarrow> string option) \<Rightarrow> credentials
     \<Rightarrow> capability_error + capability_profile" where
  "from_env cfg now env creds =
     (let flag = (\<lambda>v. resolve_metadata_flag env v (cfg ''metadata''));
          md = \<lparr> openalex = flag ''DOIGET_ENABLE_OPENALEX'',
                semantic_scholar = flag ''DOIGET_ENABLE_S2'',
                doaj = flag ''DOIGET_ENABLE_DOAJ'',
                datacite = flag ''DOIGET_ENABLE_DATACITE'',
                hal = flag ''DOIGET_ENABLE_HAL'',
                openaire = flag ''DOIGET_ENABLE_OPENAIRE'',
                core = flag ''DOIGET_ENABLE_CORE'',
                europe_pmc = flag ''DOIGET_ENABLE_EUROPE_PMC'',
                biorxiv = flag ''DOIGET_ENABLE_BIORXIV'',
                inspire = flag ''DOIGET_ENABLE_INSPIRE'',
                ads = (cfg ''metadata'' \<and> nonblank (env_var env ''DOIGET_ADS_TOKEN'') \<noteq> None) \<rparr> in
      case resolve_tdm_grant env now ''DOIGET_AGREE_TDM_ELSEVIER'' ''DOIGET_KEY_ELSEVIER''
             (cfg ''tdm-elsevier'') (creds_api_key creds ''elsevier'') of
        Inl e \<Rightarrow> Inl e | Inr elsevier \<Rightarrow>
      case resolve_tdm_grant env now ''DOIGET_AGREE_TDM_APS'' ''DOIGET_KEY_APS''
             (cfg ''tdm-aps'') (creds_api_key creds ''aps'') of
        Inl e \<Rightarrow> Inl e | Inr aps \<Rightarrow>
      case resolve_tdm_grant env now ''DOIGET_AGREE_TDM_SPRINGER'' ''DOIGET_KEY_SPRINGER''
             (cfg ''tdm-springer'') (creds_api_key creds ''springer'') of
        Inl e \<Rightarrow> Inl e | Inr springer \<Rightarrow>
      case resolve_tdm_grant env now ''DOIGET_AGREE_TDM_IEEE'' ''DOIGET_KEY_IEEE''
             (cfg ''tdm-ieee'') (creds_api_key creds ''ieee'') of
        Inl e \<Rightarrow> Inl e | Inr ieee \<Rightarrow>
      Inr \<lparr> metadata = md, tdm_elsevier = elsevier, tdm_aps = aps, tdm_springer = springer,
            tdm_ieee = ieee, limits = HARD_CODED \<rparr>)"

subsection \<open>Properties of the gate\<close>

lemma source_rate_sound:
  "source_rate s = Some r \<Longrightarrow> 200 \<le> min_interval_ms r \<and> max_concurrent r = 1"
proof -
  assume "source_rate s = Some r"
  then have "\<exists>k. (k, r) \<in> set SOURCE_RATE_OVERRIDES"
    by (auto simp: source_rate_def find_Some_iff) (metis nth_mem)
  moreover have "list_all (\<lambda>(k, r). 200 \<le> min_interval_ms r \<and> max_concurrent r = 1) SOURCE_RATE_OVERRIDES"
    by code_simp
  ultimately show ?thesis
    by (auto simp: list_all_iff)
qed

text \<open>The rate table can only tighten: for every source key the gap between two requests is at
  least the global 200 ms, at least one and at most 5 requests run at once, and arXiv, the one with
  published terms of use, gets its 3 s gap and its single connection.\<close>

theorem rate_table_only_tightens:
  "200 \<le> backoff_ms_for HARD_CODED s
   \<and> 1 \<le> max_concurrent_for HARD_CODED s \<and> max_concurrent_for HARD_CODED s \<le> MAX_CONCURRENT_FETCHES
   \<and> backoff_ms_for HARD_CODED ''arxiv'' = 3000 \<and> max_concurrent_for HARD_CODED ''arxiv'' = 1"
proof -
  have "200 \<le> backoff_ms_for HARD_CODED s
      \<and> 1 \<le> max_concurrent_for HARD_CODED s \<and> max_concurrent_for HARD_CODED s \<le> MAX_CONCURRENT_FETCHES"
    using source_rate_sound [of s]
    by (auto simp: backoff_ms_for_def max_concurrent_for_def HARD_CODED_def MAX_CONCURRENT_FETCHES_def
        split: option.split)
  moreover have "source_rate ''arxiv'' = Some \<lparr> min_interval_ms = 3000, max_concurrent = 1 \<rparr>"
    by (simp add: source_rate_def SOURCE_RATE_OVERRIDES_def)
  ultimately show ?thesis
    by (simp add: backoff_ms_for_def max_concurrent_for_def HARD_CODED_def MAX_CONCURRENT_FETCHES_def)
qed

lemma resolve_tdm_grant_cases:
  "resolve_tdm_grant env now a k f file = Inr (Some g) \<longleftrightarrow>
     f \<and> env a = Some ''1'' \<and> (\<exists>key. tdm_key env k file = Some key
        \<and> g = \<lparr> api_key = key, agree_env_var = a, agreed_at = now \<rparr>)"
proof -
  have "env_var env a = Some ''1'' \<longleftrightarrow> env a = Some ''1''"
    by (auto simp: env_var_def is_utf8_def split: option.split)
  then show ?thesis
    by (auto simp: resolve_tdm_grant_def Let_def build_tdm_grant_def split: option.splits bool.splits)
qed

lemma resolve_tdm_grant_error:
  "resolve_tdm_grant env now a k f file = Inl e \<longleftrightarrow>
     (env a = Some ''1'' \<and> tdm_key env k file = None \<and> e = AgreedButNoKey a k)
     \<or> (env a \<noteq> Some ''1'' \<and> tdm_key env k file \<noteq> None \<and> e = KeyButNotAgreed a)"
proof -
  have "env_var env a = Some ''1'' \<longleftrightarrow> env a = Some ''1''"
    by (auto simp: env_var_def is_utf8_def split: option.split)
  then show ?thesis
    by (auto simp: resolve_tdm_grant_def Let_def split: option.splits bool.splits)
qed

lemma resolve_tdm_grant_ok:
  "is_ok (resolve_tdm_grant env now a k f fk) \<longleftrightarrow>
     (env a = Some ''1'') = (tdm_key env k fk \<noteq> None)"
proof (cases "resolve_tdm_grant env now a k f fk")
  case (Inl e)
  then show ?thesis using resolve_tdm_grant_error [of env now a k f fk e] by auto
next
  case (Inr g)
  then have "\<not> (\<exists>e. resolve_tdm_grant env now a k f fk = Inl e)" by simp
  then show ?thesis
    unfolding resolve_tdm_grant_error using Inr by auto
qed

lemma is_ok_bind:
  "is_ok (case x of Inl e \<Rightarrow> Inl e | Inr a \<Rightarrow> f a) \<longleftrightarrow> is_ok x \<and> is_ok (f (projr x))"
  by (cases x) simp_all

lemma from_env_ok:
  "is_ok (from_env cfg now env creds) \<longleftrightarrow>
     is_ok (resolve_tdm_grant env now ''DOIGET_AGREE_TDM_ELSEVIER'' ''DOIGET_KEY_ELSEVIER''
       (cfg ''tdm-elsevier'') (creds_api_key creds ''elsevier''))
     \<and> is_ok (resolve_tdm_grant env now ''DOIGET_AGREE_TDM_APS'' ''DOIGET_KEY_APS''
       (cfg ''tdm-aps'') (creds_api_key creds ''aps''))
     \<and> is_ok (resolve_tdm_grant env now ''DOIGET_AGREE_TDM_SPRINGER'' ''DOIGET_KEY_SPRINGER''
       (cfg ''tdm-springer'') (creds_api_key creds ''springer''))
     \<and> is_ok (resolve_tdm_grant env now ''DOIGET_AGREE_TDM_IEEE'' ''DOIGET_KEY_IEEE''
       (cfg ''tdm-ieee'') (creds_api_key creds ''ieee''))"
  by (simp add: from_env_def Let_def is_ok_bind)

text \<open>The four grants of a profile, with the names their variables carry.\<close>

definition tdm_of :: "capability_profile \<Rightarrow> (string \<times> string \<times> tdm_grant option) list" where
  "tdm_of p = [(''elsevier'', ''ELSEVIER'', tdm_elsevier p), (''aps'', ''APS'', tdm_aps p),
     (''springer'', ''SPRINGER'', tdm_springer p), (''ieee'', ''IEEE'', tdm_ieee p)]"

definition misconfigured :: "(string \<Rightarrow> string option) \<Rightarrow> credentials \<Rightarrow> string \<Rightarrow> string \<Rightarrow> bool" where
  "misconfigured env creds pub PUB \<longleftrightarrow>
     (env (''DOIGET_AGREE_TDM_'' @ PUB) = Some ''1'')
     \<noteq> (tdm_key env (''DOIGET_KEY_'' @ PUB) (creds_api_key creds pub) \<noteq> None)"

lemma from_env_Inr:
  assumes "from_env cfg now env creds = Inr p" and "(pub, PUB, g) \<in> set (tdm_of p)"
  shows "resolve_tdm_grant env now (''DOIGET_AGREE_TDM_'' @ PUB) (''DOIGET_KEY_'' @ PUB)
           (cfg (''tdm-'' @ pub)) (creds_api_key creds pub) = Inr g"
  using assms
  by (auto simp: from_env_def Let_def tdm_of_def split: sum.splits)

text \<open>C9: No text-and-data-mining source is reachable without an explicit act of consent: in a resolved
  profile a publisher's grant is present iff its feature was compiled in, its agreement variable is
  exactly \<^verbatim>\<open>1\<close> in the environment, and a non-blank key was found; the grant then carries that key,
  the environment's above the credentials file's.\<close>

theorem tdm_grant_requires_consent:
  assumes "from_env cfg now env creds = Inr p" and "(pub, PUB, g) \<in> set (tdm_of p)"
  shows "(g \<noteq> None \<longleftrightarrow> cfg (''tdm-'' @ pub) \<and> env (''DOIGET_AGREE_TDM_'' @ PUB) = Some ''1''
      \<and> tdm_key env (''DOIGET_KEY_'' @ PUB) (creds_api_key creds pub) \<noteq> None)
    \<and> map_option api_key g =
      (if g = None then None else tdm_key env (''DOIGET_KEY_'' @ PUB) (creds_api_key creds pub))"
proof (cases g)
  case None
  with from_env_Inr [OF assms] resolve_tdm_grant_cases
    [of env now "''DOIGET_AGREE_TDM_'' @ PUB" "''DOIGET_KEY_'' @ PUB" "cfg (''tdm-'' @ pub)" "creds_api_key creds pub"]
  show ?thesis by (metis Inr_inject option.distinct(1) option.exhaust option.map_disc_iff)
next
  case (Some h)
  from from_env_Inr [OF assms, unfolded Some resolve_tdm_grant_cases] Some show ?thesis by auto
qed

definition demo_env :: "string \<Rightarrow> string option" where
  "demo_env = (Map.empty)(''DOIGET_AGREE_TDM_APS'' \<mapsto> ''1'', ''DOIGET_KEY_APS'' \<mapsto> ''  '')"

theorem tdm_grant_requires_consent_witness:
  "\<exists>p. from_env (\<lambda>_. True) 7 demo_env \<lparr> keys = [(''aps'', ''k'')], advisories = [] \<rparr> = Inr p
     \<and> map_option api_key (tdm_aps p) = Some ''k''"
proof -
  let ?c = "\<lparr> keys = [(''aps'', ''k'')], advisories = [] \<rparr> :: credentials"
  have k: "tdm_key demo_env ''DOIGET_KEY_APS'' (creds_api_key ?c ''aps'') = Some ''k''"
    by code_simp
  have "is_ok (from_env (\<lambda>_. True) 7 demo_env ?c)"
    by code_simp
  then obtain p where p: "from_env (\<lambda>_. True) 7 demo_env ?c = Inr p"
    by (auto simp: is_ok_iff)
  have i: "(''aps'', ''APS'', tdm_aps p) \<in> set (tdm_of p)"
    by (simp add: tdm_of_def)
  have "tdm_aps p \<noteq> None"
    using tdm_grant_requires_consent [OF p i] k by (simp add: demo_env_def)
  with tdm_grant_requires_consent [OF p i] k p show ?thesis
    by auto
qed

text \<open>Startup fails exactly when some publisher is half-configured, agreed to without a key or
  supplied with a key without the agreement; feature flags never turn a correct environment into an
  error.\<close>

theorem from_env_error_exact:
  "is_ok (from_env cfg now env creds) \<longleftrightarrow>
     \<not> misconfigured env creds ''elsevier'' ''ELSEVIER'' \<and> \<not> misconfigured env creds ''aps'' ''APS''
     \<and> \<not> misconfigured env creds ''springer'' ''SPRINGER'' \<and> \<not> misconfigured env creds ''ieee'' ''IEEE''"
proof -
  have "is_ok (resolve_tdm_grant env now (''DOIGET_AGREE_TDM_'' @ PUB) (''DOIGET_KEY_'' @ PUB) f
         (creds_api_key creds pub)) \<longleftrightarrow> \<not> misconfigured env creds pub PUB" for pub PUB f
    by (simp only: resolve_tdm_grant_ok misconfigured_def) blast
  from this [of "''ELSEVIER''" "cfg ''tdm-elsevier''" "''elsevier''"] this [of "''APS''" "cfg ''tdm-aps''" "''aps''"]
    this [of "''SPRINGER''" "cfg ''tdm-springer''" "''springer''"] this [of "''IEEE''" "cfg ''tdm-ieee''" "''ieee''"]
  show ?thesis
    by (simp only: from_env_ok append.simps)
qed

subsection \<open>The file carries keys, never agreements\<close>

lemma creds_entry_keys:
  "keys (creds_entry (p, e) c) =
     (if p \<in> set PUBLISHERS then
        (case nonblank (re_api_key e) of Some k \<Rightarrow> keys c @ [(p, str_trim k)] | None \<Rightarrow> keys c)
      else keys c)"
  by (auto simp: creds_entry_def nonblank_def Let_def split: option.split)

lemma fold_creds_keys:
  "keys c = keys d \<Longrightarrow> map (\<lambda>(p, e). (p, re_api_key e)) xs = map (\<lambda>(p, e). (p, re_api_key e)) ys
     \<Longrightarrow> keys (fold creds_entry xs c) = keys (fold creds_entry ys d)"
proof (induction xs arbitrary: ys c d)
  case (Cons x xs)
  then obtain y ys' where ys: "ys = y # ys'" by (cases ys) auto
  have "keys (creds_entry x c) = keys (creds_entry y d)"
    using Cons.prems ys by (cases x; cases y) (auto simp: creds_entry_keys split: option.split)
  with Cons ys show ?case by simp
qed simp

lemma from_env_keys:
  "keys c = keys d \<Longrightarrow> from_env cfg now env c = from_env cfg now env d"
  by (simp only: from_env_def creds_api_key_def)

text \<open>The agreement is environment-only: whatever \<^verbatim>\<open>agreed\<close> values the credentials file holds, the
  resolved profile (or the startup error) is the one obtained with all of them deleted.\<close>

theorem file_agreement_is_ignored:
  "from_env cfg now env (creds_parse (Some tdm))
     = from_env cfg now env (creds_parse (Some (map (\<lambda>(p, e). (p, e\<lparr>re_agreed := None\<rparr>)) tdm)))"
  by (rule from_env_keys) (auto simp: creds_parse_def intro!: fold_creds_keys)

end
