(* ===== verification/Allowlist.thy ===== *)
theory Allowlist
  imports Prelude
begin

text \<open>
  The per-source host allowlists (\<^verbatim>\<open>SourceAllowlist\<close>, \<^verbatim>\<open>is_transparent_resolver\<close>,
  \<^verbatim>\<open>host_matches_pattern\<close> and the allowlist tables of \<^verbatim>\<open>crates/doiget-core/src/http.rs\<close>).  The Tier 3
  tables depend on the compiled features, the parameter \<open>cfg\<close>.
\<close>

record source_allowlist =
  al_source :: string
  redirect_hosts :: "string list"

definition allowlist_new :: "string \<Rightarrow> string list \<Rightarrow> source_allowlist" where
  "allowlist_new source hosts = \<lparr> al_source = source, redirect_hosts = hosts \<rparr>"

definition TRANSPARENT_RESOLVER_HOSTS :: "string list" where
  "TRANSPARENT_RESOLVER_HOSTS = [''doi.org'', ''dx.doi.org'', ''hdl.handle.net'']"

definition is_transparent_resolver :: "string \<Rightarrow> bool" where
  "is_transparent_resolver host \<longleftrightarrow> to_ascii_lowercase host \<in> set TRANSPARENT_RESOLVER_HOSTS"

definition host_matches_pattern :: "string \<Rightarrow> string \<Rightarrow> bool" where
  "host_matches_pattern host pattern =
     (let pat_lc = to_ascii_lowercase pattern in
      case strip_prefix ''*.'' pat_lc of
        Some suffix \<Rightarrow> host = suffix \<or> ends_with host (''.'' @ suffix)
      | None \<Rightarrow> host = pat_lc)"

definition matches :: "source_allowlist \<Rightarrow> string \<Rightarrow> bool" where
  "matches al host =
     list_ex (\<lambda>pat. host_matches_pattern (to_ascii_lowercase host) pat) (redirect_hosts al)"

definition permits :: "source_allowlist \<Rightarrow> string \<Rightarrow> bool" where
  "permits al host \<longleftrightarrow> is_transparent_resolver host \<or> matches al host"

subsection \<open>The tables\<close>

definition tier_1_allowlist :: "source_allowlist list" where
  "tier_1_allowlist =
     [allowlist_new ''crossref'' [''api.crossref.org'', ''*.crossref.org''],
      allowlist_new ''unpaywall'' [''api.unpaywall.org''],
      allowlist_new ''arxiv'' [''arxiv.org'', ''export.arxiv.org'', ''*.arxiv.org'']]"

definition pubmed_allowlist :: "source_allowlist list" where
  "pubmed_allowlist = [allowlist_new ''ncbi'' [''eutils.ncbi.nlm.nih.gov'']]"

definition preprint_allowlist :: "source_allowlist list" where
  "preprint_allowlist =
     [allowlist_new ''biorxiv'' [''api.biorxiv.org''],
      allowlist_new ''inspire'' [''inspirehep.net''],
      allowlist_new ''ads'' [''api.adsabs.harvard.edu'']]"

definition software_allowlist :: "source_allowlist list" where
  "software_allowlist =
     [allowlist_new ''github'' [''api.github.com''],
      allowlist_new ''github-raw'' [''raw.githubusercontent.com'']]"

definition tier_2_allowlist :: "source_allowlist list" where
  "tier_2_allowlist =
     [allowlist_new ''openalex'' [''api.openalex.org''],
      allowlist_new ''semantic_scholar'' [''api.semanticscholar.org''],
      allowlist_new ''doaj'' [''doaj.org'', ''*.doaj.org''],
      allowlist_new ''datacite'' [''api.datacite.org''],
      allowlist_new ''hal'' [''api.archives-ouvertes.fr''],
      allowlist_new ''openaire'' [''api.openaire.eu''],
      allowlist_new ''core'' [''api.core.ac.uk''],
      allowlist_new ''europe-pmc'' [''www.ebi.ac.uk'']]"

definition discovery_allowlist :: "source_allowlist list" where
  "discovery_allowlist = [allowlist_new ''openalex'' [''api.openalex.org'']]"

definition fulltext_allowlist :: "source_allowlist list" where
  "fulltext_allowlist = [allowlist_new ''ar5iv'' [''ar5iv.labs.arxiv.org'']]"

definition tier_3_springer_allowlist :: "source_allowlist list" where
  "tier_3_springer_allowlist =
     [allowlist_new ''tdm-springer'' [''api.springernature.com'', ''*.springernature.com'']]"

definition tier_3_aps_allowlist :: "source_allowlist list" where
  "tier_3_aps_allowlist = [allowlist_new ''tdm-aps'' [''harvest.aps.org'', ''*.aps.org'']]"

definition tier_3_elsevier_allowlist :: "source_allowlist list" where
  "tier_3_elsevier_allowlist =
     [allowlist_new ''tdm-elsevier'' [''api.elsevier.com'', ''*.elsevier.com'']]"

definition tier_3_ieee_allowlist :: "source_allowlist list" where
  "tier_3_ieee_allowlist =
     [allowlist_new ''tdm-ieee'' [''ieeexploreapi.ieee.org'', ''*.ieee.org'']]"

definition tier_3_allowlists :: "(string \<Rightarrow> bool) \<Rightarrow> source_allowlist list" where
  "tier_3_allowlists cfg =
     (if cfg ''tdm-aps'' then tier_3_aps_allowlist else [])
     @ (if cfg ''tdm-elsevier'' then tier_3_elsevier_allowlist else [])
     @ (if cfg ''tdm-springer'' then tier_3_springer_allowlist else [])
     @ (if cfg ''tdm-ieee'' then tier_3_ieee_allowlist else [])"

definition oa_publisher_allowlist :: "source_allowlist list" where
  "oa_publisher_allowlist =
     [allowlist_new ''oa-publisher''
        [''*.springer.com'', ''*.springeropen.com'', ''*.springernature.com'', ''*.nature.com'',
         ''*.wiley.com'', ''*.elsevier.com'', ''*.sciencedirect.com'', ''*.frontiersin.org'',
         ''*.mdpi.com'', ''*.plos.org'', ''*.biorxiv.org'', ''*.medrxiv.org'', ''europepmc.org'',
         ''*.europepmc.org'', ''*.nih.gov'', ''*.ncbi.nlm.nih.gov'', ''*.aps.org'',
         ''scipost.org'', ''*.scipost.org'', ''*.iop.org'', ''doaj.org'', ''*.doaj.org'',
         ''arxiv.org'', ''*.arxiv.org'']]"

definition production_allowlists :: "(string \<Rightarrow> bool) \<Rightarrow> source_allowlist list" where
  "production_allowlists cfg =
     tier_1_allowlist @ pubmed_allowlist @ preprint_allowlist @ software_allowlist
     @ tier_2_allowlist @ discovery_allowlist @ fulltext_allowlist @ oa_publisher_allowlist
     @ tier_3_allowlists cfg"

subsection \<open>What a pattern admits\<close>

lemma permits_lower [simp]: "permits al (to_ascii_lowercase h) = permits al h"
  by (simp add: permits_def matches_def is_transparent_resolver_def)

text \<open>
  The domain a pattern stands for, and whether a host is that domain or one of its subdomains:
  the admitted label boundary is the dot, never a bare suffix.
\<close>

definition pattern_domain :: "string \<Rightarrow> string" where
  "pattern_domain pat = (case strip_prefix ''*.'' (to_ascii_lowercase pat) of
     Some suffix \<Rightarrow> suffix | None \<Rightarrow> to_ascii_lowercase pat)"

definition within_domain :: "string \<Rightarrow> string \<Rightarrow> bool" where
  "within_domain host d \<longleftrightarrow> host = d \<or> (\<exists>sub. host = sub @ CHR ''.'' # d)"

lemma host_matches_within: "host_matches_pattern h pat \<Longrightarrow> within_domain h (pattern_domain pat)"
  by (auto simp: host_matches_pattern_def pattern_domain_def within_domain_def Let_def ends_with_iff
      split: option.splits)

lemma matches_within:
  "matches al h \<Longrightarrow> \<exists>pat\<in>set (redirect_hosts al). within_domain (to_ascii_lowercase h) (pattern_domain pat)"
  unfolding matches_def list_ex_iff using host_matches_within by blast

lemma host_matches_apex: "host_matches_pattern d (''*.'' @ d) \<longleftrightarrow> to_ascii_lowercase d = d"
proof -
  have l: "to_ascii_lowercase (''*.'' @ d) = ''*.'' @ to_ascii_lowercase d"
    by (simp add: to_ascii_lowercase_def to_ascii_lower_def is_ascii_uppercase_def)
  have "strip_prefix ''*.'' (''*.'' @ to_ascii_lowercase d) = Some (to_ascii_lowercase d)"
    by (simp add: strip_prefix_Some)
  then show ?thesis
    unfolding host_matches_pattern_def l Let_def
    by (auto simp: ends_with_def dest: sym)
qed

text \<open>A comment above the publisher table says a wildcard does not match its apex; it does.\<close>

theorem wildcard_matches_apex:
  "list_all (\<lambda>al. permits al ''nature.com'') oa_publisher_allowlist"
  by code_simp

definition well_shaped_pattern :: "string \<Rightarrow> bool" where
  "well_shaped_pattern pat \<longleftrightarrow> to_ascii_lowercase pat = pat
     \<and> CHR ''.'' \<in> set (pattern_domain pat) \<and> CHR ''*'' \<notin> set (pattern_domain pat)
     \<and> \<not> list_ex (\<lambda>r. host_matches_pattern r pat) TRANSPARENT_RESOLVER_HOSTS"

abbreviation table_ok :: "source_allowlist list \<Rightarrow> bool" where
  "table_ok \<equiv> list_all (\<lambda>al. list_all well_shaped_pattern (redirect_hosts al))"

lemma table_ok_oa_publisher: "table_ok oa_publisher_allowlist"
  by code_simp

lemma table_ok_tiers: "table_ok tier_1_allowlist" "table_ok tier_2_allowlist"
  by code_simp+

lemma table_ok_others: "table_ok pubmed_allowlist" "table_ok preprint_allowlist"
  "table_ok software_allowlist" "table_ok discovery_allowlist" "table_ok fulltext_allowlist"
  by code_simp+

lemma table_ok_tdm: "table_ok tier_3_aps_allowlist" "table_ok tier_3_elsevier_allowlist"
  "table_ok tier_3_springer_allowlist" "table_ok tier_3_ieee_allowlist"
  by code_simp+

lemma tables_well_shaped: "table_ok (production_allowlists cfg)"
  by (simp only: production_allowlists_def tier_3_allowlists_def list_all_append
      table_ok_oa_publisher table_ok_tiers table_ok_others table_ok_tdm list.pred_inject(1) if_split
      simp_thms)

text \<open>The host gate of every production table is closed: a permitted host is one of the three DOI
  resolvers, or lies within (equals, or is a dot-separated subdomain of) a listed domain of at least
  two labels, so no pattern admits a whole top-level domain or a look-alike suffix; and no table ever
  lists a resolver, so a resolver is followed without being trusted as a content host.\<close>

theorem production_gate_closed:
  assumes "al \<in> set (production_allowlists cfg)"
  shows "(permits al h \<longrightarrow> is_transparent_resolver h
      \<or> (\<exists>pat\<in>set (redirect_hosts al). within_domain (to_ascii_lowercase h) (pattern_domain pat)
            \<and> CHR ''.'' \<in> set (pattern_domain pat)))
    \<and> (is_transparent_resolver h \<longrightarrow> \<not> matches al h)"
proof -
  from assms tables_well_shaped [of cfg] have w: "\<forall>pat\<in>set (redirect_hosts al). well_shaped_pattern pat"
    unfolding list_all_iff by blast
  then have "is_transparent_resolver h \<Longrightarrow> \<not> matches al h"
    unfolding is_transparent_resolver_def matches_def well_shaped_pattern_def list_ex_iff by blast
  with w matches_within [of al h] show ?thesis
    unfolding permits_def well_shaped_pattern_def by blast
qed

theorem production_gate_closed_witness:
  "permits (hd oa_publisher_allowlist) ''LINK.Springer.com''
   \<and> \<not> permits (hd oa_publisher_allowlist) ''link-springer.com''
   \<and> permits (hd oa_publisher_allowlist) ''doi.org'' \<and> \<not> matches (hd oa_publisher_allowlist) ''doi.org''"
proof -
  have "hd oa_publisher_allowlist \<in> set (production_allowlists (\<lambda>_. False))"
    by (simp add: production_allowlists_def oa_publisher_allowlist_def)
  from production_gate_closed [OF this, of "''doi.org''"]
  have "\<not> matches (hd oa_publisher_allowlist) ''doi.org''"
    by (simp add: is_transparent_resolver_def TRANSPARENT_RESOLVER_HOSTS_def to_ascii_lowercase_def
        to_ascii_lower_def is_ascii_uppercase_def)
  moreover have "permits (hd oa_publisher_allowlist) ''LINK.Springer.com''
      \<and> \<not> permits (hd oa_publisher_allowlist) ''link-springer.com''
      \<and> permits (hd oa_publisher_allowlist) ''doi.org''"
    by code_simp
  ultimately show ?thesis by blast
qed

end
