(* ===== verification/Http.thy ===== *)
theory Http
  imports Allowlist Errors
begin

text \<open>
  The HTTP client (\<^verbatim>\<open>HttpClient\<close> in \<^verbatim>\<open>crates/doiget-core/src/http.rs\<close>): client construction, the URL
  upgrade, the redirect policy, the bounded retry loop with its size cap and magic-byte check, the
  probe, and the redaction of keys in error URLs.

  What the crates \<^verbatim>\<open>reqwest\<close>, \<^verbatim>\<open>url\<close> and \<^verbatim>\<open>http\<close> do is a parameter: \<open>send\<close> gives the outcome of the
  \<open>n\<close>-th request of a client, \<open>set_scheme\<close> and \<open>render\<close> are \<^verbatim>\<open>Url::set_scheme\<close> and
  \<^verbatim>\<open>Url::to_string\<close>, \<open>name_ok\<close> and \<open>value_ok\<close> the header validators.  A \<open>url\<close> is what its accessors
  return.  Sleeps are returned in milliseconds, in order, next to the result; \<open>nanos n\<close> is the
  sub-second clock reading behind the jitter of attempt \<open>n\<close>.
\<close>

subsection \<open>Constants and small pure helpers\<close>

definition PDF_MAX_BYTES :: nat where
  "PDF_MAX_BYTES = 100000000"

definition PDF_MAGIC :: string where
  "PDF_MAGIC = ''%PDF-''"

definition MAX_REDIRECTS :: nat where
  "MAX_REDIRECTS = 10"

definition MAX_FETCH_RETRIES :: nat where
  "MAX_FETCH_RETRIES = 3"

definition RETRY_BASE_DELAY :: nat where
  "RETRY_BASE_DELAY = 500"

definition RETRY_MAX_DELAY :: nat where
  "RETRY_MAX_DELAY = 30000"

definition is_transient_status :: "nat \<Rightarrow> bool" where
  "is_transient_status st \<longleftrightarrow> st \<in> {408, 429, 500, 502, 503, 504}"

record reqwest_error =
  is_timeout :: bool
  is_connect :: bool
  is_body :: bool
  is_redirect :: bool
  err_links :: "chain_link list"

definition reqwest_is_transient :: "reqwest_error \<Rightarrow> bool" where
  "reqwest_is_transient e \<longleftrightarrow> (is_timeout e \<or> is_connect e \<or> is_body e) \<and> \<not> is_redirect e"

text \<open>The argument is the header as \<^verbatim>\<open>HeaderValue::to_str\<close> reads it.\<close>

definition parse_retry_after :: "string option \<Rightarrow> nat option" where
  "parse_retry_after hdr = (case hdr of
     None \<Rightarrow> None
   | Some h \<Rightarrow> (case parse_unsigned (2 ^ 64) (str_trim h) of
       None \<Rightarrow> None | Some secs \<Rightarrow> Some (min (secs * 1000) RETRY_MAX_DELAY)))"

definition backoff_delay :: "nat option \<Rightarrow> nat \<Rightarrow> nat" where
  "backoff_delay nanos attempt =
     (let factor = 2 ^ min attempt 20;
          base_ms = RETRY_BASE_DELAY;
          capped_ms = min (sat_mul64 base_ms factor) RETRY_MAX_DELAY;
          jitter_ms = (case nanos of Some n \<Rightarrow> n mod max base_ms 1 | None \<Rightarrow> 0) in
      sat_add64 capped_ms jitter_ms)"

subsection \<open>URLs\<close>

datatype url_host = Domain string | Ipv4 "nat list" | Ipv6 "nat list"

record url =
  scheme :: string
  host :: "url_host option"
  host_str :: "string option"
  query_pairs :: "(string \<times> string) list"
  url_rest :: string

definition is_localhost_domain :: "string \<Rightarrow> bool" where
  "is_localhost_domain d =
     (if eq_ignore_ascii_case d ''localhost'' then True
      else let suffix = ''.localhost'' in
        if length d \<le> length suffix then False
        else eq_ignore_ascii_case (drop (length d - length suffix) d) suffix)"

definition ipv4_is_loopback :: "nat list \<Rightarrow> bool" where
  "ipv4_is_loopback octets = (case octets of a # _ \<Rightarrow> a = 127 | [] \<Rightarrow> False)"

text \<open>\<^verbatim>\<open>Ipv6Addr::to_ipv4_mapped\<close> on the eight segments.\<close>

definition to_ipv4_mapped :: "nat list \<Rightarrow> nat list option" where
  "to_ipv4_mapped s = (case s of
     [a, b, c, d, e, f, g, h] \<Rightarrow>
       if [a, b, c, d, e, f] = [0, 0, 0, 0, 0, 0xFFFF]
       then Some [g div 256, g mod 256, h div 256, h mod 256] else None
   | _ \<Rightarrow> None)"

definition is_ipv6_loopback :: "nat list \<Rightarrow> bool" where
  "is_ipv6_loopback ip =
     (if ip = [0, 0, 0, 0, 0, 0, 0, 1] then True
      else (case to_ipv4_mapped ip of Some v4 \<Rightarrow> ipv4_is_loopback v4 | None \<Rightarrow> False))"

definition upgrade_http_to_https :: "(url \<Rightarrow> string \<Rightarrow> url option) \<Rightarrow> url \<Rightarrow> url" where
  "upgrade_http_to_https set_scheme u =
     (if scheme u \<noteq> ''http'' then u
      else let upgrade = (case set_scheme u ''https'' of None \<Rightarrow> u | Some v \<Rightarrow> v) in
        (case host u of
          None \<Rightarrow> u
        | Some (Domain d) \<Rightarrow> if is_localhost_domain d then u else upgrade
        | Some (Ipv4 ip) \<Rightarrow> if ipv4_is_loopback ip then u else upgrade
        | Some (Ipv6 ip) \<Rightarrow> if is_ipv6_loopback ip then u else upgrade))"

definition API_KEY_PARAMS :: "string list" where
  "API_KEY_PARAMS = [''api_key'', ''apikey'']"

definition redact_pairs :: "(string \<times> string) list \<Rightarrow> (string \<times> string) list" where
  "redact_pairs ps = map (\<lambda>(k, v). if k \<in> set API_KEY_PARAMS then (k, ''REDACTED'') else (k, v)) ps"

definition redact_api_key_query :: "(url \<Rightarrow> string) \<Rightarrow> url \<Rightarrow> string" where
  "redact_api_key_query render u =
     (if list_all (\<lambda>(k, _). k \<notin> set API_KEY_PARAMS) (query_pairs u) then render u
      else render (u\<lparr>query_pairs := redact_pairs (query_pairs u)\<rparr>))"

subsection \<open>The redirect policy\<close>

datatype policy_action = Follow | Stop | PolicyError http_error

definition redirect_policy :: "source_allowlist \<Rightarrow> url \<Rightarrow> url list \<Rightarrow> policy_action" where
  "redirect_policy al candidate previous =
     (let sch = scheme candidate;
          host_opt = map_option to_ascii_lowercase (host_str candidate);
          prev_count = length previous in
      if sch \<noteq> ''https'' then PolicyError (InsecureRedirect sch)
      else if MAX_REDIRECTS \<le> prev_count then Stop
      else (case host_opt of
        None \<Rightarrow> PolicyError (RedirectDenied (al_source al) [] (redirect_hosts al))
      | Some h \<Rightarrow>
          if \<not> permits al h then PolicyError (RedirectDenied (al_source al) h (redirect_hosts al))
          else Follow))"

text \<open>
  The request chains \<^verbatim>\<open>reqwest\<close> can produce under a policy: a redirect target is requested only when
  the policy, shown the URLs requested so far, answers \<^verbatim>\<open>follow\<close>.  The list is newest first.
\<close>

inductive request_chain :: "source_allowlist \<Rightarrow> url list \<Rightarrow> bool" for al where
  first_request: "request_chain al [u]"
| next_request: "request_chain al us \<Longrightarrow> redirect_policy al u us = Follow \<Longrightarrow> request_chain al (u # us)"

inductive_cases request_chain_ConsE: "request_chain al (u # us)"

subsection \<open>The client\<close>

record http_response =
  r_url :: url
  status :: nat
  retry_after_hdr :: "string option"
  content_length :: "nat option"
  chunks :: "(reqwest_error + string) list"

record http_client =
  clients :: "string \<Rightarrow> source_allowlist option"
  allowlists :: "string \<Rightarrow> source_allowlist option"

definition register_source ::
  "(source_allowlist \<Rightarrow> bool) \<Rightarrow> http_client + http_client \<Rightarrow> source_allowlist \<Rightarrow> http_client + http_client" where
  "register_source build_ok acc entry = (case acc of
     Inl c \<Rightarrow> Inl c
   | Inr c \<Rightarrow>
       let c = c\<lparr>allowlists := (allowlists c)(al_source entry \<mapsto> entry)\<rparr> in
       if \<not> build_ok entry then Inl c
       else Inr (c\<lparr>clients := (clients c)(al_source entry \<mapsto> entry)\<rparr>))"

text \<open>\<^verbatim>\<open>HttpClient::new\<close>; \<open>build_ok\<close> tells whether \<^verbatim>\<open>ClientBuilder::build\<close> succeeds.  A client is
  identified with the allowlist its redirect closure captured.\<close>

definition http_client_new ::
  "(source_allowlist \<Rightarrow> bool) \<Rightarrow> source_allowlist list \<Rightarrow> unit + http_client" where
  "http_client_new build_ok als =
     (case foldl (register_source build_ok) (Inr \<lparr> clients = Map.empty, allowlists = Map.empty \<rparr>) als of
        Inl _ \<Rightarrow> Inl () | Inr c \<Rightarrow> Inr c)"

definition client_source_allowlist :: "http_client \<Rightarrow> string \<Rightarrow> source_allowlist option" where
  "client_source_allowlist c source = allowlists c source"

fun check_headers ::
  "(string \<Rightarrow> bool) \<Rightarrow> (string \<Rightarrow> bool) \<Rightarrow> (string \<times> string) list \<Rightarrow> http_error + (string \<times> string) list" where
  "check_headers name_ok value_ok [] = Inr []"
| "check_headers name_ok value_ok ((n, v) # hs) =
     (if \<not> name_ok n then Inl (InvalidHeader n ''name'')
      else if \<not> value_ok v then Inl (InvalidHeader n ''value'')
      else map_ok (\<lambda>r. let k = to_ascii_lowercase n in if k \<in> fst ` set r then r else (k, v) # r)
             (check_headers name_ok value_ok hs))"

text \<open>The body loop: the buffer, then where it went over the cap, then a mid-stream error.\<close>

fun read_body ::
  "string \<Rightarrow> (reqwest_error + string) list \<Rightarrow> string \<times> nat option \<times> reqwest_error option" where
  "read_body buf [] = (buf, None, None)"
| "read_body buf (Inl e # _) = (buf, None, Some e)"
| "read_body buf (Inr chunk # cs) =
     (let projected = sat_add64 (length buf) (length chunk) in
      if PDF_MAX_BYTES < projected then (buf, Some projected, None)
      else read_body (buf @ chunk) cs)"

datatype attempt_step = Sleep nat | Done "http_error + string \<times> url"

definition fetch_attempt ::
  "(url \<Rightarrow> string) \<Rightarrow> (nat \<Rightarrow> nat option) \<Rightarrow> bool \<Rightarrow> nat \<Rightarrow> reqwest_error + http_response
     \<Rightarrow> attempt_step" where
  "fetch_attempt render nanos check_pdf_magic attempt send_result = (case send_result of
     Inl e \<Rightarrow>
       if attempt < MAX_FETCH_RETRIES \<and> reqwest_is_transient e
       then Sleep (backoff_delay (nanos attempt) attempt)
       else Done (Inl (Network (err_links e)))
   | Inr response \<Rightarrow>
       let final_url = r_url response; st = status response in
       if \<not> (200 \<le> st \<and> st < 300) then
         (if attempt < MAX_FETCH_RETRIES \<and> is_transient_status st
          then Sleep (case parse_retry_after (retry_after_hdr response) of
                  Some d \<Rightarrow> d | None \<Rightarrow> backoff_delay (nanos attempt) attempt)
          else Done (Inl (HttpStatus st (redact_api_key_query render final_url)
                  (parse_retry_after (retry_after_hdr response)))))
       else if (case content_length response of Some len \<Rightarrow> PDF_MAX_BYTES < len | None \<Rightarrow> False)
       then Done (Inl (OversizedBody (the (content_length response)) PDF_MAX_BYTES))
       else (case read_body [] (chunks response) of
           (buf, Some act, _) \<Rightarrow> Done (Inl (OversizedBody act PDF_MAX_BYTES))
         | (buf, None, Some e) \<Rightarrow>
             if attempt < MAX_FETCH_RETRIES \<and> reqwest_is_transient e
             then Sleep (backoff_delay (nanos attempt) attempt)
             else Done (Inl (Network (err_links e)))
         | (body, None, None) \<Rightarrow>
             let got = take 5 (body @ replicate 5 CHR 0x00) in
             if check_pdf_magic \<and> got \<noteq> PDF_MAGIC then Done (Inl (NotAPdf got))
             else Done (Inr (body, final_url))))"

function fetch_loop ::
  "(url \<Rightarrow> string) \<Rightarrow> (nat \<Rightarrow> nat option) \<Rightarrow> bool \<Rightarrow> (nat \<Rightarrow> reqwest_error + http_response) \<Rightarrow> nat
     \<Rightarrow> nat list \<times> (http_error + string \<times> url)" where
  "fetch_loop render nanos check_pdf_magic send attempt =
     (case fetch_attempt render nanos check_pdf_magic attempt (send attempt) of
        Done r \<Rightarrow> ([], r)
      | Sleep d \<Rightarrow>
          let (ds, r) = fetch_loop render nanos check_pdf_magic send (attempt + 1) in (d # ds, r))"
  by pat_completeness auto

lemma fetch_attempt_Sleep_bound:
  "fetch_attempt render nanos m attempt r = Sleep d \<Longrightarrow> attempt < MAX_FETCH_RETRIES"
  by (auto simp: fetch_attempt_def Let_def split: sum.splits if_splits prod.splits option.splits)

termination fetch_loop
  by (relation "measure (\<lambda>(_, _, _, _, attempt). MAX_FETCH_RETRIES - attempt)")
    (auto dest: fetch_attempt_Sleep_bound)

declare fetch_loop.simps [simp del]

definition fetch_inner ::
  "(url \<Rightarrow> string \<Rightarrow> url option) \<Rightarrow> (string \<Rightarrow> bool) \<Rightarrow> (string \<Rightarrow> bool) \<Rightarrow> (url \<Rightarrow> string)
     \<Rightarrow> (nat \<Rightarrow> nat option)
     \<Rightarrow> (source_allowlist \<Rightarrow> url \<Rightarrow> (string \<times> string) list \<Rightarrow> nat \<Rightarrow> reqwest_error + http_response)
     \<Rightarrow> http_client \<Rightarrow> string \<Rightarrow> url \<Rightarrow> (string \<times> string) list \<Rightarrow> bool
     \<Rightarrow> nat list \<times> (http_error + string \<times> url)" where
  "fetch_inner set_scheme name_ok value_ok render nanos send c source u headers check_pdf_magic =
     (let u = upgrade_http_to_https set_scheme u in
      case clients c source of
        None \<Rightarrow> ([], Inl (UnknownSource source))
      | Some client \<Rightarrow>
          (case check_headers name_ok value_ok headers of
             Inl e \<Rightarrow> ([], Inl e)
           | Inr header_map \<Rightarrow>
               fetch_loop render nanos check_pdf_magic (send client u header_map) 0))"

record probe_outcome =
  p_status :: nat
  body_bytes :: nat
  final_host :: "string option"

fun collect_body :: "(reqwest_error + string) list \<Rightarrow> reqwest_error + string" where
  "collect_body [] = Inr []"
| "collect_body (Inl e # _) = Inl e"
| "collect_body (Inr s # cs) = map_ok (\<lambda>r. s @ r) (collect_body cs)"

definition probe ::
  "(source_allowlist \<Rightarrow> url \<Rightarrow> reqwest_error + http_response) \<Rightarrow> http_client \<Rightarrow> string \<Rightarrow> url
     \<Rightarrow> http_error + probe_outcome" where
  "probe send c source u = (case clients c source of
     None \<Rightarrow> Inl (UnknownSource source)
   | Some client \<Rightarrow>
       let h = (case host_str u of Some h \<Rightarrow> h | None \<Rightarrow> []) in
       (case client_source_allowlist c source of
          None \<Rightarrow> Inl (UnknownSource source)
        | Some allow \<Rightarrow>
            if \<not> permits allow h then Inl (RedirectDenied source h (redirect_hosts allow))
            else (case send client u of
                Inl e \<Rightarrow> Inl (Network (err_links e))
              | Inr response \<Rightarrow>
                  (case collect_body (chunks response) of
                     Inl e \<Rightarrow> Inl (Network (err_links e))
                   | Inr b \<Rightarrow> Inr \<lparr> p_status = status response, body_bytes = length b,
                                     final_host = host_str (r_url response) \<rparr>))))"

subsection \<open>Hop-by-hop gates\<close>

text \<open>
  The interface between a redirect policy and the chains it allows: every follow decision concerns one
  candidate and the URLs before it.  What holds of each followed URL and the hop cap carry over to
  whole chains.
\<close>

fun hop_chain :: "('u list \<Rightarrow> 'u \<Rightarrow> bool) \<Rightarrow> 'u list \<Rightarrow> bool" where
  "hop_chain follow [] = False"
| "hop_chain follow [u] = True"
| "hop_chain follow (u # v # us) = (follow (v # us) u \<and> hop_chain follow (v # us))"

locale hop_gate =
  fixes follow :: "'u list \<Rightarrow> 'u \<Rightarrow> bool"
    and good :: "'u \<Rightarrow> bool"
    and hop_cap :: nat
  assumes follow_good: "follow us u \<Longrightarrow> good u"
    and follow_cap: "follow us u \<Longrightarrow> length us < hop_cap"
    and cap_pos: "0 < hop_cap"
begin

lemma chain_good: "hop_chain follow us \<Longrightarrow> list_all good (butlast us)"
  by (induction us rule: induct_list012) (auto dest: follow_good)

lemma chain_length: "hop_chain follow us \<Longrightarrow> length us \<le> hop_cap"
proof (cases us rule: remdups_adj.cases)
  case (3 u v ws)
  moreover assume "hop_chain follow us"
  ultimately have "follow (v # ws) u" by simp
  from follow_cap [OF this] 3 show ?thesis by simp
qed (use cap_pos in auto)

end

lemma redirect_policy_Follow:
  "redirect_policy al u us = Follow \<longleftrightarrow> scheme u = ''https'' \<and> length us < MAX_REDIRECTS
     \<and> (\<exists>h. host_str u = Some h \<and> permits al h)"
  by (auto simp: redirect_policy_def Let_def split: option.splits)

definition admitted_url :: "source_allowlist \<Rightarrow> url \<Rightarrow> bool" where
  "admitted_url al u \<longleftrightarrow> scheme u = ''https'' \<and> (\<exists>h. host_str u = Some h \<and> permits al h)"

interpretation policy: hop_gate "\<lambda>us u. redirect_policy al u us = Follow" "admitted_url al" MAX_REDIRECTS
  for al
  by unfold_locales (auto simp: redirect_policy_Follow admitted_url_def MAX_REDIRECTS_def)

lemma request_chain_hops:
  "request_chain al us \<longleftrightarrow> hop_chain (\<lambda>us u. redirect_policy al u us = Follow) us"
proof
  assume "request_chain al us"
  then show "hop_chain (\<lambda>us u. redirect_policy al u us = Follow) us"
  proof (induction rule: request_chain.induct)
    case (next_request us u)
    then show ?case by (cases us) auto
  qed simp
next
  show "request_chain al us" if "hop_chain (\<lambda>us u. redirect_policy al u us = Follow) us"
    using that
    by (induction "\<lambda>us u. redirect_policy al u us = Follow" us rule: hop_chain.induct)
      (auto intro: request_chain.intros)
qed

text \<open>C7: A request chain never leaves the allowlist: every URL requested after the first one is https
  and on a host the source's own gate permits, however the servers redirect, and at most ten URLs are
  requested in all.\<close>

theorem redirects_stay_admitted:
  assumes "request_chain al us"
  shows "list_all (admitted_url al) (butlast us) \<and> length us \<le> MAX_REDIRECTS"
  using assms policy.chain_good policy.chain_length by (simp add: request_chain_hops)

definition demo_url :: "string \<Rightarrow> string \<Rightarrow> url" where
  "demo_url s h = \<lparr> scheme = s, host = Some (Domain h), host_str = Some h, query_pairs = [], url_rest = [] \<rparr>"

theorem redirects_stay_admitted_witness:
  "admitted_url (hd oa_publisher_allowlist) (demo_url ''https'' ''www.nature.com'')"
proof -
  let ?al = "hd oa_publisher_allowlist"
  have "redirect_policy ?al (demo_url ''https'' ''www.nature.com'') [demo_url ''http'' ''doi.org''] = Follow"
    by code_simp
  then have "request_chain ?al [demo_url ''https'' ''www.nature.com'', demo_url ''http'' ''doi.org'']"
    by (intro request_chain.intros)
  from redirects_stay_admitted [OF this] show ?thesis by simp
qed

subsection \<open>The retry loop\<close>

text \<open>Which outcomes of one attempt the loop is allowed to retry.\<close>

definition transient_failure :: "reqwest_error + http_response \<Rightarrow> bool" where
  "transient_failure r = (case r of
     Inl e \<Rightarrow> reqwest_is_transient e
   | Inr resp \<Rightarrow>
       if \<not> (200 \<le> status resp \<and> status resp < 300) then is_transient_status (status resp)
       else \<not> (\<exists>len. content_length resp = Some len \<and> PDF_MAX_BYTES < len)
         \<and> (case read_body [] (chunks resp) of (_, None, Some e) \<Rightarrow> reqwest_is_transient e | _ \<Rightarrow> False))"

lemma fetch_attempt_Sleep_iff:
  "(\<exists>d. fetch_attempt render nanos m k r = Sleep d) \<longleftrightarrow> k < MAX_FETCH_RETRIES \<and> transient_failure r"
  by (auto simp: fetch_attempt_def transient_failure_def Let_def
      split: sum.splits if_splits prod.splits option.splits)

lemma fetch_attempt_Done:
  "\<not> (k < MAX_FETCH_RETRIES \<and> transient_failure r) \<Longrightarrow> \<exists>res. fetch_attempt render nanos m k r = Done res"
  using fetch_attempt_Sleep_iff [of render nanos m k r]
  by (cases "fetch_attempt render nanos m k r") auto

lemma backoff_delay_bound: "k < MAX_FETCH_RETRIES \<Longrightarrow> backoff_delay n k \<le> RETRY_MAX_DELAY"
proof -
  assume "k < MAX_FETCH_RETRIES"
  then have "min k 20 \<le> 2" by (simp add: MAX_FETCH_RETRIES_def)
  then have "(2::nat) ^ min k 20 \<le> 2 ^ 2" by (rule power_increasing) simp
  then have "sat_mul64 RETRY_BASE_DELAY (2 ^ min k 20) \<le> 2000"
    by (simp add: sat_mul64_def RETRY_BASE_DELAY_def)
  moreover have "(case n of Some n \<Rightarrow> n mod max RETRY_BASE_DELAY 1 | None \<Rightarrow> 0) \<le> 500"
    by (auto simp: RETRY_BASE_DELAY_def less_imp_le split: option.split)
  ultimately show ?thesis
    by (auto simp: backoff_delay_def Let_def sat_add64_def RETRY_MAX_DELAY_def)
qed

lemma parse_retry_after_bound: "parse_retry_after h = Some d \<Longrightarrow> d \<le> RETRY_MAX_DELAY"
  by (auto simp: parse_retry_after_def split: option.splits)

lemma fetch_attempt_Sleep_delay:
  assumes "fetch_attempt render nanos m k r = Sleep d"
  shows "d \<le> RETRY_MAX_DELAY"
  using fetch_attempt_Sleep_bound [OF assms] assms backoff_delay_bound parse_retry_after_bound
  by (auto simp: fetch_attempt_def Let_def split: sum.splits if_splits prod.splits option.splits)

text \<open>The loop returns what the first decisive attempt gave: the last one, or one not to be retried.\<close>

lemma fetch_loop_decisive:
  assumes "k \<le> MAX_FETCH_RETRIES"
  shows "\<exists>n ds res. fetch_loop render nanos m send k = (ds, res) \<and> k \<le> n \<and> n \<le> MAX_FETCH_RETRIES
    \<and> length ds = n - k \<and> list_all (\<lambda>d. d \<le> RETRY_MAX_DELAY) ds
    \<and> (\<forall>j. k \<le> j \<and> j < n \<longrightarrow> transient_failure (send j))
    \<and> (n < MAX_FETCH_RETRIES \<longrightarrow> \<not> transient_failure (send n))
    \<and> fetch_attempt render nanos m n (send n) = Done res"
  using assms
proof (induction "MAX_FETCH_RETRIES - k" arbitrary: k)
  case 0
  then have k: "k = MAX_FETCH_RETRIES" by simp
  obtain res where res: "fetch_attempt render nanos m k (send k) = Done res"
    using fetch_attempt_Done [of k "send k" render nanos m] k by auto
  then have "fetch_loop render nanos m send k = ([], res)"
    by (simp add: fetch_loop.simps [of render nanos m send k])
  with res k show ?case
    by (auto intro!: exI [of _ k])
next
  case (Suc d)
  show ?case
  proof (cases "fetch_attempt render nanos m k (send k)")
    case (Done res)
    then have "\<not> transient_failure (send k)"
      using fetch_attempt_Sleep_iff [of render nanos m k "send k"] Suc.hyps(2) by auto
    with Done Suc.prems show ?thesis
      by (auto simp: fetch_loop.simps [of render nanos m send k] intro!: exI [of _ k])
  next
    case (Sleep t)
    have d: "d = MAX_FETCH_RETRIES - Suc k" "Suc k \<le> MAX_FETCH_RETRIES"
      using Suc.hyps(2) by auto
    from Suc.hyps(1) [OF d] obtain n ds res where
      IH: "fetch_loop render nanos m send (Suc k) = (ds, res)" "Suc k \<le> n" "n \<le> MAX_FETCH_RETRIES"
        "length ds = n - Suc k" "list_all (\<lambda>d. d \<le> RETRY_MAX_DELAY) ds"
        "\<forall>j. Suc k \<le> j \<and> j < n \<longrightarrow> transient_failure (send j)"
        "n < MAX_FETCH_RETRIES \<longrightarrow> \<not> transient_failure (send n)"
        "fetch_attempt render nanos m n (send n) = Done res"
      by blast
    from Sleep have "transient_failure (send k)" "t \<le> RETRY_MAX_DELAY"
      using fetch_attempt_Sleep_iff [of render nanos m k "send k"] fetch_attempt_Sleep_delay by blast+
    moreover from this have "transient_failure (send j)" if "k \<le> j" "j < n" for j
      using IH(6) that by (cases "j = k") auto
    moreover from IH Sleep have "fetch_loop render nanos m send k = (t # ds, res)" "k \<le> n"
        "length (t # ds) = n - k"
      by (auto simp: fetch_loop.simps [of render nanos m send k])
    ultimately show ?thesis
      using IH(3,5,7,8) by (intro exI [of _ n] exI [of _ "t # ds"] exI [of _ res]) simp
  qed
qed

lemma sum_list_le_mult: "list_all (\<lambda>d. d \<le> b) ds \<Longrightarrow> sum_list ds \<le> length ds * (b::nat)"
  by (induction ds) auto

lemma fetch_inner_cases:
  obtains e where "fetch_inner ss nok vok render nanos send c source u hs m = ([], Inl e)"
  | client hm where "clients c source = Some client" "check_headers nok vok hs = Inr hm"
      "fetch_inner ss nok vok render nanos send c source u hs m
         = fetch_loop render nanos m (send client (upgrade_http_to_https ss u) hm) 0"
  by (cases "clients c source"; cases "check_headers nok vok hs") (auto simp: fetch_inner_def)

text \<open>C25: A fetch is bounded whatever the servers answer: at most three retries after the first try, and
  at most 90 s of waiting in all, jitter and server-supplied \<^verbatim>\<open>Retry-After\<close> values included.\<close>

theorem fetch_is_bounded:
  "length (fst (fetch_inner ss nok vok render nanos send c source u hs m)) \<le> MAX_FETCH_RETRIES
   \<and> sum_list (fst (fetch_inner ss nok vok render nanos send c source u hs m)) \<le> 90000"
proof (cases rule: fetch_inner_cases [of ss nok vok render nanos send c source u hs m])
  case (2 client hm)
  from fetch_loop_decisive [of 0 render nanos m "send client (upgrade_http_to_https ss u) hm"]
  obtain ds res where l: "fetch_loop render nanos m (send client (upgrade_http_to_https ss u) hm) 0 = (ds, res)"
      "length ds \<le> MAX_FETCH_RETRIES" "list_all (\<lambda>d. d \<le> RETRY_MAX_DELAY) ds"
    by auto
  from l(2) have "length ds * RETRY_MAX_DELAY \<le> 3 * RETRY_MAX_DELAY"
    by (intro mult_le_mono1) (simp add: MAX_FETCH_RETRIES_def)
  with sum_list_le_mult [OF l(3)] have "sum_list ds \<le> 90000"
    by (simp add: RETRY_MAX_DELAY_def)
  with l 2(3) show ?thesis by (simp only: fst_conv)
qed simp

lemma read_body_ok:
  "read_body buf cs = (b, None, None) \<Longrightarrow> length buf \<le> PDF_MAX_BYTES \<Longrightarrow>
     \<exists>bs. cs = map Inr bs \<and> b = buf @ concat bs \<and> length b \<le> PDF_MAX_BYTES"
proof (induction buf cs rule: read_body.induct)
  case (3 buf chunk cs)
  then have "sat_add64 (length buf) (length chunk) \<le> PDF_MAX_BYTES"
    by (auto simp: Let_def split: if_splits)
  then have "length (buf @ chunk) \<le> PDF_MAX_BYTES"
    by (simp add: sat_add64_def U64_MAX_def PDF_MAX_BYTES_def min_def split: if_splits)
  with 3 obtain bs where "cs = map Inr bs" "b = (buf @ chunk) @ concat bs" "length b \<le> PDF_MAX_BYTES"
    by (auto simp: Let_def split: if_splits)
  then show ?case by (intro exI [of _ "chunk # bs"]) simp
qed auto

lemma padded_magic: "take 5 (b @ replicate 5 CHR 0x00) = PDF_MAGIC \<Longrightarrow> take 5 b = PDF_MAGIC"
proof -
  assume p: "take 5 (b @ replicate 5 CHR 0x00) = PDF_MAGIC"
  have "5 \<le> length b"
  proof (rule ccontr)
    assume "\<not> 5 \<le> length b"
    then have "(take 5 (b @ replicate 5 CHR 0x00)) ! 4 = CHR 0x00"
      by (simp add: nth_append nth_replicate)
    with p show False by (simp add: PDF_MAGIC_def)
  qed
  with p show ?thesis by simp
qed

lemma fetch_attempt_success:
  assumes "fetch_attempt render nanos m k r = Done (Inr (body, u))"
  shows "\<exists>resp bs. r = Inr resp \<and> 200 \<le> status resp \<and> status resp < 300 \<and> u = r_url resp
    \<and> chunks resp = map Inr bs \<and> body = concat bs \<and> length body \<le> PDF_MAX_BYTES
    \<and> (m \<longrightarrow> take 5 body = PDF_MAGIC)"
proof -
  from assms obtain resp where r: "r = Inr resp" "200 \<le> status resp" "status resp < 300"
      "u = r_url resp" "read_body [] (chunks resp) = (body, None, None)"
      "m \<Longrightarrow> take 5 (body @ replicate 5 CHR 0x00) = PDF_MAGIC"
    by (auto simp: fetch_attempt_def Let_def split: sum.splits if_splits prod.splits option.splits)
  with read_body_ok [OF r(5)] padded_magic show ?thesis by auto
qed

text \<open>C8: A successful fetch is exactly one complete 2xx response of the registered client: the body is
  the concatenation of that response's chunks with none missing, at most 100 MB long, starting with
  \<^verbatim>\<open>%PDF-\<close> when a PDF was asked for, and every earlier attempt was a failure of the transient class.\<close>

theorem fetch_success_is_one_response:
  assumes "fetch_inner ss nok vok render nanos send c source u hs m = (ds, Inr (body, v))"
  shows "\<exists>client hm resp bs. clients c source = Some client
    \<and> send client (upgrade_http_to_https ss u) hm (length ds) = Inr resp
    \<and> 200 \<le> status resp \<and> status resp < 300 \<and> v = r_url resp
    \<and> chunks resp = map Inr bs \<and> body = concat bs \<and> length body \<le> PDF_MAX_BYTES
    \<and> (m \<longrightarrow> take 5 body = PDF_MAGIC)
    \<and> (\<forall>j < length ds. transient_failure (send client (upgrade_http_to_https ss u) hm j))"
proof (cases rule: fetch_inner_cases [of ss nok vok render nanos send c source u hs m])
  case (1 e)
  with assms show ?thesis by simp
next
  case (2 client hm)
  let ?send = "send client (upgrade_http_to_https ss u) hm"
  from fetch_loop_decisive [of 0 render nanos m ?send] 2 assms
  have "fetch_attempt render nanos m (length ds) (?send (length ds)) = Done (Inr (body, v))"
    "\<forall>j < length ds. transient_failure (?send j)"
    by auto
  with fetch_attempt_success [OF this(1)] 2(1) show ?thesis by blast
qed

definition demo_send :: "source_allowlist \<Rightarrow> url \<Rightarrow> (string \<times> string) list \<Rightarrow> nat \<Rightarrow> reqwest_error + http_response" where
  "demo_send al u hm n =
     (if n = 0 then Inr \<lparr> r_url = u, status = 503, retry_after_hdr = Some ''2'', content_length = None, chunks = [] \<rparr>
      else Inr \<lparr> r_url = u, status = 200, retry_after_hdr = None, content_length = Some 9,
                chunks = [Inr ''%PDF'', Inr ''-1.7x''] \<rparr>)"

theorem fetch_success_is_one_response_witness:
  "\<exists>client hm resp. demo_send client (demo_url ''https'' ''arxiv.org'') hm 1 = Inr resp \<and> status resp = 200
     \<and> transient_failure (demo_send client (demo_url ''https'' ''arxiv.org'') hm 0)"
proof -
  let ?c = "\<lparr> clients = [''arxiv'' \<mapsto> allowlist_new ''arxiv'' []], allowlists = Map.empty \<rparr>"
  have "fetch_inner (\<lambda>_ _. None) (\<lambda>_. True) (\<lambda>_. True) url_rest (\<lambda>_. None) demo_send ?c ''arxiv''
      (demo_url ''https'' ''arxiv.org'') [] True
    = ([2000], Inr (''%PDF-1.7x'', demo_url ''https'' ''arxiv.org''))"
    by code_simp
  from fetch_success_is_one_response [OF this]
  obtain client hm resp where "demo_send client (upgrade_http_to_https (\<lambda>_ _. None) (demo_url ''https'' ''arxiv.org'')) hm 1 = Inr resp"
    "transient_failure (demo_send client (upgrade_http_to_https (\<lambda>_ _. None) (demo_url ''https'' ''arxiv.org'')) hm 0)"
    by auto
  moreover have "upgrade_http_to_https (\<lambda>_ _. None) (demo_url ''https'' ''arxiv.org'') = demo_url ''https'' ''arxiv.org''"
    by code_simp
  ultimately show ?thesis by (auto simp: demo_send_def)
qed

text \<open>
  Masking a URL forgets the values of its key parameters.  What a redacted URL shows is a function of the
  masked URL, so it cannot depend on a key.
\<close>

definition mask_url :: "url \<Rightarrow> url" where
  "mask_url u = u\<lparr>query_pairs := redact_pairs (query_pairs u)\<rparr>"

definition mask_result :: "reqwest_error + http_response \<Rightarrow> reqwest_error + http_response" where
  "mask_result r = map_ok (\<lambda>resp. resp\<lparr>r_url := mask_url (r_url resp)\<rparr>) r"

lemma redact_pairs_id: "list_all (\<lambda>(k, _). k \<notin> set API_KEY_PARAMS) ps \<Longrightarrow> redact_pairs ps = ps"
  by (induction ps) (auto simp: redact_pairs_def)

lemma redact_is_render_mask: "redact_api_key_query render u = render (mask_url u)"
  by (simp add: redact_api_key_query_def mask_url_def redact_pairs_id)

lemma redact_pairs_keys:
  "(k, v) \<in> set (redact_pairs ps) \<Longrightarrow> k = ''api_key'' \<or> k = ''apikey'' \<Longrightarrow> v = ''REDACTED''"
  by (auto simp: redact_pairs_def API_KEY_PARAMS_def split: if_splits)

lemma fetch_attempt_masked:
  assumes "mask_result r = mask_result r'"
  shows "(case fetch_attempt render nanos m k r of
           Sleep d \<Rightarrow> fetch_attempt render nanos m k r' = Sleep d
         | Done (Inl e) \<Rightarrow> fetch_attempt render nanos m k r' = Done (Inl e)
         | Done (Inr _) \<Rightarrow> True)"
proof (cases r)
  case (Inl e)
  with assms have "r' = Inl e"
    by (cases r') (auto simp: mask_result_def map_ok_def)
  with Inl show ?thesis by (auto split: attempt_step.split sum.split)
next
  case (Inr resp)
  with assms obtain resp' where r': "r' = Inr resp'"
      and eq: "resp\<lparr>r_url := mask_url (r_url resp)\<rparr> = resp'\<lparr>r_url := mask_url (r_url resp')\<rparr>"
    by (cases r') (auto simp: mask_result_def map_ok_def)
  from eq have same: "mask_url (r_url resp) = mask_url (r_url resp')" "status resp = status resp'"
      "retry_after_hdr resp = retry_after_hdr resp'" "content_length resp = content_length resp'"
      "chunks resp = chunks resp'"
    by (cases resp; cases resp'; simp)+
  show ?thesis
    unfolding fetch_attempt_def Inr r' redact_is_render_mask
    by (simp add: same Let_def split: attempt_step.split sum.split prod.split option.split)
qed

lemma fetch_loop_masked:
  assumes "\<And>n. mask_result (s n) = mask_result (s' n)"
  shows "fetch_loop render nanos m s k = (ds, Inl e) \<Longrightarrow> fetch_loop render nanos m s' k = (ds, Inl e)"
proof (induction "MAX_FETCH_RETRIES - k" arbitrary: k ds rule: less_induct)
  case less
  show ?case
  proof (cases "fetch_attempt render nanos m k (s k)")
    case (Sleep d)
    then have step: "fetch_attempt render nanos m k (s' k) = Sleep d"
      using fetch_attempt_masked [OF assms, of render nanos m k k] by simp
    have "MAX_FETCH_RETRIES - (k + 1) < MAX_FETCH_RETRIES - k"
      using fetch_attempt_Sleep_bound [OF Sleep] by simp
    with less.hyps less.prems Sleep step show ?thesis
      by (auto simp: fetch_loop.simps [of _ _ _ _ k] split: prod.splits)
  next
    case (Done res)
    with less.prems have "res = Inl e" "ds = []"
      by (auto simp: fetch_loop.simps [of _ _ _ _ k])
    moreover from this Done have "fetch_attempt render nanos m k (s' k) = Done (Inl e)"
      using fetch_attempt_masked [OF assms, of render nanos m k k] by simp
    ultimately show ?thesis by (simp add: fetch_loop.simps [of _ _ _ _ k])
  qed
qed

text \<open>No key leaks through what a failed fetch reports: take two fetches whose requests may carry
  different keys and whose servers answer alike up to the values of \<^verbatim>\<open>api_key\<close> and \<^verbatim>\<open>apikey\<close> parameters
  in the final URLs.  If one fails, the other fails with the same error, URL text included, after the
  same waits.\<close>

theorem error_does_not_depend_on_keys:
  assumes "\<And>client hm n. mask_result (send client (upgrade_http_to_https ss u) hm n)
                  = mask_result (send' client (upgrade_http_to_https ss u') hm n)"
    and "fetch_inner ss nok vok render nanos send c source u hs m = (ds, Inl e)"
  shows "fetch_inner ss nok vok render nanos send' c source u' hs m = (ds, Inl e)"
  using assms(2) fetch_loop_masked
    [where s = "send (the (clients c source)) (upgrade_http_to_https ss u) hm"
       and s' = "send' (the (clients c source)) (upgrade_http_to_https ss u') hm" for hm, OF assms(1)]
  by (auto simp: fetch_inner_def Let_def split: option.splits sum.splits)

definition keyed_url :: "string \<Rightarrow> url" where
  "keyed_url key = \<lparr> scheme = ''https'', host = Some (Domain ''api.springernature.com''),
     host_str = Some ''api.springernature.com'', query_pairs = [(''q'', ''doi:10.1/x''), (''api_key'', key)],
     url_rest = [] \<rparr>"

definition forbidding_send :: "source_allowlist \<Rightarrow> url \<Rightarrow> (string \<times> string) list \<Rightarrow> nat \<Rightarrow> reqwest_error + http_response" where
  "forbidding_send al u hm n =
     Inr \<lparr> r_url = u, status = 403, retry_after_hdr = None, content_length = None, chunks = [] \<rparr>"

definition show_query :: "url \<Rightarrow> string" where
  "show_query u = concat (map (\<lambda>(k, v). k @ ''='' @ v @ ''&'') (query_pairs u))"

theorem error_does_not_depend_on_keys_witness:
  "fetch_inner (\<lambda>_ _. None) (\<lambda>_. True) (\<lambda>_. True) show_query (\<lambda>_. None) forbidding_send
     \<lparr> clients = [''springer'' \<mapsto> allowlist_new ''springer'' []], allowlists = Map.empty \<rparr> ''springer''
     (keyed_url ''hunter2'') [] False
   = ([], Inl (HttpStatus 403 ''q=doi:10.1/x&api_key=REDACTED&'' None))"
proof (rule error_does_not_depend_on_keys)
  show "fetch_inner (\<lambda>_ _. None) (\<lambda>_. True) (\<lambda>_. True) show_query (\<lambda>_. None) forbidding_send
     \<lparr> clients = [''springer'' \<mapsto> allowlist_new ''springer'' []], allowlists = Map.empty \<rparr> ''springer''
     (keyed_url ''secret'') [] False
   = ([], Inl (HttpStatus 403 ''q=doi:10.1/x&api_key=REDACTED&'' None))"
    by code_simp
next
  fix client hm n
  show "mask_result (forbidding_send client (upgrade_http_to_https (\<lambda>_ _. None) (keyed_url ''secret'')) hm n)
      = mask_result (forbidding_send client (upgrade_http_to_https (\<lambda>_ _. None) (keyed_url ''hunter2'')) hm n)"
    by (simp add: forbidding_send_def keyed_url_def upgrade_http_to_https_def mask_result_def map_ok_def
        mask_url_def redact_pairs_def API_KEY_PARAMS_def)
qed

subsection \<open>Construction and probe\<close>

lemma register_source_same:
  "clients c = allowlists c \<Longrightarrow> register_source b (Inr c) e = Inr c' \<Longrightarrow> clients c' = allowlists c'"
  by (auto simp: register_source_def Let_def split: if_splits)

lemma register_sources_failed: "foldl (register_source b) (Inl c) als = Inl c"
  by (induction als) (simp_all add: register_source_def)

lemma register_sources_same:
  "foldl (register_source b) (Inr c) als = Inr c' \<Longrightarrow> clients c = allowlists c \<Longrightarrow>
     clients c' = allowlists c'"
proof (induction als arbitrary: c)
  case (Cons a als)
  show ?case
  proof (cases "register_source b (Inr c) a")
    case (Inl d)
    with Cons.prems(1) show ?thesis by (simp add: register_sources_failed)
  next
    case (Inr d)
    with Cons show ?thesis using register_source_same by simp
  qed
qed simp

text \<open>The pre-fetch check and the redirect closure read the same allowlist.\<close>

lemma precheck_agrees_with_redirects:
  "http_client_new b als = Inr c \<Longrightarrow> clients c source = client_source_allowlist c source"
  using register_sources_same [of b "\<lparr> clients = Map.empty, allowlists = Map.empty \<rparr>" als]
  by (auto simp: http_client_new_def client_source_allowlist_def split: sum.splits)

text \<open>
  The probe reads the whole body: unlike a fetch it has no size cap, although its comment says the read
  is capped by the same limits.
\<close>

lemma collect_body_all: "collect_body (map Inr bs) = Inr (concat bs)"
  by (induction bs) simp_all

theorem probe_body_is_not_capped:
  assumes "clients c source = Some al" and "allowlists c source = Some al"
    and "host_str u = Some h" and "permits al h"
    and "send al u = Inr resp" and "chunks resp = [Inr b]"
  shows "probe send c source u = Inr \<lparr> p_status = status resp, body_bytes = length b,
           final_host = host_str (r_url resp) \<rparr>"
  using assms collect_body_all [of "[b]"] by (simp add: probe_def client_source_allowlist_def)

end
