(* ===== verification/Repeat.thy ===== *)
theory Repeat
  imports Refs Errors "HOL-Library.AList"
begin

text \<open>
  Repeat suppression (\<^verbatim>\<open>crates/doiget-core/src/repeat.rs\<close>): the per-session index of recent answers,
  what it records (\<^verbatim>\<open>observe_at\<close>) and what it decides (\<^verbatim>\<open>check_at\<close>).  The hash map is an association
  list with distinct keys, whose length is \<^verbatim>\<open>len()\<close>.  An \<^verbatim>\<open>Instant\<close> is a number of nanoseconds; the
  fingerprint of \<^verbatim>\<open>config.toml\<close> and the wall clock are arguments, \<open>rfc\<close> is the RFC 3339 rendering.
  The mutex makes each operation one step.
\<close>

definition NANOS :: nat where
  "NANOS = 1000000000"

definition REPLAY_WINDOW :: nat where
  "REPLAY_WINDOW = 600 * NANOS"

definition RETRY_AFTER_GAP :: nat where
  "RETRY_AFTER_GAP = 30 * NANOS"

definition SWEEP_FLOOR :: nat where
  "SWEEP_FLOOR = 64"

record repeat_entry =
  e_code :: error_code
  e_at :: nat
  e_at_utc :: nat
  e_fingerprint :: nat

datatype verdict =
    Proceed
  | Replay error_code string
  | Wait error_code string nat

record repeat_index =
  entries :: "(string \<times> repeat_entry) list"
  swept_len :: nat

definition repeat_default :: repeat_index where
  "repeat_default = \<lparr> entries = [], swept_len = 0 \<rparr>"

definition repeat_key :: "(string \<Rightarrow> string) \<Rightarrow> (string \<Rightarrow> string) \<Rightarrow> string \<Rightarrow> string" where
  "repeat_key sha hx ref_input = (case ref_parse ref_input of
     Inl _ \<Rightarrow> str_trim ref_input
   | Inr r \<Rightarrow> safekey_as_str (ref_safekey sha hx r))"

text \<open>The sweep in front of an insertion.\<close>

definition sweep :: "nat \<Rightarrow> repeat_index \<Rightarrow> repeat_index" where
  "sweep now idx =
     (let due = max SWEEP_FLOOR (2 * swept_len idx) in
      if due \<le> length (entries idx)
      then let kept = filter (\<lambda>(_, e). now - e_at e < REPLAY_WINDOW) (entries idx) in
        \<lparr> entries = kept, swept_len = length kept \<rparr>
      else idx)"

definition observe_key ::
  "repeat_index \<Rightarrow> string \<Rightarrow> error_code option \<Rightarrow> nat \<Rightarrow> nat \<Rightarrow> nat \<Rightarrow> repeat_index" where
  "observe_key idx k oc now now_utc fingerprint = (case oc of
     None \<Rightarrow> idx\<lparr>entries := AList.delete k (entries idx)\<rparr>
   | Some c \<Rightarrow>
       (let same = (\<lambda>e. e_fingerprint e = fingerprint
                        \<and> code_disposition (e_code e) = code_disposition c);
            fresh = (let swept = sweep now idx in
              swept\<lparr>entries := AList.update k
                 \<lparr> e_code = c, e_at = now, e_at_utc = now_utc, e_fingerprint = fingerprint \<rparr>
                 (entries swept)\<rparr>) in
        case map_of (entries idx) k of
          Some e \<Rightarrow>
            if same e
            then (if code_disposition c \<noteq> RetryAfter
                  then idx\<lparr>entries := AList.update k (e\<lparr>e_code := c\<rparr>) (entries idx)\<rparr>
                  else idx)
            else fresh
        | None \<Rightarrow> fresh))"

definition observe_at ::
  "(string \<Rightarrow> string) \<Rightarrow> (string \<Rightarrow> string) \<Rightarrow> repeat_index \<Rightarrow> string \<Rightarrow> error_code option
     \<Rightarrow> nat \<Rightarrow> nat \<Rightarrow> nat \<Rightarrow> repeat_index" where
  "observe_at sha hx idx ref_input = observe_key idx (repeat_key sha hx ref_input)"

definition check_key :: "(nat \<Rightarrow> string) \<Rightarrow> repeat_index \<Rightarrow> string \<Rightarrow> nat \<Rightarrow> nat \<Rightarrow> verdict" where
  "check_key rfc idx k now fingerprint = (case map_of (entries idx) k of
     None \<Rightarrow> Proceed
   | Some e \<Rightarrow>
       if e_fingerprint e \<noteq> fingerprint then Proceed
       else
         let elapsed = now - e_at e; at = rfc (e_at_utc e) in
         (case code_disposition (e_code e) of
            RetryAfter \<Rightarrow>
              if elapsed < RETRY_AFTER_GAP
              then Wait (e_code e) at (max ((RETRY_AFTER_GAP - elapsed) div NANOS) 1)
              else Proceed
          | _ \<Rightarrow> if elapsed < REPLAY_WINDOW then Replay (e_code e) at else Proceed))"

definition check_at ::
  "(string \<Rightarrow> string) \<Rightarrow> (string \<Rightarrow> string) \<Rightarrow> (nat \<Rightarrow> string) \<Rightarrow> repeat_index \<Rightarrow> string
     \<Rightarrow> nat \<Rightarrow> nat \<Rightarrow> verdict" where
  "check_at sha hx rfc idx ref_input = check_key rfc idx (repeat_key sha hx ref_input)"

subsection \<open>The map under the operations\<close>

definition repeat_wf :: "repeat_index \<Rightarrow> bool" where
  "repeat_wf idx \<longleftrightarrow> distinct (map fst (entries idx))
     \<and> length (entries idx) \<le> max SWEEP_FLOOR (2 * swept_len idx)"

lemma map_of_filter_distinct:
  "distinct (map fst xs) \<Longrightarrow> map_of (filter (\<lambda>(_, v). P v) xs) k =
     (case map_of xs k of Some v \<Rightarrow> if P v then Some v else None | None \<Rightarrow> None)"
  by (induction xs) (auto split: option.split simp: map_of_eq_None_iff image_iff)

lemma length_update_le: "length (AList.update k v xs) \<le> Suc (length xs)"
  by (induction xs) auto

lemma length_update_present: "map_of xs k \<noteq> None \<Longrightarrow> length (AList.update k v xs) = length xs"
  by (induction xs) (auto split: if_splits)

lemma length_delete_le: "length (AList.delete k xs) \<le> length xs"
  by (simp add: AList.delete_eq)

lemma sweep_wf:
  assumes "repeat_wf idx"
  shows "distinct (map fst (entries (sweep now idx)))"
    and "Suc (length (entries (sweep now idx))) \<le> max SWEEP_FLOOR (2 * swept_len (sweep now idx))"
proof -
  show "distinct (map fst (entries (sweep now idx)))"
    using assms by (auto simp: sweep_def Let_def repeat_wf_def distinct_map_filter)
  show "Suc (length (entries (sweep now idx))) \<le> max SWEEP_FLOOR (2 * swept_len (sweep now idx))"
    by (auto simp: sweep_def Let_def SWEEP_FLOOR_def)
qed

lemma observe_key_wf: "repeat_wf idx \<Longrightarrow> repeat_wf (observe_key idx k oc now u fp)"
proof -
  assume wf: "repeat_wf idx"
  have del: "repeat_wf (idx\<lparr>entries := AList.delete k (entries idx)\<rparr>)"
    using wf length_delete_le [of k "entries idx"]
    by (auto simp: repeat_wf_def AList.distinct_delete)
  have upd: "map_of (entries idx) k = Some e \<Longrightarrow> repeat_wf (idx\<lparr>entries := AList.update k v (entries idx)\<rparr>)" for e v
    using wf by (simp add: repeat_wf_def AList.distinct_update length_update_present)
  have fresh: "repeat_wf ((sweep now idx)\<lparr>entries := AList.update k v (entries (sweep now idx))\<rparr>)" for v
    using sweep_wf [OF wf, of now] length_update_le [of k v "entries (sweep now idx)"]
    by (auto simp: repeat_wf_def AList.distinct_update)
  show ?thesis
    using wf del upd fresh by (auto simp: observe_key_def Let_def split: option.split)
qed

text \<open>
  An operation on one key leaves every other key alone, except that an entry at least as old as the
  replay window may be swept.
\<close>

lemma sweep_lookup:
  assumes "distinct (map fst (entries idx))" and "map_of (entries idx) k = Some e"
    and "now - e_at e < REPLAY_WINDOW"
  shows "map_of (entries (sweep now idx)) k = Some e"
  using assms map_of_filter_distinct [OF assms(1), of "\<lambda>e. now - e_at e < REPLAY_WINDOW" k]
  by (simp add: sweep_def Let_def)

lemma observe_key_frame:
  assumes "repeat_wf idx" and "map_of (entries idx) k = Some e" and "now - e_at e < REPLAY_WINDOW"
    and "k' \<noteq> k"
  shows "map_of (entries (observe_key idx k' oc now u fp)) k = Some e"
  using assms sweep_lookup [of idx k e now]
  by (auto simp: observe_key_def Let_def repeat_wf_def AList.update_conv' AList.delete_conv'
      split: option.split)

lemma observe_key_fresh:
  "map_of (entries idx) k = None \<or>
     (\<exists>e. map_of (entries idx) k = Some e
        \<and> (e_fingerprint e \<noteq> fp \<or> code_disposition (e_code e) \<noteq> code_disposition c))
   \<Longrightarrow> map_of (entries (observe_key idx k (Some c) now u fp)) k
      = Some \<lparr> e_code = c, e_at = now, e_at_utc = u, e_fingerprint = fp \<rparr>"
  by (auto simp: observe_key_def Let_def AList.update_conv' split: option.split)

text \<open>The answer of a key: when it was first given, its disposition and its fingerprint.\<close>

definition holds_answer :: "repeat_index \<Rightarrow> string \<Rightarrow> nat \<Rightarrow> disposition \<Rightarrow> nat \<Rightarrow> bool" where
  "holds_answer idx k t d fp \<longleftrightarrow> (\<exists>e. map_of (entries idx) k = Some e \<and> e_at e = t
     \<and> code_disposition (e_code e) = d \<and> e_fingerprint e = fp)"

lemma observe_key_same:
  assumes "holds_answer idx k t (code_disposition c) fp"
  shows "holds_answer (observe_key idx k (Some c) now u fp) k t (code_disposition c) fp"
  using assms by (auto simp: holds_answer_def observe_key_def AList.update_conv')

text \<open>One recorded answer of the session: input, code, clock readings, fingerprint.\<close>

type_synonym observation = "string \<times> error_code option \<times> nat \<times> nat \<times> nat"

definition observe_all ::
  "(string \<Rightarrow> string) \<Rightarrow> (string \<Rightarrow> string) \<Rightarrow> observation list \<Rightarrow> repeat_index \<Rightarrow> repeat_index" where
  "observe_all sha hx obs idx =
     fold (\<lambda>(s, oc, now, u, fp) idx. observe_at sha hx idx s oc now u fp) obs idx"

lemma observe_all_wf: "repeat_wf idx \<Longrightarrow> repeat_wf (observe_all sha hx obs idx)"
  unfolding observe_all_def
  by (induction obs arbitrary: idx) (auto simp: observe_at_def observe_key_wf)

text \<open>An observation that cannot end an answer: other work, or the same disposition again.\<close>

definition keeps_answer ::
  "(string \<Rightarrow> string) \<Rightarrow> (string \<Rightarrow> string) \<Rightarrow> string \<Rightarrow> disposition \<Rightarrow> nat \<Rightarrow> observation \<Rightarrow> bool" where
  "keeps_answer sha hx k d fp ob = (case ob of (s, oc, now, u, fp') \<Rightarrow>
     repeat_key sha hx s \<noteq> k
     \<or> (fp' = fp \<and> (case oc of Some c \<Rightarrow> code_disposition c = d | None \<Rightarrow> False)))"

lemma observe_all_keeps:
  assumes "repeat_wf idx" and "holds_answer idx k t d fp"
    and "list_all (\<lambda>ob. keeps_answer sha hx k d fp ob \<and> fst (snd (snd ob)) - t < REPLAY_WINDOW) obs"
  shows "holds_answer (observe_all sha hx obs idx) k t d fp"
  using assms
proof (induction obs arbitrary: idx)
  case (Cons ob obs)
  obtain s oc now u fp' where ob: "ob = (s, oc, now, u, fp')" by (cases ob) auto
  let ?i = "observe_key idx (repeat_key sha hx s) oc now u fp'"
  have "holds_answer ?i k t d fp"
  proof (cases "repeat_key sha hx s = k")
    case True
    with Cons.prems(3) ob obtain c where "oc = Some c" "code_disposition c = d" "fp' = fp"
      by (auto simp: keeps_answer_def split: option.splits)
    with True Cons.prems(2) observe_key_same [of idx k t c fp now u] show ?thesis by simp
  next
    case False
    with Cons.prems ob observe_key_frame [of idx k _ now "repeat_key sha hx s" oc u fp'] show ?thesis
      by (auto simp: holds_answer_def)
  qed
  with Cons observe_key_wf [of idx] ob show ?case
    by (simp add: observe_all_def observe_at_def)
qed (simp add: observe_all_def)

lemma check_holds:
  assumes "holds_answer idx k t d fp"
  shows "check_key rfc idx k now fp =
    (case d of
       RetryAfter \<Rightarrow>
         if now - t < RETRY_AFTER_GAP
         then Wait (e_code (the (map_of (entries idx) k))) (rfc (e_at_utc (the (map_of (entries idx) k))))
                (max ((RETRY_AFTER_GAP - (now - t)) div NANOS) 1)
         else Proceed
     | _ \<Rightarrow>
         if now - t < REPLAY_WINDOW
         then Replay (e_code (the (map_of (entries idx) k))) (rfc (e_at_utc (the (map_of (entries idx) k))))
         else Proceed)"
proof -
  from assms obtain e where "map_of (entries idx) k = Some e" "e_at e = t"
      "code_disposition (e_code e) = d" "e_fingerprint e = fp"
    by (auto simp: holds_answer_def)
  then show ?thesis by (cases d) (simp_all add: check_key_def Let_def)
qed

lemma holds_code:
  "holds_answer idx k t d fp \<Longrightarrow> code_disposition (e_code (the (map_of (entries idx) k))) = d"
  by (auto simp: holds_answer_def)

lemma default_wf: "repeat_wf repeat_default"
  by (simp add: repeat_wf_def repeat_default_def)

lemma first_answer_held:
  assumes "map_of (entries (observe_all sha hx before repeat_default)) (repeat_key sha hx s) = None"
    and "list_all (\<lambda>ob. keeps_answer sha hx (repeat_key sha hx s) (code_disposition c) fp ob
           \<and> fst (snd (snd ob)) - t < REPLAY_WINDOW) later"
  shows "holds_answer (observe_all sha hx (before @ (s, Some c, t, u, fp) # later) repeat_default)
           (repeat_key sha hx s) t (code_disposition c) fp"
proof -
  let ?i = "observe_all sha hx before repeat_default"
  let ?j = "observe_at sha hx ?i s (Some c) t u fp"
  have wf: "repeat_wf ?i" by (rule observe_all_wf [OF default_wf])
  then have "repeat_wf ?j" by (simp add: observe_at_def observe_key_wf)
  moreover have "holds_answer ?j (repeat_key sha hx s) t (code_disposition c) fp"
    using observe_key_fresh [of ?i "repeat_key sha hx s" fp c t u] assms(1)
    by (simp add: holds_answer_def observe_at_def)
  ultimately have "holds_answer (observe_all sha hx later ?j) (repeat_key sha hx s) t (code_disposition c) fp"
    using assms(2) by (rule observe_all_keeps)
  then show ?thesis by (simp add: observe_all_def)
qed

subsection \<open>Properties of repeat suppression\<close>

text \<open>C24: A settled answer is not asked for again: once a session was first told a terminal or
  needs-config code about a work, every check of that work within ten minutes, under the same
  configuration, replays a code of the same disposition, whatever happened in between to other works and
  however often the caller repeated the question (so a loop neither escapes nor slides the window).\<close>

theorem settled_answer_is_replayed:
  assumes "map_of (entries (observe_all sha hx before repeat_default)) (repeat_key sha hx s) = None"
    and "code_disposition c \<noteq> RetryAfter"
    and "list_all (\<lambda>ob. keeps_answer sha hx (repeat_key sha hx s) (code_disposition c) fp ob
           \<and> fst (snd (snd ob)) - t < REPLAY_WINDOW) later"
    and "now - t < REPLAY_WINDOW"
  shows "\<exists>c' at. check_at sha hx rfc
      (observe_all sha hx (before @ (s, Some c, t, u, fp) # later) repeat_default) s now fp = Replay c' at
    \<and> code_disposition c' = code_disposition c"
proof -
  let ?i = "observe_all sha hx (before @ (s, Some c, t, u, fp) # later) repeat_default"
  have h: "holds_answer ?i (repeat_key sha hx s) t (code_disposition c) fp"
    by (rule first_answer_held [OF assms(1,3)])
  show ?thesis
    using check_holds [OF h, of rfc now] holds_code [OF h] assms(2,4)
    by (cases "code_disposition c") (auto simp: check_at_def)
qed

theorem settled_answer_is_replayed_witness:
  "\<exists>c' at. check_at toy_sha hex_lower (\<lambda>_. [])
      (observe_all toy_sha hex_lower ([] @ (''doi:10.1234/x'', Some NoOaAvailable, 5, 0, 9) # [(''2401.12345'', None, 6, 0, 9)])
        repeat_default) ''doi:10.1234/x'' (100 * NANOS) 9 = Replay c' at
    \<and> code_disposition c' = NeedsConfig"
proof -
  have "\<exists>c' at. check_at toy_sha hex_lower (\<lambda>_. [])
      (observe_all toy_sha hex_lower ([] @ (''doi:10.1234/x'', Some NoOaAvailable, 5, 0, 9) # [(''2401.12345'', None, 6, 0, 9)])
        repeat_default) ''doi:10.1234/x'' (100 * NANOS) 9 = Replay c' at
    \<and> code_disposition c' = code_disposition NoOaAvailable"
    by (rule settled_answer_is_replayed; code_simp)
  then show ?thesis by simp
qed

text \<open>Backoff keeps working: after a first retry-later answer every check within 30 s waits, reporting
  between 1 and 30 remaining seconds and never more than is left (but at least one), and the first check
  after the 30 s is let through, however often the caller asked meanwhile.\<close>

theorem retry_later_waits_exactly:
  assumes "map_of (entries (observe_all sha hx before repeat_default)) (repeat_key sha hx s) = None"
    and "code_disposition c = RetryAfter"
    and "list_all (\<lambda>ob. keeps_answer sha hx (repeat_key sha hx s) RetryAfter fp ob
           \<and> fst (snd (snd ob)) - t < REPLAY_WINDOW) later"
  shows "(case check_at sha hx rfc
      (observe_all sha hx (before @ (s, Some c, t, u, fp) # later) repeat_default) s now fp of
        Wait c' at secs \<Rightarrow> now - t < RETRY_AFTER_GAP \<and> 1 \<le> secs \<and> secs \<le> 30
          \<and> (secs - 1) * NANOS < RETRY_AFTER_GAP - (now - t) \<and> code_disposition c' = RetryAfter
      | Proceed \<Rightarrow> RETRY_AFTER_GAP \<le> now - t
      | Replay _ _ \<Rightarrow> False)"
proof -
  let ?i = "observe_all sha hx (before @ (s, Some c, t, u, fp) # later) repeat_default"
  have h: "holds_answer ?i (repeat_key sha hx s) t RetryAfter fp"
    using first_answer_held [of sha hx before s c fp t later u] assms by simp
  have secs: "1 \<le> max (g div NANOS) 1 \<and> max (g div NANOS) 1 \<le> 30 \<and> (max (g div NANOS) 1 - 1) * NANOS < g"
    if "0 < g" "g \<le> RETRY_AFTER_GAP" for g
  proof -
    have "g div NANOS \<le> RETRY_AFTER_GAP div NANOS" using that(2) by (rule div_le_mono)
    then have "g div NANOS \<le> 30" by (simp add: RETRY_AFTER_GAP_def NANOS_def)
    moreover have "(g div NANOS - 1) * NANOS < g"
      using that(1) div_times_less_eq_dividend [of g NANOS]
      by (cases "g div NANOS") (auto simp: NANOS_def)
    ultimately show ?thesis using that(1) by (cases "g div NANOS") auto
  qed
  show ?thesis
    using check_holds [OF h, of rfc now] holds_code [OF h] secs [of "RETRY_AFTER_GAP - (now - t)"]
    by (auto simp: check_at_def)
qed

theorem retry_later_waits_exactly_witness:
  "check_at toy_sha hex_lower (\<lambda>_. [])
      (observe_all toy_sha hex_lower ([] @ (''doi:10.1234/x'', Some NetworkError, 0, 0, 9)
         # [(''10.1234/x'', Some RateLimited, 20 * NANOS, 0, 9)]) repeat_default)
      ''doi:10.1234/x'' (30 * NANOS) 9 = Proceed"
proof -
  have "(case check_at toy_sha hex_lower (\<lambda>_. [])
      (observe_all toy_sha hex_lower ([] @ (''doi:10.1234/x'', Some NetworkError, 0, 0, 9)
         # [(''10.1234/x'', Some RateLimited, 20 * NANOS, 0, 9)]) repeat_default) ''doi:10.1234/x'' (30 * NANOS) 9 of
        Wait c' at secs \<Rightarrow> 30 * NANOS - 0 < RETRY_AFTER_GAP \<and> 1 \<le> secs \<and> secs \<le> 30
          \<and> (secs - 1) * NANOS < RETRY_AFTER_GAP - (30 * NANOS - 0) \<and> code_disposition c' = RetryAfter
      | Proceed \<Rightarrow> RETRY_AFTER_GAP \<le> 30 * NANOS - 0
      | Replay _ _ \<Rightarrow> False)"
    by (rule retry_later_waits_exactly; code_simp)
  then show ?thesis by (auto simp: RETRY_AFTER_GAP_def split: verdict.splits)
qed

text \<open>The index stays bounded and functional: after any sequence of answers each work has one entry, and
  there are at most twice as many entries as the last sweep kept (or 64).\<close>

theorem repeat_index_bounded:
  "distinct (map fst (entries (observe_all sha hx obs repeat_default)))
   \<and> length (entries (observe_all sha hx obs repeat_default))
      \<le> max 64 (2 * swept_len (observe_all sha hx obs repeat_default))"
  using observe_all_wf [OF default_wf] by (simp add: repeat_wf_def SWEEP_FLOOR_def)

text \<open>
  What the ten minutes do not give: when the window of a work has passed and the same answer is received
  again, the first time is kept, so that answer is never replayed again under that configuration.
\<close>

theorem suppression_lapses_for_good:
  assumes "holds_answer idx k t (code_disposition c) fp" and "code_disposition c \<noteq> RetryAfter"
    and "REPLAY_WINDOW \<le> now - t" and "now \<le> later"
  shows "check_key rfc (observe_key idx k (Some c) now u fp) k later fp = Proceed"
proof -
  have "REPLAY_WINDOW \<le> later - t" using assms(3,4) by linarith
  then show ?thesis
    using check_holds [OF observe_key_same [OF assms(1), of now u], of rfc later] assms(2)
    by (cases "code_disposition c") auto
qed

text \<open>Nor is the key one per work: DOIs are case-insensitive, the key is not.\<close>

theorem repeat_key_is_case_sensitive:
  "repeat_key sha hx ''doi:10.1234/x'' = ''doi_10.1234_x''
   \<and> repeat_key sha hx ''10.1234/X'' = ''doi_10.1234_X''"
proof -
  have p: "ref_parse ''doi:10.1234/x'' = Inr (RefDoi (Doi ''10.1234/x''))"
    "ref_parse ''10.1234/X'' = Inr (RefDoi (Doi ''10.1234/X''))"
    by code_simp+
  have t: "safekey_trimmed (safekey_raw (RefDoi (Doi ''10.1234/x''))) = ''doi_10.1234_x''"
    "safekey_trimmed (safekey_raw (RefDoi (Doi ''10.1234/X''))) = ''doi_10.1234_X''"
    by code_simp+
  show ?thesis
    unfolding repeat_key_def p sum.case ref_safekey_def Let_def t by (simp add: SAFEKEY_MAX_LEN_def)
qed

end
