(* ===== verification/Rate_Limiter.thy ===== *)
theory Rate_Limiter
  imports Capability
begin

text \<open>
  The process-wide rate limiter (\<^verbatim>\<open>crates/doiget-core/src/rate_limiter.rs\<close>) as a transition system.
  A task inside \<^verbatim>\<open>acquire\<close> or \<^verbatim>\<open>pace\<close> is at one of the phases below; each transition is a stretch of
  code between two points where another task can run: taking a semaphore permit, one round of the
  window loop (the \<^verbatim>\<open>global_starts\<close> lock is held during it), the per-source gap (the
  \<^verbatim>\<open>per_source_next\<close> lock), the push of the start time, the drop of the permit.  Times are
  milliseconds.  The field \<open>hist\<close> is a history variable: it records every start and is read by
  no transition.
\<close>

datatype phase =
    AwaitSlot
  | AwaitWindow
  | SleepWindow nat
  | AwaitSource
  | AwaitGap
  | SleepGap nat
  | Push nat
  | InFlight

record task =
  t_source :: string
  t_phase :: phase
  t_pacing :: bool

record limiter =
  clock :: nat
  slots :: nat
  global_starts :: "nat list"
  per_source_next :: "string \<Rightarrow> nat option"
  per_source_sem :: "string \<Rightarrow> nat option"
  tasks :: "nat \<Rightarrow> task option"
  hist :: "(nat \<times> string) list"

definition limiter_new :: "nat \<Rightarrow> limiter" where
  "limiter_new now = \<lparr> clock = now, slots = max_concurrent_fetches HARD_CODED, global_starts = [],
     per_source_next = Map.empty, per_source_sem = Map.empty, tasks = Map.empty, hist = [] \<rparr>"

definition set_task :: "nat \<Rightarrow> task \<Rightarrow> limiter \<Rightarrow> limiter" where
  "set_task tid k s = s\<lparr>tasks := (tasks s)(tid \<mapsto> k)\<rparr>"

text \<open>One round of \<^verbatim>\<open>await_global_rate_window\<close>: prune, then pass or sleep until the oldest ages out.\<close>

definition prune :: "nat \<Rightarrow> nat list \<Rightarrow> nat list" where
  "prune now starts =
     (let cutoff = (if 1000 \<le> now then now - 1000 else now) in dropWhile (\<lambda>t. t \<le> cutoff) starts)"

definition window_round :: "nat \<Rightarrow> task \<Rightarrow> limiter \<Rightarrow> limiter" where
  "window_round tid k s =
     (let starts = prune (clock s) (global_starts s); s = s\<lparr>global_starts := starts\<rparr> in
      if length starts < max_fetches_per_second HARD_CODED
      then set_task tid (k\<lparr>t_phase := (if t_pacing k then AwaitGap else AwaitSource)\<rparr>) s
      else set_task tid (k\<lparr>t_phase := SleepWindow (hd starts + 1000)\<rparr>) s)"

text \<open>Step 2b of \<^verbatim>\<open>acquire\<close>: the lazily created per-source semaphore, for sources capped below the
  global one.\<close>

definition take_source_slot :: "nat \<Rightarrow> task \<Rightarrow> limiter \<Rightarrow> limiter option" where
  "take_source_slot tid k s =
     (let c = max_concurrent_for HARD_CODED (t_source k) in
      if max_concurrent_fetches HARD_CODED \<le> c then Some (set_task tid (k\<lparr>t_phase := AwaitGap\<rparr>) s)
      else
        let free = (case per_source_sem s (t_source k) of Some n \<Rightarrow> n | None \<Rightarrow> c) in
        if 0 < free
        then Some (set_task tid (k\<lparr>t_phase := AwaitGap\<rparr>)
               (s\<lparr>per_source_sem := (per_source_sem s)(t_source k \<mapsto> free - 1)\<rparr>))
        else None)"

text \<open>The end of the gap wait: the start is recorded without looking at the gap again.\<close>

definition record_start :: "nat \<Rightarrow> task \<Rightarrow> limiter \<Rightarrow> limiter" where
  "record_start tid k s =
     (let start = clock s in
      set_task tid (k\<lparr>t_phase := Push start\<rparr>)
        (s\<lparr>per_source_next := (per_source_next s)(t_source k \<mapsto> start + backoff_ms_for HARD_CODED (t_source k)),
           hist := (start, t_source k) # hist s\<rparr>))"

definition gap_round :: "nat \<Rightarrow> task \<Rightarrow> limiter \<Rightarrow> limiter" where
  "gap_round tid k s = (case per_source_next s (t_source k) of
     Some next \<Rightarrow>
       if clock s < next then set_task tid (k\<lparr>t_phase := SleepGap next\<rparr>) s else record_start tid k s
   | None \<Rightarrow> record_start tid k s)"

definition release_source :: "task \<Rightarrow> limiter \<Rightarrow> limiter" where
  "release_source k s =
     (if max_concurrent_fetches HARD_CODED \<le> max_concurrent_for HARD_CODED (t_source k) then s
      else (case per_source_sem s (t_source k) of
        Some n \<Rightarrow> s\<lparr>per_source_sem := (per_source_sem s)(t_source k \<mapsto> n + 1)\<rparr>
      | None \<Rightarrow> s))"

text \<open>What a task holds: the global slot, and the source slot.\<close>

definition holds_slot :: "task \<Rightarrow> bool" where
  "holds_slot k \<longleftrightarrow> t_phase k \<noteq> AwaitSlot"

definition holds_source_slot :: "task \<Rightarrow> bool" where
  "holds_source_slot k \<longleftrightarrow> t_pacing k
     \<or> (case t_phase k of AwaitGap \<Rightarrow> True | SleepGap _ \<Rightarrow> True | Push _ \<Rightarrow> True | InFlight \<Rightarrow> True | _ \<Rightarrow> False)"

text \<open>Dropping the permit, or the future that was still waiting for it.\<close>

definition drop_task :: "nat \<Rightarrow> task \<Rightarrow> limiter \<Rightarrow> limiter" where
  "drop_task tid k s =
     (let s = (if holds_slot k then s\<lparr>slots := slots s + 1\<rparr> else s);
          s = (if holds_source_slot k then release_source k s else s) in
      s\<lparr>tasks := (tasks s)(tid := None)\<rparr>)"

datatype action =
    Spawn nat string
  | Run nat
  | Pace nat
  | Drop nat
  | SleepFor string nat
  | Tick nat

definition task_run :: "nat \<Rightarrow> task \<Rightarrow> limiter \<Rightarrow> limiter option" where
  "task_run tid k s = (case t_phase k of
     AwaitSlot \<Rightarrow>
       if 0 < slots s
       then Some (set_task tid (k\<lparr>t_phase := AwaitWindow\<rparr>) (s\<lparr>slots := slots s - 1\<rparr>)) else None
   | AwaitWindow \<Rightarrow> Some (window_round tid k s)
   | SleepWindow wake \<Rightarrow>
       if wake \<le> clock s then Some (set_task tid (k\<lparr>t_phase := AwaitWindow\<rparr>) s) else None
   | AwaitSource \<Rightarrow> take_source_slot tid k s
   | AwaitGap \<Rightarrow> Some (gap_round tid k s)
   | SleepGap next \<Rightarrow> if next \<le> clock s then Some (record_start tid k s) else None
   | Push start \<Rightarrow>
       Some (set_task tid (k\<lparr>t_phase := InFlight, t_pacing := False\<rparr>)
               (s\<lparr>global_starts := global_starts s @ [start]\<rparr>))
   | InFlight \<Rightarrow> None)"

definition sleep_for :: "string \<Rightarrow> nat \<Rightarrow> limiter \<Rightarrow> limiter" where
  "sleep_for source dur s =
     (let target = clock s + dur;
          entry = (case per_source_next s source of Some n \<Rightarrow> n | None \<Rightarrow> target) in
      s\<lparr>per_source_next := (per_source_next s)(source \<mapsto> (if entry < target then target else entry))\<rparr>)"

text \<open>The transitions: a call of \<^verbatim>\<open>acquire\<close>, a task making progress, a call of \<^verbatim>\<open>pace\<close> by a task that
  holds its permit, a drop, a call of \<^verbatim>\<open>sleep_for\<close>, the passing of time.\<close>

definition perform :: "action \<Rightarrow> limiter \<Rightarrow> limiter option" where
  "perform a s = (case a of
     Spawn tid source \<Rightarrow>
       (case tasks s tid of
          None \<Rightarrow> Some (set_task tid \<lparr> t_source = source, t_phase = AwaitSlot, t_pacing = False \<rparr> s)
        | Some _ \<Rightarrow> None)
   | Run tid \<Rightarrow> (case tasks s tid of Some k \<Rightarrow> task_run tid k s | None \<Rightarrow> None)
   | Pace tid \<Rightarrow>
       (case tasks s tid of
          Some k \<Rightarrow>
            if t_phase k = InFlight
            then Some (set_task tid (k\<lparr>t_phase := AwaitWindow, t_pacing := True\<rparr>) s) else None
        | None \<Rightarrow> None)
   | Drop tid \<Rightarrow> (case tasks s tid of Some k \<Rightarrow> Some (drop_task tid k s) | None \<Rightarrow> None)
   | SleepFor source dur \<Rightarrow> Some (sleep_for source dur s)
   | Tick d \<Rightarrow> Some (s\<lparr>clock := clock s + d\<rparr>))"

inductive reachable :: "limiter \<Rightarrow> bool" where
  reachable_new: "1000 \<le> now \<Longrightarrow> reachable (limiter_new now)"
| reachable_step: "reachable s \<Longrightarrow> perform a s = Some s' \<Longrightarrow> reachable s'"

fun perform_all :: "action list \<Rightarrow> limiter \<Rightarrow> limiter option" where
  "perform_all [] s = Some s"
| "perform_all (a # as) s = (case perform a s of Some s' \<Rightarrow> perform_all as s' | None \<Rightarrow> None)"

lemma perform_all_reachable: "reachable s \<Longrightarrow> perform_all as s = Some s' \<Longrightarrow> reachable s'"
  by (induction as arbitrary: s) (auto intro: reachable_step split: option.splits)

subsection \<open>Counting tasks\<close>

definition cnt :: "(task \<Rightarrow> bool) \<Rightarrow> (nat \<Rightarrow> task option) \<Rightarrow> nat" where
  "cnt P m = card {t. \<exists>k. m t = Some k \<and> P k}"

definition one_if :: "(task \<Rightarrow> bool) \<Rightarrow> task option \<Rightarrow> nat" where
  "one_if P v = (case v of Some k \<Rightarrow> if P k then 1 else 0 | None \<Rightarrow> 0)"

lemma one_if_simps [simp]: "one_if P None = 0" "one_if P (Some k) = (if P k then 1 else 0)"
  by (simp_all add: one_if_def)

lemma finite_selected: "finite (dom m) \<Longrightarrow> finite {t. \<exists>k. m t = Some k \<and> P k}"
  by (rule finite_subset [of _ "dom m"]) auto

lemma cnt_remove:
  assumes "finite (dom m)"
  shows "cnt P m = cnt P (m(t := None)) + one_if P (m t)"
proof (cases "\<exists>k. m t = Some k \<and> P k")
  case True
  then have "{u. \<exists>k. m u = Some k \<and> P k} = insert t {u. \<exists>k. (m(t := None)) u = Some k \<and> P k}"
    by auto
  moreover have "finite {u. \<exists>k. (m(t := None)) u = Some k \<and> P k}"
    using assms by (intro finite_selected [of "m(t := None)"]) simp
  ultimately show ?thesis
    using True by (auto simp: cnt_def)
next
  case False
  then have "{u. \<exists>k. m u = Some k \<and> P k} = {u. \<exists>k. (m(t := None)) u = Some k \<and> P k}"
    by auto
  with False show ?thesis by (auto simp: cnt_def one_if_def split: option.split)
qed

lemma cnt_upd:
  assumes "finite (dom m)"
  shows "cnt P (m(t := v)) = cnt P m + one_if P v - one_if P (m t)"
  using cnt_remove [OF assms, of P t] cnt_remove [of "m(t := v)" P t] assms by simp

lemma one_if_le_cnt: "finite (dom m) \<Longrightarrow> one_if P (m t) \<le> cnt P m"
  using cnt_remove [of m P t] by simp

lemma cnt_two:
  assumes "finite (dom m)" "m t = Some k" "P k" "m u = Some l" "P l" "t \<noteq> u"
  shows "2 \<le> cnt P m"
  using cnt_remove [OF assms(1), of P t] one_if_le_cnt [of "m(t := None)" P u] assms by simp

lemma cnt_mono:
  assumes "finite (dom m)" and "\<And>k. P k \<Longrightarrow> Q k"
  shows "cnt P m \<le> cnt Q m"
  unfolding cnt_def using assms by (intro card_mono finite_selected) auto

subsection \<open>Concurrency\<close>

lemmas transition_defs = perform_def task_run_def window_round_def take_source_slot_def gap_round_def
  record_start_def sleep_for_def set_task_def

definition slots_inv :: "limiter \<Rightarrow> bool" where
  "slots_inv s \<longleftrightarrow> finite (dom (tasks s))
     \<and> slots s + cnt holds_slot (tasks s) = max_concurrent_fetches HARD_CODED"

lemma release_source_fields [simp]:
  "tasks (release_source k s) = tasks s" "slots (release_source k s) = slots s"
  "clock (release_source k s) = clock s" "global_starts (release_source k s) = global_starts s"
  "hist (release_source k s) = hist s" "per_source_next (release_source k s) = per_source_next s"
  by (simp_all add: release_source_def split: option.split)

lemma drop_task_fields [simp]:
  "tasks (drop_task tid k s) = (tasks s)(tid := None)"
  "slots (drop_task tid k s) = (if holds_slot k then slots s + 1 else slots s)"
  "clock (drop_task tid k s) = clock s" "global_starts (drop_task tid k s) = global_starts s"
  "hist (drop_task tid k s) = hist s" "per_source_next (drop_task tid k s) = per_source_next s"
  by (simp_all add: drop_task_def Let_def)

lemma slots_inv_step:
  assumes "slots_inv s" and "perform a s = Some s'"
  shows "slots_inv s'"
proof -
  from assms(1) have fin: "finite (dom (tasks s))"
    and sum: "slots s + cnt holds_slot (tasks s) = max_concurrent_fetches HARD_CODED"
    by (auto simp: slots_inv_def)
  show ?thesis
  proof (cases a)
    case (Run tid)
    with assms(2) obtain k where k: "tasks s tid = Some k" "task_run tid k s = Some s'"
      by (auto simp: perform_def split: option.splits)
    with fin sum show ?thesis
      using one_if_le_cnt [OF fin, of holds_slot tid]
      by (auto simp: transition_defs slots_inv_def cnt_upd holds_slot_def Let_def
          split: phase.splits if_splits option.splits)
  next
    case (Drop tid)
    with assms(2) obtain k where k: "tasks s tid = Some k" "s' = drop_task tid k s"
      by (auto simp: perform_def split: option.splits)
    with fin sum show ?thesis
      using one_if_le_cnt [OF fin, of holds_slot tid]
      by (auto simp: slots_inv_def cnt_upd)
  qed (use assms(2) fin sum in \<open>auto simp: transition_defs slots_inv_def cnt_upd holds_slot_def Let_def
      split: if_splits option.splits\<close>)
qed

lemma reachable_slots_inv: "reachable s \<Longrightarrow> slots_inv s"
proof (induction rule: reachable.induct)
  case (reachable_new now)
  then show ?case by (simp add: slots_inv_def limiter_new_def cnt_def)
next
  case (reachable_step s a s')
  then show ?case using slots_inv_step by blast
qed

subsection \<open>The rolling window\<close>

definition pending :: "task \<Rightarrow> bool" where
  "pending k \<longleftrightarrow> (case t_phase k of
     AwaitSource \<Rightarrow> True | AwaitGap \<Rightarrow> True | SleepGap _ \<Rightarrow> True | Push _ \<Rightarrow> True | _ \<Rightarrow> False)"

definition recent :: "limiter \<Rightarrow> nat" where
  "recent s = length (filter (\<lambda>t. clock s < t + 1000) (global_starts s))"

definition window_inv :: "limiter \<Rightarrow> bool" where
  "window_inv s \<longleftrightarrow> 1000 \<le> clock s \<and> recent s + cnt pending (tasks s) \<le> 9"

lemma prune_recent: "1000 \<le> now \<Longrightarrow>
  filter (\<lambda>t. now < t + 1000) (prune now xs) = filter (\<lambda>t. now < t + 1000) xs"
  by (induction xs) (auto simp: prune_def Let_def)

lemma recent_tick: "length (filter (\<lambda>t. c + d < t + 1000) xs) \<le> length (filter (\<lambda>t. c < t + (1000::nat)) xs)"
  by (induction xs) auto

lemma window_inv_round:
  assumes "slots_inv s" "window_inv s" "tasks s tid = Some k" "t_phase k = AwaitWindow"
  shows "window_inv (window_round tid k s)"
proof -
  let ?p = "prune (clock s) (global_starts s)"
  from assms(1) have fin: "finite (dom (tasks s))" by (simp add: slots_inv_def)
  have le: "length (filter (\<lambda>t. clock s < t + 1000) (global_starts s)) \<le> length ?p"
    using prune_recent [of "clock s" "global_starts s"] assms(2)
    by (metis length_filter_le window_inv_def)
  have mono: "cnt pending ((tasks s)(tid := None)) \<le> cnt holds_slot ((tasks s)(tid := None))"
    using fin by (intro cnt_mono) (auto simp: pending_def holds_slot_def split: phase.splits)
  have "holds_slot k" "\<not> pending k"
    using assms(4) by (simp_all add: holds_slot_def pending_def)
  then have "cnt pending (tasks s) < cnt holds_slot (tasks s)"
    using cnt_remove [OF fin, of pending tid] cnt_remove [OF fin, of holds_slot tid] assms(3) mono
    by simp
  then have "cnt pending (tasks s) \<le> 4"
    using assms(1) by (simp add: slots_inv_def HARD_CODED_def MAX_CONCURRENT_FETCHES_def)
  with le assms \<open>\<not> pending k\<close> show ?thesis
    using prune_recent [of "clock s" "global_starts s"]
    by (auto simp: window_round_def Let_def window_inv_def recent_def set_task_def cnt_upd fin pending_def
        HARD_CODED_def MAX_FETCHES_PER_SECOND_def)
qed

lemma window_inv_step:
  assumes "slots_inv s" "window_inv s" and "perform a s = Some s'"
  shows "window_inv s'"
proof -
  from assms(1) have fin: "finite (dom (tasks s))" by (simp add: slots_inv_def)
  show ?thesis
  proof (cases a)
    case (Run tid)
    with assms(3) obtain k where k: "tasks s tid = Some k" "task_run tid k s = Some s'"
      by (auto simp: perform_def split: option.splits)
    show ?thesis
    proof (cases "t_phase k = AwaitWindow")
      case True
      with k window_inv_round [OF assms(1,2) k(1)] show ?thesis by (simp add: task_run_def)
    next
      case False
      with k assms(2) show ?thesis
        using one_if_le_cnt [OF fin, of pending tid]
        by (auto simp: transition_defs window_inv_def recent_def cnt_upd fin pending_def Let_def
            split: phase.splits if_splits option.splits)
    qed
  next
    case (Drop tid)
    with assms(3) obtain k where k: "tasks s tid = Some k" "s' = drop_task tid k s"
      by (auto simp: perform_def split: option.splits)
    with assms(2) show ?thesis
      by (auto simp: window_inv_def recent_def cnt_upd fin)
  next
    case (Tick d)
    with assms(2,3) show ?thesis
      using recent_tick [of "clock s" d "global_starts s"]
      by (auto simp: perform_def window_inv_def recent_def)
  qed (use assms(2,3) fin in \<open>auto simp: transition_defs window_inv_def recent_def cnt_upd pending_def Let_def
      split: if_splits option.splits\<close>)
qed

lemma reachable_window_inv: "reachable s \<Longrightarrow> window_inv s"
proof (induction rule: reachable.induct)
  case (reachable_new now)
  then show ?case by (simp add: window_inv_def recent_def limiter_new_def cnt_def)
next
  case (reachable_step s a s')
  then show ?case using window_inv_step reachable_slots_inv by blast
qed

subsection \<open>Sources with a single connection\<close>

definition capped :: "string \<Rightarrow> bool" where
  "capped src \<longleftrightarrow> max_concurrent_for HARD_CODED src < max_concurrent_fetches HARD_CODED"

definition using_source :: "string \<Rightarrow> task \<Rightarrow> bool" where
  "using_source src k \<longleftrightarrow> t_source k = src \<and> holds_source_slot k"

definition free_slots :: "string \<Rightarrow> limiter \<Rightarrow> nat" where
  "free_slots src s = (case per_source_sem s src of
     Some n \<Rightarrow> n | None \<Rightarrow> max_concurrent_for HARD_CODED src)"

definition source_inv :: "string \<Rightarrow> limiter \<Rightarrow> bool" where
  "source_inv src s \<longleftrightarrow>
     free_slots src s + cnt (using_source src) (tasks s) = max_concurrent_for HARD_CODED src"

lemma using_source_simps:
  "using_source src (k\<lparr>t_phase := p\<rparr>) \<longleftrightarrow> t_source k = src \<and> (t_pacing k
     \<or> (case p of AwaitGap \<Rightarrow> True | SleepGap _ \<Rightarrow> True | Push _ \<Rightarrow> True | InFlight \<Rightarrow> True | _ \<Rightarrow> False))"
  by (simp add: using_source_def holds_source_slot_def)

lemma source_inv_take:
  assumes "finite (dom (tasks s))" "source_inv src s" "capped src" "tasks s tid = Some k"
    and "t_phase k = AwaitSource" "\<not> t_pacing k" "take_source_slot tid k s = Some s'"
  shows "source_inv src s'"
proof -
  have nu: "\<not> using_source src k"
    using assms(5,6) by (simp add: using_source_def holds_source_slot_def)
  show ?thesis
  proof (cases "t_source k = src")
    case True
    with assms(3,7) have "s' = set_task tid (k\<lparr>t_phase := AwaitGap\<rparr>)
        (s\<lparr>per_source_sem := (per_source_sem s)(src \<mapsto> free_slots src s - 1)\<rparr>)" "0 < free_slots src s"
      by (auto simp: take_source_slot_def Let_def capped_def free_slots_def split: if_splits)
    then show ?thesis
      using assms(1,2,4) nu True
      by (auto simp: source_inv_def set_task_def cnt_upd using_source_simps free_slots_def
          split: option.splits)
  next
    case False
    with assms(7) have "free_slots src s' = free_slots src s" "tasks s' = (tasks s)(tid \<mapsto> k\<lparr>t_phase := AwaitGap\<rparr>)"
      by (auto simp: take_source_slot_def Let_def free_slots_def set_task_def split: if_splits)
    with False assms(1,2,4) nu show ?thesis
      by (simp add: source_inv_def cnt_upd using_source_simps)
  qed
qed

lemma source_inv_drop:
  assumes "finite (dom (tasks s))" "source_inv src s" "capped src" "tasks s tid = Some k"
  shows "source_inv src (drop_task tid k s)"
proof -
  have le: "one_if (using_source src) (Some k) \<le> cnt (using_source src) (tasks s)"
    using one_if_le_cnt [OF assms(1), of "using_source src" tid] assms(4) by simp
  have free: "free_slots src (drop_task tid k s)
      = (if using_source src k then free_slots src s + 1 else free_slots src s)"
  proof (cases "using_source src k")
    case True
    with le assms(2) have "free_slots src s < max_concurrent_for HARD_CODED src"
      by (auto simp: source_inv_def)
    then obtain n where "per_source_sem s src = Some n"
      by (auto simp: free_slots_def split: option.splits)
    with True assms(3) show ?thesis
      by (auto simp: drop_task_def Let_def release_source_def capped_def using_source_def free_slots_def)
  next
    case False
    then show ?thesis
      by (auto simp: drop_task_def Let_def release_source_def using_source_def free_slots_def
          split: option.splits)
  qed
  with le assms show ?thesis
    by (auto simp: source_inv_def cnt_upd)
qed

definition pacing_ok :: "limiter \<Rightarrow> bool" where
  "pacing_ok s \<longleftrightarrow> (\<forall>tid k. tasks s tid = Some k \<longrightarrow> t_pacing k
     \<longrightarrow> t_phase k \<notin> {AwaitSlot, AwaitSource, InFlight})"

lemma pacing_ok_step: "pacing_ok s \<Longrightarrow> perform a s = Some s' \<Longrightarrow> pacing_ok s'"
proof (cases a)
  case (Run tid)
  assume "pacing_ok s" "perform a s = Some s'"
  with Run show ?thesis
    by (auto simp: transition_defs pacing_ok_def Let_def split: option.splits phase.splits if_splits)
qed (auto simp: transition_defs pacing_ok_def Let_def split: option.splits if_splits)

lemma source_inv_step:
  assumes "finite (dom (tasks s))" "pacing_ok s" "source_inv src s" "capped src" "perform a s = Some s'"
  shows "source_inv src s'"
proof (cases a)
  case (Run tid)
  with assms(5) obtain k where k: "tasks s tid = Some k" "task_run tid k s = Some s'"
    by (auto simp: perform_def split: option.splits)
  have le: "one_if (using_source src) (Some k) \<le> cnt (using_source src) (tasks s)"
    using one_if_le_cnt [OF assms(1), of "using_source src" tid] k(1) by simp
  show ?thesis
  proof (cases "t_phase k = AwaitSource")
    case True
    with k assms(2) have "\<not> t_pacing k" by (auto simp: pacing_ok_def)
    with True k source_inv_take [OF assms(1,3,4) k(1) True] show ?thesis
      by (simp add: task_run_def)
  next
    case False
    with k assms(2) have "t_phase k = AwaitSlot \<Longrightarrow> \<not> t_pacing k"
      by (auto simp: pacing_ok_def)
    with False k assms(1,3) le show ?thesis
      by (auto simp: transition_defs source_inv_def cnt_upd using_source_def holds_source_slot_def
          free_slots_def Let_def split: phase.splits if_splits option.splits)
  qed
next
  case (Drop tid)
  with assms(5) obtain k where "tasks s tid = Some k" "s' = drop_task tid k s"
    by (auto simp: perform_def split: option.splits)
  with source_inv_drop [OF assms(1,3,4)] show ?thesis by simp
next
  case (Pace tid)
  then show ?thesis
    using assms(1,3,5) one_if_le_cnt [OF assms(1), of "using_source src" tid]
    by (auto simp: transition_defs source_inv_def cnt_upd using_source_def holds_source_slot_def
          free_slots_def Let_def split: if_splits option.splits)
qed (use assms(1,3,5) in \<open>auto simp: transition_defs source_inv_def cnt_upd using_source_def
      holds_source_slot_def free_slots_def Let_def split: if_splits option.splits\<close>)

definition starts_of :: "string \<Rightarrow> limiter \<Rightarrow> nat list" where
  "starts_of src s = map fst (filter (\<lambda>(_, x). x = src) (hist s))"

fun spaced :: "nat \<Rightarrow> nat list \<Rightarrow> bool" where
  "spaced b (x # y # r) = (y + b \<le> x \<and> spaced b (y # r))"
| "spaced b _ = True"

definition gap_inv :: "string \<Rightarrow> limiter \<Rightarrow> bool" where
  "gap_inv src s \<longleftrightarrow>
     (let b = backoff_ms_for HARD_CODED src in
      spaced b (starts_of src s)
      \<and> (\<forall>h\<in>set (starts_of src s). \<exists>n. per_source_next s src = Some n \<and> h + b \<le> n)
      \<and> (\<forall>tid k w. tasks s tid = Some k \<longrightarrow> t_source k = src \<longrightarrow> t_phase k = SleepGap w
            \<longrightarrow> (\<forall>h\<in>set (starts_of src s). h + b \<le> w)))"

lemma spaced_Cons: "spaced b xs \<Longrightarrow> \<forall>h\<in>set xs. h + b \<le> x \<Longrightarrow> spaced b (x # xs)"
  by (cases xs) auto

lemma gap_inv_record:
  assumes "gap_inv src s" "tasks s tid = Some k"
    and after: "t_source k = src \<Longrightarrow> \<forall>h\<in>set (starts_of src s). h + backoff_ms_for HARD_CODED src \<le> clock s"
    and only: "\<And>u l w. tasks s u = Some l \<Longrightarrow> t_source l = src \<Longrightarrow> t_phase l = SleepGap w
      \<Longrightarrow> t_source k = src \<Longrightarrow> u = tid"
  shows "gap_inv src (record_start tid k s)"
proof (cases "t_source k = src")
  case True
  let ?b = "backoff_ms_for HARD_CODED src"
  have st: "starts_of src (record_start tid k s) = clock s # starts_of src s"
    using True by (simp add: starts_of_def record_start_def set_task_def Let_def)
  have "spaced ?b (clock s # starts_of src s)"
    using after True assms(1) by (intro spaced_Cons) (auto simp: gap_inv_def Let_def)
  moreover have "\<forall>h\<in>set (clock s # starts_of src s). h + ?b \<le> clock s + ?b"
    using after [OF True] by auto
  moreover have "per_source_next (record_start tid k s) src = Some (clock s + ?b)"
    using True by (simp add: record_start_def set_task_def Let_def)
  moreover have "tasks (record_start tid k s) = (tasks s)(tid \<mapsto> k\<lparr>t_phase := Push (clock s)\<rparr>)"
    by (simp add: record_start_def set_task_def Let_def)
  ultimately show ?thesis
    using only True by (auto simp: gap_inv_def Let_def st split: if_splits)
next
  case False
  then have "starts_of src (record_start tid k s) = starts_of src s"
    "per_source_next (record_start tid k s) src = per_source_next s src"
    "tasks (record_start tid k s) = (tasks s)(tid \<mapsto> k\<lparr>t_phase := Push (clock s)\<rparr>)"
    by (simp_all add: starts_of_def record_start_def set_task_def Let_def)
  with assms(1) False show ?thesis by (auto simp: gap_inv_def Let_def)
qed

lemma gap_inv_frame:
  assumes "gap_inv src s" "hist s' = hist s" "per_source_next s' = per_source_next s"
    and "\<And>tid k w. tasks s' tid = Some k \<Longrightarrow> t_phase k = SleepGap w \<Longrightarrow> tasks s tid = Some k"
  shows "gap_inv src s'"
  using assms by (auto simp: gap_inv_def Let_def starts_of_def) blast

lemma gap_inv_run:
  assumes "slots_inv s" "source_inv src s" "gap_inv src s" "max_concurrent_for HARD_CODED src = 1"
    and "tasks s tid = Some k" "task_run tid k s = Some s'"
  shows "gap_inv src s'"
proof -
  have fin: "finite (dom (tasks s))" using assms(1) by (simp add: slots_inv_def)
  have only: "u = tid" if "tasks s u = Some l" "t_source l = src" "t_phase l = SleepGap w"
    "t_source k = src" "t_phase k = AwaitGap \<or> (\<exists>w. t_phase k = SleepGap w)" for u l w
  proof (rule ccontr)
    assume "u \<noteq> tid"
    moreover have "using_source src l" "using_source src k"
      using that by (auto simp: using_source_def holds_source_slot_def)
    ultimately have "2 \<le> cnt (using_source src) (tasks s)"
      using cnt_two [OF fin that(1) _ assms(5), of "using_source src"] by blast
    with assms(2,4) show False by (simp add: source_inv_def)
  qed
  show ?thesis
  proof (cases "t_phase k")
    case AwaitGap
    show ?thesis
    proof (cases "per_source_next s (t_source k)")
      case None
      then have "t_source k = src \<Longrightarrow> starts_of src s = []"
        using assms(3) by (cases "starts_of src s") (auto simp: gap_inv_def Let_def)
      then show ?thesis
        using gap_inv_record [OF assms(3,5)] only AwaitGap assms(6) None
        by (simp add: task_run_def gap_round_def)
    next
      case (Some n)
      show ?thesis
      proof (cases "clock s < n")
        case True
        then have "s' = set_task tid (k\<lparr>t_phase := SleepGap n\<rparr>) s"
          using assms(6) AwaitGap Some by (simp add: task_run_def gap_round_def)
        then show ?thesis
          using assms(3) Some by (fastforce simp: gap_inv_def Let_def set_task_def starts_of_def split: if_splits)
      next
        case False
        then have s': "s' = record_start tid k s"
          using assms(6) AwaitGap Some by (simp add: task_run_def gap_round_def)
        have "t_source k = src \<Longrightarrow> \<forall>h\<in>set (starts_of src s). h + backoff_ms_for HARD_CODED src \<le> clock s"
          using assms(3) Some False by (fastforce simp: gap_inv_def Let_def)
        then show ?thesis
          unfolding s' using gap_inv_record [OF assms(3,5)] only AwaitGap by blast
      qed
    qed
  next
    case (SleepGap w)
    then have s': "s' = record_start tid k s" and "w \<le> clock s"
      using assms(6) by (auto simp: task_run_def split: if_splits)
    then have "t_source k = src \<Longrightarrow> \<forall>h\<in>set (starts_of src s). h + backoff_ms_for HARD_CODED src \<le> clock s"
      using assms(3,5) SleepGap by (fastforce simp: gap_inv_def Let_def)
    then show ?thesis
      unfolding s' using gap_inv_record [OF assms(3,5)] only SleepGap by blast
  qed (rule gap_inv_frame [OF assms(3)]; use assms(5,6) in \<open>auto simp: task_run_def window_round_def
      take_source_slot_def set_task_def Let_def split: if_splits option.splits\<close>)+
qed

lemma gap_inv_step:
  assumes "slots_inv s" "source_inv src s" "gap_inv src s" "max_concurrent_for HARD_CODED src = 1"
    and "perform a s = Some s'"
  shows "gap_inv src s'"
proof (cases a)
  case (Run tid)
  with assms(5) obtain k where "tasks s tid = Some k" "task_run tid k s = Some s'"
    by (auto simp: perform_def split: option.splits)
  with gap_inv_run [OF assms(1-4)] show ?thesis by blast
next
  case (SleepFor source dur)
  with assms(3,5) show ?thesis
    by (auto simp: perform_def sleep_for_def gap_inv_def Let_def starts_of_def split: option.splits)
      (meson order.trans less_imp_le)+
qed (rule gap_inv_frame [OF assms(3)]; use assms(5) in \<open>auto simp: perform_def set_task_def
      split: if_splits option.splits\<close>)+

definition single_inv :: "string \<Rightarrow> limiter \<Rightarrow> bool" where
  "single_inv src s \<longleftrightarrow> slots_inv s \<and> pacing_ok s \<and> source_inv src s \<and> gap_inv src s"

lemma reachable_single_inv:
  assumes "reachable s" and one: "max_concurrent_for HARD_CODED src = 1"
  shows "single_inv src s"
  using assms(1)
proof (induction rule: reachable.induct)
  case (reachable_new now)
  then show ?case
    using reachable_slots_inv [OF reachable.reachable_new]
    by (simp add: single_inv_def pacing_ok_def source_inv_def gap_inv_def limiter_new_def free_slots_def cnt_def
        starts_of_def)
next
  case (reachable_step s a s')
  moreover have "capped src"
    using one by (simp add: capped_def HARD_CODED_def MAX_CONCURRENT_FETCHES_def)
  ultimately show ?case
    using slots_inv_step [of s a s'] pacing_ok_step [of s a s'] source_inv_step [of s src a s']
      gap_inv_step [of s src a s'] one
    by (auto simp: single_inv_def slots_inv_def)
qed

subsection \<open>Properties of the limiter\<close>

text \<open>C10: At most five fetches are in flight: in every reachable state of the limiter, however acquires,
  drops, paced requests and time interleave, at most five tasks hold a permit (or are past the first
  semaphore), and the free permits are exactly the remaining ones, so none leaks.\<close>

theorem at_most_five_in_flight:
  assumes "reachable s"
  shows "card {t. \<exists>k. tasks s t = Some k \<and> t_phase k \<noteq> AwaitSlot} + slots s = 5"
  using reachable_slots_inv [OF assms]
  by (simp add: slots_inv_def cnt_def holds_slot_def HARD_CODED_def MAX_CONCURRENT_FETCHES_def)

definition quick_fetch :: "nat \<Rightarrow> string \<Rightarrow> action list" where
  "quick_fetch t src = [Spawn t src, Run t, Run t, Run t, Run t, Run t]"

definition four_then_five :: "action list" where
  "four_then_five =
     quick_fetch 1 ''a'' @ [Drop 1] @ quick_fetch 2 ''b'' @ [Drop 2] @ quick_fetch 3 ''c'' @ [Drop 3]
     @ quick_fetch 4 ''d'' @ [Drop 4]
     @ [Spawn 5 ''e'', Run 5, Run 5, Spawn 6 ''f'', Run 6, Run 6, Spawn 7 ''g'', Run 7, Run 7,
        Spawn 8 ''h'', Run 8, Run 8, Spawn 9 ''i'', Run 9, Run 9]
     @ [Run 5, Run 5, Run 5, Run 6, Run 6, Run 6, Run 7, Run 7, Run 7, Run 8, Run 8, Run 8, Run 9, Run 9, Run 9]"

definition same_source_twice :: "action list" where
  "same_source_twice =
     quick_fetch 1 ''crossref'' @ [Spawn 2 ''crossref'', Run 2, Run 2, Run 2, Run 2,
        Spawn 3 ''crossref'', Run 3, Run 3, Run 3, Run 3, Tick 200, Run 2, Run 3]"

definition observed :: "action list \<Rightarrow> ((nat \<times> string) list \<times> nat list) option" where
  "observed as = map_option (\<lambda>s. (hist s, global_starts s)) (perform_all as (limiter_new 1000))"

theorem at_most_five_in_flight_witness:
  "\<exists>s. perform_all four_then_five (limiter_new 1000) = Some s
     \<and> card {t. \<exists>k. tasks s t = Some k \<and> t_phase k \<noteq> AwaitSlot} + slots s = 5"
proof -
  have "observed four_then_five \<noteq> None" by code_simp
  then obtain s where s: "perform_all four_then_five (limiter_new 1000) = Some s"
    by (auto simp: observed_def)
  have "reachable s"
    by (rule perform_all_reachable [OF reachable_new s]) simp
  from at_most_five_in_flight [OF this] s show ?thesis by blast
qed

text \<open>C11: The global rate is bounded: in every reachable state the starts of the last second, together with
  the tasks already admitted by the window check, number at most nine, so no rolling second ever sees
  more than nine starts.\<close>

theorem at_most_nine_starts_per_second:
  assumes "reachable s"
  shows "length (filter (\<lambda>t. clock s < t + 1000) (global_starts s))
    + card {t. \<exists>k. tasks s t = Some k \<and> pending k} \<le> 9"
  using reachable_window_inv [OF assms] by (simp add: window_inv_def recent_def cnt_def)

theorem at_most_nine_starts_per_second_witness:
  "\<exists>s. perform_all four_then_five (limiter_new 1000) = Some s
     \<and> length (filter (\<lambda>t. clock s < t + 1000) (global_starts s))
         + card {t. \<exists>k. tasks s t = Some k \<and> pending k} \<le> 9"
proof -
  have "observed four_then_five \<noteq> None" by code_simp
  then obtain s where s: "perform_all four_then_five (limiter_new 1000) = Some s"
    by (auto simp: observed_def)
  have "reachable s"
    by (rule perform_all_reachable [OF reachable_new s]) simp
  from at_most_nine_starts_per_second [OF this] s show ?thesis by blast
qed

text \<open>
  The bound is tight.  Checking the window and recording the start are separate steps, so the five
  starts per second the module documents are exceeded: five tasks pass the check together on top of
  four earlier starts.
\<close>

theorem nine_starts_in_one_second:
  "map_option (length \<circ> snd) (observed four_then_five) = Some 9"
  by code_simp

text \<open>A source capped at one connection (arXiv, bioRxiv, ADS, INSPIRE, NCBI) keeps its interval: at most
  one task at a time uses it, and any two consecutive requests to it, paced ones inside one permit
  included, start at least the source's interval apart (3 s for arXiv), in every interleaving.\<close>

theorem single_connection_interval:
  assumes "reachable s" and "max_concurrent_for HARD_CODED src = 1"
  shows "card {t. \<exists>k. tasks s t = Some k \<and> t_source k = src \<and> holds_source_slot k} \<le> 1
    \<and> spaced (backoff_ms_for HARD_CODED src) (starts_of src s)"
  using reachable_single_inv [OF assms] assms(2)
  by (auto simp: single_inv_def source_inv_def gap_inv_def Let_def cnt_def using_source_def)

theorem single_connection_interval_witness:
  "\<exists>s. perform_all (quick_fetch 1 ''arxiv'' @ [Pace 1, Run 1, Run 1, Tick 3000, Run 1]) (limiter_new 1000) = Some s
     \<and> spaced 3000 (starts_of ''arxiv'' s)"
proof -
  let ?as = "quick_fetch 1 ''arxiv'' @ [Pace 1, Run 1, Run 1, Tick 3000, Run 1]"
  have "observed ?as \<noteq> None" by code_simp
  then obtain s where s: "perform_all ?as (limiter_new 1000) = Some s"
    by (auto simp: observed_def)
  have r: "reachable s"
    by (rule perform_all_reachable [OF reachable_new s]) simp
  have c: "max_concurrent_for HARD_CODED ''arxiv'' = 1" "backoff_ms_for HARD_CODED ''arxiv'' = 3000"
    by code_simp+
  from single_connection_interval [OF r c(1)] s c(2) show ?thesis by auto
qed

text \<open>
  For every other source the documented interval does not hold: two tasks that slept for the same
  moment both start at it, because the gap is not looked at again after the sleep.
\<close>

theorem gap_is_not_rechecked:
  "map_option fst (observed same_source_twice)
     = Some [(1200, ''crossref''), (1200, ''crossref''), (1000, ''crossref'')]"
  by code_simp

end
