(* ===== verification/Provenance.thy ===== *)
theory Provenance
  imports Canonical Repeat "HOL-Library.List_Lexorder" "HOL-Library.Char_ord"
begin

text \<open>
  The provenance log (\<^verbatim>\<open>crates/doiget-core/src/provenance.rs\<close>): the append-only, hash-chained,
  rotated JSON-lines file.  A file is the list of its lines, each classified by what \<^verbatim>\<open>serde_json\<close>
  makes of it (a v2 row, a v1 row, an empty line, or neither), and a flag telling that the last line
  lacks its newline; the directory is an association list, where a \<^verbatim>\<open>.gz\<close> segment is the file it
  decompresses to.  Parameters: \<open>cj\<close> is \<^verbatim>\<open>canonical_json_for_hash\<close>'s serialisation by \<^verbatim>\<open>serde_json\<close>
  (with its failure), \<open>bytes\<close> the length of a line, \<open>sha\<close> and \<open>hx\<close> the digest, and a record of clock
  readings.  An input/output failure is an argument of the operation that can meet it.  The texts of
  error and issue messages are not modelled.
\<close>

subsection \<open>Rows\<close>

datatype log_event =
    SessionStart | CapabilityResolved | Resolve | Fetch | StoreWrite | SessionEnd | RepeatForced

datatype log_result = LogOk | LogErr | LogDenied

datatype log_capability =
    Oa | Metadata | TdmElsevier | TdmAps | TdmSpringer | TdmIeee | UserSupplied

record row_for_hash =
  ts :: nat
  ts_seq :: nat
  event :: log_event
  row_ref :: "string option"
  source :: "string option"
  result :: log_result
  license :: "string option"
  size_bytes :: "nat option"
  store_path :: "string option"
  capability :: log_capability
  session_id :: string
  error_code :: "string option"
  schema_version :: string
  canonical_digest :: "string option"
  prev_hash :: string

record log_row = row_for_hash +
  this_hash :: string

record row_input =
  i_event :: log_event
  i_result :: log_result
  i_capability :: log_capability
  i_ref :: "string option"
  i_source :: "string option"
  i_error_code :: "string option"
  i_size_bytes :: "nat option"
  i_license :: "string option"
  i_store_path :: "string option"
  i_canonical_digest :: "string option"

record v1_row =
  v1_ts :: nat
  v1_ts_seq :: nat
  v1_event :: log_event
  v1_ref :: "string option"
  v1_source :: "string option"
  v1_result :: log_result
  v1_license :: "string option"
  v1_size_bytes :: "nat option"
  v1_store_path :: "string option"
  v1_capability :: log_capability
  v1_session_id :: string
  v1_error_code :: "string option"
  v1_prev_hash :: string
  v1_this_hash :: string

definition LOG_SCHEMA_VERSION :: string where
  "LOG_SCHEMA_VERSION = ''v2''"

definition GENESIS_HASH :: string where
  "GENESIS_HASH = ''GENESIS''"

type_synonym canon = "row_for_hash \<Rightarrow> string option"

definition hash_view :: "log_row \<Rightarrow> row_for_hash" where
  "hash_view r = row_for_hash.truncate r"

definition compute_this_hash ::
  "canon \<Rightarrow> (string \<Rightarrow> string) \<Rightarrow> (string \<Rightarrow> string) \<Rightarrow> row_for_hash \<Rightarrow> log_error + string" where
  "compute_this_hash cj sha hx rfh = (case cj rfh of
     None \<Rightarrow> Inl LogSerialize
   | Some b \<Rightarrow> Inr (hx (sha b)))"

subsection \<open>Files\<close>

datatype log_line = V2Line log_row | V1Line v1_row | EmptyLine | BadLine

record log_file =
  lines :: "log_line list"
  unterminated :: bool

type_synonym log_dir = "(string \<times> log_file) list"

definition file_bytes :: "(log_line \<Rightarrow> nat) \<Rightarrow> log_file \<Rightarrow> nat" where
  "file_bytes bytes f =
     sum_list (map (\<lambda>l. bytes l + 1) (lines f)) - (if unterminated f then 1 else 0)"

text \<open>
  Appending bytes to a file.  Behind an unterminated line the new bytes continue that line, and a
  JSON text with anything behind it is neither kind of row.
\<close>

definition add_line :: "log_file option \<Rightarrow> log_line \<Rightarrow> bool \<Rightarrow> log_file" where
  "add_line f l torn = (case f of
     None \<Rightarrow> \<lparr> lines = [l], unterminated = torn \<rparr>
   | Some g \<Rightarrow>
       if unterminated g \<and> lines g \<noteq> []
       then \<lparr> lines = butlast (lines g) @ [BadLine], unterminated = torn \<rparr>
       else \<lparr> lines = lines g @ [l], unterminated = torn \<rparr>)"

datatype io_fault =
    NoFault | FailMetadata | FailGzip | FailRename | FailRemove | FailOpen | FailWrite nat | FailSync

subsection \<open>Rotation\<close>

definition segment_name :: "string \<Rightarrow> string \<Rightarrow> string" where
  "segment_name file_name stamp = file_name @ ''.'' @ stamp @ ''.gz''"

definition rotate_log ::
  "string \<Rightarrow> string \<Rightarrow> io_fault \<Rightarrow> log_dir \<Rightarrow> log_dir \<times> (log_error + unit)" where
  "rotate_log file_name stamp fault dir =
     (let gz_name = segment_name file_name stamp; tmp = gz_name @ ''.tmp'' in
      case map_of dir file_name of
        None \<Rightarrow> (dir, Inl (LogIo ''open''))
      | Some src \<Rightarrow>
          if fault = FailGzip
          then (AList.update tmp \<lparr> lines = [BadLine], unterminated = True \<rparr> dir, Inl (LogIo ''gzip''))
          else if fault = FailRename then (AList.update tmp src dir, Inl (LogIo ''rename''))
          else
            let dir = AList.update gz_name src (AList.delete tmp dir) in
            if fault = FailRemove then (dir, Inl (LogIo ''remove''))
            else (AList.delete file_name dir, Inr ()))"

definition rotated_segments :: "string \<Rightarrow> log_dir \<Rightarrow> string list" where
  "rotated_segments file_name dir =
     sort (filter (\<lambda>n. starts_with n (file_name @ ''.'') \<and> ends_with n ''.gz'') (map fst dir))"

text \<open>Best-effort pruning: \<open>aged\<close> tells which segments are past the window, \<open>removable\<close> which
  deletions succeed.\<close>

definition prune_rotated_segments ::
  "string \<Rightarrow> int \<Rightarrow> (string \<Rightarrow> bool) \<Rightarrow> (string \<Rightarrow> bool) \<Rightarrow> log_dir \<Rightarrow> log_dir" where
  "prune_rotated_segments file_name days aged removable dir =
     (if days \<le> 0 then dir
      else foldl (\<lambda>d seg. if aged seg \<and> removable seg then AList.delete seg d else d) dir
             (rotated_segments file_name dir))"

subsection \<open>The writer\<close>

record prov_log =
  p_name :: string
  next_seq :: nat
  last_hash :: string
  p_session :: string
  rotate_threshold :: nat
  repeat_ix :: repeat_index

record readings =
  now_utc :: nat
  now_instant :: nat
  fingerprint :: nat
  stamp :: string

fun recover_loop :: "log_line list \<Rightarrow> nat \<Rightarrow> string \<Rightarrow> log_error + nat \<times> string" where
  "recover_loop [] last_seq h = (if last_seq = 0 then Inr (1, GENESIS_HASH) else Inr (last_seq + 1, h))"
| "recover_loop (EmptyLine # ls) last_seq h = recover_loop ls last_seq h"
| "recover_loop (V2Line row # ls) last_seq h = recover_loop ls (ts_seq row) (this_hash row)"
| "recover_loop (V1Line _ # _) last_seq h = Inl (LogIo ''corrupted log'')"
| "recover_loop (BadLine # _) last_seq h = Inl (LogIo ''corrupted log'')"

definition recover_state :: "log_file option \<Rightarrow> log_error + nat \<times> string" where
  "recover_state f = (case f of
     None \<Rightarrow> Inr (1, GENESIS_HASH)
   | Some g \<Rightarrow> recover_loop (lines g) 0 GENESIS_HASH)"

definition open_log ::
  "string \<Rightarrow> string \<Rightarrow> nat \<Rightarrow> int \<Rightarrow> (string \<Rightarrow> bool) \<Rightarrow> (string \<Rightarrow> bool) \<Rightarrow> bool \<Rightarrow> log_dir
     \<Rightarrow> log_dir \<times> (log_error + prov_log)" where
  "open_log name session threshold days aged removable is_file dir =
     (if map_of dir name \<noteq> None \<and> \<not> is_file then (dir, Inl (NotARegularFile name))
      else case recover_state (map_of dir name) of
        Inl e \<Rightarrow> (dir, Inl e)
      | Inr (seq, h) \<Rightarrow>
          (prune_rotated_segments name days aged removable dir,
           Inr \<lparr> p_name = name, next_seq = seq, last_hash = h, p_session = session,
                 rotate_threshold = threshold, repeat_ix = repeat_default \<rparr>))"

definition row_of_input :: "prov_log \<Rightarrow> nat \<Rightarrow> row_input \<Rightarrow> row_for_hash" where
  "row_of_input p now i = \<lparr> ts = now, ts_seq = next_seq p, event = i_event i, row_ref = i_ref i,
     source = i_source i, result = i_result i, license = i_license i, size_bytes = i_size_bytes i,
     store_path = i_store_path i, capability = i_capability i, session_id = p_session p,
     error_code = i_error_code i, schema_version = LOG_SCHEMA_VERSION,
     canonical_digest = i_canonical_digest i, prev_hash = last_hash p \<rparr>"

definition with_hash :: "row_for_hash \<Rightarrow> string \<Rightarrow> log_row" where
  "with_hash r h = row_for_hash.extend r (log_row.fields h)"

definition maybe_rotate ::
  "(log_line \<Rightarrow> nat) \<Rightarrow> string \<Rightarrow> io_fault \<Rightarrow> log_dir \<Rightarrow> prov_log
     \<Rightarrow> log_dir \<times> (log_error + prov_log)" where
  "maybe_rotate bytes stmp fault dir p =
     (if 0 < rotate_threshold p then
        (if fault = FailMetadata then (dir, Inl (LogIo ''metadata''))
         else
           let size = (case map_of dir (p_name p) of Some f \<Rightarrow> file_bytes bytes f | None \<Rightarrow> 0) in
           if rotate_threshold p \<le> size
           then (case rotate_log (p_name p) stmp fault dir of
               (dir, Inl e) \<Rightarrow> (dir, Inl e)
             | (dir, Inr _) \<Rightarrow> (dir, Inr (p\<lparr>next_seq := 1, last_hash := GENESIS_HASH\<rparr>)))
           else (dir, Inr p))
      else (dir, Inr p))"

text \<open>The write itself.  A failed write leaves a prefix of the row's bytes; without its newline the
  row still parses, any shorter prefix does not.\<close>

definition write_row :: "(log_line \<Rightarrow> nat) \<Rightarrow> string \<Rightarrow> io_fault \<Rightarrow> log_dir \<Rightarrow> log_row \<Rightarrow> log_dir \<times> (log_error + unit)" where
  "write_row bytes name fault dir row =
     (let f = map_of dir name in
      case fault of
        FailOpen \<Rightarrow> (dir, Inl (LogIo ''open''))
      | FailWrite n \<Rightarrow>
          (if n = 0 then AList.update name (case f of Some g \<Rightarrow> g | None \<Rightarrow> \<lparr> lines = [], unterminated = False \<rparr>) dir
           else AList.update name (add_line f (if bytes (V2Line row) \<le> n then V2Line row else BadLine) True) dir,
           Inl (LogIo ''write''))
      | FailSync \<Rightarrow> (AList.update name (add_line f (V2Line row) False) dir, Inl (LogIo ''sync''))
      | _ \<Rightarrow> (AList.update name (add_line f (V2Line row) False) dir, Inr ()))"

definition feed_repeat ::
  "(string \<Rightarrow> string) \<Rightarrow> (string \<Rightarrow> string) \<Rightarrow> readings \<Rightarrow> row_input \<Rightarrow> repeat_index \<Rightarrow> repeat_index" where
  "feed_repeat sha hx t i ix =
     (if i_event i = SessionEnd then
        (case i_ref i of
           None \<Rightarrow> ix
         | Some r \<Rightarrow>
             let c = (case i_error_code i of None \<Rightarrow> None | Some w \<Rightarrow> code_from_wire w) in
             if c \<noteq> None \<or> i_result i = LogOk
             then observe_at sha hx ix r c (now_instant t) (now_utc t) (fingerprint t) else ix)
      else ix)"

definition append_row ::
  "canon \<Rightarrow> (string \<Rightarrow> string) \<Rightarrow> (string \<Rightarrow> string) \<Rightarrow> (log_line \<Rightarrow> nat) \<Rightarrow> readings \<Rightarrow> io_fault
     \<Rightarrow> row_input \<Rightarrow> log_dir \<times> prov_log \<Rightarrow> (log_dir \<times> prov_log) \<times> (log_error + nat)" where
  "append_row cj sha hx bytes t fault i dp = (case dp of (dir, p) \<Rightarrow>
     (case maybe_rotate bytes (stamp t) fault dir p of
        (dir, Inl e) \<Rightarrow> ((dir, p), Inl e)
      | (dir, Inr p) \<Rightarrow>
          let rfh = row_of_input p (now_utc t) i in
          (case compute_this_hash cj sha hx rfh of
             Inl e \<Rightarrow> ((dir, p), Inl e)
           | Inr h \<Rightarrow>
               (case write_row bytes (p_name p) fault dir (with_hash rfh h) of
                  (dir, Inl e) \<Rightarrow> ((dir, p), Inl e)
                | (dir, Inr _) \<Rightarrow>
                    ((dir, p\<lparr>next_seq := ts_seq rfh + 1, last_hash := h,
                             repeat_ix := feed_repeat sha hx t i (repeat_ix p)\<rparr>),
                     Inr (ts_seq rfh))))))"

subsection \<open>Verification\<close>

datatype issue_kind = ParseError | PrevHashMismatch | ThisHashMismatch | SequenceJump

record verify_report =
  total_rows :: nat
  ok_rows :: nat
  issues :: "(nat \<times> issue_kind) list"

definition report_empty :: verify_report where
  "report_empty = \<lparr> total_rows = 0, ok_rows = 0, issues = [] \<rparr>"

definition row_issues ::
  "canon \<Rightarrow> (string \<Rightarrow> string) \<Rightarrow> (string \<Rightarrow> string) \<Rightarrow> log_row option \<Rightarrow> log_row \<Rightarrow> issue_kind list" where
  "row_issues cj sha hx prev row =
     (let is_genesis = (prev_hash row = GENESIS_HASH) in
      (case compute_this_hash cj sha hx (hash_view row) of
         Inr h \<Rightarrow> if h \<noteq> this_hash row then [ThisHashMismatch] else []
       | Inl _ \<Rightarrow> [ThisHashMismatch])
      @ (case prev of
           None \<Rightarrow> if \<not> is_genesis then [PrevHashMismatch] else []
         | Some q \<Rightarrow> if is_genesis then [] else if prev_hash row \<noteq> this_hash q then [PrevHashMismatch] else [])
      @ (case prev of
           None \<Rightarrow> []
         | Some q \<Rightarrow> if \<not> is_genesis \<and> ts_seq row \<le> ts_seq q then [SequenceJump] else []))"

fun verify_loop ::
  "canon \<Rightarrow> (string \<Rightarrow> string) \<Rightarrow> (string \<Rightarrow> string) \<Rightarrow> nat \<Rightarrow> log_row option \<Rightarrow> log_line list
     \<Rightarrow> verify_report \<Rightarrow> verify_report" where
  "verify_loop cj sha hx n prev [] rep = rep"
| "verify_loop cj sha hx n prev (EmptyLine # ls) rep = verify_loop cj sha hx (n + 1) prev ls rep"
| "verify_loop cj sha hx n prev (V1Line _ # ls) rep =
     verify_loop cj sha hx (n + 1) prev ls
       (rep\<lparr>total_rows := total_rows rep + 1, issues := issues rep @ [(n, ParseError)]\<rparr>)"
| "verify_loop cj sha hx n prev (BadLine # ls) rep =
     verify_loop cj sha hx (n + 1) prev ls
       (rep\<lparr>total_rows := total_rows rep + 1, issues := issues rep @ [(n, ParseError)]\<rparr>)"
| "verify_loop cj sha hx n prev (V2Line row # ls) rep =
     (let is = row_issues cj sha hx prev row in
      verify_loop cj sha hx (n + 1) (Some row) ls
        \<lparr> total_rows = total_rows rep + 1,
          ok_rows = (if is = [] then ok_rows rep + 1 else ok_rows rep),
          issues = issues rep @ map (\<lambda>k. (n, k)) is \<rparr>)"

definition verify ::
  "canon \<Rightarrow> (string \<Rightarrow> string) \<Rightarrow> (string \<Rightarrow> string) \<Rightarrow> log_file option \<Rightarrow> verify_report" where
  "verify cj sha hx f = (case f of
     None \<Rightarrow> report_empty
   | Some g \<Rightarrow> verify_loop cj sha hx 1 None (lines g) report_empty)"

definition verify_all ::
  "canon \<Rightarrow> (string \<Rightarrow> string) \<Rightarrow> (string \<Rightarrow> string) \<Rightarrow> string \<Rightarrow> log_dir \<Rightarrow> (string \<times> verify_report) list" where
  "verify_all cj sha hx name dir =
     map (\<lambda>seg. (seg, verify cj sha hx (map_of dir seg))) (rotated_segments name dir)
     @ [(name, verify cj sha hx (map_of dir name))]"

subsection \<open>Migration of v1 logs\<close>

record migration_seed =
  s_ts :: nat
  s_ts_seq :: nat
  s_event :: log_event
  s_ref :: "string option"
  s_source :: "string option"
  s_result :: log_result
  s_license :: "string option"
  s_size_bytes :: "nat option"
  s_store_path :: "string option"
  s_capability :: log_capability
  s_session_id :: string
  s_error_code :: "string option"
  canonical_digest_in :: "string option"
  stored_this_hash :: string

record migration_report =
  rows_rewritten :: nat
  dry_run :: bool
  first_row_v1_chain_hash :: string
  first_row_v2_chain_hash :: string

definition seed_of_v1 :: "v1_row \<Rightarrow> migration_seed" where
  "seed_of_v1 v = \<lparr> s_ts = v1_ts v, s_ts_seq = v1_ts_seq v, s_event = v1_event v, s_ref = v1_ref v,
     s_source = v1_source v, s_result = v1_result v, s_license = v1_license v,
     s_size_bytes = v1_size_bytes v, s_store_path = v1_store_path v, s_capability = v1_capability v,
     s_session_id = v1_session_id v, s_error_code = v1_error_code v, canonical_digest_in = None,
     stored_this_hash = v1_this_hash v \<rparr>"

definition seed_of_v2 :: "log_row \<Rightarrow> migration_seed" where
  "seed_of_v2 v = \<lparr> s_ts = ts v, s_ts_seq = ts_seq v, s_event = event v, s_ref = row_ref v,
     s_source = source v, s_result = result v, s_license = license v,
     s_size_bytes = size_bytes v, s_store_path = store_path v, s_capability = capability v,
     s_session_id = session_id v, s_error_code = error_code v,
     canonical_digest_in = canonical_digest v, stored_this_hash = this_hash v \<rparr>"

fun read_seeds :: "log_line list \<Rightarrow> log_error + migration_seed list" where
  "read_seeds [] = Inr []"
| "read_seeds (EmptyLine # ls) = read_seeds ls"
| "read_seeds (V1Line v # ls) = map_ok (\<lambda>r. seed_of_v1 v # r) (read_seeds ls)"
| "read_seeds (V2Line v # ls) = map_ok (\<lambda>r. seed_of_v2 v # r) (read_seeds ls)"
| "read_seeds (BadLine # ls) = Inl (LogIo ''neither v1 nor v2'')"

definition derive_digest :: "(string \<Rightarrow> string) \<Rightarrow> (string \<Rightarrow> string) \<Rightarrow> migration_seed \<Rightarrow> string option" where
  "derive_digest sha hx s = (case s_ref s of
     None \<Rightarrow> None
   | Some ref_str \<Rightarrow>
       let source_key = (case s_source s of Some k \<Rightarrow> k | None \<Rightarrow> []);
           st = (if starts_with ref_str ''10.'' then STDoi else STArxiv) in
       Some (digest_hex sha hx (canonical_new st ref_str source_key None)))"

definition seed_digest :: "(string \<Rightarrow> string) \<Rightarrow> (string \<Rightarrow> string) \<Rightarrow> migration_seed \<Rightarrow> string option" where
  "seed_digest sha hx s = (case canonical_digest_in s of Some d \<Rightarrow> Some d | None \<Rightarrow> derive_digest sha hx s)"

definition row_of_seed ::
  "(string \<Rightarrow> string) \<Rightarrow> (string \<Rightarrow> string) \<Rightarrow> string \<Rightarrow> migration_seed \<Rightarrow> row_for_hash" where
  "row_of_seed sha hx prev s = \<lparr> ts = s_ts s, ts_seq = s_ts_seq s, event = s_event s, row_ref = s_ref s,
     source = s_source s, result = s_result s, license = s_license s, size_bytes = s_size_bytes s,
     store_path = s_store_path s, capability = s_capability s, session_id = s_session_id s,
     error_code = s_error_code s, schema_version = LOG_SCHEMA_VERSION,
     canonical_digest = seed_digest sha hx s, prev_hash = prev \<rparr>"

fun rebuild_chain ::
  "canon \<Rightarrow> (string \<Rightarrow> string) \<Rightarrow> (string \<Rightarrow> string) \<Rightarrow> string \<Rightarrow> migration_seed list
     \<Rightarrow> log_error + log_row list" where
  "rebuild_chain cj sha hx prev [] = Inr []"
| "rebuild_chain cj sha hx prev (s # ss) =
     (let rfh = row_of_seed sha hx prev s in
      case compute_this_hash cj sha hx rfh of
        Inl e \<Rightarrow> Inl e
      | Inr h \<Rightarrow> map_ok (\<lambda>rs. with_hash rfh h # rs) (rebuild_chain cj sha hx h ss))"

datatype migrate_fault = MNone | MStage | MRemoveBackup | MBackup | MPromote

definition migrate_v1_to_v2 ::
  "canon \<Rightarrow> (string \<Rightarrow> string) \<Rightarrow> (string \<Rightarrow> string) \<Rightarrow> migrate_fault \<Rightarrow> string \<Rightarrow> bool \<Rightarrow> log_dir
     \<Rightarrow> log_dir \<times> (log_error + migration_report)" where
  "migrate_v1_to_v2 cj sha hx fault name dry dir = (case map_of dir name of
     None \<Rightarrow> (dir, Inr \<lparr> rows_rewritten = 0, dry_run = dry,
                first_row_v1_chain_hash = GENESIS_HASH, first_row_v2_chain_hash = GENESIS_HASH \<rparr>)
   | Some f \<Rightarrow>
     (case read_seeds (lines f) of
        Inl e \<Rightarrow> (dir, Inl e)
      | Inr seeds \<Rightarrow>
     (case rebuild_chain cj sha hx GENESIS_HASH seeds of
        Inl e \<Rightarrow> (dir, Inl e)
      | Inr out_rows \<Rightarrow>
     let report = \<lparr> rows_rewritten = length out_rows, dry_run = dry,
           first_row_v1_chain_hash = (case seeds of s # _ \<Rightarrow> stored_this_hash s | [] \<Rightarrow> GENESIS_HASH),
           first_row_v2_chain_hash = (case out_rows of r # _ \<Rightarrow> this_hash r | [] \<Rightarrow> GENESIS_HASH) \<rparr> in
     if dry then (dir, Inr report)
     else
       let staged = name @ ''.v2-migrated''; backup = name @ ''.v1-backup'';
           staged_file = \<lparr> lines = map V2Line out_rows, unterminated = False \<rparr> in
       if fault = MStage
       then (AList.update staged \<lparr> lines = [BadLine], unterminated = True \<rparr> dir, Inl (LogIo ''stage''))
       else
         let dir = AList.update staged staged_file dir in
         if issues (verify cj sha hx (Some staged_file)) \<noteq> []
         then (dir, Inl (LogIo ''staged log failed verify''))
         else if fault = MRemoveBackup \<and> map_of dir backup \<noteq> None then (dir, Inl (LogIo ''remove''))
         else
           let dir = AList.delete backup dir in
           if fault = MBackup then (dir, Inl (LogIo ''rename''))
           else
             let dir = AList.update backup f (AList.delete name dir) in
             if fault = MPromote then (dir, Inl (LogIo ''rename''))
             else (AList.update name staged_file (AList.delete staged dir), Inr report))))"

subsection \<open>Clean chains\<close>

fun clean_from :: "canon \<Rightarrow> (string \<Rightarrow> string) \<Rightarrow> (string \<Rightarrow> string) \<Rightarrow> log_row option \<Rightarrow> log_row list \<Rightarrow> bool" where
  "clean_from cj sha hx prev [] = True"
| "clean_from cj sha hx prev (r # rs) =
     (row_issues cj sha hx prev r = [] \<and> clean_from cj sha hx (Some r) rs)"

definition rows_of :: "log_line list \<Rightarrow> log_row list" where
  "rows_of ls = concat (map (\<lambda>l. case l of V2Line r \<Rightarrow> [r] | _ \<Rightarrow> []) ls)"

lemma rows_of_map [simp]: "rows_of (map V2Line rows) = rows"
  by (induction rows) (simp_all add: rows_of_def)

lemma rows_of_simps [simp]: "rows_of [] = []" "rows_of (V2Line r # ls) = r # rows_of ls"
  "rows_of (EmptyLine # ls) = rows_of ls"
  by (simp_all add: rows_of_def)

lemma verify_loop_grows: "\<exists>is. issues (verify_loop cj sha hx n prev ls rep) = issues rep @ is"
proof (induction cj sha hx n prev ls rep rule: verify_loop.induct)
  case (5 cj sha hx n prev row ls rep)
  then show ?case by (auto simp: Let_def)
qed auto

lemma verify_loop_clean:
  "issues (verify_loop cj sha hx n prev ls rep) = issues rep \<longleftrightarrow>
     BadLine \<notin> set ls \<and> (\<forall>v. V1Line v \<notin> set ls) \<and> clean_from cj sha hx prev (rows_of ls)"
proof (induction cj sha hx n prev ls rep rule: verify_loop.induct)
  case (3 cj sha hx n prev v ls rep)
  from verify_loop_grows [of cj sha hx "n + 1" prev ls
      "rep\<lparr>total_rows := total_rows rep + 1, issues := issues rep @ [(n, ParseError)]\<rparr>"]
  show ?case by auto
next
  case (4 cj sha hx n prev ls rep)
  from verify_loop_grows [of cj sha hx "n + 1" prev ls
      "rep\<lparr>total_rows := total_rows rep + 1, issues := issues rep @ [(n, ParseError)]\<rparr>"]
  show ?case by auto
next
  case (5 cj sha hx n prev row ls rep)
  show ?case
  proof (cases "row_issues cj sha hx prev row")
    case Nil
    with 5 show ?thesis by (auto simp: Let_def)
  next
    case (Cons k ks)
    with verify_loop_grows [of cj sha hx "n + 1" "Some row" ls
      "\<lparr> total_rows = total_rows rep + 1, ok_rows = ok_rows rep,
         issues = issues rep @ map (\<lambda>k. (n, k)) (row_issues cj sha hx prev row) \<rparr>"]
    show ?thesis by (auto simp: Let_def)
  qed
qed auto

lemma verify_loop_counts:
  "clean_from cj sha hx prev rows \<Longrightarrow>
     total_rows (verify_loop cj sha hx n prev (map V2Line rows) rep) = total_rows rep + length rows
     \<and> ok_rows (verify_loop cj sha hx n prev (map V2Line rows) rep) = ok_rows rep + length rows"
  by (induction rows arbitrary: n prev rep) (simp_all add: Let_def)

lemma clean_from_append:
  "clean_from cj sha hx prev (xs @ ys) \<longleftrightarrow> clean_from cj sha hx prev xs
     \<and> clean_from cj sha hx (if xs = [] then prev else Some (last xs)) ys"
  by (induction xs arbitrary: prev) auto

lemma row_issues_Nil:
  "row_issues cj sha hx prev r = [] \<longleftrightarrow>
     compute_this_hash cj sha hx (hash_view r) = Inr (this_hash r)
     \<and> (prev_hash r = GENESIS_HASH
        \<or> (\<exists>q. prev = Some q \<and> prev_hash r = this_hash q \<and> ts_seq q < ts_seq r))"
  by (auto simp: row_issues_def Let_def split: option.splits sum.splits if_splits)

lemma with_hash_simps [simp]:
  "hash_view (with_hash r h) = r" "this_hash (with_hash r h) = h"
  "prev_hash (with_hash r h) = prev_hash r" "ts_seq (with_hash r h) = ts_seq r"
  by (simp_all add: with_hash_def hash_view_def row_for_hash.defs log_row.defs)

lemma hash_view_prev [simp]: "prev_hash (hash_view r) = prev_hash r"
  by (simp add: hash_view_def row_for_hash.defs)

lemma row_eq: "hash_view r = hash_view q \<Longrightarrow> this_hash r = this_hash q \<Longrightarrow> r = q"
  by (cases r; cases q) (simp add: hash_view_def row_for_hash.defs)

subsection \<open>The writer keeps the chain\<close>

definition log_inv ::
  "canon \<Rightarrow> (string \<Rightarrow> string) \<Rightarrow> (string \<Rightarrow> string) \<Rightarrow> log_dir \<times> prov_log \<Rightarrow> bool" where
  "log_inv cj sha hx dp \<longleftrightarrow> (case dp of (dir, p) \<Rightarrow>
     (case map_of dir (p_name p) of
        None \<Rightarrow> next_seq p = 1 \<and> last_hash p = GENESIS_HASH
      | Some f \<Rightarrow> \<not> unterminated f \<and>
          (\<exists>rows. lines f = map V2Line rows \<and> clean_from cj sha hx None rows
             \<and> (\<forall>r\<in>set rows. 1 \<le> ts_seq r)
             \<and> next_seq p = (if rows = [] then 1 else ts_seq (last rows) + 1)
             \<and> last_hash p = (if rows = [] then GENESIS_HASH else this_hash (last rows)))))"

lemma recover_loop_rows:
  "(\<forall>r\<in>set rows. 1 \<le> ts_seq r) \<Longrightarrow> rows \<noteq> [] \<Longrightarrow>
     recover_loop (map V2Line rows) n h = Inr (ts_seq (last rows) + 1, this_hash (last rows))"
  by (induction rows arbitrary: n h) (auto simp: Suc_le_eq)

lemma log_inv_recover:
  "log_inv cj sha hx (dir, p) \<Longrightarrow> recover_state (map_of dir (p_name p)) = Inr (next_seq p, last_hash p)"
  by (auto simp: log_inv_def recover_state_def recover_loop_rows split: option.splits if_splits)

lemma log_inv_verify:
  assumes "log_inv cj sha hx (dir, p)"
  shows "issues (verify cj sha hx (map_of dir (p_name p))) = []
    \<and> ok_rows (verify cj sha hx (map_of dir (p_name p))) = total_rows (verify cj sha hx (map_of dir (p_name p)))"
proof (cases "map_of dir (p_name p)")
  case None
  then show ?thesis by (simp add: verify_def report_empty_def)
next
  case (Some f)
  with assms obtain rows where r: "lines f = map V2Line rows" "clean_from cj sha hx None rows"
    by (auto simp: log_inv_def)
  have "issues (verify_loop cj sha hx 1 None (map V2Line rows) report_empty) = issues report_empty"
    unfolding verify_loop_clean using r(2) by auto
  with Some r verify_loop_counts [OF r(2), of 1 report_empty] show ?thesis
    by (simp add: verify_def report_empty_def)
qed

lemma compute_Inr: "compute_this_hash cj sha hx r = Inr h \<Longrightarrow> h = hx (sha (the (cj r)))"
  by (auto simp: compute_this_hash_def split: option.splits)

text \<open>The row the writer adds continues the chain of the file it is added to.\<close>

lemma log_inv_write:
  assumes "log_inv cj sha hx (dir, p)" and "compute_this_hash cj sha hx (row_of_input p now i) = Inr h"
  shows "log_inv cj sha hx (AList.update (p_name p)
      (add_line (map_of dir (p_name p)) (V2Line (with_hash (row_of_input p now i) h)) False) dir,
    p\<lparr>next_seq := next_seq p + 1, last_hash := h, repeat_ix := ix\<rparr>)"
proof -
  let ?r = "with_hash (row_of_input p now i) h"
  have r: "ts_seq ?r = next_seq p" "prev_hash ?r = last_hash p"
    by (simp_all add: row_of_input_def)
  show ?thesis
  proof (cases "map_of dir (p_name p)")
    case None
    with assms(1) r have "row_issues cj sha hx None ?r = []" "next_seq p = 1"
      unfolding row_issues_Nil using assms(2) by (auto simp: log_inv_def)
    with None r show ?thesis
      by (auto simp: log_inv_def AList.update_conv' add_line_def intro!: exI [of _ "[?r]"])
  next
    case (Some f)
    with assms(1) obtain rows where rows: "lines f = map V2Line rows" "clean_from cj sha hx None rows"
        "\<forall>r\<in>set rows. 1 \<le> ts_seq r" "next_seq p = (if rows = [] then 1 else ts_seq (last rows) + 1)"
        "last_hash p = (if rows = [] then GENESIS_HASH else this_hash (last rows))" "\<not> unterminated f"
      by (auto simp: log_inv_def)
    have "row_issues cj sha hx (if rows = [] then None else Some (last rows)) ?r = []"
      unfolding row_issues_Nil using assms(2) r rows(4,5) by auto
    with rows(2) have "clean_from cj sha hx None (rows @ [?r])"
      by (simp add: clean_from_append)
    with Some rows r show ?thesis
      by (auto simp: log_inv_def AList.update_conv' add_line_def intro!: exI [of _ "rows @ [?r]"])
  qed
qed

lemma rotate_NoFault:
  "rotate_log name st NoFault dir = (d, Inr u) \<Longrightarrow> map_of d name = None"
  by (auto simp: rotate_log_def Let_def AList.delete_conv' split: option.splits if_splits)

lemma maybe_rotate_NoFault_cases:
  assumes "maybe_rotate bytes st NoFault dir p = (d, Inr q)"
  shows "(d = dir \<and> q = p)
    \<or> (map_of d (p_name p) = None \<and> q = p\<lparr>next_seq := 1, last_hash := GENESIS_HASH\<rparr>)"
  using assms rotate_NoFault
  by (auto simp: maybe_rotate_def Let_def split: if_splits prod.splits sum.splits)

lemma maybe_rotate_NoFault:
  assumes "log_inv cj sha hx (dir, p)" "maybe_rotate bytes st NoFault dir p = (d, Inr q)"
  shows "log_inv cj sha hx (d, q) \<and> p_name q = p_name p"
  using maybe_rotate_NoFault_cases [OF assms(2)]
proof
  assume "map_of d (p_name p) = None \<and> q = p\<lparr>next_seq := 1, last_hash := GENESIS_HASH\<rparr>"
  then show ?thesis by (simp add: log_inv_def)
qed (use assms(1) in simp)

lemma maybe_rotate_NoFault_Inl:
  assumes "maybe_rotate bytes st NoFault dir p = (d, Inl e)"
  shows "d = dir \<and> map_of dir (p_name p) = None \<and> 0 < rotate_threshold p"
  using assms
  by (auto simp: maybe_rotate_def Let_def rotate_log_def split: if_splits prod.splits sum.splits option.splits)

lemma append_NoFault:
  assumes "log_inv cj sha hx (dir, p)" "append_row cj sha hx bytes t NoFault i (dir, p) = ((d, q), res)"
  shows "log_inv cj sha hx (d, q) \<and> p_name q = p_name p"
proof (cases "maybe_rotate bytes (stamp t) NoFault dir p")
  case (Pair d1 r1)
  show ?thesis
  proof (cases r1)
    case (Inl e)
    with Pair assms maybe_rotate_NoFault_Inl [of bytes "stamp t" dir p d1 e] show ?thesis
      by (auto simp: append_row_def)
  next
    case (Inr p1)
    with Pair have inv: "log_inv cj sha hx (d1, p1)" "p_name p1 = p_name p"
      using maybe_rotate_NoFault [OF assms(1)] by auto
    show ?thesis
    proof (cases "compute_this_hash cj sha hx (row_of_input p1 (now_utc t) i)")
      case (Inl e)
      with Pair Inr assms(2) inv show ?thesis by (auto simp: append_row_def Let_def)
    next
      case (Inr h)
      have "ts_seq (row_of_input p1 (now_utc t) i) = next_seq p1" by (simp add: row_of_input_def)
      with Pair \<open>r1 = Inr p1\<close> Inr assms(2) log_inv_write [OF inv(1) Inr] inv(2) show ?thesis
        by (auto simp: append_row_def Let_def write_row_def)
    qed
  qed
qed

definition append_all ::
  "canon \<Rightarrow> (string \<Rightarrow> string) \<Rightarrow> (string \<Rightarrow> string) \<Rightarrow> (log_line \<Rightarrow> nat) \<Rightarrow> (readings \<times> row_input) list
     \<Rightarrow> log_dir \<times> prov_log \<Rightarrow> log_dir \<times> prov_log" where
  "append_all cj sha hx bytes ins dp =
     fold (\<lambda>(t, i) dp. fst (append_row cj sha hx bytes t NoFault i dp)) ins dp"

lemma append_all_inv:
  "log_inv cj sha hx dp \<Longrightarrow> log_inv cj sha hx (append_all cj sha hx bytes ins dp)
     \<and> p_name (snd (append_all cj sha hx bytes ins dp)) = p_name (snd dp)"
proof (induction ins arbitrary: dp)
  case (Cons ti ins)
  obtain t i where ti: "ti = (t, i)" by (cases ti)
  obtain dir p where dp: "dp = (dir, p)" by (cases dp)
  obtain d q res where a: "append_row cj sha hx bytes t NoFault i (dir, p) = ((d, q), res)"
    by (metis surj_pair)
  from append_NoFault [OF Cons.prems [unfolded dp] a] Cons.IH [of "(d, q)"] a ti dp show ?case
    by (simp add: append_all_def)
qed (simp add: append_all_def)

lemma open_log_inv:
  assumes "open_log name session thr days aged rem isf dir = (d, Inr p)" and "map_of dir name = None"
    and "map_of d name = None"
  shows "log_inv cj sha hx (d, p) \<and> p_name p = name"
  using assms by (auto simp: open_log_def recover_state_def log_inv_def split: sum.splits prod.splits if_splits)

lemma prune_absent: "map_of dir name = None \<Longrightarrow> map_of (prune_rotated_segments n days aged rem dir) name = None"
proof -
  assume a: "map_of dir name = None"
  have "map_of (foldl (\<lambda>d seg. if aged seg \<and> rem seg then AList.delete seg d else d) dir ss) name = None" for ss
    using a by (induction ss arbitrary: dir) (auto simp: AList.delete_conv')
  with a show ?thesis by (simp add: prune_rotated_segments_def)
qed

text \<open>C3: The log verifies: a log opened fresh and written only by \<^verbatim>\<open>append\<close>, through any sequence of rows
  and rotations without input/output failure, always passes \<^verbatim>\<open>verify\<close> with every row counted as good,
  and reopening it recovers exactly the sequence number and hash the writer holds in memory, so a
  later session continues the same chain.\<close>

theorem log_verifies_and_recovers:
  assumes "open_log name session thr days aged rem isf dir = (d, Inr p)" and "map_of dir name = None"
    and "append_all cj sha hx bytes ins (d, p) = (d', p')"
  shows "issues (verify cj sha hx (map_of d' name)) = []
    \<and> ok_rows (verify cj sha hx (map_of d' name)) = total_rows (verify cj sha hx (map_of d' name))
    \<and> recover_state (map_of d' name) = Inr (next_seq p', last_hash p')"
proof -
  have "map_of d name = None"
    using assms(1,2) prune_absent [OF assms(2)]
    by (auto simp: open_log_def split: sum.splits prod.splits if_splits)
  from open_log_inv [OF assms(1,2) this] have "log_inv cj sha hx (d, p)" "p_name p = name"
    by blast+
  with append_all_inv [of cj sha hx "(d, p)" bytes ins] assms(3)
  have "log_inv cj sha hx (d', p')" "p_name p' = name" by simp_all
  with log_inv_verify log_inv_recover show ?thesis by blast
qed

definition demo_canon :: canon where
  "demo_canon r = Some (replicate (ts_seq r) CHR ''#'' @ prev_hash r
     @ (case row_ref r of Some x \<Rightarrow> x | None \<Rightarrow> []) @ (case error_code r of Some x \<Rightarrow> x | None \<Rightarrow> []))"

definition demo_input :: "string \<Rightarrow> row_input" where
  "demo_input r = \<lparr> i_event = SessionEnd, i_result = LogErr, i_capability = Oa, i_ref = Some r,
     i_source = None, i_error_code = Some ''NOT_FOUND'', i_size_bytes = None, i_license = None,
     i_store_path = None, i_canonical_digest = None \<rparr>"

definition demo_readings :: "nat \<Rightarrow> readings" where
  "demo_readings n = \<lparr> now_utc = n, now_instant = n, fingerprint = 0, stamp = ''t'' \<rparr>"

definition demo_log :: prov_log where
  "demo_log = \<lparr> p_name = ''access.log'', next_seq = 1, last_hash = GENESIS_HASH, p_session = ''s'',
     rotate_threshold = 200, repeat_ix = repeat_default \<rparr>"

theorem log_verifies_and_recovers_witness:
  "\<exists>d' p'. append_all demo_canon toy_sha hex_lower (\<lambda>_. 100)
       [(demo_readings 1, demo_input ''a''), (demo_readings 2, demo_input ''b''), (demo_readings 3, demo_input ''c'')]
       ([], demo_log) = (d', p')
     \<and> next_seq p' = 2 \<and> recover_state (map_of d' ''access.log'') = Inr (next_seq p', last_hash p')"
proof -
  let ?ins = "[(demo_readings 1, demo_input ''a''), (demo_readings 2, demo_input ''b''), (demo_readings 3, demo_input ''c'')]"
  have o: "open_log ''access.log'' ''s'' 200 90 (\<lambda>_. True) (\<lambda>_. True) True [] = ([], Inr demo_log)"
    by (simp add: open_log_def recover_state_def demo_log_def prune_rotated_segments_def rotated_segments_def)
  obtain d' p' where a: "append_all demo_canon toy_sha hex_lower (\<lambda>_. 100) ?ins ([], demo_log) = (d', p')"
    by (cases "append_all demo_canon toy_sha hex_lower (\<lambda>_. 100) ?ins ([], demo_log)")
  have "next_seq (snd (append_all demo_canon toy_sha hex_lower (\<lambda>_. 100) ?ins ([], demo_log))) = 2"
    by code_simp
  with a log_verifies_and_recovers [OF o _ a] show ?thesis by auto
qed

subsection \<open>Tamper evidence\<close>

text \<open>Two rows with the same digest.\<close>

definition row_collision :: "canon \<Rightarrow> (string \<Rightarrow> string) \<Rightarrow> (string \<Rightarrow> string) \<Rightarrow> log_row \<Rightarrow> log_row \<Rightarrow> bool" where
  "row_collision cj sha hx r q \<longleftrightarrow> hash_view r \<noteq> hash_view q
     \<and> compute_this_hash cj sha hx (hash_view r) = compute_this_hash cj sha hx (hash_view q)"

definition single_chain :: "log_row list \<Rightarrow> bool" where
  "single_chain rows \<longleftrightarrow> list_all (\<lambda>r. prev_hash r \<noteq> GENESIS_HASH) (tl rows)"

lemma clean_from_last:
  "clean_from cj sha hx None (xs @ [x]) \<Longrightarrow>
     compute_this_hash cj sha hx (hash_view x) = Inr (this_hash x)
     \<and> (if xs = [] then prev_hash x = GENESIS_HASH
        else prev_hash x = GENESIS_HASH \<or> prev_hash x = this_hash (last xs))"
  by (auto simp: clean_from_append row_issues_Nil split: if_splits)

lemma chains_equal:
  assumes "clean_from cj sha hx None xs" "clean_from cj sha hx None ys"
    and "single_chain xs" "single_chain ys" "xs \<noteq> []" "ys \<noteq> []"
    and "this_hash (last xs) = this_hash (last ys)"
  shows "xs = ys \<or> (\<exists>r\<in>set xs. \<exists>q\<in>set ys. row_collision cj sha hx r q)"
  using assms
proof (induction xs arbitrary: ys rule: rev_induct)
  case (snoc x xs)
  then obtain zs y where ys: "ys = zs @ [y]" by (cases ys rule: rev_cases) auto
  have hx: "compute_this_hash cj sha hx (hash_view x) = Inr (this_hash x)"
    "if xs = [] then prev_hash x = GENESIS_HASH else prev_hash x = GENESIS_HASH \<or> prev_hash x = this_hash (last xs)"
    using clean_from_last [OF snoc.prems(1)] by blast+
  have hy: "compute_this_hash cj sha hx (hash_view y) = Inr (this_hash y)"
    "if zs = [] then prev_hash y = GENESIS_HASH else prev_hash y = GENESIS_HASH \<or> prev_hash y = this_hash (last zs)"
    using clean_from_last [OF snoc.prems(2) [unfolded ys]] by blast+
  have same: "this_hash x = this_hash y" using snoc.prems(7) ys by simp
  show ?case
  proof (cases "hash_view x = hash_view y")
    case False
    with hx(1) hy(1) same have "row_collision cj sha hx x y" by (simp add: row_collision_def)
    then show ?thesis using ys by auto
  next
    case True
    have xy: "x = y" by (rule row_eq [OF True same])
    have gx: "xs \<noteq> [] \<Longrightarrow> prev_hash x \<noteq> GENESIS_HASH" and gy: "zs \<noteq> [] \<Longrightarrow> prev_hash y \<noteq> GENESIS_HASH"
      using snoc.prems(3,4) ys by (auto simp: single_chain_def)
    show ?thesis
    proof (cases "xs = []")
      case True
      with hx(2) xy gy ys show ?thesis by auto
    next
      case False
      with gx hy(2) xy have "zs \<noteq> []" by auto
      moreover have "clean_from cj sha hx None xs" "clean_from cj sha hx None zs"
        using snoc.prems(1,2) ys by (simp_all add: clean_from_append)
      moreover have "single_chain xs" "single_chain zs"
        using snoc.prems(3,4) ys False \<open>zs \<noteq> []\<close> by (auto simp: single_chain_def)
      moreover have "this_hash (last xs) = this_hash (last zs)"
        using hx(2) hy(2) False \<open>zs \<noteq> []\<close> gx gy xy by auto
      ultimately have "xs = zs \<or> (\<exists>r\<in>set xs. \<exists>q\<in>set zs. row_collision cj sha hx r q)"
        using snoc.IH False by blast
      with xy ys show ?thesis by auto
    qed
  qed
qed simp

lemma verify_clean_rows:
  "issues (verify cj sha hx (Some f)) = [] \<Longrightarrow> clean_from cj sha hx None (rows_of (lines f))"
  using verify_loop_clean [of cj sha hx 1 None "lines f" report_empty]
  by (simp add: verify_def report_empty_def)

text \<open>C6: The hash chain is tamper-evident: if two files both pass \<^verbatim>\<open>verify\<close>, each is one chain (no
  restart behind its first row), and their last rows carry the same hash, then the files hold the same
  rows, all fields included and in the same order, or they exhibit two different rows with the same
  digest.  So whoever knows the last hash detects any edited, dropped, inserted or reordered row.\<close>

theorem chain_is_tamper_evident:
  assumes "issues (verify cj sha hx (Some f)) = []" and "issues (verify cj sha hx (Some g)) = []"
    and "single_chain (rows_of (lines f))" and "single_chain (rows_of (lines g))"
    and "rows_of (lines f) \<noteq> []" and "rows_of (lines g) \<noteq> []"
    and "this_hash (last (rows_of (lines f))) = this_hash (last (rows_of (lines g)))"
  shows "rows_of (lines f) = rows_of (lines g)
    \<or> (\<exists>r\<in>set (rows_of (lines f)). \<exists>q\<in>set (rows_of (lines g)). row_collision cj sha hx r q)"
  using chains_equal [OF verify_clean_rows [OF assms(1)] verify_clean_rows [OF assms(2)] assms(3-7)] .

definition demo_row :: "nat \<Rightarrow> string \<Rightarrow> string \<Rightarrow> log_row" where
  "demo_row n r prev = with_hash (row_of_input (demo_log\<lparr>next_seq := n, last_hash := prev\<rparr>) 0 (demo_input r))
     (hex_lower (toy_sha (the (demo_canon (row_of_input (demo_log\<lparr>next_seq := n, last_hash := prev\<rparr>) 0 (demo_input r))))))"

definition demo_file :: log_file where
  "demo_file = (let r = demo_row 1 ''a'' GENESIS_HASH in
     \<lparr> lines = [V2Line r, EmptyLine, V2Line (demo_row 2 ''b'' (this_hash r))], unterminated = False \<rparr>)"

theorem chain_is_tamper_evident_witness:
  "rows_of (lines demo_file) = rows_of (lines (demo_file\<lparr>lines := filter (\<lambda>l. l \<noteq> EmptyLine) (lines demo_file)\<rparr>))
   \<or> (\<exists>r\<in>set (rows_of (lines demo_file)). \<exists>q\<in>set (rows_of (lines demo_file)). row_collision demo_canon toy_sha hex_lower r q)"
proof -
  let ?g = "demo_file\<lparr>lines := filter (\<lambda>l. l \<noteq> EmptyLine) (lines demo_file)\<rparr>"
  have same: "rows_of (lines ?g) = rows_of (lines demo_file)"
    by (simp add: demo_file_def Let_def)
  have v: "issues (verify demo_canon toy_sha hex_lower (Some demo_file)) = []"
    "issues (verify demo_canon toy_sha hex_lower (Some ?g)) = []"
    "single_chain (rows_of (lines demo_file))"
    by code_simp+
  have "rows_of (lines demo_file) \<noteq> []" by (simp add: demo_file_def Let_def)
  with chain_is_tamper_evident [OF v(1,2)] v(3) same show ?thesis by simp
qed

subsection \<open>Failures\<close>

definition reported_row :: "log_dir \<Rightarrow> string \<Rightarrow> string \<Rightarrow> row_input \<Rightarrow> nat \<Rightarrow> string \<Rightarrow> bool" where
  "reported_row d name session i seq h \<longleftrightarrow>
     (\<exists>f row. map_of d name = Some (add_line f (V2Line row) False)
        \<and> ts_seq row = seq \<and> this_hash row = h \<and> event row = i_event i
        \<and> row_ref row = i_ref i \<and> error_code row = i_error_code i \<and> result row = i_result i
        \<and> source row = i_source i \<and> capability row = i_capability i
        \<and> canonical_digest row = i_canonical_digest i \<and> session_id row = session)"

lemma append_row_effect:
  assumes "append_row cj sha hx bytes t fault i (dir, p) = ((d, q), res)"
  shows "case res of
      Inl _ \<Rightarrow> repeat_ix q = repeat_ix p
        \<and> (next_seq q, last_hash q) \<in> {(next_seq p, last_hash p), (1, GENESIS_HASH)}
    | Inr seq \<Rightarrow> next_seq q = seq + 1 \<and> seq \<in> {next_seq p, 1}
        \<and> reported_row d (p_name p) (p_session p) i seq (last_hash q)"
proof (cases "maybe_rotate bytes (stamp t) fault dir p")
  case (Pair d1 r1)
  show ?thesis
  proof (cases r1)
    case (Inl e)
    with Pair assms show ?thesis by (auto simp: append_row_def)
  next
    case (Inr p1)
    have p1: "p1 = p \<or> p1 = p\<lparr>next_seq := 1, last_hash := GENESIS_HASH\<rparr>"
      using Pair Inr by (auto simp: maybe_rotate_def Let_def split: if_splits prod.splits sum.splits)
    show ?thesis
    proof (cases "compute_this_hash cj sha hx (row_of_input p1 (now_utc t) i)")
      case (Inl e)
      with Pair \<open>r1 = Inr p1\<close> assms p1 show ?thesis by (auto simp: append_row_def Let_def)
    next
      case (Inr h)
      let ?row = "with_hash (row_of_input p1 (now_utc t) i) h"
      obtain d2 r2 where w: "write_row bytes (p_name p1) fault d1 ?row = (d2, r2)"
        by (cases "write_row bytes (p_name p1) fault d1 ?row")
      show ?thesis
      proof (cases r2)
        case (Inl e)
        with Pair \<open>r1 = Inr p1\<close> Inr w assms p1 show ?thesis by (auto simp: append_row_def Let_def)
      next
        case (Inr u)
        with w have "map_of d2 (p_name p1) = Some (add_line (map_of d1 (p_name p1)) (V2Line ?row) False)"
          by (auto simp: write_row_def Let_def AList.update_conv' split: io_fault.splits if_splits)
        moreover have "event ?row = i_event i \<and> row_ref ?row = i_ref i \<and> error_code ?row = i_error_code i
            \<and> result ?row = i_result i \<and> source ?row = i_source i \<and> capability ?row = i_capability i
            \<and> canonical_digest ?row = i_canonical_digest i
            \<and> session_id ?row = p_session p1 \<and> ts_seq ?row = next_seq p1 \<and> this_hash ?row = h"
          by (simp add: with_hash_def row_of_input_def row_for_hash.defs log_row.defs)
        moreover have "ts_seq (row_of_input p1 (now_utc t) i) = next_seq p1"
          by (simp add: row_of_input_def)
        moreover have "res = Inr (next_seq p1)" and "next_seq q = next_seq p1 + 1" and "last_hash q = h" "d = d2"
          using Pair \<open>r1 = Inr p1\<close> \<open>compute_this_hash _ _ _ _ = Inr h\<close> w Inr assms
          by (auto simp: append_row_def Let_def row_of_input_def)
        ultimately have "reported_row d (p_name p1) (p_session p1) i (next_seq p1) (last_hash q)"
          unfolding reported_row_def by blast
        with p1 \<open>res = Inr (next_seq p1)\<close> \<open>next_seq q = next_seq p1 + 1\<close> show ?thesis
          by auto
      qed
    qed
  qed
qed


definition demo_dp :: "log_dir \<times> prov_log" where
  "demo_dp = ([(''access.log'', \<lparr> lines = [V2Line (demo_row 1 ''a'' GENESIS_HASH)], unterminated = False \<rparr>)],
     demo_log\<lparr>next_seq := 2, last_hash := this_hash (demo_row 1 ''a'' GENESIS_HASH)\<rparr>)"


text \<open>
  The promise has a gap.  A write that fails part-way leaves a torn last line, and the next append,
  which reports success, continues that very line: the row it reported durable cannot be read, and
  neither this file nor a later session's start gets past it.
\<close>

lemma verify_bad_line: "BadLine \<in> set (lines f) \<Longrightarrow> issues (verify cj sha hx (Some f)) \<noteq> []"
  using verify_loop_clean [of cj sha hx 1 None "lines f" report_empty]
  by (auto simp: verify_def report_empty_def)

lemma recover_bad_line: "BadLine \<in> set ls \<Longrightarrow> \<exists>e. recover_loop ls n h = Inl e"
  by (induction ls n h rule: recover_loop.induct) auto

lemma torn_write_leaves:
  assumes "rotate_threshold p = 0" and "0 < n" and "cj (row_of_input p (now_utc t) i) \<noteq> None"
    and "append_row cj sha hx bytes t (FailWrite n) i (dir, p) = ((d, q), res)"
  shows "q = p \<and> \<not> is_ok res \<and> (\<exists>g. map_of d (p_name p) = Some g \<and> unterminated g \<and> lines g \<noteq> [])"
  using assms
  by (auto simp: append_row_def maybe_rotate_def Let_def compute_this_hash_def write_row_def add_line_def
      AList.update_conv' split: option.splits if_splits)

theorem append_after_torn_write_corrupts:
  assumes "map_of dir (p_name p) = Some g" and "unterminated g" and "lines g \<noteq> []"
    and "rotate_threshold p = 0"
    and "append_row cj sha hx bytes t NoFault i (dir, p) = ((d, q), Inr seq)"
  shows "issues (verify cj sha hx (map_of d (p_name p))) \<noteq> []
    \<and> (\<exists>e. recover_state (map_of d (p_name p)) = Inl e)"
proof -
  from assms have "map_of d (p_name p) = Some \<lparr> lines = butlast (lines g) @ [BadLine], unterminated = False \<rparr>"
    by (auto simp: append_row_def maybe_rotate_def Let_def write_row_def add_line_def
      AList.update_conv' split: sum.splits)
  then show ?thesis
    using verify_bad_line [of "\<lparr> lines = butlast (lines g) @ [BadLine], unterminated = False \<rparr>"]
      recover_bad_line [of "butlast (lines g) @ [BadLine]"]
    by (simp add: recover_state_def)
qed

subsection \<open>Rotation loses nothing, if the second is new\<close>

lemma segment_name_neq [simp]:
  "segment_name n st \<noteq> n" "segment_name n st @ ''.tmp'' \<noteq> n" "segment_name n st @ ''.tmp'' \<noteq> segment_name n st"
proof -
  have "length (segment_name n st) \<noteq> length n" "length (segment_name n st @ ''.tmp'') \<noteq> length n"
    by (simp_all add: segment_name_def)
  then show "segment_name n st \<noteq> n" "segment_name n st @ ''.tmp'' \<noteq> n" by metis+
qed simp

lemma rotate_keeps:
  assumes "map_of dir name = Some f" and "rotate_log name st fault dir = (d, r)"
  shows "(case r of Inr _ \<Rightarrow> map_of d name = None \<and> map_of d (segment_name name st) = Some f
    | Inl _ \<Rightarrow> map_of d name = Some f)
    \<and> (\<forall>n. n \<notin> {name, segment_name name st, segment_name name st @ ''.tmp''} \<longrightarrow> map_of d n = map_of dir n)"
  using assms segment_name_neq(2) [of name st, symmetric]
  by (auto simp: rotate_log_def Let_def AList.update_conv' AList.delete_conv' split: if_splits)

text \<open>Rotation never loses a row to a failure: whichever step of an append fails, the full log from before
  is afterwards the current file (untouched, or with the new bytes behind it when no rotation was
  due) or the new segment, and every other file of the directory except the segment's own name and
  its temporary is unchanged.\<close>

theorem rotation_loses_nothing:
  assumes "map_of dir (p_name p) = Some f" and "0 < rotate_threshold p"
    and "rotate_threshold p \<le> file_bytes bytes f"
    and "append_row cj sha hx bytes t fault i (dir, p) = ((d, q), res)"
  shows "(map_of d (p_name p) = Some f \<or> map_of d (segment_name (p_name p) (stamp t)) = Some f)
    \<and> (\<forall>n. n \<notin> {p_name p, segment_name (p_name p) (stamp t), segment_name (p_name p) (stamp t) @ ''.tmp''}
          \<longrightarrow> map_of d n = map_of dir n)"
proof -
  obtain d1 r1 where rot: "rotate_log (p_name p) (stamp t) fault dir = (d1, r1)"
    by (cases "rotate_log (p_name p) (stamp t) fault dir")
  note kept = rotate_keeps [OF assms(1) rot]
  have wr: "map_of d2 n = map_of d1 n" if "write_row bytes (p_name p) flt d1 row = (d2, r2)" "n \<noteq> p_name p"
    for flt row d2 r2 n
    using that by (auto simp: write_row_def Let_def AList.update_conv' split: io_fault.splits if_splits)
  consider "d = dir" | "d = d1" "\<exists>e. r1 = Inl e" | "d = d1" "\<exists>u. r1 = Inr u"
    | row r2 where "write_row bytes (p_name p) fault d1 row = (d, r2)" "\<exists>u. r1 = Inr u"
    using assms rot
    by (auto simp: append_row_def maybe_rotate_def Let_def split: if_splits sum.splits prod.splits)
  then show ?thesis
  proof cases
    case 1
    with assms(1) show ?thesis by simp
  next
    case 2
    with kept show ?thesis by auto
  next
    case 3
    with kept show ?thesis by auto
  next
    case 4
    with kept wr [OF 4(1)] show ?thesis by auto
  qed
qed

theorem rotation_loses_nothing_witness:
  "\<exists>f d q res. append_row demo_canon toy_sha hex_lower (\<lambda>_. 300) (demo_readings 1) (FailWrite 5) (demo_input ''b'') demo_dp = ((d, q), res)
     \<and> (map_of d ''access.log'' = Some f \<or> map_of d ''access.log.t.gz'' = Some f) \<and> length (lines f) = 1"
proof -
  obtain dir p where dp: "demo_dp = (dir, p)" by (cases demo_dp)
  obtain d q res where a: "append_row demo_canon toy_sha hex_lower (\<lambda>_. 300) (demo_readings 1) (FailWrite 5) (demo_input ''b'') (dir, p) = ((d, q), res)"
    by (metis surj_pair)
  obtain f where f: "map_of dir (p_name p) = Some f" "length (lines f) = 1" "\<not> unterminated f"
    using dp by (auto simp: demo_dp_def demo_log_def)
  then have "300 \<le> file_bytes (\<lambda>_. 300) f"
    by (auto simp: file_bytes_def length_Suc_conv)
  moreover have "rotate_threshold p = 200" "p_name p = ''access.log''" "stamp (demo_readings 1) = ''t''"
    using dp by (auto simp: demo_dp_def demo_log_def demo_readings_def)
  ultimately show ?thesis
    using rotation_loses_nothing [OF f(1) _ _ a] f a dp by (force simp: segment_name_def)
qed

text \<open>
  The segment's own name is the hole: it has one-second resolution, so a second rotation within a
  second replaces the first one's segment.
\<close>

theorem second_rotation_overwrites:
  assumes "map_of dir name = Some f" and "map_of dir (segment_name name st) = Some g" and "f \<noteq> g"
  shows "\<exists>d. rotate_log name st NoFault dir = (d, Inr ()) \<and> map_of d (segment_name name st) = Some f"
  using assms by (simp add: rotate_log_def Let_def AList.update_conv' AList.delete_conv')

subsection \<open>Properties of the migration\<close>

lemma rebuild_payload:
  "rebuild_chain cj sha hx prev ss = Inr rs \<Longrightarrow>
     list_all2 (\<lambda>s r. hash_view r = row_of_seed sha hx (prev_hash r) s) ss rs"
  by (induction ss arbitrary: prev rs) (auto simp: Let_def row_of_seed_def split: sum.splits)

lemma rebuild_clean:
  assumes "rebuild_chain cj sha hx prev ss = Inr rs"
    and "sorted_wrt (<) (map s_ts_seq ss)"
    and "prev = GENESIS_HASH \<or> (\<exists>q. anchor = Some q \<and> this_hash q = prev \<and> (\<forall>s\<in>set ss. ts_seq q < s_ts_seq s))"
  shows "clean_from cj sha hx anchor rs"
  using assms
proof (induction ss arbitrary: prev rs anchor)
  case (Cons s ss)
  let ?rfh = "row_of_seed sha hx prev s"
  from Cons.prems(1) obtain h rs' where h: "compute_this_hash cj sha hx ?rfh = Inr h"
      "rebuild_chain cj sha hx h ss = Inr rs'" "rs = with_hash ?rfh h # rs'"
    by (auto simp: Let_def split: sum.splits)
  have f: "prev_hash ?rfh = prev" "ts_seq ?rfh = s_ts_seq s" by (simp_all add: row_of_seed_def)
  have "row_issues cj sha hx anchor (with_hash ?rfh h) = []"
    unfolding row_issues_Nil using h(1) f Cons.prems(3) by auto
  moreover have "clean_from cj sha hx (Some (with_hash ?rfh h)) rs'"
    using Cons.IH [OF h(2), of "Some (with_hash ?rfh h)"] Cons.prems(2) f by simp
  ultimately show ?case using h(3) by simp
qed simp

lemma verify_rows_Nil:
  "issues (verify cj sha hx (Some \<lparr> lines = map V2Line rs, unterminated = u \<rparr>)) = []
     \<longleftrightarrow> clean_from cj sha hx None rs"
  using verify_loop_clean [of cj sha hx 1 None "map V2Line rs" report_empty]
  by (auto simp: verify_def report_empty_def)

lemma suffix_neq [simp]:
  "n @ ''.v2-migrated'' \<noteq> n" "n @ ''.v1-backup'' \<noteq> n" "n @ ''.v2-migrated'' \<noteq> n @ ''.v1-backup''"
  "n \<noteq> n @ ''.v2-migrated''" "n \<noteq> n @ ''.v1-backup''"
  by simp_all

text \<open>Migrating a log is safe: a dry run changes nothing; whichever step of a live run fails, the original
  file is still there, live or as the backup; and a live run that succeeds leaves the original as the
  backup and a live file that passes \<^verbatim>\<open>verify\<close>, with one v2 row for each row of the original, in order and
  with its fields (and its derived canonical digest) unchanged.\<close>

theorem migration_is_safe:
  assumes "map_of dir name = Some f" and "migrate_v1_to_v2 cj sha hx fault name dry dir = (d, res)"
  shows "(dry \<longrightarrow> d = dir)
    \<and> (map_of d name = Some f \<or> map_of d (name @ ''.v1-backup'') = Some f)
    \<and> (is_ok res \<and> \<not> dry \<longrightarrow> map_of d (name @ ''.v1-backup'') = Some f
        \<and> issues (verify cj sha hx (map_of d name)) = []
        \<and> (\<exists>seeds rows. read_seeds (lines f) = Inr seeds \<and> rows_of (lines (the (map_of d name))) = rows
              \<and> list_all2 (\<lambda>s r. hash_view r = row_of_seed sha hx (prev_hash r) s) seeds rows))"
proof (cases "read_seeds (lines f)")
  case (Inl e)
  with assms show ?thesis by (auto simp: migrate_v1_to_v2_def)
next
  case (Inr seeds)
  show ?thesis
  proof (cases "rebuild_chain cj sha hx GENESIS_HASH seeds")
    case (Inl e)
    with Inr assms show ?thesis by (auto simp: migrate_v1_to_v2_def)
  next
    case (Inr rows)
    with rebuild_payload [OF Inr] \<open>read_seeds (lines f) = Inr seeds\<close> assms show ?thesis
      by (auto simp: migrate_v1_to_v2_def Let_def AList.update_conv' AList.delete_conv' split: if_splits)
  qed
qed

lemma rebuild_total:
  "(\<And>r. cj r \<noteq> None) \<Longrightarrow> \<exists>rs. rebuild_chain cj sha hx prev ss = Inr rs"
proof (induction ss arbitrary: prev)
  case (Cons s ss)
  obtain b where b: "cj (row_of_seed sha hx prev s) = Some b" using Cons.prems by blast
  then have "compute_this_hash cj sha hx (row_of_seed sha hx prev s) = Inr (hx (sha b))"
    by (simp add: compute_this_hash_def)
  moreover obtain rs where "rebuild_chain cj sha hx (hx (sha b)) ss = Inr rs"
    using Cons by blast
  ultimately show ?case by simp
qed simp

lemma row_of_seed_v2:
  "row_of_seed sha hx prev (seed_of_v2 (with_hash (row_of_seed sha hx prev s) h)) = row_of_seed sha hx prev s"
  by (auto simp: row_of_seed_def seed_of_v2_def with_hash_def row_for_hash.defs log_row.defs seed_digest_def
      derive_digest_def split: option.splits)

lemma rebuild_idem:
  "rebuild_chain cj sha hx prev ss = Inr rs \<Longrightarrow> rebuild_chain cj sha hx prev (map seed_of_v2 rs) = Inr rs"
  by (induction ss arbitrary: prev rs) (auto simp: Let_def row_of_seed_v2 split: sum.splits)

lemma read_seeds_v2: "read_seeds (map V2Line rs) = Inr (map seed_of_v2 rs)"
  by (induction rs) simp_all


definition demo_v1 :: "nat \<Rightarrow> string \<Rightarrow> v1_row" where
  "demo_v1 n r = \<lparr> v1_ts = 0, v1_ts_seq = n, v1_event = Fetch, v1_ref = Some r, v1_source = Some ''crossref'',
     v1_result = LogOk, v1_license = None, v1_size_bytes = None, v1_store_path = None, v1_capability = Oa,
     v1_session_id = ''s'', v1_error_code = None, v1_prev_hash = GENESIS_HASH, v1_this_hash = ''old'' \<rparr>"

definition demo_v1_dir :: log_dir where
  "demo_v1_dir = [(''log'', \<lparr> lines = [V1Line (demo_v1 1 ''10.1234/x''), V1Line (demo_v1 4 ''2401.12345'')], unterminated = False \<rparr>)]"

theorem migration_is_safe_witness:
  "\<exists>d. migrate_v1_to_v2 demo_canon toy_sha hex_lower MPromote ''log'' False demo_v1_dir = d
     \<and> map_of (fst d) (''log'' @ ''.v1-backup'') = map_of demo_v1_dir ''log''"
proof -
  obtain d res where m: "migrate_v1_to_v2 demo_canon toy_sha hex_lower MPromote ''log'' False demo_v1_dir = (d, res)"
    by (metis surj_pair)
  have "map_of (fst (migrate_v1_to_v2 demo_canon toy_sha hex_lower MPromote ''log'' False demo_v1_dir)) ''log'' = None"
    by code_simp
  moreover obtain f where f: "map_of demo_v1_dir ''log'' = Some f"
    by (simp add: demo_v1_dir_def)
  ultimately show ?thesis
    using migration_is_safe [OF f m] m by auto
qed


end
