(* ===== verification/Markup.thy ===== *)
theory Markup
  imports Prelude
begin

text \<open>
  Plain text from publisher titles (\<^verbatim>\<open>crates/doiget-core/src/markup.rs\<close>): the tag grammar, the split into
  text runs and tags, the separators of pretty-printed runs, the entity decoder.  Suffixes of the
  input stand for the byte indices of the source.  The Unicode tables behind \<^verbatim>\<open>char::is_alphanumeric\<close>,
  \<^verbatim>\<open>is_alphabetic\<close> and \<^verbatim>\<open>is_lowercase\<close> are the parameter \<open>unicode\<close>.
\<close>

record unicode =
  is_alphanumeric :: "string \<Rightarrow> bool"
  is_alphabetic :: "string \<Rightarrow> bool"
  is_lowercase :: "string \<Rightarrow> bool"

text \<open>The ASCII part of the tables, for evaluating the model.\<close>

definition ascii_unicode :: unicode where
  "ascii_unicode = \<lparr> is_alphanumeric = ascii_char is_ascii_alphanumeric,
     is_alphabetic = ascii_char is_ascii_alphabetic, is_lowercase = ascii_char is_ascii_lowercase \<rparr>"

subsection \<open>Tags\<close>

definition is_ascii_whitespace :: "char \<Rightarrow> bool" where
  "is_ascii_whitespace c \<longleftrightarrow> code c \<in> {9, 10, 12, 13, 32}"

definition is_name_byte :: "char \<Rightarrow> bool" where
  "is_name_byte c \<longleftrightarrow> is_ascii_alphanumeric c \<or> c \<in> set '':._-''"

definition INLINE_ELEMENTS :: "string list" where
  "INLINE_ELEMENTS = [''b'', ''bold'', ''br'', ''em'', ''i'', ''inline-formula'', ''italic'', ''math'',
     ''monospace'', ''sc'', ''scp'', ''small'', ''span'', ''strong'', ''sub'', ''sup'', ''tex-math'',
     ''tt'', ''u'', ''underline'']"

text \<open>One attribute: a name, an equals sign and a quoted value without \<^verbatim>\<open><\<close>; what follows it.\<close>

definition attribute_rest :: "string \<Rightarrow> string option" where
  "attribute_rest s =
     (case dropWhile is_ascii_whitespace (dropWhile is_name_byte s) of
        [] \<Rightarrow> None
      | c # s \<Rightarrow>
          if c \<noteq> CHR ''='' then None
          else (case dropWhile is_ascii_whitespace s of
              [] \<Rightarrow> None
            | quote # s \<Rightarrow>
                if quote \<noteq> CHR 0x22 \<and> quote \<noteq> CHR 0x27 then None
                else (case split_once quote s of
                    None \<Rightarrow> None
                  | Some (v, rest) \<Rightarrow> if CHR ''<'' \<in> set v then None else Some rest)))"

lemma attribute_rest_shorter: "attribute_rest s = Some rest \<Longrightarrow> length rest < length s"
proof -
  assume "attribute_rest s = Some rest"
  then obtain c s1 q s2 v where *: "dropWhile is_ascii_whitespace (dropWhile is_name_byte s) = c # s1"
      "dropWhile is_ascii_whitespace s1 = q # s2" "split_once q s2 = Some (v, rest)"
    by (auto simp: attribute_rest_def split: list.splits if_splits option.splits)
  from *(3) have "length rest < length s2" by (auto dest: split_once_SomeD)
  also have "\<dots> < length (q # s2)" by simp
  also have "\<dots> \<le> length s1" using *(2) length_dropWhile_le by metis
  also have "\<dots> < length (c # s1)" by simp
  also have "\<dots> \<le> length s" using *(1) length_dropWhile_le order_trans by metis
  finally show ?thesis .
qed

text \<open>From behind the name to behind the closing bracket: whether the tag closes itself, and the rest.\<close>

function tag_end :: "bool \<Rightarrow> string \<Rightarrow> (bool \<times> string) option" where
  "tag_end closing s =
     (case dropWhile is_ascii_whitespace s of
        [] \<Rightarrow> None
      | c # r \<Rightarrow>
          if c = CHR ''>'' then Some (False, r)
          else if c = CHR ''/'' \<and> \<not> closing \<and> r \<noteq> [] \<and> hd r = CHR ''>'' then Some (True, tl r)
          else if \<not> closing \<and> (is_ascii_alphabetic c \<or> c = CHR ''_'')
          then (case attribute_rest (c # r) of None \<Rightarrow> None | Some rest \<Rightarrow> tag_end closing rest)
          else None)"
  by pat_completeness auto
termination
proof (relation "measure (\<lambda>(_, s). length s)", goal_cases)
  case (2 closing s c r rest)
  then have "length rest < length (c # r)" using attribute_rest_shorter by blast
  also have "\<dots> \<le> length s" using 2(1) length_dropWhile_le by metis
  finally show ?case by simp
qed simp

declare tag_end.simps [simp del]

definition tag_len :: "string \<Rightarrow> nat option" where
  "tag_len s =
     (let s1 = tl s;
          closing = (s1 \<noteq> [] \<and> hd s1 = CHR ''/'');
          s2 = (if closing then tl s1 else s1) in
      if s2 = [] \<or> \<not> is_ascii_alphabetic (hd s2) then None
      else
        let name = takeWhile is_name_byte s2 in
        (case tag_end closing (drop (length name) s2) of
           None \<Rightarrow> None
         | Some (self_closing, rest) \<Rightarrow>
             let known = (to_ascii_lowercase name \<in> set INLINE_ELEMENTS \<or> CHR '':'' \<in> set name);
                 plausible = (closing \<or> self_closing \<or> known \<or> contains_str rest (''</'' @ name)) in
             if plausible then Some (length s - length rest) else None))"

lemma tag_end_shorter: "tag_end closing s = Some (b, rest) \<Longrightarrow> length rest < length s"
proof (induction closing s rule: tag_end.induct)
  case (1 closing s)
  show ?case
  proof (cases "dropWhile is_ascii_whitespace s")
    case Nil
    with "1.prems" show ?thesis by (simp add: tag_end.simps [of closing s])
  next
    case (Cons c r)
    have "length (c # r) \<le> length s" using Cons length_dropWhile_le by metis
    moreover have "length rest < length (c # r)"
    proof (cases "c = CHR ''>'' \<or> c = CHR ''/'' \<and> \<not> closing \<and> r \<noteq> [] \<and> hd r = CHR ''>''")
      case True
      with "1.prems" Cons show ?thesis
        by (auto simp: tag_end.simps [of closing s] split: if_splits)
    next
      case False
      with "1.prems" Cons obtain r2 where r2: "\<not> closing \<and> (is_ascii_alphabetic c \<or> c = CHR ''_'')"
          "attribute_rest (c # r) = Some r2" "tag_end closing r2 = Some (b, rest)"
        by (auto simp: tag_end.simps [of closing s] split: if_splits option.splits)
      from False have "c \<noteq> CHR ''>''" "\<not> (c = CHR ''/'' \<and> \<not> closing \<and> r \<noteq> [] \<and> hd r = CHR ''>'')"
        by blast+
      from "1.IH" [OF Cons this r2] have "length rest < length r2" .
      with attribute_rest_shorter [OF r2(2)] show ?thesis by simp
    qed
    ultimately show ?thesis by simp
  qed
qed

lemma tag_len_pos: "tag_len s = Some n \<Longrightarrow> 0 < n"
proof -
  assume "tag_len s = Some n"
  then obtain cl b rest k s2 where "tag_end cl (drop k s2) = Some (b, rest)" "n = length s - length rest"
      "length s2 \<le> length (tl s)" "s2 \<noteq> []"
    by (auto simp: tag_len_def Let_def split: if_splits option.splits prod.splits)
  note r = this
  from tag_end_shorter [OF r(1)] have "length rest < length (drop k s2)" .
  also have "\<dots> \<le> length s2" by simp
  also have "\<dots> \<le> length s" using r(3) by simp
  finally show ?thesis using r(2) by simp
qed

subsection \<open>Chunks\<close>

datatype chunk = Tag | Text string nat

definition text_chunk :: "string \<Rightarrow> nat \<Rightarrow> chunk list" where
  "text_chunk t depth = (if t = [] then [] else [Text t depth])"

function split_from :: "nat \<Rightarrow> string \<Rightarrow> string \<Rightarrow> chunk list" where
  "split_from depth run [] = text_chunk run depth"
| "split_from depth run (c # cs) =
     (case (if c = CHR ''<'' then tag_len (c # cs) else None) of
        Some len \<Rightarrow>
          let tag = take len (c # cs);
              depth' = (if starts_with tag ''</'' then depth - 1
                        else if \<not> ends_with tag ''/>'' then depth + 1 else depth) in
          text_chunk run depth @ Tag # split_from depth' [] (drop len (c # cs))
      | None \<Rightarrow> split_from depth (run @ [c]) cs)"
  by pat_completeness auto
termination
  by (relation "measure (\<lambda>(_, _, s). length s)") (auto dest!: tag_len_pos split: if_splits)

definition split_on_tags :: "string \<Rightarrow> chunk list" where
  "split_on_tags raw = split_from 0 [] raw"

definition has_inline_markup :: "string \<Rightarrow> bool" where
  "has_inline_markup s \<longleftrightarrow> CHR 0x0A \<in> set s \<or> CHR 0x0D \<in> set s \<or> Tag \<in> set (split_on_tags s)"

subsection \<open>Separators\<close>

fun split_where :: "('a \<Rightarrow> bool) \<Rightarrow> 'a list \<Rightarrow> 'a list list" where
  "split_where P [] = [[]]"
| "split_where P (c # cs) =
     (if P c then [] # split_where P cs
      else (case split_where P cs of w # ws \<Rightarrow> (c # w) # ws | [] \<Rightarrow> [[c]]))"

definition split_char :: "char \<Rightarrow> string \<Rightarrow> string list" where
  "split_char c s = split_where (\<lambda>x. x = c) s"

lemma split_where_nonempty [simp]: "split_where P s \<noteq> []"
  by (induction s) (auto split: list.splits)

lemma split_where_free: "w \<in> set (split_where P s) \<Longrightarrow> list_all (\<lambda>x. \<not> P x) w"
  by (induction s arbitrary: w) (auto split: if_splits list.splits)

lemma split_where_append: "\<not> list_ex P w \<Longrightarrow>
  split_where P (w @ s) = (w @ hd (split_where P s)) # tl (split_where P s)"
  by (induction w) (auto split: list.split)

lemma split_char_free: "w \<in> set (split_char c s) \<Longrightarrow> c \<notin> set w"
  using split_where_free [of w "\<lambda>x. x = c" s] by (auto simp: split_char_def list_all_iff)

lemma split_char_nonempty [simp]: "split_char c s \<noteq> []"
  by (simp add: split_char_def)

lemma split_char_single: "split_char c s = [s] \<longleftrightarrow> c \<notin> set s"
proof
  assume "c \<notin> set s"
  then show "split_char c s = [s]"
    using split_where_append [of "\<lambda>x. x = c" s "[]"] by (auto simp: split_char_def list_ex_iff)
next
  assume "split_char c s = [s]"
  then show "c \<notin> set s"
    using split_char_free [of s c s] by simp
qed

lemma split_char_append: "c \<notin> set w \<Longrightarrow> split_char c (w @ c # s) = w # split_char c s"
  using split_where_append [of "\<lambda>x. x = c" w "c # s"] by (auto simp: split_char_def list_ex_iff)

definition split_whitespace :: "string \<Rightarrow> string list" where
  "split_whitespace s = map concat (filter (\<lambda>w. w \<noteq> []) (split_where is_whitespace (utf8_chars s)))"

fun join_with :: "string \<Rightarrow> string list \<Rightarrow> string" where
  "join_with sep [] = []"
| "join_with sep [w] = w"
| "join_with sep (w # ws) = w @ sep @ join_with sep ws"

lemma join_with_Cons: "ws \<noteq> [] \<Longrightarrow> join_with sep (w # ws) = w @ sep @ join_with sep ws"
  by (cases ws) simp_all

lemma join_split_char [simp]: "join_with [c] (split_char c s) = s"
proof (induction s)
  case Nil
  then show ?case by (simp add: split_char_def)
next
  case (Cons x s)
  obtain w ws where sp: "split_where (\<lambda>x. x = c) s = w # ws"
    by (cases "split_where (\<lambda>x. x = c) s") simp_all
  with Cons show ?case
    by (cases ws) (auto simp: split_char_def)
qed

lemma split_join_char:
  "ls \<noteq> [] \<Longrightarrow> list_all (\<lambda>l. c \<notin> set l) ls \<Longrightarrow> split_char c (join_with [c] ls) = ls"
proof (induction ls)
  case (Cons l ls)
  then show ?case
    by (cases "ls = []") (simp_all add: split_char_single split_char_append join_with_Cons)
qed simp

definition collapse :: "string \<Rightarrow> string" where
  "collapse s = join_with '' '' (split_whitespace s)"

definition lowercase_word_at_edge :: "unicode \<Rightarrow> string \<Rightarrow> bool \<Rightarrow> bool" where
  "lowercase_word_at_edge un outer at_end =
     (let chars = (if at_end then rev (utf8_chars outer) else utf8_chars outer);
          letters = takeWhile (is_alphabetic un) chars in
      2 \<le> length letters \<and> list_all (is_lowercase un) letters)"

text \<open>The operators beside a symbol: the ASCII ones, then U+2264, U+2265 and U+00B1.\<close>

definition is_operator :: "string \<Rightarrow> bool" where
  "is_operator ch \<longleftrightarrow> ch \<in> {''='', ''<'', ''>'', ''&''}
     \<or> map code ch \<in> {[0xE2, 0x89, 0xA4], [0xE2, 0x89, 0xA5], [0xC2, 0xB1]}"

definition boundary :: "unicode \<Rightarrow> string \<Rightarrow> nat \<Rightarrow> string \<Rightarrow> nat \<Rightarrow> string" where
  "boundary un left left_depth right right_depth =
     (if left_depth = right_depth then []
      else
        let (inner, outer, outer_is_left) =
              (if left_depth < right_depth then (right, left, True) else (left, right, False));
            chars = utf8_chars outer in
        if chars = [] then []
        else
          let edge = (if outer_is_left then last chars else hd chars);
              is_word = (2 \<le> length (filter (is_alphanumeric un) (utf8_chars inner)));
              operator = is_operator edge;
              sentence_punct = (outer_is_left \<and> edge \<in> {''.'', '','', '';'', '':''});
              space = (if is_word then is_alphanumeric un edge \<or> sentence_punct
                       else lowercase_word_at_edge un outer outer_is_left \<or> sentence_punct \<or> operator) in
          if space then '' '' else [])"

subsection \<open>Entities\<close>

definition hex_value :: "char \<Rightarrow> nat option" where
  "hex_value c =
     (if is_ascii_digit c then Some (code c - 48)
      else let l = to_ascii_lower c in
        if 97 \<le> code l \<and> code l \<le> 102 then Some (code l - 87) else None)"

definition parse_hex32 :: "string \<Rightarrow> nat option" where
  "parse_hex32 s =
     (let ds = (case s of c # cs \<Rightarrow> if c = CHR ''+'' then cs else s | [] \<Rightarrow> s) in
      if ds = [] \<or> list_ex (\<lambda>d. hex_value d = None) ds then None
      else
        let v = foldl (\<lambda>n d. 16 * n + the (hex_value d)) 0 ds in
        if v < 2 ^ 32 then Some v else None)"

text \<open>\<^verbatim>\<open>char::from_u32\<close>, in UTF-8.\<close>

definition char_from_u32 :: "nat \<Rightarrow> string option" where
  "char_from_u32 n =
     (if 0x110000 \<le> n \<or> (0xD800 \<le> n \<and> n \<le> 0xDFFF) then None
      else Some (map char_of
        (if n < 0x80 then [n]
         else if n < 0x800 then [0xC0 + n div 64, 0x80 + n mod 64]
         else if n < 0x10000 then [0xE0 + n div 4096, 0x80 + n div 64 mod 64, 0x80 + n mod 64]
         else [0xF0 + n div 262144, 0x80 + n div 4096 mod 64, 0x80 + n div 64 mod 64, 0x80 + n mod 64])))"

definition entity :: "string \<Rightarrow> (string \<times> nat) option" where
  "entity s = (case split_once (CHR '';'') s of
     None \<Rightarrow> None
   | Some (head, _) \<Rightarrow>
       let end = length head; name = tl head in
       if 10 < end then None
       else map_option (\<lambda>c. (c, end + 1))
         (if name = ''amp'' then Some ''&''
          else if name = ''lt'' then Some ''<''
          else if name = ''gt'' then Some ''>''
          else if name = ''quot'' then Some [CHR 0x22]
          else if name = ''apos'' then Some [CHR 0x27]
          else
            let hex = (case strip_prefix ''#x'' name of Some h \<Rightarrow> Some h | None \<Rightarrow> strip_prefix ''#X'' name) in
            (case (case hex of
                 Some h \<Rightarrow> parse_hex32 h
               | None \<Rightarrow> (case strip_prefix ''#'' name of
                     Some d \<Rightarrow> parse_unsigned (2 ^ 32) d | None \<Rightarrow> None)) of
               None \<Rightarrow> None | Some n \<Rightarrow> char_from_u32 n)))"

lemma entity_len: "entity s = Some (c, n) \<Longrightarrow> 0 < n"
  by (auto simp: entity_def Let_def split: option.splits if_splits)

function decode_once :: "string \<Rightarrow> string" where
  "decode_once [] = []"
| "decode_once (c # cs) =
     (if c \<noteq> CHR ''&'' then c # decode_once cs
      else (case entity (c # cs) of
          Some (ch, len) \<Rightarrow> ch @ decode_once (drop len (c # cs))
        | None \<Rightarrow> CHR ''&'' # decode_once cs))"
  by pat_completeness auto
termination
  by (relation "measure length") (auto dest: entity_len)

definition decode_entities :: "string \<Rightarrow> string" where
  "decode_entities s =
     (if CHR ''&'' \<notin> set s then s
      else
        let once = decode_once s in
        if contains_str s ''&amp;'' \<and> CHR ''&'' \<in> set once then decode_once once else once)"

subsection \<open>Plain titles\<close>

record gap =
  g_tag :: bool
  g_space :: bool
  g_line_break :: bool

definition gap_default :: gap where
  "gap_default = \<lparr> g_tag = False, g_space = False, g_line_break = False \<rparr>"

definition absorb :: "string \<Rightarrow> gap \<Rightarrow> gap" where
  "absorb ws g = g\<lparr>g_space := g_space g \<or> ws \<noteq> [],
     g_line_break := g_line_break g \<or> CHR 0x0A \<in> set ws \<or> CHR 0x0D \<in> set ws\<rparr>"

definition leading_ws :: "string \<Rightarrow> string" where
  "leading_ws s = concat (takeWhile is_whitespace (utf8_chars s))"

definition trailing_ws :: "string \<Rightarrow> string" where
  "trailing_ws s = concat (rev (takeWhile is_whitespace (rev (utf8_chars s))))"

fun plain_loop :: "unicode \<Rightarrow> chunk list \<Rightarrow> string \<Rightarrow> (string \<times> nat) option \<Rightarrow> gap \<Rightarrow> string" where
  "plain_loop un [] out prev g = out"
| "plain_loop un (Tag # cs) out prev g = plain_loop un cs out prev (g\<lparr>g_tag := True\<rparr>)"
| "plain_loop un (Text txt depth # cs) out prev g =
     (let body = str_trim txt in
      if body = [] then plain_loop un cs out prev (absorb txt g)
      else
        let g = absorb (leading_ws txt) g;
            sep = (case prev of
                None \<Rightarrow> []
              | Some (prev_body, prev_depth) \<Rightarrow>
                  if g_tag g \<and> g_line_break g then boundary un prev_body prev_depth body depth
                  else if g_space g then '' '' else []) in
        plain_loop un cs (out @ sep @ collapse body) (Some (body, depth))
          (absorb (trailing_ws txt) gap_default))"

definition plain_title :: "unicode \<Rightarrow> string \<Rightarrow> string" where
  "plain_title un raw =
     (if \<not> list_ex (\<lambda>c. c \<in> set ''<&'' \<or> c = CHR 0x0A \<or> c = CHR 0x0D) raw then raw
      else decode_entities (plain_loop un (split_on_tags raw) [] None gap_default))"

end
