(* ===== verification/Metadata.thy ===== *)
theory Metadata
  imports Refs "HOL-Library.AList" "HOL-Library.List_Lexorder" "HOL-Library.Char_ord" "HOL-Library.Sublist"
begin

text \<open>
  Stored metadata (\<^verbatim>\<open>crates/doiget-core/src/store/metadata.rs\<close>) and its TOML form: the records, their
  serialisation into a TOML table and back, the normalised document \<^verbatim>\<open>normalize_toml\<close> of
  \<^verbatim>\<open>store/fs_store.rs\<close> writes, and the schema version rules.

  A \<^verbatim>\<open>BTreeMap\<close> is its association list in key order.  A timestamp is the RFC 3339 text \<^verbatim>\<open>chrono\<close>
  writes for it; \<open>utc\<close>, a parameter, is \<^verbatim>\<open>chrono\<close>'s reader, which answers with that text.  A document is
  its sequence of \<^verbatim>\<open>key = value\<close> lines and table headers, the values being read by the \<^verbatim>\<open>toml\<close> crate.
  Documents with a key that is not bare follow rules of TOML the program does not know of (it writes
  every key unquoted); the parameter \<open>other_toml\<close> stands for the crate's answer on them.
\<close>

subsection \<open>Data\<close>

datatype toml_value =
    TString string
  | TInteger int
  | TScalar string
  | TArray "toml_value list"
  | TTable "(string \<times> toml_value) list"

type_synonym toml_table = "(string \<times> toml_value) list"

record doiget_extension =
  fetched_at :: string
  d_source :: string
  d_license :: string
  oa_status :: "string option"
  d_size_bytes :: nat
  mcp_call_id :: "string option"
  tags :: "string list"
  collections :: "string list"
  annotation :: "string option"
  repaired_fields :: "(string \<times> string) list"
  short_venue :: "string option"
  origin :: "string option"

record metadata =
  m_schema_version :: string
  title :: string
  authors :: "string list"
  year :: "int option"
  m_doi :: "doi option"
  m_arxiv_id :: "arxiv_id option"
  arxiv_categories :: "string list"
  m_abstract :: "string option"
  venue :: "string option"
  volume :: "string option"
  issue :: "string option"
  pages :: "string option"
  publisher :: "string option"
  issn :: "string option"
  isbn :: "string option"
  m_type :: "string option"
  m_keywords :: "string list"
  m_url :: "string option"
  pdf_path :: "string option"
  m_doiget :: "doiget_extension option"
  other :: toml_table

definition LICENSE_UNDETERMINED :: string where
  "LICENSE_UNDETERMINED = ''unknown''"

definition ORIGIN_USER_SUPPLIED :: string where
  "ORIGIN_USER_SUPPLIED = ''user-supplied''"

definition SCHEMA_VERSION :: string where
  "SCHEMA_VERSION = ''1.0''"

datatype store_error =
    StoreIo string
  | Deserialize
  | Serialize
  | LockTimeout string
  | SchemaTooNew string string
  | MissingField string
  | PathTraversal string

subsection \<open>Serialisation\<close>

text \<open>The \<^verbatim>\<open>serde\<close> derivations: a field is skipped when it is absent or empty.\<close>

definition opt_str :: "string \<Rightarrow> string option \<Rightarrow> toml_table" where
  "opt_str k v = (case v of None \<Rightarrow> [] | Some s \<Rightarrow> [(k, TString s)])"

definition opt_list :: "string \<Rightarrow> string list \<Rightarrow> toml_table" where
  "opt_list k vs = (if vs = [] then [] else [(k, TArray (map TString vs))])"

definition extension_table :: "doiget_extension \<Rightarrow> toml_table" where
  "extension_table d =
     [(''fetched_at'', TString (fetched_at d)), (''source'', TString (d_source d)),
      (''license'', TString (d_license d))]
     @ opt_str ''oa_status'' (oa_status d)
     @ [(''size_bytes'', TInteger (int (d_size_bytes d)))]
     @ opt_str ''mcp_call_id'' (mcp_call_id d)
     @ opt_list ''tags'' (tags d)
     @ opt_list ''collections'' (collections d)
     @ opt_str ''annotation'' (annotation d)
     @ (if repaired_fields d = [] then []
        else [(''repaired_fields'', TTable (map (\<lambda>(k, v). (k, TString v)) (repaired_fields d)))])
     @ opt_str ''short_venue'' (short_venue d)
     @ opt_str ''origin'' (origin d)"

definition reserved_table :: "metadata \<Rightarrow> toml_table" where
  "reserved_table m =
     [(''schema_version'', TString (m_schema_version m)), (''title'', TString (title m)),
      (''authors'', TArray (map TString (authors m)))]
     @ (case year m of None \<Rightarrow> [] | Some y \<Rightarrow> [(''year'', TInteger y)])
     @ opt_str ''doi'' (map_option doi_as_str (m_doi m))
     @ opt_str ''arxiv_id'' (map_option arxiv_as_str (m_arxiv_id m))
     @ opt_list ''arxiv_categories'' (arxiv_categories m)
     @ opt_str ''abstract'' (m_abstract m)
     @ opt_str ''venue'' (venue m)
     @ opt_str ''volume'' (volume m)
     @ opt_str ''issue'' (issue m)
     @ opt_str ''pages'' (pages m)
     @ opt_str ''publisher'' (publisher m)
     @ opt_str ''issn'' (issn m)
     @ opt_str ''isbn'' (isbn m)
     @ opt_str ''type'' (m_type m)
     @ opt_list ''keywords'' (m_keywords m)
     @ opt_str ''url'' (m_url m)
     @ opt_str ''pdf_path'' (pdf_path m)
     @ (case m_doiget m of None \<Rightarrow> [] | Some d \<Rightarrow> [(''doiget'', TTable (extension_table d))])"

text \<open>\<^verbatim>\<open>toml::Value::try_from\<close>: TOML integers are \<^verbatim>\<open>i64\<close>; flattened fields are inserted last.\<close>

definition meta_table :: "metadata \<Rightarrow> store_error + toml_table" where
  "meta_table m =
     (if (case m_doiget m of None \<Rightarrow> False | Some d \<Rightarrow> 2 ^ 63 \<le> d_size_bytes d) then Inl Serialize
      else Inr (foldl (\<lambda>t (k, v). AList.update k v t) (reserved_table m) (other m)))"

subsection \<open>Deserialisation\<close>

definition RESERVED :: "string list" where
  "RESERVED = [''schema_version'', ''title'', ''authors'', ''year'', ''doi'', ''arxiv_id'',
     ''arxiv_categories'', ''abstract'', ''venue'', ''volume'', ''issue'', ''pages'', ''publisher'',
     ''issn'', ''isbn'', ''type'', ''keywords'', ''url'', ''pdf_path'', ''doiget'']"

definition get_str :: "toml_table \<Rightarrow> string \<Rightarrow> string option" where
  "get_str t k = (case map_of t k of Some (TString s) \<Rightarrow> Some s | _ \<Rightarrow> None)"

text \<open>An optional field is well-typed when it is absent or a string.\<close>

definition str_or_absent :: "toml_table \<Rightarrow> string \<Rightarrow> bool" where
  "str_or_absent t k = (case map_of t k of None \<Rightarrow> True | Some (TString _) \<Rightarrow> True | _ \<Rightarrow> False)"

fun strings_of :: "toml_value list \<Rightarrow> string list option" where
  "strings_of [] = Some []"
| "strings_of (TString s # vs) = map_option (\<lambda>r. s # r) (strings_of vs)"
| "strings_of (_ # vs) = None"

definition get_list :: "toml_table \<Rightarrow> string \<Rightarrow> string list option" where
  "get_list t k = (case map_of t k of Some (TArray vs) \<Rightarrow> strings_of vs | _ \<Rightarrow> None)"

definition list_or_default :: "toml_table \<Rightarrow> string \<Rightarrow> string list option" where
  "list_or_default t k = (if map_of t k = None then Some [] else get_list t k)"

fun string_entries :: "toml_table \<Rightarrow> (string \<times> string) list option" where
  "string_entries [] = Some []"
| "string_entries ((k, TString s) # t) = map_option (\<lambda>r. (k, s) # r) (string_entries t)"
| "string_entries (_ # t) = None"

definition get_repaired :: "toml_table \<Rightarrow> (string \<times> string) list option" where
  "get_repaired t = (case map_of t ''repaired_fields'' of
     None \<Rightarrow> Some []
   | Some (TTable r) \<Rightarrow> string_entries r
   | Some _ \<Rightarrow> None)"

definition read_extension :: "(string \<Rightarrow> string option) \<Rightarrow> toml_table \<Rightarrow> doiget_extension option" where
  "read_extension utc t =
     (case (Option.bind (get_str t ''fetched_at'') utc, get_str t ''source'', get_str t ''license'',
            map_of t ''size_bytes'', list_or_default t ''tags'', list_or_default t ''collections'',
            get_repaired t) of
        (Some fa, Some src, Some lic, Some (TInteger n), Some tgs, Some cols, Some reps) \<Rightarrow>
          if n < 0 \<or> \<not> list_all (str_or_absent t)
               [''oa_status'', ''mcp_call_id'', ''annotation'', ''short_venue'', ''origin'']
          then None
          else Some \<lparr> fetched_at = fa, d_source = src, d_license = lic, oa_status = get_str t ''oa_status'',
                 d_size_bytes = nat n, mcp_call_id = get_str t ''mcp_call_id'', tags = tgs,
                 collections = cols, annotation = get_str t ''annotation'', repaired_fields = reps,
                 short_venue = get_str t ''short_venue'', origin = get_str t ''origin'' \<rparr>
      | _ \<Rightarrow> None)"

definition get_year :: "toml_table \<Rightarrow> int option option" where
  "get_year t = (case map_of t ''year'' of
     None \<Rightarrow> Some None
   | Some (TInteger y) \<Rightarrow> if - (2 ^ 31) \<le> y \<and> y < 2 ^ 31 then Some (Some y) else None
   | Some _ \<Rightarrow> None)"

definition get_extension :: "(string \<Rightarrow> string option) \<Rightarrow> toml_table \<Rightarrow> doiget_extension option option" where
  "get_extension utc t = (case map_of t ''doiget'' of
     None \<Rightarrow> Some None
   | Some (TTable d) \<Rightarrow> map_option Some (read_extension utc d)
   | Some _ \<Rightarrow> None)"

definition read_metadata :: "(string \<Rightarrow> string option) \<Rightarrow> toml_table \<Rightarrow> store_error + metadata" where
  "read_metadata utc t =
     (case (get_str t ''schema_version'', get_str t ''title'', get_list t ''authors'', get_year t,
            list_or_default t ''arxiv_categories'', list_or_default t ''keywords'', get_extension utc t) of
        (Some sv, Some ttl, Some auths, Some y, Some cats, Some kws, Some d) \<Rightarrow>
          if \<not> list_all (str_or_absent t) [''doi'', ''arxiv_id'', ''abstract'', ''venue'', ''volume'',
                 ''issue'', ''pages'', ''publisher'', ''issn'', ''isbn'', ''type'', ''url'', ''pdf_path'']
          then Inl Deserialize
          else Inr \<lparr> m_schema_version = sv, title = ttl, authors = auths, year = y,
                 m_doi = map_option Doi (get_str t ''doi''),
                 m_arxiv_id = map_option ArxivId (get_str t ''arxiv_id''),
                 arxiv_categories = cats, m_abstract = get_str t ''abstract'', venue = get_str t ''venue'',
                 volume = get_str t ''volume'', issue = get_str t ''issue'', pages = get_str t ''pages'',
                 publisher = get_str t ''publisher'', issn = get_str t ''issn'', isbn = get_str t ''isbn'',
                 m_type = get_str t ''type'', m_keywords = kws, m_url = get_str t ''url'',
                 pdf_path = get_str t ''pdf_path'', m_doiget = d,
                 other = filter (\<lambda>(k, _). k \<notin> set RESERVED) (sort_key fst t) \<rparr>
      | _ \<Rightarrow> Inl Deserialize)"

subsection \<open>Documents\<close>

datatype doc_line = KeyLine string toml_value | TableLine string

definition is_bare_key :: "string \<Rightarrow> bool" where
  "is_bare_key k \<longleftrightarrow> k \<noteq> [] \<and> list_all (\<lambda>c. is_ascii_alphanumeric c \<or> c \<in> set ''_-'') k"

fun is_table :: "toml_value \<Rightarrow> bool" where
  "is_table (TTable _) = True"
| "is_table _ = False"

text \<open>The \<^verbatim>\<open>toml\<close> crate writes a non-empty array of tables as \<^verbatim>\<open>[[__v]]\<close> blocks, which the inline
  writer does not recognise.\<close>

definition toml_value_inline :: "toml_value \<Rightarrow> store_error + toml_value" where
  "toml_value_inline v = (case v of
     TTable _ \<Rightarrow> Inl Serialize
   | TArray vs \<Rightarrow> if vs \<noteq> [] \<and> list_all is_table vs then Inl Serialize else Inr v
   | _ \<Rightarrow> Inr v)"

definition write_kv :: "string \<Rightarrow> toml_value \<Rightarrow> doc_line list \<Rightarrow> store_error + doc_line list" where
  "write_kv k v out = map_ok (\<lambda>r. out @ [KeyLine k r]) (toml_value_inline v)"

fun write_kvs :: "toml_table \<Rightarrow> doc_line list \<Rightarrow> store_error + doc_line list" where
  "write_kvs [] out = Inr out"
| "write_kvs ((k, v) # t) out = (case write_kv k v out of Inl e \<Rightarrow> Inl e | Inr out \<Rightarrow> write_kvs t out)"

fun write_sub_tables :: "toml_table \<Rightarrow> doc_line list \<Rightarrow> store_error + doc_line list" where
  "write_sub_tables [] out = Inr out"
| "write_sub_tables ((k, TTable sub) # t) out =
     (case write_kvs (sort_key fst sub) (out @ [TableLine k]) of
        Inl e \<Rightarrow> Inl e | Inr out \<Rightarrow> write_sub_tables t out)"
| "write_sub_tables (_ # t) out = write_sub_tables t out"

definition write_normalized_toml :: "toml_table \<Rightarrow> store_error + doc_line list" where
  "write_normalized_toml t =
     (let top = sort_key fst (filter (\<lambda>(k, v). \<not> is_table v) t);
          subs = sort_key fst (filter (\<lambda>(k, v). is_table v) t);
          first = (case map_of t ''schema_version'' of Some v \<Rightarrow> [(''schema_version'', v)] | None \<Rightarrow> []);
          rest = filter (\<lambda>(k, _). k \<noteq> ''schema_version'') top in
      case write_kvs (first @ rest) [] of
        Inl e \<Rightarrow> Inl e
      | Inr out \<Rightarrow> write_sub_tables subs out)"

definition normalize_toml :: "metadata \<Rightarrow> store_error + doc_line list" where
  "normalize_toml m = (case meta_table m of Inl e \<Rightarrow> Inl e | Inr t \<Rightarrow> write_normalized_toml t)"

text \<open>Reading a document back, as TOML defines it for bare keys; a key or table given twice is an
  error.\<close>

fun line_key :: "doc_line \<Rightarrow> string" where
  "line_key (KeyLine k _) = k"
| "line_key (TableLine k) = k"

function doc_entries :: "doc_line list \<Rightarrow> toml_table" where
  "doc_entries [] = []"
| "doc_entries (KeyLine k v # ls) = (k, v) # doc_entries ls"
| "doc_entries (TableLine k # ls) =
     (k, TTable (sort_key fst (map (\<lambda>l. case l of KeyLine k v \<Rightarrow> (k, v) | TableLine k \<Rightarrow> (k, TArray []))
           (takeWhile (\<lambda>l. case l of KeyLine _ _ \<Rightarrow> True | TableLine _ \<Rightarrow> False) ls))))
     # doc_entries (dropWhile (\<lambda>l. case l of KeyLine _ _ \<Rightarrow> True | TableLine _ \<Rightarrow> False) ls)"
  by pat_completeness auto
termination
  by (relation "measure length") (auto simp: le_imp_less_Suc length_dropWhile_le)

fun distinct_keys :: "toml_value \<Rightarrow> bool" where
  "distinct_keys (TTable t) = distinct (map fst t)"
| "distinct_keys _ = True"

definition read_document ::
  "(doc_line list \<Rightarrow> toml_table option) \<Rightarrow> doc_line list \<Rightarrow> store_error + toml_table" where
  "read_document other_toml ls =
     (if list_all (\<lambda>l. is_bare_key (line_key l)) ls then
        (let t = doc_entries ls in
         if distinct (map fst t) \<and> list_all (\<lambda>(_, v). distinct_keys v) t then Inr t else Inl Deserialize)
      else (case other_toml ls of None \<Rightarrow> Inl Deserialize | Some t \<Rightarrow> Inr t))"

definition parse_metadata ::
  "(string \<Rightarrow> string option) \<Rightarrow> (doc_line list \<Rightarrow> toml_table option) \<Rightarrow> doc_line list
     \<Rightarrow> store_error + metadata" where
  "parse_metadata utc other_toml ls =
     (case read_document other_toml ls of Inl e \<Rightarrow> Inl e | Inr t \<Rightarrow> read_metadata utc t)"

subsection \<open>Schema versions\<close>

definition parse_schema_version :: "string \<Rightarrow> store_error + nat \<times> nat" where
  "parse_schema_version s = (case split_once (CHR ''.'') s of
     None \<Rightarrow> Inl (MissingField ''schema_version'')
   | Some (maj, mnr) \<Rightarrow>
       (case parse_unsigned (2 ^ 32) maj of
          None \<Rightarrow> Inl (MissingField ''schema_version'')
        | Some a \<Rightarrow>
            (case parse_unsigned (2 ^ 32) mnr of
               None \<Rightarrow> Inl (MissingField ''schema_version'')
             | Some b \<Rightarrow> Inr (a, b))))"

text \<open>Reads accept every version that parses; the comparisons only decide about warnings.\<close>

definition check_schema_version :: "string \<Rightarrow> store_error + unit" where
  "check_schema_version theirs = (case parse_schema_version theirs of
     Inl e \<Rightarrow> Inl e
   | Inr _ \<Rightarrow> (case parse_schema_version SCHEMA_VERSION of Inl e \<Rightarrow> Inl e | Inr _ \<Rightarrow> Inr ()))"

definition check_schema_version_for_write :: "string \<Rightarrow> store_error + unit" where
  "check_schema_version_for_write theirs = (case parse_schema_version theirs of
     Inl e \<Rightarrow> Inl e
   | Inr (their_major, their_minor) \<Rightarrow>
       (case parse_schema_version SCHEMA_VERSION of
          Inl e \<Rightarrow> Inl e
        | Inr (our_major, our_minor) \<Rightarrow>
            if our_major < their_major \<or> (their_major = our_major \<and> our_minor < their_minor)
            then Inl (SchemaTooNew theirs SCHEMA_VERSION) else Inr ()))"

subsection \<open>A written document reads back\<close>

text \<open>
  What a \<^verbatim>\<open>Metadata\<close> value of the program satisfies: \<^verbatim>\<open>other\<close> is a \<^verbatim>\<open>BTreeMap\<close> without reserved keys,
  the year is an \<^verbatim>\<open>i32\<close>, the timestamp is one \<^verbatim>\<open>chrono\<close> wrote.  Bare keys in \<^verbatim>\<open>other\<close> are what the
  writer needs on top: it does not quote keys.
\<close>

definition sorted_map :: "(string \<times> 'a) list \<Rightarrow> bool" where
  "sorted_map t \<longleftrightarrow> sorted (map fst t) \<and> distinct (map fst t)"

fun sub_table_ok :: "toml_value \<Rightarrow> bool" where
  "sub_table_ok (TTable t) = (sorted_map t \<and> list_all is_bare_key (map fst t))"
| "sub_table_ok _ = True"

definition other_ok :: "toml_table \<Rightarrow> bool" where
  "other_ok t \<longleftrightarrow> sorted_map t \<and> list_all (\<lambda>(k, v). k \<notin> set RESERVED \<and> is_bare_key k \<and> sub_table_ok v) t"

definition extension_ok :: "(string \<Rightarrow> string option) \<Rightarrow> doiget_extension \<Rightarrow> bool" where
  "extension_ok utc d \<longleftrightarrow> utc (fetched_at d) = Some (fetched_at d)"

definition meta_ok :: "(string \<Rightarrow> string option) \<Rightarrow> metadata \<Rightarrow> bool" where
  "meta_ok utc m \<longleftrightarrow> other_ok (other m)
     \<and> (case year m of None \<Rightarrow> True | Some y \<Rightarrow> - (2 ^ 31) \<le> y \<and> y < 2 ^ 31)
     \<and> (case m_doiget m of None \<Rightarrow> True | Some d \<Rightarrow> extension_ok utc d)"

lemma map_of_opt_str [simp]:
  "map_of (opt_str k v @ t) k' = (if k' = k \<and> v \<noteq> None then map_option TString v else map_of t k')"
  by (simp add: opt_str_def split: option.split)

lemma map_of_opt_str_end [simp]:
  "map_of (opt_str k v) k' = (if k' = k then map_option TString v else None)"
  by (simp add: opt_str_def split: option.split)

lemma map_of_opt_list [simp]:
  "map_of (opt_list k vs @ t) k'
     = (if k' = k \<and> vs \<noteq> [] then Some (TArray (map TString vs)) else map_of t k')"
  by (simp add: opt_list_def)

lemma map_of_opt_case [simp]:
  "map_of ((case v of None \<Rightarrow> [] | Some y \<Rightarrow> [(k, f y)]) @ t) k'
     = (if k' = k \<and> v \<noteq> None then map_option f v else map_of t k')"
  "map_of (case v of None \<Rightarrow> [] | Some y \<Rightarrow> [(k, f y)]) k' = (if k' = k then map_option f v else None)"
  by (simp_all split: option.split)

lemma if_map_option: "(if v \<noteq> None then map_option f v else None) = map_option f v"
  by simp

lemma strings_of_map [simp]: "strings_of (map TString vs) = Some vs"
  by (induction vs) simp_all

lemma fst_set_opt_str: "fst ` set (opt_str k v) = (if v = None then {} else {k})"
  by (cases v) (simp_all add: opt_str_def)

lemma fst_set_opt_list: "fst ` set (opt_list k v) = (if v = [] then {} else {k})"
  by (simp add: opt_list_def)

lemma distinct_opt_str: "distinct (map fst (opt_str k v))"
  by (simp add: opt_str_def split: option.split)

lemma distinct_opt_list: "distinct (map fst (opt_list k v))"
  by (simp add: opt_list_def)

lemmas table_key_simps = fst_set_opt_str fst_set_opt_list distinct_opt_str distinct_opt_list

lemma extension_table_distinct: "distinct (map fst (extension_table d))"
  by (auto simp: extension_table_def table_key_simps image_iff)

lemma reserved_table_keys: "fst ` set (reserved_table m) \<subseteq> set RESERVED"
  by (auto simp: reserved_table_def RESERVED_def opt_str_def opt_list_def split: option.splits if_splits)

lemma subseq_opt: "subseq (map fst (opt_str k v)) [k]" "subseq (map fst (opt_list k vs)) [k]"
  by (simp_all add: opt_str_def opt_list_def split: option.split)

lemma reserved_table_subseq: "subseq (map fst (reserved_table m)) RESERVED"
proof -
  have R: "RESERVED = [''schema_version'', ''title'', ''authors''] @ [''year''] @ [''doi''] @ [''arxiv_id'']
     @ [''arxiv_categories''] @ [''abstract''] @ [''venue''] @ [''volume''] @ [''issue''] @ [''pages'']
     @ [''publisher''] @ [''issn''] @ [''isbn''] @ [''type''] @ [''keywords''] @ [''url'']
     @ [''pdf_path''] @ [''doiget'']"
    by (simp add: RESERVED_def)
  show ?thesis
    unfolding R reserved_table_def map_append
    by (intro list_emb_append_mono subseq_opt) (simp_all split: option.split)
qed

lemma distinct_subseq: "subseq xs ys \<Longrightarrow> distinct ys \<Longrightarrow> distinct xs"
  by (induction rule: list_emb.induct) (auto dest: list_emb_set)

lemma reserved_table_distinct: "distinct (map fst (reserved_table m))"
proof -
  have "distinct RESERVED" by (simp add: RESERVED_def)
  with reserved_table_subseq [of m] show ?thesis
    using distinct_subseq by blast
qed

lemma updates_fresh:
  "distinct (map fst (t @ u)) \<Longrightarrow> foldl (\<lambda>t (k, v). AList.update k v t) t u = t @ u"
proof (induction u arbitrary: t)
  case (Cons kv u)
  obtain k v where kv: "kv = (k, v)" by (cases kv)
  have "AList.update k v t = t @ [(k, v)]"
    using Cons.prems kv by (induction t) auto
  with Cons kv show ?case by (auto simp: image_iff)
qed simp

lemma meta_table_Inr:
  assumes "other_ok (other m)" and "meta_table m = Inr t"
  shows "t = reserved_table m @ other m" and "distinct (map fst t)"
proof -
  have "set (map fst (other m)) \<inter> set RESERVED = {}"
    using assms(1) by (auto simp: other_ok_def list_all_iff)
  then have d: "distinct (map fst (reserved_table m @ other m))"
    using reserved_table_keys [of m] reserved_table_distinct [of m] assms(1)
    by (auto simp: other_ok_def sorted_map_def)
  with assms(2) show "t = reserved_table m @ other m"
    by (auto simp: meta_table_def updates_fresh split: if_splits option.splits)
  with d show "distinct (map fst t)" by simp
qed

text \<open>What the writer produces when it succeeds, and what reading it yields.\<close>

definition norm_value :: "toml_value \<Rightarrow> toml_value" where
  "norm_value v = (case v of TTable s \<Rightarrow> TTable (sort_key fst s) | _ \<Rightarrow> v)"

lemma norm_value_id: "\<not> is_table v \<Longrightarrow> norm_value v = v"
  by (cases v) (simp_all add: norm_value_def)

lemma write_kv_Inr: "write_kv k v out = Inr out' \<Longrightarrow> out' = out @ [KeyLine k v] \<and> \<not> is_table v"
  by (cases v) (auto simp: write_kv_def toml_value_inline_def split: if_splits)

lemma write_kvs_Inr:
  "write_kvs t out = Inr out' \<Longrightarrow>
     out' = out @ map (\<lambda>(k, v). KeyLine k v) t \<and> list_all (\<lambda>(k, v). \<not> is_table v) t"
  by (induction t out rule: write_kvs.induct) (auto split: sum.splits dest!: write_kv_Inr)

fun sub_lines :: "string \<times> toml_value \<Rightarrow> doc_line list" where
  "sub_lines (k, TTable sub) = TableLine k # map (\<lambda>(k, v). KeyLine k v) (sort_key fst sub)"
| "sub_lines _ = []"

lemma write_sub_tables_Inr:
  "write_sub_tables t out = Inr out' \<Longrightarrow>
     out' = out @ concat (map sub_lines t)
     \<and> list_all (\<lambda>(_, v). case v of TTable sub \<Rightarrow> list_all (\<lambda>(k, v). \<not> is_table v) sub | _ \<Rightarrow> True) t"
  by (induction t out rule: write_sub_tables.induct)
    (auto split: sum.splits dest!: write_kvs_Inr simp: list_all_iff)

lemma takeWhile_key_lines:
  "takeWhile (\<lambda>l. case l of KeyLine _ _ \<Rightarrow> True | TableLine _ \<Rightarrow> False)
      (map (\<lambda>(k, v). KeyLine k v) kvs @ concat (map sub_lines t)) = map (\<lambda>(k, v). KeyLine k v) kvs"
  "dropWhile (\<lambda>l. case l of KeyLine _ _ \<Rightarrow> True | TableLine _ \<Rightarrow> False)
      (map (\<lambda>(k, v). KeyLine k v) kvs @ concat (map sub_lines t)) = concat (map sub_lines t)"
proof -
  have "takeWhile (\<lambda>l. case l of KeyLine _ _ \<Rightarrow> True | TableLine _ \<Rightarrow> False) (concat (map sub_lines t)) = []
     \<and> dropWhile (\<lambda>l. case l of KeyLine _ _ \<Rightarrow> True | TableLine _ \<Rightarrow> False) (concat (map sub_lines t))
       = concat (map sub_lines t)"
  proof (cases t)
    case (Cons kv t')
    then show ?thesis
    proof (induction t arbitrary: kv t')
      case (Cons a t)
      then show ?case by (cases a; cases "snd a"; cases t) auto
    qed simp
  qed simp
  then show "takeWhile (\<lambda>l. case l of KeyLine _ _ \<Rightarrow> True | TableLine _ \<Rightarrow> False)
      (map (\<lambda>(k, v). KeyLine k v) kvs @ concat (map sub_lines t)) = map (\<lambda>(k, v). KeyLine k v) kvs"
    and "dropWhile (\<lambda>l. case l of KeyLine _ _ \<Rightarrow> True | TableLine _ \<Rightarrow> False)
      (map (\<lambda>(k, v). KeyLine k v) kvs @ concat (map sub_lines t)) = concat (map sub_lines t)"
    by (induction kvs) auto
qed

lemma doc_entries_tables:
  "list_all (\<lambda>(_, v). is_table v) t \<Longrightarrow>
     doc_entries (concat (map sub_lines t)) = map (\<lambda>(k, v). (k, norm_value v)) t"
proof (induction t)
  case (Cons kv t)
  then obtain k sub where kv: "kv = (k, TTable sub)"
    by (cases kv; cases "snd kv") auto
  have "map (\<lambda>l. case l of KeyLine k v \<Rightarrow> (k, v) | TableLine k \<Rightarrow> (k, TArray []))
      (map (\<lambda>(k, v). KeyLine k v) kvs) = kvs" for kvs :: toml_table
    by (induction kvs) auto
  with Cons kv show ?case
    by (simp add: takeWhile_key_lines norm_value_def sort_key_id_if_sorted del: map_map)
qed simp

lemma doc_entries_doc:
  "list_all (\<lambda>(_, v). is_table v) t \<Longrightarrow>
     doc_entries (map (\<lambda>(k, v). KeyLine k v) kvs @ concat (map sub_lines t))
       = kvs @ map (\<lambda>(k, v). (k, norm_value v)) t"
  by (induction kvs) (auto simp: doc_entries_tables)

lemma sort_key_same_set:
  assumes "distinct (map fst t)" and "distinct (map fst u)" and "set t = set u"
  shows "sort_key fst t = sort_key fst u"
proof (rule map_sorted_distinct_set_unique [where f = fst])
  show "inj_on fst (set (sort_key fst t) \<union> set (sort_key fst u))"
    using assms by (simp add: distinct_map)
  show "distinct (map fst (sort_key fst t))" "distinct (map fst (sort_key fst u))"
    using assms(1,2) by (simp_all add: distinct_map)
qed (simp_all add: assms(3))

lemma distinct_sort_key: "distinct (map f xs) \<Longrightarrow> distinct (map f (sort_key f xs))"
  by (simp add: distinct_map)

lemma read_metadata_same:
  assumes "distinct (map fst t)" and "distinct (map fst u)" and "set t = set u"
  shows "read_metadata utc t = read_metadata utc u"
proof -
  have "map_of t = map_of u" using assms by (rule map_of_inject_set [THEN iffD2])
  moreover have "sort_key fst t = sort_key fst u" using assms by (rule sort_key_same_set)
  moreover from calculation(1) have "get_str t = get_str u" "get_list t = get_list u" "get_year t = get_year u"
      "list_or_default t = list_or_default u" "get_extension utc t = get_extension utc u"
      "str_or_absent t = str_or_absent u"
    by (simp_all add: get_str_def get_list_def get_year_def list_or_default_def get_extension_def
        str_or_absent_def fun_eq_iff)
  ultimately show ?thesis by (simp only: read_metadata_def)
qed

lemma is_table_norm [simp]: "is_table (norm_value v) = is_table v"
  by (cases v) (simp_all add: norm_value_def)

lemma key_lines_keys: "line_key ` set (map (\<lambda>(k, v). KeyLine k v) t) = fst ` set t"
  by (force simp: image_iff)

lemma sub_lines_keys:
  "is_table v \<Longrightarrow>
     line_key ` set (sub_lines (k, v)) = insert k (case v of TTable s \<Rightarrow> fst ` set s | _ \<Rightarrow> {})"
  using key_lines_keys [of "sort_key fst s" for s] by (cases v) (simp_all add: image_image)

lemma write_normalized_Inr:
  assumes "write_normalized_toml t = Inr doc" and "distinct (map fst t)"
    and "map_of t ''schema_version'' = Some v" and "\<not> is_table v"
  shows "set (doc_entries doc) = set (map (apsnd norm_value) t)"
    and "distinct (map fst (doc_entries doc))"
    and "line_key ` set doc = fst ` set t \<union> (\<Union>(k, v) \<in> set t. case v of TTable s \<Rightarrow> fst ` set s | _ \<Rightarrow> {})"
    and "\<forall>(k, v) \<in> set t. case v of TTable s \<Rightarrow> list_all (\<lambda>(k, v). \<not> is_table v) s | _ \<Rightarrow> True"
proof -
  define top where "top = sort_key fst (filter (\<lambda>(k, v). \<not> is_table v) t)"
  define subs where "subs = sort_key fst (filter (\<lambda>(k, v). is_table v) t)"
  define K where "K = ''schema_version''"
  define kvs where "kvs = (K, v) # filter (\<lambda>(k, _). k \<noteq> K) top"
  from assms(1,3) obtain out where out: "write_kvs kvs [] = Inr out" "write_sub_tables subs out = Inr doc"
    by (auto simp: write_normalized_toml_def Let_def top_def subs_def kvs_def K_def split: sum.splits)
  from write_kvs_Inr [OF out(1)] out
  have w: "write_sub_tables subs (map (\<lambda>(k, v). KeyLine k v) kvs) = Inr doc" by simp
  have doc: "doc = map (\<lambda>(k, v). KeyLine k v) kvs @ concat (map sub_lines subs)"
    using write_sub_tables_Inr [OF w] by simp
  have tabs: "list_all (\<lambda>(_, v). is_table v) subs"
    by (auto simp: subs_def list_all_iff)
  have e: "doc_entries doc = kvs @ map (\<lambda>(k, v). (k, norm_value v)) subs"
    unfolding doc using tabs by (rule doc_entries_doc)
  have sv: "(K, v) \<in> set t" using assms(3) unfolding K_def by (rule map_of_SomeD)
  have uniq: "u = v" if "(K, u) \<in> set t" for u
    by (rule eq_key_imp_eq_value [OF assms(2) that sv])
  have kset: "set kvs = {(k, v) \<in> set t. \<not> is_table v}"
    using sv assms(4) by (auto simp: kvs_def top_def dest: uniq)
  have sset: "set subs = {(k, v) \<in> set t. is_table v}" by (auto simp: subs_def)
  show "set (doc_entries doc) = set (map (apsnd norm_value) t)"
    proof -
    have "set (map (apsnd norm_value) t)
        = apsnd norm_value ` set kvs \<union> apsnd norm_value ` set subs"
      by (auto simp: kset sset)
    also have "apsnd norm_value ` set kvs = set kvs"
      by (force simp: kset norm_value_id)
    moreover have "map (\<lambda>(k, v). (k, norm_value v)) subs = map (apsnd norm_value) subs" by auto
    ultimately show ?thesis unfolding e by (simp only: set_append set_map)
  qed
  have sorted_filter: "distinct (map fst (sort_key fst (filter P t)))" for P
    using assms(2) by (simp add: distinct_map inj_on_def)
  have "distinct (map fst kvs)"
    using sorted_filter by (auto simp: kvs_def top_def intro!: distinct_map_filter)
  moreover have "distinct (map fst subs)"
    unfolding subs_def by (rule sorted_filter)
  moreover have "fst ` set kvs \<inter> fst ` set subs = {}"
    using assms(2) by (auto simp: kset sset dest: eq_key_imp_eq_value)
  ultimately show "distinct (map fst (doc_entries doc))"
    unfolding e by (simp add: case_prod_beta comp_def image_image)
  have sl: "line_key ` set (sub_lines kv) = insert (fst kv) (case snd kv of TTable s \<Rightarrow> fst ` set s | _ \<Rightarrow> {})"
    if "kv \<in> set subs" for kv
  proof -
    from that sset have "is_table (snd kv)" by auto
    from sub_lines_keys [OF this, of "fst kv"] show ?thesis by simp
  qed
  have "line_key ` set doc = fst ` set kvs \<union> (\<Union>kv \<in> set subs. line_key ` set (sub_lines kv))"
    unfolding doc set_append image_Un key_lines_keys by (simp add: image_UN)
  also have "\<dots> = fst ` set kvs \<union> (\<Union>kv \<in> set subs. insert (fst kv) (case snd kv of TTable s \<Rightarrow> fst ` set s | _ \<Rightarrow> {}))"
    using sl by auto
  also have "\<dots> = fst ` set t \<union> (\<Union>(k, v) \<in> set t. case v of TTable s \<Rightarrow> fst ` set s | _ \<Rightarrow> {})"
  proof -
    have "fst ` set t = fst ` set kvs \<union> fst ` set subs" by (force simp: kset sset)
    moreover have "(\<Union>(k, v) \<in> set t. case v of TTable s \<Rightarrow> fst ` set s | _ \<Rightarrow> {})
        = (\<Union>kv \<in> set subs. case snd kv of TTable s \<Rightarrow> fst ` set s | _ \<Rightarrow> {})"
      by (auto simp: sset split: toml_value.splits)
    ultimately show ?thesis by auto
  qed
  finally show "line_key ` set doc = \<dots>" .
  show "\<forall>(k, v) \<in> set t. case v of TTable s \<Rightarrow> list_all (\<lambda>(k, v). \<not> is_table v) s | _ \<Rightarrow> True"
    using write_sub_tables_Inr [OF w] sset
    by (fastforce simp: list_all_iff split: toml_value.splits)
qed

lemma map_of_sorted: "distinct (map fst t) \<Longrightarrow> map_of (sort_key fst t) = map_of t"
  by (rule map_of_inject_set [THEN iffD2]) (simp_all add: distinct_map)

lemma read_extension_table:
  assumes "extension_ok utc d" and "repaired_fields d = []"
  shows "read_extension utc (sort_key fst (extension_table d)) = Some d"
proof -
  let ?t = "sort_key fst (extension_table d)"
  have m: "map_of ?t = map_of (extension_table d)"
    by (rule map_of_sorted) (rule extension_table_distinct)
  have "get_str ?t ''fetched_at'' = Some (fetched_at d)" "get_str ?t ''source'' = Some (d_source d)"
    "get_str ?t ''license'' = Some (d_license d)" "get_str ?t ''oa_status'' = oa_status d"
    "map_of ?t ''size_bytes'' = Some (TInteger (int (d_size_bytes d)))"
    "get_str ?t ''mcp_call_id'' = mcp_call_id d" "list_or_default ?t ''tags'' = Some (tags d)"
    "list_or_default ?t ''collections'' = Some (collections d)" "get_str ?t ''annotation'' = annotation d"
    "get_repaired ?t = Some (repaired_fields d)" "get_str ?t ''short_venue'' = short_venue d"
    "get_str ?t ''origin'' = origin d"
    unfolding get_str_def list_or_default_def get_list_def get_repaired_def m
    by (simp_all add: extension_table_def assms(2) del: map_of_append split: option.split)
  moreover have "list_all (str_or_absent ?t)
      [''oa_status'', ''mcp_call_id'', ''annotation'', ''short_venue'', ''origin'']"
    unfolding str_or_absent_def m
    by (simp add: extension_table_def assms(2) del: map_of_append split: option.split)
  ultimately show ?thesis
    using assms(1) by (simp add: read_extension_def extension_ok_def)
qed

lemma map_of_reserved_other:
  assumes "other_ok (other m)" and "k \<in> set RESERVED"
  shows "map_of (reserved_table m @ other m) k = map_of (reserved_table m) k"
proof -
  have "map_of (other m) k = None"
    using assms by (auto simp: other_ok_def list_all_iff map_of_eq_None_iff)
  then show ?thesis by (simp add: map_add_def split: option.split)
qed

lemma map_of_norm: "map_of (map (apsnd norm_value) t) k = map_option norm_value (map_of t k)"
  by (induction t) auto

text \<open>Every reserved key of a serialised record, looked up.\<close>

lemma reserved_strings:
  "map_of (reserved_table m) ''schema_version'' = map_option TString (Some (m_schema_version m))"
  "map_of (reserved_table m) ''title'' = map_option TString (Some (title m))"
  "map_of (reserved_table m) ''doi'' = map_option TString (map_option doi_as_str (m_doi m))"
  "map_of (reserved_table m) ''arxiv_id'' = map_option TString (map_option arxiv_as_str (m_arxiv_id m))"
  "map_of (reserved_table m) ''abstract'' = map_option TString (m_abstract m)"
  "map_of (reserved_table m) ''venue'' = map_option TString (venue m)"
  "map_of (reserved_table m) ''volume'' = map_option TString (volume m)"
  "map_of (reserved_table m) ''issue'' = map_option TString (issue m)"
  "map_of (reserved_table m) ''pages'' = map_option TString (pages m)"
  "map_of (reserved_table m) ''publisher'' = map_option TString (publisher m)"
  "map_of (reserved_table m) ''issn'' = map_option TString (issn m)"
  "map_of (reserved_table m) ''isbn'' = map_option TString (isbn m)"
  "map_of (reserved_table m) ''type'' = map_option TString (m_type m)"
  "map_of (reserved_table m) ''url'' = map_option TString (m_url m)"
  "map_of (reserved_table m) ''pdf_path'' = map_option TString (pdf_path m)"
  by (simp_all add: reserved_table_def if_map_option del: map_of_append)

lemma reserved_others:
  "map_of (reserved_table m) ''authors'' = Some (TArray (map TString (authors m)))"
  "map_of (reserved_table m) ''arxiv_categories''
     = (if arxiv_categories m = [] then None else Some (TArray (map TString (arxiv_categories m))))"
  "map_of (reserved_table m) ''keywords''
     = (if m_keywords m = [] then None else Some (TArray (map TString (m_keywords m))))"
  "map_of (reserved_table m) ''year'' = map_option TInteger (year m)"
  "map_of (reserved_table m) ''doiget'' = map_option (\<lambda>d. TTable (extension_table d)) (m_doiget m)"
  by (simp_all add: reserved_table_def if_map_option del: map_of_append)

lemma lookup_string:
  "map_of t k = map_option TString v \<Longrightarrow> get_str t k = v \<and> str_or_absent t k"
  by (cases v) (simp_all add: get_str_def str_or_absent_def)

lemma lookup_list:
  "map_of t k = (if vs = [] then None else Some (TArray (map TString vs))) \<Longrightarrow> list_or_default t k = Some vs"
  by (auto simp: list_or_default_def get_list_def split: if_splits)

lemma reserved_authors: "get_list (reserved_table m) ''authors'' = Some (authors m)"
  by (simp add: get_list_def reserved_others)

lemmas reserved_lookups =
  reserved_strings [THEN lookup_string, THEN conjunct1] reserved_authors
  reserved_others(2,3) [THEN lookup_list] reserved_others(4,5)

lemmas reserved_absent = reserved_strings [THEN lookup_string, THEN conjunct2]

lemma read_reserved:
  assumes "meta_ok utc m" and "case m_doiget m of None \<Rightarrow> True | Some d \<Rightarrow> repaired_fields d = []"
  shows "read_metadata utc (map (apsnd norm_value) (reserved_table m @ other m)) = Inr m"
proof -
  let ?t = "map (apsnd norm_value) (reserved_table m @ other m)"
  have ok: "other_ok (other m)" using assms(1) by (simp add: meta_ok_def)
  have R: "map_of ?t k = map_option norm_value (map_of (reserved_table m) k)" if "k \<in> set RESERVED" for k
    unfolding map_of_norm using map_of_reserved_other [OF ok that] by simp
  have get: "get_str ?t k = get_str (reserved_table m) k" "get_list ?t k = get_list (reserved_table m) k"
    "str_or_absent ?t k = str_or_absent (reserved_table m) k"
    "list_or_default ?t k = list_or_default (reserved_table m) k" if "k \<in> set RESERVED" for k
    using R [OF that] unfolding get_str_def get_list_def str_or_absent_def list_or_default_def norm_value_def
    by (auto split: option.splits toml_value.splits)
  have yr: "map_of ?t ''year'' = map_option norm_value (map_option TInteger (year m))"
    by (subst R) (simp_all add: RESERVED_def reserved_lookups)
  have y: "get_year ?t = Some (year m)"
    unfolding get_year_def yr using assms(1)
    by (auto simp: meta_ok_def norm_value_def split: option.splits)
  have dg: "map_of ?t ''doiget'' = map_option norm_value (map_option (\<lambda>d. TTable (extension_table d)) (m_doiget m))"
    by (subst R) (simp_all add: RESERVED_def reserved_lookups)
  have d: "get_extension utc ?t = Some (m_doiget m)"
  proof (cases "m_doiget m")
    case None
    then show ?thesis unfolding get_extension_def dg by simp
  next
    case (Some d)
    moreover have "read_extension utc (sort_key fst (extension_table d)) = Some d"
      using assms Some by (intro read_extension_table) (auto simp: meta_ok_def)
    ultimately show ?thesis unfolding get_extension_def dg by (simp add: norm_value_def)
  qed
  have o: "filter (\<lambda>(k, _). k \<notin> set RESERVED) (sort_key fst ?t) = other m"
  proof -
    have none: "filter (\<lambda>(k, _). k \<notin> set RESERVED) (map (apsnd norm_value) (reserved_table m)) = []"
      using reserved_table_keys [of m] by (auto simp: filter_empty_conv)
    have all: "filter (\<lambda>(k, _). k \<notin> set RESERVED) (other m) = other m"
      using ok by (intro filter_True) (auto simp: other_ok_def list_all_iff)
    have "norm_value v = v" if "(k, v) \<in> set (other m)" for k v
      using ok that by (cases v) (fastforce simp: other_ok_def list_all_iff norm_value_def sorted_map_def sort_key_id_if_sorted)+
    then have "map (apsnd norm_value) (other m) = other m"
      by (intro map_idI) auto
    moreover have "sort_key fst (other m) = other m"
      using ok by (simp add: other_ok_def sorted_map_def sort_key_id_if_sorted)
    ultimately show ?thesis
      by (simp only: filter_sort map_append filter_append none all append_Nil)
  qed
  have strs: "list_all (str_or_absent ?t) [''doi'', ''arxiv_id'', ''abstract'', ''venue'', ''volume'',
     ''issue'', ''pages'', ''publisher'', ''issn'', ''isbn'', ''type'', ''url'', ''pdf_path'']"
    using get(3) by (simp add: RESERVED_def reserved_absent)
  have doi: "map_option Doi (map_option doi_as_str x) = x" for x
    by (cases x rule: option.exhaust; cases "the x") (auto simp: option.map_comp)
  have arx: "map_option ArxivId (map_option arxiv_as_str x) = x" for x
    by (cases x rule: option.exhaust; cases "the x") (auto simp: option.map_comp)
  show ?thesis
    unfolding read_metadata_def y d o using strs
    by (simp add: get [unfolded RESERVED_def, simplified] reserved_lookups doi arx)
qed

lemma reserved_bare: "list_all is_bare_key RESERVED"
  by code_simp

lemma extension_table_bare: "fst ` set (extension_table d) \<subseteq> Collect is_bare_key"
proof -
  have "list_all is_bare_key [''fetched_at'', ''source'', ''license'', ''oa_status'', ''size_bytes'', ''mcp_call_id'',
      ''tags'', ''collections'', ''annotation'', ''repaired_fields'', ''short_venue'', ''origin'']"
    by code_simp
  then show ?thesis
    by (auto simp: extension_table_def opt_str_def opt_list_def split: option.splits if_splits)
qed

lemma reserved_sub_table: "(k, TTable s) \<in> set (reserved_table m) \<Longrightarrow> \<exists>d. m_doiget m = Some d \<and> s = extension_table d"
  by (cases "m_doiget m") (auto simp: reserved_table_def opt_str_def opt_list_def split: option.splits if_splits)

lemma normalized_has_no_repairs:
  assumes "other_ok (other m)" and "normalize_toml m = Inr doc" and "m_doiget m = Some d"
  shows "repaired_fields d = []"
proof -
  let ?t = "reserved_table m @ other m"
  from assms(2) obtain t where t: "meta_table m = Inr t" "write_normalized_toml t = Inr doc"
    by (auto simp: normalize_toml_def split: sum.splits)
  from meta_table_Inr [OF assms(1) t(1)] have t': "t = ?t" "distinct (map fst ?t)" by auto
  have sv: "map_of ?t ''schema_version'' = Some (TString (m_schema_version m))"
    using map_of_reserved_other [OF assms(1), of "''schema_version''"]
    by (simp add: RESERVED_def reserved_strings)
  have "(''doiget'', TTable (extension_table d)) \<in> set ?t"
    using map_of_SomeD [of "reserved_table m" "''doiget''"] reserved_others(5) [of m] assms(3) by simp
  then have "list_all (\<lambda>(k, v). \<not> is_table v) (extension_table d)"
    using write_normalized_Inr(4) [OF t(2) [unfolded t'(1)] t'(2) sv]
    by (auto dest!: bspec [of _ _ "(''doiget'', TTable (extension_table d))"])
  then show ?thesis by (auto simp: extension_table_def split: if_splits)
qed

text \<open>
  An entry with a repaired field can therefore never be written: \<^verbatim>\<open>repaired_fields\<close> is a table inside
  \<^verbatim>\<open>[doiget]\<close>, which the inline writer rejects.
\<close>

theorem repaired_entry_is_not_written:
  assumes "other_ok (other m)" and "m_doiget m = Some d" and "repaired_fields d \<noteq> []"
  shows "\<exists>e. normalize_toml m = Inl e"
  using assms normalized_has_no_repairs [OF assms(1) _ assms(2)] by (cases "normalize_toml m") auto

lemma normalized_reads_back:
  assumes "meta_ok utc m" and "normalize_toml m = Inr doc"
  shows "parse_metadata utc other_toml doc = Inr m"
proof -
  let ?t = "reserved_table m @ other m"
  have ok: "other_ok (other m)" using assms(1) by (simp add: meta_ok_def)
  from assms(2) obtain t where t: "meta_table m = Inr t" "write_normalized_toml t = Inr doc"
    by (auto simp: normalize_toml_def split: sum.splits)
  from meta_table_Inr [OF ok t(1)] have t': "t = ?t" "distinct (map fst ?t)" by auto
  have sv: "map_of ?t ''schema_version'' = Some (TString (m_schema_version m))"
    using map_of_reserved_other [OF ok, of "''schema_version''"] by (simp add: RESERVED_def reserved_strings)
  note w = write_normalized_Inr [OF t(2) [unfolded t'(1)] t'(2) sv, simplified]
  have sub_bare: "fst ` set s \<subseteq> Collect is_bare_key \<and> distinct (map fst s)" if "(k, TTable s) \<in> set ?t" for k s
  proof (cases "(k, TTable s) \<in> set (reserved_table m)")
    case True
    then show ?thesis
      using reserved_sub_table extension_table_bare extension_table_distinct by blast
  next
    case False
    with that ok show ?thesis by (fastforce simp: other_ok_def list_all_iff sorted_map_def)
  qed
  have top_bare: "fst ` set ?t \<subseteq> Collect is_bare_key"
    using reserved_table_keys [of m] reserved_bare ok by (fastforce simp: other_ok_def list_all_iff)
  have "is_bare_key k" if "k \<in> line_key ` set doc" for k
    using that top_bare sub_bare unfolding w(3) by (fastforce split: toml_value.splits)
  then have bare: "list_all (\<lambda>l. is_bare_key (line_key l)) doc" by (auto simp: list_all_iff)
  have dk: "list_all (\<lambda>(_, v). distinct_keys v) (doc_entries doc)"
  proof -
    have "distinct_keys (norm_value v)" if "(k, v) \<in> set ?t" for k v
      using sub_bare [of k] that by (cases v) (auto simp: norm_value_def distinct_map)
    then show ?thesis using w(1) by (fastforce simp: list_all_iff)
  qed
  have reps: "case m_doiget m of None \<Rightarrow> True | Some d \<Rightarrow> repaired_fields d = []"
    using normalized_has_no_repairs [OF ok assms(2)] by (simp split: option.split)
  have "parse_metadata utc other_toml doc = read_metadata utc (doc_entries doc)"
    using bare dk w(2) by (simp add: parse_metadata_def read_document_def Let_def)
  also have "\<dots> = read_metadata utc (map (apsnd norm_value) ?t)"
  proof (rule read_metadata_same)
    show "distinct (map fst (map (apsnd norm_value) ?t))" using t'(2) by (simp add: comp_def)
  qed (use w in simp_all)
  also have "\<dots> = Inr m" using assms(1) reps by (rule read_reserved)
  finally show ?thesis .
qed

end
