(* ===== verification/Metadata_Quality.thy ===== *)
theory Metadata_Quality
  imports Metadata Errors Json
begin

text \<open>
  U+FFFD in resolver metadata (\<^verbatim>\<open>crates/doiget-core/src/metadata_quality.rs\<close>): detection, the alignment
  \<^verbatim>\<open>restores\<close> and the repair loop.  A source is what the loop asks of it: its name, \<^verbatim>\<open>can_serve\<close> and the
  answer of \<^verbatim>\<open>fetch\<close>.
\<close>

subsection \<open>Detection\<close>

definition REPLACEMENT_CHAR :: string where
  "REPLACEMENT_CHAR = [CHR 0xEF, CHR 0xBF, CHR 0xBD]"

definition has_replacement_char :: "string \<Rightarrow> bool" where
  "has_replacement_char s \<longleftrightarrow> REPLACEMENT_CHAR \<in> set (utf8_chars s)"

definition CHECKED_FIELDS :: "string list" where
  "CHECKED_FIELDS = [''title'', ''authors'', ''venue'', ''publisher'', ''abstract'']"

definition opt_has :: "string option \<Rightarrow> bool" where
  "opt_has v = (case v of None \<Rightarrow> False | Some s \<Rightarrow> has_replacement_char s)"

definition replacement_char_fields :: "metadata \<Rightarrow> string list" where
  "replacement_char_fields m = filter (\<lambda>f.
     if f = ''title'' then has_replacement_char (title m)
     else if f = ''authors'' then list_ex has_replacement_char (authors m)
     else if f = ''venue'' then opt_has (venue m)
     else if f = ''publisher'' then opt_has (publisher m)
     else if f = ''abstract'' then opt_has (m_abstract m)
     else False) CHECKED_FIELDS"

subsection \<open>Alignment\<close>

definition RESTORE_MAX_CHARS :: nat where
  "RESTORE_MAX_CHARS = 2000"

text \<open>The marks one reachable position \<open>j\<close> sets for the next round.\<close>

definition mark :: "string list \<Rightarrow> string \<Rightarrow> bool list \<Rightarrow> nat \<Rightarrow> bool list" where
  "mark c dc next j =
     (if dc = REPLACEMENT_CHAR then
        foldl (\<lambda>next st. if j + st \<le> length c then next[j + st := True] else next) next [1, 2]
      else if j < length c \<and> c ! j = dc then next[j + 1 := True] else next)"

definition restore_step :: "string list \<Rightarrow> string \<Rightarrow> bool list \<Rightarrow> bool list" where
  "restore_step c dc reach =
     foldl (mark c dc) (replicate (length c + 1) False) (filter (\<lambda>j. reach ! j) [0..<length c + 1])"

fun restore_loop :: "string list \<Rightarrow> string list \<Rightarrow> bool list \<Rightarrow> bool" where
  "restore_loop c [] reach = reach ! length c"
| "restore_loop c (dc # ds) reach =
     (let next = restore_step c dc reach in
      if True \<notin> set next then False else restore_loop c ds next)"

definition restores :: "string \<Rightarrow> string \<Rightarrow> bool" where
  "restores damaged candidate =
     (if has_replacement_char candidate \<or> \<not> has_replacement_char damaged then False
      else
        let c = utf8_chars candidate; d = utf8_chars damaged; d_len = length d;
            lost = length (filter (\<lambda>ch. ch = REPLACEMENT_CHAR) d) in
        if RESTORE_MAX_CHARS < d_len \<or> RESTORE_MAX_CHARS < length c then False
        else if length c < d_len \<or> d_len + lost < length c then False
        else restore_loop c d ((replicate (length c + 1) False)[0 := True]))"

subsection \<open>Repair\<close>

record quality_report =
  repaired :: "(string \<times> string) list"
  remaining :: "string list"

definition quality_flags :: "quality_report \<Rightarrow> string list" where
  "quality_flags r = map (\<lambda>f. ''replacement_char:'' @ f) (remaining r)"

record repair_source =
  rs_name :: string
  rs_can_serve :: bool
  rs_answer :: "fetch_error + json option"

definition candidate :: "string \<Rightarrow> string \<Rightarrow> json \<Rightarrow> string option" where
  "candidate source field work =
     (let raw =
        (if source = ''semantic_scholar'' \<and> field = ''title'' then Option.bind (jget work ''title'') as_str
         else if source = ''semantic_scholar'' \<and> field = ''venue'' then Option.bind (jget work ''venue'') as_str
         else if source = ''openalex'' \<and> field = ''title'' then
           Option.bind (case jget work ''title'' of Some v \<Rightarrow> Some v | None \<Rightarrow> jget work ''display_name'') as_str
         else if source = ''openalex'' \<and> field = ''venue'' then
           Option.bind (Option.bind (Option.bind (jget work ''primary_location'') (\<lambda>l. jget l ''source''))
             (\<lambda>s. jget s ''display_name'')) as_str
         else None) in
      case raw of
        None \<Rightarrow> None
      | Some s \<Rightarrow> let s = str_trim s in if s = [] then None else Some s)"

text \<open>One field of one answer; the state is the record and the repairs so far.\<close>

definition repair_field ::
  "string \<Rightarrow> json \<Rightarrow> string \<Rightarrow> metadata \<times> (string \<times> string) list \<Rightarrow> metadata \<times> (string \<times> string) list" where
  "repair_field source work field st = (case st of (m, rep) \<Rightarrow>
     if map_of rep field \<noteq> None then st
     else (case candidate source field work of
         None \<Rightarrow> st
       | Some found \<Rightarrow>
           (if field = ''title'' then
              (if restores (title m) found
               then (m\<lparr>title := found\<rparr>, AList.update field source rep) else st)
            else (case venue m of
                None \<Rightarrow> st
              | Some v \<Rightarrow>
                  if restores v found
                  then (m\<lparr>venue := Some found\<rparr>, AList.update field source rep) else st))))"

fun repair_sources ::
  "string list \<Rightarrow> repair_source list \<Rightarrow> metadata \<times> (string \<times> string) list
     \<Rightarrow> metadata \<times> (string \<times> string) list" where
  "repair_sources wanted [] st = st"
| "repair_sources wanted (src # srcs) st =
     (if list_all (\<lambda>f. map_of (snd st) f \<noteq> None) wanted then st
      else if \<not> rs_can_serve src then repair_sources wanted srcs st
      else (case rs_answer src of
          Inl _ \<Rightarrow> repair_sources wanted srcs st
        | Inr None \<Rightarrow> repair_sources wanted srcs st
        | Inr (Some work) \<Rightarrow>
            repair_sources wanted srcs (fold (repair_field (rs_name src) work) wanted st)))"

text \<open>\<^verbatim>\<open>BTreeMap::extend\<close>: entries of the second map win, in key order.\<close>

definition btree_extend :: "(string \<times> string) list \<Rightarrow> (string \<times> string) list \<Rightarrow> (string \<times> string) list" where
  "btree_extend a b = sort_key fst (foldl (\<lambda>m (k, v). AList.update k v m) a b)"

definition repair_with :: "metadata \<Rightarrow> repair_source list \<Rightarrow> metadata \<times> quality_report" where
  "repair_with m sources =
     (let repairable = filter (\<lambda>f. f \<in> {''title'', ''venue''}) (replacement_char_fields m);
          (m', rep) = (if repairable \<noteq> [] \<and> m_doi m \<noteq> None
                       then repair_sources repairable sources (m, []) else (m, []));
          report = \<lparr> repaired = rep, remaining = replacement_char_fields m' \<rparr> in
      (m'\<lparr>m_doiget := map_option (\<lambda>d. d\<lparr>repaired_fields := btree_extend (repaired_fields d) rep\<rparr>) (m_doiget m')\<rparr>,
       report))"

text \<open>\<^verbatim>\<open>repair\<close>: the two production sources, with the \<^verbatim>\<open>metadata\<close> feature compiled in or not.\<close>

definition repair :: "bool \<Rightarrow> metadata \<Rightarrow> repair_source \<Rightarrow> repair_source \<Rightarrow> metadata \<times> quality_report" where
  "repair feature_metadata m s2 openalex =
     (if replacement_char_fields m = [] then (m, \<lparr> repaired = [], remaining = [] \<rparr>)
      else if \<not> feature_metadata then (m, \<lparr> repaired = [], remaining = replacement_char_fields m \<rparr>)
      else repair_with m [s2, openalex])"

subsection \<open>The alignment is the relation it means to decide\<close>

text \<open>Each U+FFFD stands for one or two characters, every other character for itself.\<close>

inductive restored :: "string list \<Rightarrow> string list \<Rightarrow> bool" where
  restored_Nil: "restored [] []"
| restored_same: "ch \<noteq> REPLACEMENT_CHAR \<Longrightarrow> restored d c \<Longrightarrow> restored (ch # d) (ch # c)"
| restored_one: "restored d c \<Longrightarrow> restored (REPLACEMENT_CHAR # d) (x # c)"
| restored_two: "restored d c \<Longrightarrow> restored (REPLACEMENT_CHAR # d) (x # y # c)"

inductive_simps restored_Nil_iff [simp]: "restored [] c"
inductive_simps restored_Cons_iff: "restored (ch # d) c"

definition hit :: "string list \<Rightarrow> string \<Rightarrow> nat \<Rightarrow> nat \<Rightarrow> bool" where
  "hit c dc j k \<longleftrightarrow> (if dc = REPLACEMENT_CHAR then k = j + 1 \<or> k = j + 2 else j < length c \<and> c ! j = dc \<and> k = j + 1)"

lemma length_mark [simp]: "length (mark c dc nx j) = length nx"
  by (simp add: mark_def)

lemma mark_nth:
  "length nx = length c + 1 \<Longrightarrow> k \<le> length c \<Longrightarrow> mark c dc nx j ! k \<longleftrightarrow> nx ! k \<or> hit c dc j k"
  by (auto simp: mark_def hit_def nth_list_update)

lemma marks_nth:
  "length nx = length c + 1 \<Longrightarrow> k \<le> length c \<Longrightarrow>
     foldl (mark c dc) nx js ! k \<longleftrightarrow> nx ! k \<or> (\<exists>j \<in> set js. hit c dc j k)"
  by (induction js arbitrary: nx) (auto simp: mark_nth)

lemma restore_step_nth:
  "k \<le> length c \<Longrightarrow> restore_step c dc reach ! k \<longleftrightarrow> (\<exists>j \<le> length c. reach ! j \<and> hit c dc j k)"
proof -
  assume k: "k \<le> length c"
  let ?js = "filter (\<lambda>j. reach ! j) [0..<length c + 1]"
  have "restore_step c dc reach ! k \<longleftrightarrow> replicate (length c + 1) False ! k \<or> (\<exists>j \<in> set ?js. hit c dc j k)"
    unfolding restore_step_def by (rule marks_nth) (simp_all add: k del: replicate.simps)
  moreover have "set ?js = {j. j \<le> length c \<and> reach ! j}"
    by (auto simp: less_Suc_eq_le simp del: upt_Suc)
  moreover have "\<not> replicate (length c + 1) False ! k"
    using k by (simp only: nth_replicate less_Suc_eq_le Suc_eq_plus1 [symmetric]) simp
  ultimately show ?thesis by auto
qed

lemma length_restore_step: "length (restore_step c dc reach) = length c + 1"
proof -
  have "length (foldl (mark c dc) nx js) = length nx" for nx js
    by (induction js arbitrary: nx) auto
  then show ?thesis by (simp add: restore_step_def)
qed

lemma drop_Cons_ex: "(\<exists>x r. drop j c = x # r \<and> P x r) \<longleftrightarrow> j < length c \<and> P (c ! j) (drop (Suc j) c)"
proof (cases "j < length c")
  case True
  then have "drop j c = c ! j # drop (Suc j) c" by (rule Cons_nth_drop_Suc [symmetric])
  with True show ?thesis by auto
qed simp

lemma restored_step:
  assumes "j \<le> length c"
  shows "restored (dc # ds) (drop j c) \<longleftrightarrow> (\<exists>k \<le> length c. hit c dc j k \<and> restored ds (drop k c))"
proof (cases "dc = REPLACEMENT_CHAR")
  case True
  have "restored (dc # ds) (drop j c) \<longleftrightarrow>
      (\<exists>x r. drop j c = x # r \<and> restored ds r) \<or> (\<exists>x r. drop j c = x # r \<and> (\<exists>y r2. r = y # r2 \<and> restored ds r2))"
    using True by (auto simp: restored_Cons_iff)
  also have "\<dots> \<longleftrightarrow> (j < length c \<and> restored ds (drop (Suc j) c))
      \<or> (Suc j < length c \<and> restored ds (drop (Suc (Suc j)) c))"
    unfolding drop_Cons_ex by auto
  also have "\<dots> \<longleftrightarrow> (\<exists>k \<le> length c. hit c dc j k \<and> restored ds (drop k c))"
  proof -
    have "hit c dc j k \<longleftrightarrow> k = Suc j \<or> k = Suc (Suc j)" for k
      using True by (auto simp: hit_def)
    then show ?thesis by (metis Suc_leI Suc_le_lessD)
  qed
  finally show ?thesis .
next
  case False
  then have "restored (dc # ds) (drop j c) \<longleftrightarrow> (\<exists>x r. drop j c = x # r \<and> x = dc \<and> restored ds r)"
    by (auto simp: restored_Cons_iff)
  also have "\<dots> \<longleftrightarrow> (\<exists>k \<le> length c. hit c dc j k \<and> restored ds (drop k c))"
    unfolding drop_Cons_ex using False by (auto simp: hit_def)
  finally show ?thesis .
qed

lemma restore_loop_restored:
  "length reach = length c + 1 \<Longrightarrow>
     restore_loop c d reach \<longleftrightarrow> (\<exists>j \<le> length c. reach ! j \<and> restored d (drop j c))"
proof (induction c d reach rule: restore_loop.induct)
  case (1 c reach)
  then show ?case by (auto simp: le_antisym)
next
  case (2 c dc ds reach)
  let ?next = "restore_step c dc reach"
  have step: "(\<exists>k \<le> length c. ?next ! k \<and> restored ds (drop k c))
      \<longleftrightarrow> (\<exists>j \<le> length c. reach ! j \<and> restored (dc # ds) (drop j c))"
    using restored_step [of _ c dc ds] restore_step_nth [of _ c dc reach] by metis
  show ?case
  proof (cases "True \<in> set ?next")
    case True
    with 2 step show ?thesis by (simp add: Let_def length_restore_step)
  next
    case False
    then have "\<not> ?next ! k" if "k \<le> length c" for k
      using that length_restore_step [of c dc reach] by (metis less_Suc_eq_le nth_mem Suc_eq_plus1)
    with False step show ?thesis by (auto simp: Let_def)
  qed
qed

lemma restored_lengths:
  "restored d c \<Longrightarrow> length d \<le> length c \<and> length c \<le> length d + length (filter (\<lambda>ch. ch = REPLACEMENT_CHAR) d)"
  by (induction rule: restored.induct) auto

lemma restores_iff:
  "restores damaged cand \<longleftrightarrow>
     (let d = utf8_chars damaged; c = utf8_chars cand in
      REPLACEMENT_CHAR \<in> set d \<and> REPLACEMENT_CHAR \<notin> set c \<and> length d \<le> 2000 \<and> length c \<le> 2000
      \<and> restored d c)"
proof -
  let ?d = "utf8_chars damaged" and ?c = "utf8_chars cand"
  have "restore_loop ?c ?d ((replicate (length ?c + 1) False)[0 := True]) \<longleftrightarrow> restored ?d ?c"
    by (subst restore_loop_restored) (auto simp: nth_list_update nth_Cons' split: if_splits)
  with restored_lengths [of ?d ?c] show ?thesis
    by (auto simp: restores_def has_replacement_char_def RESTORE_MAX_CHARS_def Let_def)
qed

lemma restores_spec: "restores a b \<Longrightarrow> restored (utf8_chars a) (utf8_chars b)"
  by (simp add: restores_iff Let_def)

text \<open>The alignment decides exactly the relation it means to: \<^verbatim>\<open>restores\<close> accepts a candidate if and only
  if the damaged value has a U+FFFD, the candidate has none, both have at most 2000 characters, and the
  candidate arises by replacing each U+FFFD by one or two characters and keeping every other character.\<close>

theorem restores_exact:
  "restores damaged cand \<longleftrightarrow>
     (let d = utf8_chars damaged; c = utf8_chars cand in
      REPLACEMENT_CHAR \<in> set d \<and> REPLACEMENT_CHAR \<notin> set c \<and> length d \<le> 2000 \<and> length c \<le> 2000
      \<and> restored d c)"
  by (rule restores_iff)

subsection \<open>Repair keeps every fact\<close>

text \<open>The loop invariant: only title and venue change, at most once each, and only by restoration.\<close>

definition repair_inv :: "metadata \<Rightarrow> metadata \<times> (string \<times> string) list \<Rightarrow> bool" where
  "repair_inv m st = (case st of (m', rep) \<Rightarrow>
     m' = m\<lparr>title := title m', venue := venue m'\<rparr>
     \<and> (if map_of rep ''title'' = None then title m' = title m else restores (title m) (title m'))
     \<and> (if map_of rep ''venue'' = None then venue m' = venue m
        else (\<exists>v w. venue m = Some v \<and> venue m' = Some w \<and> restores v w)))"

lemma map_of_update: "map_of (AList.update k v t) k' = (if k' = k then Some v else map_of t k')"
  by (simp add: update_conv')

lemma repair_field_inv:
  assumes "repair_inv m st" and "f \<in> {''title'', ''venue''}"
  shows "repair_inv m (repair_field source work f st)"
proof -
  obtain m' rep where st: "st = (m', rep)" by (cases st)
  with assms(1) obtain a b where m': "m' = m\<lparr>title := a, venue := b\<rparr>" by (auto simp: repair_inv_def)
  have inv: "repair_inv m (m\<lparr>title := x, venue := y\<rparr>, r) \<longleftrightarrow>
      (if map_of r ''title'' = None then x = title m else restores (title m) x)
      \<and> (if map_of r ''venue'' = None then y = venue m
         else (\<exists>v w. venue m = Some v \<and> y = Some w \<and> restores v w))" for x y r
    by (simp add: repair_inv_def)
  have a: "if map_of rep ''title'' = None then a = title m else restores (title m) a"
    and b: "if map_of rep ''venue'' = None then b = venue m
        else (\<exists>v w. venue m = Some v \<and> b = Some w \<and> restores v w)"
    using assms(1) [unfolded st m' inv] by blast+
  have upd: "m'\<lparr>title := x\<rparr> = m\<lparr>title := x, venue := b\<rparr>" "m'\<lparr>venue := y\<rparr> = m\<lparr>title := a, venue := y\<rparr>" for x y
    by (simp_all add: m')
  have vals: "title m' = a" "venue m' = b" by (simp_all add: m')
  have same: "repair_inv m (m', rep)" using assms(1) by (simp add: st)
  show ?thesis
  proof (cases "map_of rep f = None")
    case False
    then show ?thesis using same by (simp add: st repair_field_def)
  next
    case True
    show ?thesis
    proof (cases "f = ''title''")
      case title: True
      with True a have "title m = a" by simp
      with True title b same show ?thesis
        unfolding st repair_field_def prod.case upd vals
        by (auto simp: inv map_of_update split: option.split)
    next
      case False
      with assms(2) have f: "f = ''venue''" by simp
      with True b have "b = venue m" by simp
      with True f a same show ?thesis
        unfolding st repair_field_def prod.case upd vals
        by (auto simp: inv map_of_update split: option.split)
    qed
  qed
qed

lemma repair_fields_inv:
  "repair_inv m st \<Longrightarrow> set fs \<subseteq> {''title'', ''venue''} \<Longrightarrow> repair_inv m (fold (repair_field source work) fs st)"
  by (induction fs arbitrary: st) (simp_all add: repair_field_inv)

lemma repair_sources_inv:
  "repair_inv m st \<Longrightarrow> set fs \<subseteq> {''title'', ''venue''} \<Longrightarrow> repair_inv m (repair_sources fs srcs st)"
  by (induction srcs arbitrary: st) (auto simp: repair_fields_inv split: sum.split option.split)

lemma replacement_fields_mono:
  assumes "m' = m\<lparr>title := title m', venue := venue m', m_doiget := d\<rparr>"
    and "title m' = title m \<or> restores (title m) (title m')"
    and "venue m' = venue m \<or> (\<exists>v w. venue m = Some v \<and> venue m' = Some w \<and> restores v w)"
  shows "set (replacement_char_fields m') \<subseteq> set (replacement_char_fields m)"
proof -
  have "authors m' = authors m" "publisher m' = publisher m" "m_abstract m' = m_abstract m"
    by (subst assms(1); simp)+
  moreover have "restores a b \<Longrightarrow> \<not> has_replacement_char b" for a b by (auto simp: restores_def)
  ultimately show ?thesis
    using assms(2,3) by (auto simp: replacement_char_fields_def opt_has_def CHECKED_FIELDS_def)
qed


end
