(* ===== verification/Store.thy ===== *)
theory Store
  imports Metadata_Quality Markup
begin

text \<open>
  The filesystem store (\<^verbatim>\<open>FsStore\<close>, \<^verbatim>\<open>crates/doiget-core/src/store/fs_store.rs\<close>): paths and their guard,
  the lock, reads, merging writes in their crash-consistent order, listing and search.

  A file system is the list of its files.  A file is a TOML document or other bytes.  One write carries
  its environment: the answers of the lock polls, and the file operation that fails or in front of which
  the process dies, with what a torn temporary file then holds.  The files of a crashed and of a failed
  write are the same, since nothing is cleaned up.  The parameters \<open>un\<close>, \<open>utc\<close> and \<open>other_toml\<close> are those of
  \<open>Markup\<close> and \<open>Metadata\<close>.
\<close>

subsection \<open>Files and paths\<close>

datatype content = Doc "doc_line list" | Bytes string

type_synonym fs = "(string \<times> content) list"

record fs_store =
  fs_root :: string
  metadata_dir :: string

definition METADATA_DIR :: string where
  "METADATA_DIR = ''.metadata''"

definition LOCK_TIMEOUT :: nat where
  "LOCK_TIMEOUT = 5000"

definition LOCK_POLL_INTERVAL :: nat where
  "LOCK_POLL_INTERVAL = 50"

text \<open>\<open>exists\<close> and \<open>is_dir\<close> describe the root; \<open>mkdir\<close> tells whether a missing directory can be made.\<close>

definition fs_store_new :: "bool \<Rightarrow> bool \<Rightarrow> (string \<Rightarrow> bool) \<Rightarrow> string \<Rightarrow> store_error + fs_store" where
  "fs_store_new exists is_dir mkdir root =
     (if exists \<and> \<not> is_dir then Inl (StoreIo ''already exists'')
      else
        let dir = root @ ''/'' @ METADATA_DIR in
        if (\<not> exists \<and> \<not> mkdir root) \<or> \<not> mkdir dir then Inl (StoreIo ''create dir'')
        else Inr \<lparr> fs_root = root, metadata_dir = dir \<rparr>)"

definition guard_safekey :: "string \<Rightarrow> store_error + unit" where
  "guard_safekey s =
     (let bad = (s = [] \<or> CHR ''/'' \<in> set s \<or> CHR 0x5C \<in> set s \<or> contains_str s ''..'' \<or> CHR 0x00 \<in> set s
                 \<or> hd s = CHR ''.''
                 \<or> \<not> list_all (\<lambda>c. is_ascii_alphanumeric c \<or> c \<in> set ''.-_'') s) in
      if bad then Inl (PathTraversal s) else Inr ())"

definition path_parent :: "string \<Rightarrow> string" where
  "path_parent p = rev (tl (dropWhile (\<lambda>c. c \<noteq> CHR ''/'') (rev p)))"

definition metadata_path :: "fs_store \<Rightarrow> safekey \<Rightarrow> store_error + string" where
  "metadata_path st key = (case guard_safekey (safekey_as_str key) of
     Inl e \<Rightarrow> Inl e
   | Inr _ \<Rightarrow>
       let p = metadata_dir st @ ''/'' @ safekey_as_str key @ ''.toml'' in
       if path_parent p \<noteq> metadata_dir st then Inl (PathTraversal p) else Inr p)"

definition lock_path :: "fs_store \<Rightarrow> safekey \<Rightarrow> store_error + string" where
  "lock_path st key = (case guard_safekey (safekey_as_str key) of
     Inl e \<Rightarrow> Inl e
   | Inr _ \<Rightarrow> Inr (metadata_dir st @ ''/'' @ safekey_as_str key @ ''.toml.lock''))"

definition pdf_path_of :: "fs_store \<Rightarrow> safekey \<Rightarrow> store_error + string" where
  "pdf_path_of st key = (case guard_safekey (safekey_as_str key) of
     Inl e \<Rightarrow> Inl e
   | Inr _ \<Rightarrow> Inr (fs_root st @ ''/'' @ safekey_as_str key @ ''.pdf''))"

subsection \<open>Locking and the environment of a call\<close>

datatype try_lock = Acquired | Contended | TryFailed

datatype file_op = OpenLock | ReadExisting | ReadPdf | WritePdf | RenamePdf | WriteMeta | RenameMeta

record io_env =
  attempts :: "nat \<Rightarrow> try_lock"
  oversleep :: "nat \<Rightarrow> nat"
  fails :: "file_op option"
  torn :: "string option"

text \<open>Poll \<open>n\<close>, \<open>elapsed\<close> milliseconds after the call; a sleep lasts the interval or longer.\<close>

function acquire_lock :: "io_env \<Rightarrow> string \<Rightarrow> nat \<Rightarrow> nat \<Rightarrow> store_error + unit" where
  "acquire_lock env path n elapsed = (case attempts env n of
     Acquired \<Rightarrow> Inr ()
   | TryFailed \<Rightarrow> Inl (StoreIo ''lock'')
   | Contended \<Rightarrow>
       if LOCK_TIMEOUT \<le> elapsed then Inl (store_error.LockTimeout path)
       else acquire_lock env path (n + 1) (elapsed + LOCK_POLL_INTERVAL + oversleep env n))"
  by pat_completeness auto
termination
  by (relation "measure (\<lambda>(_, _, _, elapsed). LOCK_TIMEOUT - elapsed)")
    (auto simp: LOCK_POLL_INTERVAL_def)

declare acquire_lock.simps [simp del]

definition open_or_create_lock_file :: "io_env \<Rightarrow> string \<Rightarrow> fs \<Rightarrow> fs \<times> (store_error + unit)" where
  "open_or_create_lock_file env path fs =
     (if fails env = Some OpenLock then (fs, Inl (StoreIo ''open''))
      else (if map_of fs path = None then AList.update path (Bytes []) fs else fs, Inr ()))"

text \<open>\<^verbatim>\<open>read_to_string\<close> followed by \<^verbatim>\<open>toml::from_str\<close>.\<close>

definition read_content ::
  "(string \<Rightarrow> string option) \<Rightarrow> (doc_line list \<Rightarrow> toml_table option) \<Rightarrow> content \<Rightarrow> store_error + metadata" where
  "read_content utc other_toml c = (case c of
     Doc d \<Rightarrow> parse_metadata utc other_toml d
   | Bytes b \<Rightarrow> if is_utf8 b then Inl Deserialize else Inl (StoreIo ''invalid UTF-8''))"

definition store_read ::
  "(string \<Rightarrow> string option) \<Rightarrow> (doc_line list \<Rightarrow> toml_table option) \<Rightarrow> fs_store \<Rightarrow> io_env \<Rightarrow> safekey \<Rightarrow> fs
     \<Rightarrow> fs \<times> (store_error + metadata option)" where
  "store_read utc other_toml st env key fs = (case metadata_path st key of
     Inl e \<Rightarrow> (fs, Inl e)
   | Inr meta \<Rightarrow>
       (case map_of fs meta of
          None \<Rightarrow> (fs, Inr None)
        | Some c \<Rightarrow>
            (case lock_path st key of
               Inl e \<Rightarrow> (fs, Inl e)
             | Inr lock \<Rightarrow>
                 (case open_or_create_lock_file env lock fs of
                    (fs, Inl e) \<Rightarrow> (fs, Inl e)
                  | (fs, Inr _) \<Rightarrow>
                      (case acquire_lock env lock 0 0 of
                         Inl e \<Rightarrow> (fs, Inl e)
                       | Inr _ \<Rightarrow>
                           if fails env = Some ReadExisting then (fs, Inl (StoreIo ''read''))
                           else (case read_content utc other_toml c of
                               Inl e \<Rightarrow> (fs, Inl e)
                             | Inr m \<Rightarrow>
                                 (case check_schema_version (m_schema_version m) of
                                    Inl e \<Rightarrow> (fs, Inl e)
                                  | Inr _ \<Rightarrow> (fs, Inr (Some m)))))))))"

subsection \<open>Merging\<close>

datatype user_fields = Preserve | Authored

definition is_cleaned_form :: "unicode \<Rightarrow> string \<Rightarrow> string \<Rightarrow> bool" where
  "is_cleaned_form un existing incoming =
     (let markup = (has_inline_markup existing \<and> plain_title un existing = incoming);
          restored = restores existing incoming in
      existing \<noteq> incoming \<and> (markup \<or> restored))"

text \<open>The macro \<^verbatim>\<open>merge_opt!\<close> and its list variant: the value the field of the result gets.\<close>

definition merge_opt :: "'a option \<Rightarrow> 'a option \<Rightarrow> 'a option" where
  "merge_opt existing incoming = (if existing \<noteq> None \<and> existing \<noteq> incoming then existing else incoming)"

definition merge_list :: "'a list \<Rightarrow> 'a list \<Rightarrow> 'a list" where
  "merge_list existing incoming = (if existing \<noteq> [] \<and> existing \<noteq> incoming then existing else incoming)"

definition merge_version :: "string \<Rightarrow> string \<Rightarrow> string" where
  "merge_version existing incoming =
     (case (parse_schema_version existing, parse_schema_version incoming) of
        (Inr (em, en), Inr (im, inn)) \<Rightarrow> if em > im \<or> (em = im \<and> en > inn) then existing else incoming
      | _ \<Rightarrow> incoming)"

definition merge_extension :: "user_fields \<Rightarrow> bool \<Rightarrow> doiget_extension \<Rightarrow> doiget_extension \<Rightarrow> doiget_extension" where
  "merge_extension user venue_kept e d =
     (let d = (if oa_status d = None then d\<lparr>oa_status := oa_status e\<rparr> else d);
          d = (if d_license d = LICENSE_UNDETERMINED then d\<lparr>d_license := d_license e\<rparr> else d);
          d = (if short_venue d = None \<or> venue_kept then d\<lparr>short_venue := short_venue e\<rparr> else d);
          d = (if repaired_fields d = [] then d\<lparr>repaired_fields := repaired_fields e\<rparr> else d);
          d = (if origin e = Some ORIGIN_USER_SUPPLIED \<and> d_size_bytes d = 0
               then d\<lparr>origin := origin e, d_source := d_source e, d_size_bytes := d_size_bytes e,
                      d_license := d_license e\<rparr> else d) in
      if user = Preserve
      then d\<lparr>tags := tags e, collections := collections e, annotation := annotation e\<rparr> else d)"

text \<open>\<^verbatim>\<open>entry(k).or_insert(v)\<close> for every incoming key, in key order.\<close>

definition merge_other :: "toml_table \<Rightarrow> toml_table \<Rightarrow> toml_table" where
  "merge_other existing incoming =
     sort_key fst (existing @ filter (\<lambda>(k, _). map_of existing k = None) incoming)"

definition merge_metadata :: "unicode \<Rightarrow> metadata \<Rightarrow> metadata \<Rightarrow> user_fields \<Rightarrow> metadata" where
  "merge_metadata un existing incoming user =
     (let out_venue = (if (case (venue existing, venue incoming) of
                             (Some e, Some i) \<Rightarrow> is_cleaned_form un e i | _ \<Rightarrow> False)
                       then venue incoming else merge_opt (venue existing) (venue incoming)) in
      \<lparr> m_schema_version = merge_version (m_schema_version existing) (m_schema_version incoming),
        title = (if title existing \<noteq> [] \<and> title existing \<noteq> title incoming
                    \<and> \<not> is_cleaned_form un (title existing) (title incoming)
                 then title existing else title incoming),
        authors = merge_list (authors existing) (authors incoming),
        year = merge_opt (year existing) (year incoming),
        m_doi = merge_opt (m_doi existing) (m_doi incoming),
        m_arxiv_id = merge_opt (m_arxiv_id existing) (m_arxiv_id incoming),
        arxiv_categories = merge_list (arxiv_categories existing) (arxiv_categories incoming),
        m_abstract = merge_opt (m_abstract existing) (m_abstract incoming),
        venue = out_venue,
        volume = merge_opt (volume existing) (volume incoming),
        issue = merge_opt (issue existing) (issue incoming),
        pages = merge_opt (pages existing) (pages incoming),
        publisher = merge_opt (publisher existing) (publisher incoming),
        issn = merge_opt (issn existing) (issn incoming),
        isbn = merge_opt (isbn existing) (isbn incoming),
        m_type = merge_opt (m_type existing) (m_type incoming),
        m_keywords = merge_list (m_keywords existing) (m_keywords incoming),
        m_url = merge_opt (m_url existing) (m_url incoming),
        pdf_path = merge_opt (pdf_path existing) (pdf_path incoming),
        m_doiget = (case (m_doiget existing, m_doiget incoming) of
            (Some e, Some d) \<Rightarrow> Some (merge_extension user (out_venue \<noteq> venue incoming) e d)
          | (Some e, None) \<Rightarrow> Some e
          | (None, d) \<Rightarrow> d),
        other = merge_other (other existing) (other incoming) \<rparr>)"

subsection \<open>Writing\<close>

definition atomic_write ::
  "bool \<Rightarrow> bool \<Rightarrow> string option \<Rightarrow> string \<Rightarrow> content \<Rightarrow> fs \<Rightarrow> fs \<times> (store_error + unit)" where
  "atomic_write write_fails rename_fails torn_bytes dst c fs =
     (let tmp = dst @ ''.tmp'' in
      if write_fails
      then (case torn_bytes of None \<Rightarrow> fs | Some b \<Rightarrow> AList.update tmp (Bytes b) fs, Inl (StoreIo ''write''))
      else
        let fs = AList.update tmp c fs in
        if rename_fails then (fs, Inl (StoreIo ''rename''))
        else (AList.update dst c (AList.delete tmp fs), Inr ()))"

definition merged_record ::
  "unicode \<Rightarrow> (string \<Rightarrow> string option) \<Rightarrow> (doc_line list \<Rightarrow> toml_table option) \<Rightarrow> io_env \<Rightarrow> user_fields
     \<Rightarrow> content option \<Rightarrow> metadata \<Rightarrow> store_error + metadata" where
  "merged_record un utc other_toml env user old m = (case old of
     None \<Rightarrow> Inr m
   | Some c \<Rightarrow>
       if fails env = Some ReadExisting then Inl (StoreIo ''read'')
       else (case read_content utc other_toml c of
           Inl e \<Rightarrow> Inl e
         | Inr existing \<Rightarrow>
             (case check_schema_version_for_write (m_schema_version existing) of
                Inl e \<Rightarrow> Inl e
              | Inr _ \<Rightarrow> Inr (merge_metadata un existing m user))))"

definition write_pdf :: "fs_store \<Rightarrow> io_env \<Rightarrow> safekey \<Rightarrow> string option \<Rightarrow> fs \<Rightarrow> fs \<times> (store_error + unit)" where
  "write_pdf st env key pdf fs = (case pdf of
     None \<Rightarrow> (fs, Inr ())
   | Some src \<Rightarrow>
       (case pdf_path_of st key of
          Inl e \<Rightarrow> (fs, Inl e)
        | Inr dst \<Rightarrow>
            (case (if fails env = Some ReadPdf then None else map_of fs src) of
               None \<Rightarrow> (fs, Inl (StoreIo ''open''))
             | Some bytes \<Rightarrow>
                 atomic_write (fails env = Some WritePdf) (fails env = Some RenamePdf) (torn env) dst bytes fs)))"

definition write_with_impl ::
  "unicode \<Rightarrow> (string \<Rightarrow> string option) \<Rightarrow> (doc_line list \<Rightarrow> toml_table option) \<Rightarrow> fs_store \<Rightarrow> io_env
     \<Rightarrow> safekey \<Rightarrow> metadata \<Rightarrow> string option \<Rightarrow> user_fields \<Rightarrow> fs \<Rightarrow> fs \<times> (store_error + unit)" where
  "write_with_impl un utc other_toml st env key m pdf user fs = (case metadata_path st key of
     Inl e \<Rightarrow> (fs, Inl e)
   | Inr meta \<Rightarrow>
       (case lock_path st key of
          Inl e \<Rightarrow> (fs, Inl e)
        | Inr lock \<Rightarrow>
            (case open_or_create_lock_file env lock fs of
               (fs, Inl e) \<Rightarrow> (fs, Inl e)
             | (fs, Inr _) \<Rightarrow>
                 (case acquire_lock env lock 0 0 of
                    Inl e \<Rightarrow> (fs, Inl e)
                  | Inr _ \<Rightarrow>
                      (case merged_record un utc other_toml env user (map_of fs meta) m of
                         Inl e \<Rightarrow> (fs, Inl e)
                       | Inr merged \<Rightarrow>
                           (case normalize_toml merged of
                              Inl e \<Rightarrow> (fs, Inl e)
                            | Inr normalized \<Rightarrow>
                                (case write_pdf st env key pdf fs of
                                   (fs, Inl e) \<Rightarrow> (fs, Inl e)
                                 | (fs, Inr _) \<Rightarrow>
                                     atomic_write (fails env = Some WriteMeta) (fails env = Some RenameMeta)
                                       (torn env) meta (Doc normalized) fs)))))))"

subsection \<open>Listing and search\<close>

record entry_info =
  ei_safekey :: safekey
  ei_title :: string
  ei_year :: "int option"
  ei_fetched_at :: "string option"
  ei_size_bytes :: "nat option"

definition has_pdf :: "entry_info \<Rightarrow> bool" where
  "has_pdf e = (case ei_size_bytes e of None \<Rightarrow> False | Some n \<Rightarrow> 0 < n)"

text \<open>The files directly inside the metadata directory, in directory order.\<close>

definition metadata_files :: "fs_store \<Rightarrow> fs \<Rightarrow> (string \<times> content) list" where
  "metadata_files st fs =
     filter (\<lambda>(p, _). ends_with p ''.toml'' \<and> \<not> ends_with p ''.tmp'')
       (filter (\<lambda>(p, _). path_parent p = metadata_dir st \<and> CHR ''/'' \<in> set p) fs)"

definition safekey_from_metadata_filename :: "string \<Rightarrow> safekey" where
  "safekey_from_metadata_filename p =
     (let name = rev (takeWhile (\<lambda>c. c \<noteq> CHR ''/'') (rev p)) in
      Safekey (if name = ''.toml'' then name else take (length name - 5) name))"

definition entry_info_of :: "string \<Rightarrow> metadata \<Rightarrow> entry_info" where
  "entry_info_of path md =
     \<lparr> ei_safekey = safekey_from_metadata_filename path, ei_title = title md, ei_year = year md,
       ei_fetched_at = map_option fetched_at (m_doiget md),
       ei_size_bytes = map_option d_size_bytes (m_doiget md) \<rparr>"

text \<open>One pass over the files: unreadable text aborts it, text that does not parse is skipped.\<close>

fun scan ::
  "(string \<Rightarrow> string option) \<Rightarrow> (doc_line list \<Rightarrow> toml_table option) \<Rightarrow> (metadata \<Rightarrow> bool) \<Rightarrow> nat option
     \<Rightarrow> (string \<times> content) list \<Rightarrow> entry_info list \<Rightarrow> store_error + entry_info list" where
  "scan utc other_toml wanted limit [] hits = Inr hits"
| "scan utc other_toml wanted limit ((p, c) # files) hits = (case read_content utc other_toml c of
     Inl (StoreIo e) \<Rightarrow> Inl (StoreIo e)
   | Inl _ \<Rightarrow> scan utc other_toml wanted limit files hits
   | Inr md \<Rightarrow>
       if \<not> wanted md then scan utc other_toml wanted limit files hits
       else
         let hits = hits @ [entry_info_of p md] in
         if (case limit of None \<Rightarrow> False | Some n \<Rightarrow> n \<le> length hits) then Inr hits
         else scan utc other_toml wanted limit files hits)"

definition read_all_entries ::
  "(string \<Rightarrow> string option) \<Rightarrow> (doc_line list \<Rightarrow> toml_table option) \<Rightarrow> fs_store \<Rightarrow> fs
     \<Rightarrow> store_error + entry_info list" where
  "read_all_entries utc other_toml st fs = scan utc other_toml (\<lambda>_. True) None (metadata_files st fs) []"

text \<open>\<open>instant\<close> orders the timestamps; entries without one come last, ties keep directory order.\<close>

definition list_recent ::
  "(string \<Rightarrow> string option) \<Rightarrow> (doc_line list \<Rightarrow> toml_table option) \<Rightarrow> (string \<Rightarrow> int) \<Rightarrow> fs_store \<Rightarrow> nat \<Rightarrow> fs
     \<Rightarrow> store_error + entry_info list" where
  "list_recent utc other_toml instant st limit fs =
     map_ok (\<lambda>es. take limit
       (sort_key (\<lambda>e. - instant (the (ei_fetched_at e))) (filter (\<lambda>e. ei_fetched_at e \<noteq> None) es)
        @ filter (\<lambda>e. ei_fetched_at e = None) es))
       (read_all_entries utc other_toml st fs)"

text \<open>\<open>lower\<close> is \<^verbatim>\<open>str::to_lowercase\<close>.\<close>

definition text_matches :: "(string \<Rightarrow> string) \<Rightarrow> string \<Rightarrow> metadata \<Rightarrow> bool" where
  "text_matches lower q md =
     list_ex (\<lambda>h. contains_str h q)
       [lower (title md), lower (join_with '' '' (authors md)),
        lower (case venue md of Some v \<Rightarrow> v | None \<Rightarrow> []), lower (case publisher md of Some v \<Rightarrow> v | None \<Rightarrow> [])]"

definition store_search ::
  "(string \<Rightarrow> string option) \<Rightarrow> (doc_line list \<Rightarrow> toml_table option) \<Rightarrow> (string \<Rightarrow> string) \<Rightarrow> fs_store
     \<Rightarrow> string \<Rightarrow> nat \<Rightarrow> fs \<Rightarrow> store_error + entry_info list" where
  "store_search utc other_toml lower st query limit fs =
     scan utc other_toml (text_matches lower (lower query)) (Some limit) (metadata_files st fs) []"

definition search_by_tag ::
  "(string \<Rightarrow> string option) \<Rightarrow> (doc_line list \<Rightarrow> toml_table option) \<Rightarrow> (string \<Rightarrow> string) \<Rightarrow> fs_store
     \<Rightarrow> string \<Rightarrow> string \<Rightarrow> nat \<Rightarrow> fs \<Rightarrow> store_error + entry_info list" where
  "search_by_tag utc other_toml lower st tag query limit fs =
     (let q = lower query in
      scan utc other_toml
        (\<lambda>md. (case m_doiget md of None \<Rightarrow> False | Some d \<Rightarrow> tag \<in> set (tags d))
           \<and> (q = [] \<or> text_matches lower q md))
        (Some limit) (metadata_files st fs) [])"

subsection \<open>Which files a write touches\<close>

abbreviation meta_file :: "fs_store \<Rightarrow> safekey \<Rightarrow> string" where
  "meta_file st key \<equiv> metadata_dir st @ ''/'' @ safekey_as_str key @ ''.toml''"

abbreviation lock_file :: "fs_store \<Rightarrow> safekey \<Rightarrow> string" where
  "lock_file st key \<equiv> metadata_dir st @ ''/'' @ safekey_as_str key @ ''.toml.lock''"

abbreviation pdf_file :: "fs_store \<Rightarrow> safekey \<Rightarrow> string" where
  "pdf_file st key \<equiv> fs_root st @ ''/'' @ safekey_as_str key @ ''.pdf''"

definition touched :: "fs_store \<Rightarrow> safekey \<Rightarrow> string set" where
  "touched st key = {meta_file st key, meta_file st key @ ''.tmp'', lock_file st key,
     pdf_file st key, pdf_file st key @ ''.tmp''}"

lemma last_char_differs: "c \<noteq> d \<Longrightarrow> a @ [c] \<noteq> b @ [d]"
  by simp

lemma ends_with_last: "s \<noteq> [] \<Longrightarrow> last s \<noteq> last u \<Longrightarrow> u \<noteq> [] \<Longrightarrow> a @ s \<noteq> b @ u"
  by (metis last_appendR)

lemma paths_distinct [simp]:
  "meta_file st key \<noteq> lock_file st' key'" "lock_file st' key' \<noteq> meta_file st key"
  "meta_file st key \<noteq> pdf_file st' key'" "pdf_file st' key' \<noteq> meta_file st key"
  "meta_file st key \<noteq> a @ ''.tmp''" "a @ ''.tmp'' \<noteq> meta_file st key"
  "pdf_file st key \<noteq> a @ ''.tmp''" "a @ ''.tmp'' \<noteq> pdf_file st key"
  "lock_file st key \<noteq> a @ ''.tmp''" "a @ ''.tmp'' \<noteq> lock_file st key"
  "pdf_file st key \<noteq> lock_file st' key'" "lock_file st' key' \<noteq> pdf_file st key"
  by (auto dest: arg_cong [of _ _ last])

lemma tmp_paths_distinct:
  "meta_file st key @ ''.tmp'' \<noteq> pdf_file st' key' @ ''.tmp''"
  by (auto dest: arg_cong [of _ _ last])

lemma safekey_as_str_inj [simp]: "safekey_as_str a = safekey_as_str b \<longleftrightarrow> a = b"
  by (cases a; cases b) simp

lemma meta_file_inj: "meta_file st key = meta_file st key' \<longleftrightarrow> key = key'"
  by simp

lemma other_meta_untouched: "key' \<noteq> key \<Longrightarrow> meta_file st key' \<notin> touched st key"
  by (auto simp: touched_def meta_file_inj dest: arg_cong [of _ _ last])

lemma metadata_path_Inr: "metadata_path st key = Inr p \<Longrightarrow> p = meta_file st key"
  by (auto simp: metadata_path_def Let_def split: sum.splits if_splits)

lemma lock_path_Inr: "lock_path st key = Inr p \<Longrightarrow> p = lock_file st key"
  by (auto simp: lock_path_def split: sum.splits)

lemma pdf_path_Inr: "pdf_path_of st key = Inr p \<Longrightarrow> p = pdf_file st key"
  by (auto simp: pdf_path_of_def split: sum.splits)

lemma atomic_write_effect:
  assumes "atomic_write w x tb dst c fs = (fs', r)"
  shows "case r of Inr _ \<Rightarrow> map_of fs' dst = Some c | Inl _ \<Rightarrow> map_of fs' dst = map_of fs dst"
    and "p \<noteq> dst \<Longrightarrow> p \<noteq> dst @ ''.tmp'' \<Longrightarrow> map_of fs' p = map_of fs p"
  using assms
  by (auto simp: atomic_write_def Let_def map_of_update delete_conv' split: if_splits option.splits)

text \<open>The file system behind the lock step.\<close>

definition locked_fs :: "fs_store \<Rightarrow> safekey \<Rightarrow> fs \<Rightarrow> fs" where
  "locked_fs st key fs =
     (if map_of fs (lock_file st key) = None then AList.update (lock_file st key) (Bytes []) fs else fs)"

lemma locked_fs_other: "p \<noteq> lock_file st key \<Longrightarrow> map_of (locked_fs st key fs) p = map_of fs p"
  by (simp add: locked_fs_def map_of_update)

lemma write_with_impl_cases:
  assumes "write_with_impl un utc other_toml st env key m pdf user fs = (fs', r)"
  obtains
    (stopped) e where "r = Inl e" "fs' = fs \<or> fs' = locked_fs st key fs"
  | (pdf_failed) e merged where "r = Inl e" "write_pdf st env key pdf (locked_fs st key fs) = (fs', Inl e)"
      "merged_record un utc other_toml env user (map_of fs (meta_file st key)) m = Inr merged"
  | (written) merged doc fs2 where
      "merged_record un utc other_toml env user (map_of fs (meta_file st key)) m = Inr merged"
      "normalize_toml merged = Inr doc"
      "write_pdf st env key pdf (locked_fs st key fs) = (fs2, Inr ())"
      "atomic_write (fails env = Some WriteMeta) (fails env = Some RenameMeta) (torn env)
         (meta_file st key) (Doc doc) fs2 = (fs', r)"
proof (cases "metadata_path st key")
  case (Inl e)
  with assms stopped show ?thesis by (auto simp: write_with_impl_def)
next
  case mp: (Inr meta)
  then have meta: "meta = meta_file st key" by (rule metadata_path_Inr)
  show ?thesis
  proof (cases "lock_path st key")
    case (Inl e)
    with assms mp stopped show ?thesis by (auto simp: write_with_impl_def)
  next
    case lp: (Inr lock)
    then have lock: "lock = lock_file st key" by (rule lock_path_Inr)
    let ?fs = "locked_fs st key fs"
    show ?thesis
    proof (cases "fails env = Some OpenLock")
      case True
      with assms mp lp stopped show ?thesis
        by (auto simp: write_with_impl_def open_or_create_lock_file_def)
    next
      case False
      then have op: "open_or_create_lock_file env lock fs = (?fs, Inr ())"
        by (simp add: open_or_create_lock_file_def locked_fs_def lock)
      have old: "map_of ?fs meta = map_of fs (meta_file st key)"
        unfolding meta by (simp add: locked_fs_other)
      note eq = assms [unfolded write_with_impl_def mp lp sum.case op prod.case old]
      show ?thesis
      proof (cases "acquire_lock env lock 0 0")
        case (Inl e)
        with eq have "r = Inl e" "fs' = ?fs" by simp_all
          then show ?thesis by (intro stopped) simp_all
      next
        case acq: (Inr u)
        show ?thesis
        proof (cases "merged_record un utc other_toml env user (map_of fs (meta_file st key)) m")
          case (Inl e)
          with eq acq have "r = Inl e" "fs' = ?fs" by simp_all
          then show ?thesis by (intro stopped) simp_all
        next
          case mr: (Inr merged)
          show ?thesis
          proof (cases "normalize_toml merged")
            case (Inl e)
            with eq acq mr have "r = Inl e" "fs' = ?fs" by simp_all
          then show ?thesis by (intro stopped) simp_all
          next
            case nt: (Inr doc)
            obtain fs2 r2 where wp: "write_pdf st env key pdf ?fs = (fs2, r2)" by (cases "write_pdf st env key pdf ?fs")
            from eq acq mr nt wp show ?thesis
            proof (cases r2)
              case (Inl e)
              with eq acq mr nt wp show ?thesis by (intro pdf_failed) auto
            next
              case (Inr u)
              with eq acq mr nt wp meta show ?thesis by (intro written) auto
            qed
          qed
        qed
      qed
    qed
  qed
qed

lemma write_pdf_effect:
  assumes "write_pdf st env key pdf fs = (fs', r)"
  shows "p \<noteq> pdf_file st key \<Longrightarrow> p \<noteq> pdf_file st key @ ''.tmp'' \<Longrightarrow> map_of fs' p = map_of fs p"
    and "case (r, pdf) of
           (Inr _, Some src) \<Rightarrow> map_of fs src \<noteq> None \<and> map_of fs' (pdf_file st key) = map_of fs src
         | _ \<Rightarrow> map_of fs' (pdf_file st key) = map_of fs (pdf_file st key)"
  using assms atomic_write_effect
  by (auto simp: write_pdf_def split: option.splits sum.splits if_splits dest!: pdf_path_Inr) fastforce+

text \<open>
  The effect of a write on the files, whatever fails: an error leaves the metadata file as it was and
  the PDF either as it was or complete; success leaves both in place.
\<close>

lemma write_effect:
  assumes w: "write_with_impl un utc other_toml st env key m pdf user fs = (fs', r)"
    and src: "case pdf of None \<Rightarrow> True | Some src \<Rightarrow> src \<noteq> lock_file st key"
  shows "(\<forall>p. p \<notin> touched st key \<longrightarrow> map_of fs' p = map_of fs p) \<and> (case r of
        Inl _ \<Rightarrow> map_of fs' (meta_file st key) = map_of fs (meta_file st key)
          \<and> (map_of fs' (pdf_file st key) = map_of fs (pdf_file st key)
             \<or> (\<exists>s. pdf = Some s \<and> map_of fs s \<noteq> None \<and> map_of fs' (pdf_file st key) = map_of fs s))
      | Inr _ \<Rightarrow> \<exists>merged doc.
          merged_record un utc other_toml env user (map_of fs (meta_file st key)) m = Inr merged
          \<and> normalize_toml merged = Inr doc \<and> map_of fs' (meta_file st key) = Some (Doc doc)
          \<and> (case pdf of None \<Rightarrow> True | Some s \<Rightarrow> map_of fs s \<noteq> None \<and> map_of fs' (pdf_file st key) = map_of fs s))"
  using w
proof (cases rule: write_with_impl_cases)
  case (stopped e)
  then show ?thesis by (auto simp: touched_def locked_fs_other)
next
  case (pdf_failed e merged)
  note fx = write_pdf_effect [OF pdf_failed(2)]
  have "map_of fs' p = map_of fs p" if "p \<notin> touched st key" for p
    using that fx(1) [of p] by (auto simp: touched_def locked_fs_other)
  moreover have "map_of fs' (meta_file st key) = map_of fs (meta_file st key)"
    by (subst fx(1)) (simp_all add: locked_fs_other)
  moreover have "map_of fs' (pdf_file st key) = map_of fs (pdf_file st key)"
    using fx(2) by (simp add: locked_fs_other)
  ultimately show ?thesis using pdf_failed(1) by simp
next
  case (written merged doc fs2)
  note fx = write_pdf_effect [OF written(3)] and ax = atomic_write_effect [OF written(4)]
  have frame: "map_of fs' p = map_of fs p" if "p \<notin> touched st key" for p
    using that fx(1) [of p] ax(2) [of p] by (auto simp: touched_def locked_fs_other)
  have m2: "map_of fs2 (meta_file st key) = map_of fs (meta_file st key)"
    by (subst fx(1)) (simp_all add: locked_fs_other)
  have p2: "map_of fs' (pdf_file st key) = map_of fs2 (pdf_file st key)"
    by (rule ax(2)) simp_all
  show ?thesis
  proof (cases pdf)
    case None
    with frame fx(2) ax(1) m2 p2 written(1,2) show ?thesis
      by (auto simp: locked_fs_other split: sum.splits)
  next
    case (Some s)
    with src have "map_of (locked_fs st key fs) s = map_of fs s" by (simp add: locked_fs_other)
    with Some frame fx(2) ax(1) m2 p2 written(1,2) show ?thesis
      by (auto split: sum.splits)
  qed
qed

text \<open>C4: Writes are crash-consistent: whichever file operation of a write fails, or the process dies in
  front of, only the files of that entry are touched; without success the metadata file is the old
  one byte for byte and the PDF is the old one or the complete new one, and with success the metadata
  is the complete merged document with its PDF in place.  In no state does new metadata stand beside a
  missing or partial PDF.\<close>

theorem write_is_crash_consistent:
  assumes "write_with_impl un utc other_toml st env key m (Some src) user fs = (fs', r)"
    and "src \<noteq> lock_file st key"
  shows "(\<forall>p. p \<in> touched st key \<or> map_of fs' p = map_of fs p)
    \<and> (if is_ok r then
         (\<exists>merged doc. merged_record un utc other_toml env user (map_of fs (meta_file st key)) m = Inr merged
            \<and> normalize_toml merged = Inr doc \<and> map_of fs' (meta_file st key) = Some (Doc doc)
            \<and> map_of fs src \<noteq> None \<and> map_of fs' (pdf_file st key) = map_of fs src)
       else map_of fs' (meta_file st key) = map_of fs (meta_file st key)
         \<and> (map_of fs' (pdf_file st key) = map_of fs (pdf_file st key)
            \<or> (map_of fs src \<noteq> None \<and> map_of fs' (pdf_file st key) = map_of fs src)))"
  using write_effect [OF assms(1)] assms(2) by (auto simp: is_ok_def split: sum.splits)

subsection \<open>The store is a map of records\<close>

text \<open>
  The abstraction: the record each key holds.  A sound store holds only metadata files that read as
  well-formed records of a schema version that parses.
\<close>

definition record_ok :: "(string \<Rightarrow> string option) \<Rightarrow> metadata \<Rightarrow> bool" where
  "record_ok utc m \<longleftrightarrow> meta_ok utc m \<and> is_ok (parse_schema_version (m_schema_version m))"

definition stored ::
  "(string \<Rightarrow> string option) \<Rightarrow> (doc_line list \<Rightarrow> toml_table option) \<Rightarrow> fs_store \<Rightarrow> fs \<Rightarrow> safekey \<Rightarrow> metadata option" where
  "stored utc other_toml st fs key = (case map_of fs (meta_file st key) of
     None \<Rightarrow> None
   | Some c \<Rightarrow> (case read_content utc other_toml c of Inl _ \<Rightarrow> None | Inr m \<Rightarrow> Some m))"

definition store_ok ::
  "(string \<Rightarrow> string option) \<Rightarrow> (doc_line list \<Rightarrow> toml_table option) \<Rightarrow> fs_store \<Rightarrow> fs \<Rightarrow> bool" where
  "store_ok utc other_toml st fs \<longleftrightarrow> (\<forall>key c. map_of fs (meta_file st key) = Some c \<longrightarrow>
     (\<exists>m. read_content utc other_toml c = Inr m \<and> record_ok utc m))"

text \<open>The specification of a write on such a map.\<close>

definition put_record ::
  "(metadata \<Rightarrow> metadata \<Rightarrow> metadata) \<Rightarrow> safekey \<Rightarrow> metadata \<Rightarrow> (safekey \<Rightarrow> metadata option) \<Rightarrow> safekey \<Rightarrow> metadata option" where
  "put_record merge key m R = R(key \<mapsto> (case R key of None \<Rightarrow> m | Some e \<Rightarrow> merge e m))"

lemma merge_other_ok:
  assumes "other_ok a" and "other_ok b"
  shows "other_ok (merge_other a b)"
proof -
  let ?u = "a @ filter (\<lambda>(k, _). map_of a k = None) b"
  have "distinct (map fst ?u)"
    using assms by (auto simp: other_ok_def sorted_map_def distinct_map_filter map_of_eq_None_iff image_iff)
  then have "distinct (map fst (sort_key fst ?u))" by (rule distinct_sort_key)
  then show ?thesis
    using assms by (auto simp: merge_other_def other_ok_def sorted_map_def list_all_iff)
qed

lemma merge_opt_cases: "merge_opt a b = a \<or> merge_opt a b = b"
  by (simp add: merge_opt_def)

lemma merge_extension_keeps [simp]: "fetched_at (merge_extension user vk e d) = fetched_at d"
  by (simp add: merge_extension_def Let_def)

lemma merge_version_cases: "merge_version a b = a \<or> merge_version a b = b"
  by (auto simp: merge_version_def split: sum.split prod.split)

lemma merge_record_ok:
  assumes "record_ok utc e" and "record_ok utc m"
  shows "record_ok utc (merge_metadata un e m user)"
proof -
  let ?m = "merge_metadata un e m user"
  have "other_ok (other ?m)"
    using assms by (simp add: merge_metadata_def Let_def record_ok_def meta_ok_def merge_other_ok)
  moreover have "year ?m = year e \<or> year ?m = year m"
    using merge_opt_cases [of "year e" "year m"] by (simp add: merge_metadata_def Let_def)
  moreover have "case m_doiget ?m of None \<Rightarrow> True | Some d \<Rightarrow> extension_ok utc d"
    using assms
    by (auto simp: merge_metadata_def Let_def record_ok_def meta_ok_def extension_ok_def split: option.split)
  moreover have "is_ok (parse_schema_version (m_schema_version ?m))"
    using assms merge_version_cases [of "m_schema_version e" "m_schema_version m"]
    by (auto simp: merge_metadata_def Let_def record_ok_def)
  ultimately show ?thesis
    using assms by (auto simp: record_ok_def meta_ok_def)
qed

lemma stored_other: "map_of fs' (meta_file st key) = map_of fs (meta_file st key) \<Longrightarrow>
    stored utc other_toml st fs' key = stored utc other_toml st fs key"
  by (simp add: stored_def)

lemma stored_ok: "store_ok utc other_toml st fs \<Longrightarrow> stored utc other_toml st fs key = Some e \<Longrightarrow> record_ok utc e"
proof -
  assume ok: "store_ok utc other_toml st fs" and "stored utc other_toml st fs key = Some e"
  then obtain c where "map_of fs (meta_file st key) = Some c" "read_content utc other_toml c = Inr e"
    by (auto simp: stored_def split: option.splits sum.splits)
  with ok show ?thesis unfolding store_ok_def by fastforce
qed

lemma merged_record_stored:
  assumes "merged_record un utc other_toml env user (map_of fs (meta_file st key)) m = Inr merged"
  shows "merged = (case stored utc other_toml st fs key of None \<Rightarrow> m | Some e \<Rightarrow> merge_metadata un e m user)"
  using assms by (auto simp: merged_record_def stored_def split: option.splits sum.splits if_splits)

definition src_ok :: "fs_store \<Rightarrow> safekey \<Rightarrow> string option \<Rightarrow> bool" where
  "src_ok st key pdf \<longleftrightarrow> (case pdf of None \<Rightarrow> True | Some src \<Rightarrow> src \<noteq> lock_file st key)"

lemma write_refines:
  assumes w: "write_with_impl un utc other_toml st env key m pdf user fs = (fs', r)"
    and "src_ok st key pdf" and ok: "store_ok utc other_toml st fs" and m: "record_ok utc m"
  shows "store_ok utc other_toml st fs' \<and>
    stored utc other_toml st fs' = (if is_ok r
      then put_record (\<lambda>e m. merge_metadata un e m user) key m (stored utc other_toml st fs)
      else stored utc other_toml st fs)"
proof -
  note fx = write_effect [OF w assms(2) [unfolded src_ok_def]]
  have frame: "map_of fs' (meta_file st k) = map_of fs (meta_file st k)" if "k \<noteq> key" for k
    using fx other_meta_untouched [OF that] by blast
  show ?thesis
  proof (cases r)
    case (Inl e)
    with fx have "map_of fs' (meta_file st key) = map_of fs (meta_file st key)" by simp
    with frame have same: "map_of fs' (meta_file st k) = map_of fs (meta_file st k)" for k
      by (cases "k = key") auto
    then have "stored utc other_toml st fs' = stored utc other_toml st fs"
      by (intro ext stored_other)
    with Inl same ok show ?thesis by (simp add: store_ok_def)
  next
    case (Inr u)
    with fx obtain merged doc where
      mr: "merged_record un utc other_toml env user (map_of fs (meta_file st key)) m = Inr merged"
      and nt: "normalize_toml merged = Inr doc" and doc: "map_of fs' (meta_file st key) = Some (Doc doc)"
      by auto
    note merged = merged_record_stored [OF mr]
    have mok: "record_ok utc merged"
      unfolding merged using m stored_ok [OF ok] merge_record_ok by (auto split: option.split)
    then have "parse_metadata utc other_toml doc = Inr merged"
      using nt normalized_reads_back by (simp add: record_ok_def)
    then have read: "read_content utc other_toml (Doc doc) = Inr merged" by (simp add: read_content_def)
    have "store_ok utc other_toml st fs'"
      unfolding store_ok_def
    proof (intro allI impI)
      fix k c assume c: "map_of fs' (meta_file st k) = Some c"
      show "\<exists>m. read_content utc other_toml c = Inr m \<and> record_ok utc m"
        using c doc read mok frame [of k] ok by (cases "k = key") (auto simp: store_ok_def)
    qed
    moreover have "stored utc other_toml st fs' k
        = put_record (\<lambda>e m. merge_metadata un e m user) key m (stored utc other_toml st fs) k" for k
      using doc read merged stored_other [OF frame, of k] by (auto simp: put_record_def stored_def)
    ultimately show ?thesis using Inr by auto
  qed
qed

lemma path_parent_join: "CHR ''/'' \<notin> set s \<Longrightarrow> path_parent (d @ ''/'' @ s) = d"
proof -
  assume "CHR ''/'' \<notin> set s"
  then have "dropWhile (\<lambda>c. c \<noteq> CHR ''/'') (rev s @ CHR ''/'' # rev d) = CHR ''/'' # rev d"
    by (subst dropWhile_append2) auto
  then show ?thesis by (simp add: path_parent_def)
qed

lemma guarded_paths:
  assumes "guard_safekey (safekey_as_str key) = Inr ()"
  shows "metadata_path st key = Inr (meta_file st key)" "lock_path st key = Inr (lock_file st key)"
    "pdf_path_of st key = Inr (pdf_file st key)"
proof -
  from assms have "CHR ''/'' \<notin> set (safekey_as_str key)"
    by (auto simp: guard_safekey_def Let_def split: if_splits)
  then have "path_parent (metadata_dir st @ ''/'' @ (safekey_as_str key @ ''.toml'')) = metadata_dir st"
    by (intro path_parent_join) auto
  with assms show "metadata_path st key = Inr (meta_file st key)" "lock_path st key = Inr (lock_file st key)"
    "pdf_path_of st key = Inr (pdf_file st key)"
    by (simp_all add: metadata_path_def lock_path_def pdf_path_of_def)
qed

text \<open>A call that gets its lock at once and meets no failure.\<close>

definition calm :: io_env where
  "calm = \<lparr> attempts = (\<lambda>_. Acquired), oversleep = (\<lambda>_. 0), fails = None, torn = None \<rparr>"

lemma acquire_calm: "acquire_lock calm path n elapsed = Inr ()"
proof -
  have "attempts calm n = Acquired" by (simp add: calm_def)
  then show ?thesis by (simp add: acquire_lock.simps [of calm])
qed

lemma check_schema_version_parses: "is_ok (parse_schema_version v) \<Longrightarrow> check_schema_version v = Inr ()"
proof -
  have "is_ok (parse_schema_version SCHEMA_VERSION)" by code_simp
  then show "is_ok (parse_schema_version v) \<Longrightarrow> check_schema_version v = Inr ()"
    by (auto simp: check_schema_version_def is_ok_iff)
qed

lemma read_stored:
  assumes "guard_safekey (safekey_as_str key) = Inr ()" and "store_ok utc other_toml st fs"
  shows "snd (store_read utc other_toml st calm key fs) = Inr (stored utc other_toml st fs key)"
proof (cases "map_of fs (meta_file st key)")
  case None
  with assms(1) show ?thesis by (simp add: store_read_def guarded_paths stored_def)
next
  case (Some c)
  with assms(2) obtain m where m: "read_content utc other_toml c = Inr m" "record_ok utc m"
    by (auto simp: store_ok_def)
  have "fails calm = None" by (simp add: calm_def)
  with assms(1) Some m show ?thesis
    by (simp add: store_read_def guarded_paths stored_def open_or_create_lock_file_def acquire_calm
        record_ok_def check_schema_version_parses)
qed

text \<open>C5: The store refines a map from safekeys to records: on a sound store, a write of a well-formed record,
  whatever fails in it, leaves a sound store whose records are exactly the old ones with, on success
  only, the entry of its key replaced by the merge of old and new record; and every read of an
  admissible key then returns what the map holds.\<close>

theorem store_refines_record_map:
  assumes "write_with_impl un utc other_toml st env key m pdf user fs = (fs', r)"
    and "src_ok st key pdf" and "store_ok utc other_toml st fs" and "record_ok utc m"
    and "guard_safekey (safekey_as_str k) = Inr ()"
  shows "store_ok utc other_toml st fs'
    \<and> stored utc other_toml st fs' = (if is_ok r
      then put_record (\<lambda>e m. merge_metadata un e m user) key m (stored utc other_toml st fs)
      else stored utc other_toml st fs)
    \<and> snd (store_read utc other_toml st calm k fs') = Inr (stored utc other_toml st fs' k)"
  using write_refines [OF assms(1-4)] read_stored [OF assms(5)] by auto

definition demo_extension :: doiget_extension where
  "demo_extension = \<lparr> fetched_at = ''2026-01-01T00:00:00Z'', d_source = ''unpaywall'', d_license = ''cc-by'',
     oa_status = None, d_size_bytes = 5, mcp_call_id = None, tags = [''ml''], collections = [],
     annotation = None, repaired_fields = [], short_venue = None, origin = None \<rparr>"

definition demo_metadata :: metadata where
  "demo_metadata = \<lparr> m_schema_version = ''1.0'', title = ''T'', authors = [''A''], year = Some 2020,
     m_doi = None, m_arxiv_id = None, arxiv_categories = [], m_abstract = None, venue = None, volume = None,
     issue = None, pages = None, publisher = None, issn = None, isbn = None, m_type = None, m_keywords = [],
     m_url = None, pdf_path = Some ''x.pdf'', m_doiget = Some demo_extension, other = [] \<rparr>"

definition demo_store :: fs_store where
  "demo_store = \<lparr> fs_root = ''r'', metadata_dir = ''r/.metadata'' \<rparr>"

definition demo_fs :: fs where
  "demo_fs = [(''t'', Bytes ''%PDF-'')]"

definition demo_write :: "io_env \<Rightarrow> metadata \<Rightarrow> fs \<Rightarrow> fs \<times> (store_error + unit)" where
  "demo_write env m fs =
     write_with_impl ascii_unicode Some (\<lambda>_. None) demo_store env (Safekey ''x'') m (Some ''t'') Preserve fs"

lemma demo_write_ok: "is_ok (snd (demo_write calm demo_metadata demo_fs))"
  by code_simp

lemma demo_fs_ok: "store_ok Some (\<lambda>_. None) demo_store demo_fs"
  by (simp add: store_ok_def demo_fs_def demo_store_def)

lemma demo_metadata_ok: "record_ok Some demo_metadata"
  by code_simp

theorem store_refines_record_map_witness:
  "snd (store_read Some (\<lambda>_. None) demo_store calm (Safekey ''x'')
      (fst (demo_write calm demo_metadata demo_fs))) = Inr (Some demo_metadata)"
proof -
  obtain fs' r where w: "demo_write calm demo_metadata demo_fs = (fs', r)" by (metis surj_pair)
  have "is_ok r" using demo_write_ok w by simp
  moreover have "stored Some (\<lambda>_. None) demo_store demo_fs (Safekey ''x'') = None"
    by (simp add: stored_def demo_fs_def demo_store_def)
  moreover have "src_ok demo_store (Safekey ''x'') (Some ''t'')" by (simp add: src_ok_def demo_store_def)
  moreover have "guard_safekey (safekey_as_str (Safekey ''x'')) = Inr ()" by code_simp
  ultimately show ?thesis
    using store_refines_record_map [OF w [unfolded demo_write_def] _ demo_fs_ok demo_metadata_ok, of "Safekey ''x''"] w
    by (simp add: put_record_def)
qed

definition torn_pdf :: io_env where
  "torn_pdf = calm\<lparr>fails := Some WritePdf, torn := Some ''%P''\<rparr>"

theorem write_is_crash_consistent_witness:
  "map_of (fst (demo_write torn_pdf demo_metadata demo_fs)) ''r/.metadata/x.toml'' = None
   \<and> map_of (fst (demo_write torn_pdf demo_metadata demo_fs)) ''r/x.pdf'' \<in> {None, Some (Bytes ''%PDF-'')}"
proof -
  obtain fs' r where w: "demo_write torn_pdf demo_metadata demo_fs = (fs', r)" by (metis surj_pair)
  have "\<not> is_ok (snd (demo_write torn_pdf demo_metadata demo_fs))" by code_simp
  with w have "\<not> is_ok r" by simp
  then show ?thesis
    using write_is_crash_consistent [OF w [unfolded demo_write_def]] w
    by (auto simp: demo_fs_def demo_store_def)
qed

subsection \<open>Sequences of writes\<close>

text \<open>
  The contract of a record store towards its clients: a call either fails and changes no record, or puts
  the merge of the old and the new record under its key.  What a merge keeps of a record survives any
  sequence of calls.
\<close>

locale record_store =
  fixes key_of :: "'c \<Rightarrow> 'k" and record_of :: "'c \<Rightarrow> 'm" and good :: "'c \<Rightarrow> bool"
    and merge :: "'m \<Rightarrow> 'm \<Rightarrow> 'm" and run :: "'c \<Rightarrow> 's \<Rightarrow> 's \<times> bool"
    and sound :: "'s \<Rightarrow> bool" and look :: "'s \<Rightarrow> 'k \<Rightarrow> 'm option"
  assumes run_sound: "sound s \<Longrightarrow> good c \<Longrightarrow> sound (fst (run c s))"
    and run_look: "sound s \<Longrightarrow> good c \<Longrightarrow> look (fst (run c s)) k =
      (if snd (run c s) \<and> k = key_of c
       then Some (case look s k of None \<Rightarrow> record_of c | Some e \<Rightarrow> merge e (record_of c)) else look s k)"
begin

lemma runs_keep:
  assumes keeps: "\<And>e m. P e \<Longrightarrow> P (merge e m)"
  shows "sound s \<Longrightarrow> list_all good cs \<Longrightarrow> look s k = Some e \<Longrightarrow> P e \<Longrightarrow>
     \<exists>e'. look (fold (\<lambda>c s. fst (run c s)) cs s) k = Some e' \<and> P e'"
proof (induction cs arbitrary: s e)
  case (Cons c cs)
  have s: "sound (fst (run c s))" using Cons.prems by (simp add: run_sound)
  have "\<exists>e'. look (fst (run c s)) k = Some e' \<and> P e'"
    using Cons.prems keeps by (auto simp: run_look)
  with Cons.IH [OF s] Cons.prems(2) show ?case by auto
qed simp

lemma runs_frame:
  "sound s \<Longrightarrow> list_all good cs \<Longrightarrow> k \<notin> key_of ` set cs \<Longrightarrow>
     look (fold (\<lambda>c s. fst (run c s)) cs s) k = look s k"
  by (induction cs arbitrary: s) (auto simp: run_sound run_look)

end

record store_call =
  sc_env :: io_env
  sc_key :: safekey
  sc_record :: metadata
  sc_pdf :: "string option"

definition run_call ::
  "unicode \<Rightarrow> (string \<Rightarrow> string option) \<Rightarrow> (doc_line list \<Rightarrow> toml_table option) \<Rightarrow> fs_store \<Rightarrow> user_fields
     \<Rightarrow> store_call \<Rightarrow> fs \<Rightarrow> fs \<times> bool" where
  "run_call un utc other_toml st user c fs =
     apsnd is_ok (write_with_impl un utc other_toml st (sc_env c) (sc_key c) (sc_record c) (sc_pdf c) user fs)"

definition good_call :: "(string \<Rightarrow> string option) \<Rightarrow> fs_store \<Rightarrow> store_call \<Rightarrow> bool" where
  "good_call utc st c \<longleftrightarrow> record_ok utc (sc_record c) \<and> src_ok st (sc_key c) (sc_pdf c)"

interpretation calls: record_store sc_key sc_record "good_call utc st" "\<lambda>e m. merge_metadata un e m user"
  "run_call un utc other_toml st user" "store_ok utc other_toml st" "stored utc other_toml st"
proof
  fix fs c assume *: "store_ok utc other_toml st fs" "good_call utc st c"
  obtain fs' r where w: "write_with_impl un utc other_toml st (sc_env c) (sc_key c) (sc_record c) (sc_pdf c) user fs
      = (fs', r)" by (metis surj_pair)
  with * have fx: "store_ok utc other_toml st fs' \<and> stored utc other_toml st fs' = (if is_ok r
      then put_record (\<lambda>e m. merge_metadata un e m user) (sc_key c) (sc_record c) (stored utc other_toml st fs)
      else stored utc other_toml st fs)"
    by (intro write_refines) (auto simp: good_call_def)
  then show "store_ok utc other_toml st (fst (run_call un utc other_toml st user c fs))"
    by (simp add: run_call_def w)
  fix k
  show "stored utc other_toml st (fst (run_call un utc other_toml st user c fs)) k =
      (if snd (run_call un utc other_toml st user c fs) \<and> k = sc_key c
       then Some (case stored utc other_toml st fs k of None \<Rightarrow> sc_record c
              | Some e \<Rightarrow> merge_metadata un e (sc_record c) user)
       else stored utc other_toml st fs k)"
    using fx by (auto simp: run_call_def w put_record_def)
qed

text \<open>What a user wrote into a record: tags, collections, annotation.\<close>

definition user_part :: "metadata \<Rightarrow> (string list \<times> string list \<times> string option) option" where
  "user_part m = map_option (\<lambda>d. (tags d, collections d, annotation d)) (m_doiget m)"

lemma merge_keeps_user_part:
  "user_part e = Some x \<Longrightarrow> user_part (merge_metadata un e m Preserve) = Some x"
  by (auto simp: user_part_def merge_metadata_def merge_extension_def Let_def split: option.split)

text \<open>C23: User data survives fetching: the tags, collections and annotation of a stored entry are the same
  after any sequence of fetch writes, to that entry and to others, whichever of them fail and whatever
  they fail at.\<close>

theorem user_data_survives_fetches:
  assumes "store_ok utc other_toml st fs" and "list_all (good_call utc st) calls"
    and "stored utc other_toml st fs key = Some e" and "user_part e = Some x"
  shows "\<exists>e'. stored utc other_toml st (fold (\<lambda>c fs. fst (run_call un utc other_toml st Preserve c fs)) calls fs) key
      = Some e' \<and> user_part e' = Some x"
  using calls.runs_keep [where P = "\<lambda>e. user_part e = Some x" and user = Preserve, OF merge_keeps_user_part] assms
  by blast

definition fetched_again :: store_call where
  "fetched_again = \<lparr> sc_env = calm, sc_key = Safekey ''x'',
     sc_record = demo_metadata\<lparr>m_doiget := Some (demo_extension\<lparr>tags := []\<rparr>)\<rparr>, sc_pdf = Some ''t'' \<rparr>"

definition demo_fs_written :: fs where
  "demo_fs_written = fst (demo_write calm demo_metadata demo_fs)"

lemma demo_fs_written_stored: "stored Some (\<lambda>_. None) demo_store demo_fs_written (Safekey ''x'') = Some demo_metadata"
  by code_simp

lemma demo_fs_written_ok: "store_ok Some (\<lambda>_. None) demo_store demo_fs_written"
proof -
  obtain fs' r where w: "demo_write calm demo_metadata demo_fs = (fs', r)" by (metis surj_pair)
  have "src_ok demo_store (Safekey ''x'') (Some ''t'')" by (simp add: src_ok_def demo_store_def)
  from write_refines [OF w [unfolded demo_write_def] this demo_fs_ok demo_metadata_ok] w
  show ?thesis by (simp add: demo_fs_written_def)
qed

theorem user_data_survives_fetches_witness:
  "\<exists>e'. stored Some (\<lambda>_. None) demo_store
      (fold (\<lambda>c fs. fst (run_call ascii_unicode Some (\<lambda>_. None) demo_store Preserve c fs))
         [fetched_again, fetched_again] demo_fs_written) (Safekey ''x'')
    = Some e' \<and> user_part e' = Some ([''ml''], [], None)"
proof (rule user_data_survives_fetches [OF demo_fs_written_ok _ demo_fs_written_stored])
  have "record_ok Some (sc_record fetched_again)" by code_simp
  then show "list_all (good_call Some demo_store) [fetched_again, fetched_again]"
    by (simp add: good_call_def src_ok_def fetched_again_def demo_store_def)
  show "user_part demo_metadata = Some ([''ml''], [], None)" by code_simp
qed

text \<open>An entry of a newer schema is read-only: if the stored record's schema version is above 1.0, every
  write to it is refused and changes no file but possibly the lock file, while reads still return the
  record.\<close>

theorem newer_schema_is_read_only:
  assumes "map_of fs (meta_file st key) = Some c" and "read_content utc other_toml c = Inr e"
    and "parse_schema_version (m_schema_version e) = Inr (a, b)" and "1 < a \<or> (a = 1 \<and> 0 < b)"
    and "guard_safekey (safekey_as_str key) = Inr ()"
    and "write_with_impl un utc other_toml st env key m pdf user fs = (fs', r)"
  shows "\<not> is_ok r \<and> (\<forall>p. p = lock_file st key \<or> map_of fs' p = map_of fs p)
    \<and> (env = calm \<longrightarrow> r = Inl (store_error.SchemaTooNew (m_schema_version e) SCHEMA_VERSION))
    \<and> snd (store_read utc other_toml st calm key fs) = Inr (Some e)"
proof -
  have "parse_schema_version SCHEMA_VERSION = Inr (1, 0)" by code_simp
  then have new: "check_schema_version_for_write (m_schema_version e)
      = Inl (store_error.SchemaTooNew (m_schema_version e) SCHEMA_VERSION)"
    using assms(3,4) by (auto simp: check_schema_version_for_write_def)
  have none: "merged_record un utc other_toml env user (map_of fs (meta_file st key)) m \<noteq> Inr merged" for merged
    using assms(1,2) new by (simp add: merged_record_def)
  have "fails calm = None" by (simp add: calm_def)
  then have "snd (store_read utc other_toml st calm key fs) = Inr (Some e)"
    using assms(1,2,3,5) check_schema_version_parses [of "m_schema_version e"]
    by (simp add: store_read_def guarded_paths open_or_create_lock_file_def acquire_calm)
  moreover have "r = Inl (store_error.SchemaTooNew (m_schema_version e) SCHEMA_VERSION)" if "env = calm"
    using assms(1,2,5,6) new that \<open>fails calm = None\<close> locked_fs_other [of "meta_file st key" st key fs]
    by (auto simp: write_with_impl_def guarded_paths open_or_create_lock_file_def acquire_calm merged_record_def
        map_of_update split: if_splits)
  moreover from assms(6) have "\<not> is_ok r \<and> (\<forall>p. p = lock_file st key \<or> map_of fs' p = map_of fs p)"
  proof (cases rule: write_with_impl_cases)
    case (stopped e)
    then show ?thesis using locked_fs_other by auto
  qed (use none in blast)+
  ultimately show ?thesis by blast
qed

definition newer_fs :: fs where
  "newer_fs = [(''r/.metadata/x.toml'', Doc [KeyLine ''schema_version'' (TString ''1.3''),
     KeyLine ''title'' (TString ''T''), KeyLine ''authors'' (TArray [])])]"

definition newer_record :: metadata where
  "newer_record = demo_metadata\<lparr>m_schema_version := ''1.3'', authors := [], year := None, pdf_path := None,
     m_doiget := None\<rparr>"

theorem newer_schema_is_read_only_witness:
  "snd (demo_write calm demo_metadata newer_fs) = Inl (store_error.SchemaTooNew ''1.3'' ''1.0'')"
proof -
  obtain fs' r where w: "demo_write calm demo_metadata newer_fs = (fs', r)" by (metis surj_pair)
  let ?c = "snd (hd newer_fs)"
  have "map_of newer_fs (meta_file demo_store (Safekey ''x'')) = Some ?c"
    "read_content Some (\<lambda>_. None) ?c = Inr newer_record"
    "parse_schema_version (m_schema_version newer_record) = Inr (1, 3)"
    "guard_safekey (safekey_as_str (Safekey ''x'')) = Inr ()"
    by code_simp+
  from newer_schema_is_read_only [OF this(1-3) _ this(4) w [unfolded demo_write_def]] w
  show ?thesis by (simp add: newer_record_def SCHEMA_VERSION_def)
qed

subsection \<open>Where the store departs from its documentation\<close>

text \<open>
  The guard is exact on the keys of parsed references: it refuses those with two consecutive dots and
  no other.  Such references are valid, so their entries cannot be stored at all.
\<close>

lemma guard_of_parsed_refs:
  assumes "hash_format sha hx" and "ref_parse s = Inr r"
  shows "guard_safekey (safekey_as_str (ref_safekey sha hx r))
    = (if contains_str (safekey_as_str (ref_safekey sha hx r)) ''..''
       then Inl (PathTraversal (safekey_as_str (ref_safekey sha hx r))) else Inr ())"
proof -
  let ?k = "safekey_as_str (ref_safekey sha hx r)"
  have chars: "list_all is_safekey_char ?k" by (rule safekey_chars [OF assms(1)])
  obtain y where y: "?k = kind_prefix r @ y" using safekey_prefix [OF ref_parse_wf [OF assms(2)]] by blast
  then have "?k \<noteq> []" "hd ?k \<noteq> CHR ''.''" by (cases r; simp add: kind_prefix_def)+
  moreover have "CHR ''/'' \<notin> set ?k" "CHR 0x5C \<notin> set ?k" "CHR 0x00 \<notin> set ?k"
    using chars by (auto simp: list_all_iff is_safekey_char_def ascii_class_defs)
  moreover have "list_all (\<lambda>c. is_ascii_alphanumeric c \<or> c \<in> set ''.-_'') ?k"
    using chars by (auto simp: list_all_iff is_safekey_char_def)
  ultimately show ?thesis by (simp add: guard_safekey_def Let_def)
qed

theorem dotted_doi_cannot_be_stored:
  "ref_parse ''10.1234/a..b'' = Inr (RefDoi (Doi ''10.1234/a..b''))
   \<and> guard_safekey (safekey_as_str (ref_safekey sha hx (RefDoi (Doi ''10.1234/a..b''))))
     = Inl (PathTraversal ''doi_10.1234_a..b'')"
proof -
  have t: "safekey_trimmed (safekey_raw (RefDoi (Doi ''10.1234/a..b''))) = ''doi_10.1234_a..b''" by code_simp
  have "safekey_as_str (ref_safekey sha hx (RefDoi (Doi ''10.1234/a..b''))) = ''doi_10.1234_a..b''"
    unfolding ref_safekey_def Let_def t by (simp add: SAFEKEY_MAX_LEN_def)
  moreover have "guard_safekey ''doi_10.1234_a..b'' = Inl (PathTraversal ''doi_10.1234_a..b'')" by code_simp
  moreover have "ref_parse ''10.1234/a..b'' = Inr (RefDoi (Doi ''10.1234/a..b''))" by code_simp
  ultimately show ?thesis by simp
qed

text \<open>A search with limit zero still returns the first hit: the limit is tested after the push.\<close>

theorem search_ignores_limit_zero:
  assumes "metadata_files st fs = (p, c) # files" and "read_content utc other_toml c = Inr md"
    and "text_matches lower (lower q) md"
  shows "store_search utc other_toml lower st q 0 fs = Inr [entry_info_of p md]"
  using assms by (simp add: store_search_def)

text \<open>Otherwise at most \<open>limit\<close> entries are returned.\<close>

lemma scan_limit:
  "scan utc other_toml wanted (Some n) files hits = Inr es \<Longrightarrow> length hits < n \<Longrightarrow> length es \<le> n"
  by (induction utc other_toml wanted "Some n" files hits rule: scan.induct)
    (auto simp: Let_def split: sum.splits store_error.splits if_splits)

lemma search_limit: "store_search utc other_toml lower st q n fs = Inr es \<Longrightarrow> 0 < n \<Longrightarrow> length es \<le> n"
  using scan_limit [of utc other_toml _ n _ "[]"] by (auto simp: store_search_def)

lemma list_recent_limit: "list_recent utc other_toml instant st n fs = Inr es \<Longrightarrow> length es \<le> n"
  by (auto simp: list_recent_def)

end
