(* ===== verification/Fetch_Context.thy ===== *)
theory Fetch_Context
  imports Store Http Provenance Capability Json
begin

text \<open>
  The per-fetch context (\<^verbatim>\<open>FetchContext\<close> and the \<^verbatim>\<open>Source\<close> trait, \<^verbatim>\<open>crates/doiget-core/src/source.rs\<close>)
  and the operations every fetcher is built from: rate limiting, HTTP requests, log rows.

  A \<open>world\<close> is what a fetch reads and changes: the log directory and its writer, the store's files, and
  the trace of effects performed so far.  What the outside answers may depend on that whole trace: the
  servers (\<open>send\<close>), the clock readings and the input/output failures of the log.  A \<open>fetch_env\<close> holds these
  and the functions of the crates \<^verbatim>\<open>url\<close>, \<^verbatim>\<open>reqwest\<close> and \<^verbatim>\<open>serde_json\<close> (which the modelled code only calls).
  The delays of the rate limiter are the subject of \<open>Rate_Limiter\<close>; here an acquisition is an effect.
  A Rust panic is a result of its own.
\<close>

subsection \<open>Results and the world\<close>

datatype 'a res = Ok 'a | Err fetch_error | Panic

datatype effect =
    Acquire string
  | Pace string
  | Request string url "(string \<times> string) list" bool
  | Append row_input bool

record world =
  effects :: "effect list"
  w_logs :: log_dir
  w_log :: prov_log
  w_files :: fs

type_synonym headers = "(string \<times> string) list"

record fetch_env =
  url_parse :: "string \<Rightarrow> url option"
  url_join :: "url \<Rightarrow> string \<Rightarrow> url option"
  url_push :: "url \<Rightarrow> string list \<Rightarrow> url option"
  url_set_path :: "url \<Rightarrow> string list \<Rightarrow> url option"
  url_path :: "url \<Rightarrow> string"
  render :: "url \<Rightarrow> string"
  set_scheme :: "url \<Rightarrow> string \<Rightarrow> url option"
  name_ok :: "string \<Rightarrow> bool"
  value_ok :: "string \<Rightarrow> bool"
  nanos :: "nat \<Rightarrow> nat option"
  send :: "effect list \<Rightarrow> source_allowlist \<Rightarrow> url \<Rightarrow> headers \<Rightarrow> nat \<Rightarrow> reqwest_error + http_response"
  client :: http_client
  cj :: canon
  sha :: "string \<Rightarrow> string"
  hx :: "string \<Rightarrow> string"
  line_bytes :: "log_line \<Rightarrow> nat"
  clock :: "effect list \<Rightarrow> readings"
  log_fault :: "effect list \<Rightarrow> io_fault"
  vars :: "string \<Rightarrow> string option"
  from_json :: "string \<Rightarrow> json option"

type_synonym 'a act = "world \<Rightarrow> world \<times> 'a res"

subsection \<open>Sequencing\<close>

text \<open>\<^verbatim>\<open>?\<close> is \<open>and_then\<close>; a \<^verbatim>\<open>match\<close> on a \<^verbatim>\<open>Result\<close> is \<open>catch\<close>.  A panic passes through both.\<close>

definition return_ok :: "'a \<Rightarrow> 'a act" where
  "return_ok a w = (w, Ok a)"

definition throw :: "fetch_error \<Rightarrow> 'a act" where
  "throw e w = (w, Err e)"

definition and_then :: "'a act \<Rightarrow> ('a \<Rightarrow> 'b act) \<Rightarrow> 'b act" where
  "and_then m f w = (case m w of
     (w, Ok a) \<Rightarrow> f a w
   | (w, Err e) \<Rightarrow> (w, Err e)
   | (w, Panic) \<Rightarrow> (w, Panic))"

definition catch :: "'a act \<Rightarrow> (fetch_error + 'a \<Rightarrow> 'b act) \<Rightarrow> 'b act" where
  "catch m f w = (case m w of
     (w, Ok a) \<Rightarrow> f (Inr a) w
   | (w, Err e) \<Rightarrow> f (Inl e) w
   | (w, Panic) \<Rightarrow> (w, Panic))"

definition lift :: "'a res \<Rightarrow> 'a act" where
  "lift r w = (w, r)"

definition ok_or :: "fetch_error \<Rightarrow> 'a option \<Rightarrow> 'a act" where
  "ok_or e v = (case v of None \<Rightarrow> throw e | Some a \<Rightarrow> return_ok a)"

subsection \<open>The shared services\<close>

definition acquire :: "string \<Rightarrow> unit act" where
  "acquire name w = (w\<lparr>effects := effects w @ [Acquire name]\<rparr>, Ok ())"

definition pace :: "string \<Rightarrow> unit act" where
  "pace name w = (w\<lparr>effects := effects w @ [Pace name]\<rparr>, Ok ())"

text \<open>\<^verbatim>\<open>fetch_bytes\<close> and \<^verbatim>\<open>fetch_pdf\<close>, with and without headers, are one call of \<^verbatim>\<open>fetch_inner\<close> each.\<close>

definition http_get ::
  "fetch_env \<Rightarrow> bool \<Rightarrow> string \<Rightarrow> url \<Rightarrow> headers \<Rightarrow> world \<Rightarrow> world \<times> (http_error + string \<times> url)" where
  "http_get env pdf name u hs w =
     (let w = w\<lparr>effects := effects w @ [Request name u hs pdf]\<rparr> in
      (w, snd (fetch_inner (set_scheme env) (name_ok env) (value_ok env) (render env) (nanos env)
                 (send env (effects w)) (client env) name u hs pdf)))"

definition fetch_bytes_with_headers :: "fetch_env \<Rightarrow> string \<Rightarrow> url \<Rightarrow> headers \<Rightarrow> (string \<times> url) act" where
  "fetch_bytes_with_headers env name u hs w = (case http_get env False name u hs w of
     (w, Inl e) \<Rightarrow> (w, Err (FEHttp e)) | (w, Inr r) \<Rightarrow> (w, Ok r))"

definition fetch_bytes :: "fetch_env \<Rightarrow> string \<Rightarrow> url \<Rightarrow> (string \<times> url) act" where
  "fetch_bytes env name u = fetch_bytes_with_headers env name u []"

definition fetch_pdf_with_headers :: "fetch_env \<Rightarrow> string \<Rightarrow> url \<Rightarrow> headers \<Rightarrow> (string \<times> url) act" where
  "fetch_pdf_with_headers env name u hs w = (case http_get env True name u hs w of
     (w, Inl e) \<Rightarrow> (w, Err (FEHttp e)) | (w, Inr r) \<Rightarrow> (w, Ok r))"

definition fetch_pdf :: "fetch_env \<Rightarrow> string \<Rightarrow> url \<Rightarrow> (string \<times> url) act" where
  "fetch_pdf env name u = fetch_pdf_with_headers env name u []"

definition log_append :: "fetch_env \<Rightarrow> row_input \<Rightarrow> world \<Rightarrow> world \<times> (log_error + nat)" where
  "log_append env i w =
     (case append_row (cj env) (sha env) (hx env) (line_bytes env) (clock env (effects w))
             (log_fault env (effects w)) i (w_logs w, w_log w) of
        ((dir, p), r) \<Rightarrow> (w\<lparr>effects := effects w @ [Append i (is_ok r)], w_logs := dir, w_log := p\<rparr>, r))"

definition log_row_act :: "fetch_env \<Rightarrow> row_input \<Rightarrow> unit act" where
  "log_row_act env i w = (case log_append env i w of
     (w, Inl e) \<Rightarrow> (w, Err (FELog e)) | (w, Inr _) \<Rightarrow> (w, Ok ()))"

text \<open>\<^verbatim>\<open>let _ = ctx.log.append(..)\<close>, and the variants that only warn.\<close>

definition log_row_best_effort :: "fetch_env \<Rightarrow> row_input \<Rightarrow> unit act" where
  "log_row_best_effort env i w = (fst (log_append env i w), Ok ())"

subsection \<open>Sources\<close>

record fetch_result =
  fr_source :: string
  fr_license :: string
  fr_pdf_bytes :: "string option"
  fr_final_url :: "url option"
  fr_metadata_json :: "json option"

text \<open>A \<^verbatim>\<open>dyn Source\<close>.\<close>

record source_impl =
  src_name :: string
  can_serve :: "capability_profile \<Rightarrow> paper_ref \<Rightarrow> bool"
  src_fetch :: "paper_ref \<Rightarrow> capability_profile \<Rightarrow> fetch_result act"
  src_fetch_content :: "paper_ref \<Rightarrow> capability_profile \<Rightarrow> string option act"

text \<open>The trait's default: this source is metadata-only.\<close>

definition default_fetch_content :: "paper_ref \<Rightarrow> capability_profile \<Rightarrow> string option act" where
  "default_fetch_content r profile = return_ok None"

definition fetch_row :: "fetch_env \<Rightarrow> string \<Rightarrow> log_capability \<Rightarrow> paper_ref \<Rightarrow> nat \<Rightarrow> string option \<Rightarrow> row_input" where
  "fetch_row env name cp r sz lic =
     \<lparr> i_event = Fetch, i_result = LogOk, i_capability = cp, i_ref = Some (as_input_str r),
       i_source = Some name, i_error_code = None, i_size_bytes = Some sz, i_license = lic,
       i_store_path = None, i_canonical_digest = Some (digest_hex (sha env) (hx env) (promote r name None)) \<rparr>"

subsection \<open>URLs\<close>

text \<open>\<^verbatim>\<open>query_pairs_mut().append_pair(..)\<close>.\<close>

definition append_pairs :: "(string \<times> string) list \<Rightarrow> url \<Rightarrow> url" where
  "append_pairs ps u = u\<lparr>query_pairs := query_pairs u @ ps\<rparr>"

definition hex_upper_digit :: "nat \<Rightarrow> char" where
  "hex_upper_digit n = (if n < 10 then char_of (48 + n) else char_of (55 + n))"

definition percent_encode :: "string \<Rightarrow> string \<Rightarrow> string" where
  "percent_encode keep s = concat (map (\<lambda>b.
     if is_ascii_alphanumeric b \<or> b \<in> set keep then [b]
     else [CHR ''%'', hex_upper_digit (code b div 16), hex_upper_digit (code b mod 16)]) s)"

subsection \<open>Error hints\<close>

text \<open>\<^verbatim>\<open>String::from_utf8_lossy\<close>: every maximal ill-formed part becomes U+FFFD.\<close>

definition FFFD :: "nat list" where
  "FFFD = [0xEF, 0xBF, 0xBD]"

definition cont :: "nat \<Rightarrow> bool" where
  "cont b \<longleftrightarrow> 0x80 \<le> b \<and> b \<le> 0xBF"

definition second_ok :: "nat \<Rightarrow> nat \<Rightarrow> bool" where
  "second_ok a b \<longleftrightarrow>
     (if a = 0xE0 then 0xA0 \<le> b \<and> b \<le> 0xBF else if a = 0xED then 0x80 \<le> b \<and> b \<le> 0x9F
      else if a = 0xF0 then 0x90 \<le> b \<and> b \<le> 0xBF else if a = 0xF4 then 0x80 \<le> b \<and> b \<le> 0x8F
      else cont b)"

text \<open>How many bytes the first character or maximal ill-formed part takes, and whether it is well-formed.\<close>

definition first_part :: "nat list \<Rightarrow> nat \<times> bool" where
  "first_part s = (case s of
     [] \<Rightarrow> (0, True)
   | a # s2 \<Rightarrow>
       let n = (if a < 0x80 then 1 else if 0xC2 \<le> a \<and> a \<le> 0xDF then 2
                else if 0xE0 \<le> a \<and> a \<le> 0xEF then 3 else if 0xF0 \<le> a \<and> a \<le> 0xF4 then 4 else 0);
           good = (if s2 = [] \<or> \<not> second_ok a (hd s2) then 1
                   else 2 + length (takeWhile cont (take (n - 2) (tl s2)))) in
       if n \<le> 1 then (1, n = 1) else if n \<le> good then (n, True) else (good, False))"

lemma first_part_pos: "s \<noteq> [] \<Longrightarrow> 0 < fst (first_part s)"
  by (cases s) (auto simp: first_part_def Let_def)

function utf8_lossy_bytes :: "nat list \<Rightarrow> nat list" where
  "utf8_lossy_bytes s =
     (if s = [] then []
      else case first_part s of (n, ok) \<Rightarrow> (if ok then take n s else FFFD) @ utf8_lossy_bytes (drop n s))"
  by pat_completeness auto
termination
  by (relation "measure length") (auto, metis first_part_pos fst_conv length_greater_0_conv diff_less)

declare utf8_lossy_bytes.simps [simp del]

definition from_utf8_lossy :: "string \<Rightarrow> string" where
  "from_utf8_lossy s = map char_of (utf8_lossy_bytes (map code s))"

text \<open>\<open>None\<close> is the panic of slicing a \<^verbatim>\<open>str\<close> inside a character.\<close>

definition truncate_for_hint :: "string \<Rightarrow> string option" where
  "truncate_for_hint body =
     (let s = from_utf8_lossy body in
      if length s \<le> 200 then Some s
      else if is_char_boundary s 200 then Some (take 200 s @ map char_of [0xE2, 0x80, 0xA6 :: nat]) else None)"

definition schema_error_quoting :: "string \<Rightarrow> string \<Rightarrow> 'a res" where
  "schema_error_quoting hint body = (case truncate_for_hint body of
     None \<Rightarrow> Panic
   | Some t \<Rightarrow> Err (SourceSchema (hint @ '' (got: '' @ t @ '')'')))"

subsection \<open>What an operation adds to the trace\<close>

text \<open>The relation every operation of this layer satisfies: the store is untouched, and the trace only
  grows, by effects of a given kind.\<close>

definition adds :: "(effect \<Rightarrow> bool) \<Rightarrow> world \<Rightarrow> world \<Rightarrow> bool" where
  "adds P w w' \<longleftrightarrow> w_files w' = w_files w \<and> (\<exists>es. effects w' = effects w @ es \<and> list_all P es)"

definition performs :: "(effect \<Rightarrow> bool) \<Rightarrow> 'a act \<Rightarrow> bool" where
  "performs P m \<longleftrightarrow> (\<forall>w. adds P w (fst (m w)))"

named_theorems performs_intros

lemma adds_refl [simp]: "adds P w w"
  by (simp add: adds_def)

lemma adds_trans: "adds P u v \<Longrightarrow> adds P v w \<Longrightarrow> adds P u w"
  by (auto simp: adds_def)

lemma adds_mono: "adds P w w' \<Longrightarrow> (\<And>e. P e \<Longrightarrow> Q e) \<Longrightarrow> adds Q w w'"
  unfolding adds_def by (meson list.pred_mono_strong)

lemma performs_mono: "performs P m \<Longrightarrow> (\<And>e. P e \<Longrightarrow> Q e) \<Longrightarrow> performs Q m"
  unfolding performs_def by (blast intro: adds_mono)

lemma performsD: "performs P m \<Longrightarrow> m w = (w', r) \<Longrightarrow> adds P w w'"
  unfolding performs_def by (metis fst_conv)

lemma performs_pure [performs_intros, simp]:
  "performs P (return_ok a)" "performs P (throw e)" "performs P (lift r)" "performs P (ok_or e v)"
  by (auto simp: performs_def return_ok_def throw_def lift_def ok_or_def split: option.split)

lemma performs_and_then [performs_intros]:
  assumes "performs P m" and "\<And>a. performs P (f a)"
  shows "performs P (and_then m f)"
proof -
  have "adds P w (fst (and_then m f w))" for w
  proof (cases "m w")
    case (Pair v r)
    with assms(1) have "adds P w v" by (rule performsD)
    with Pair assms(2) show ?thesis
      by (cases r) (auto simp: and_then_def performs_def intro: adds_trans)
  qed
  then show ?thesis by (simp add: performs_def)
qed

lemma performs_catch [performs_intros]:
  assumes "performs P m" and "\<And>a. performs P (f a)"
  shows "performs P (catch m f)"
proof -
  have "adds P w (fst (catch m f w))" for w
  proof (cases "m w")
    case (Pair v r)
    with assms(1) have "adds P w v" by (rule performsD)
    with Pair assms(2) show ?thesis
      by (cases r) (auto simp: catch_def performs_def intro: adds_trans)
  qed
  then show ?thesis by (simp add: performs_def)
qed

lemma performs_splits [performs_intros]:
  "(\<And>a b. performs P (f a b)) \<Longrightarrow> performs P (case x of (a, b) \<Rightarrow> f a b)"
  "performs P m \<Longrightarrow> performs P m' \<Longrightarrow> performs P (if b then m else m')"
  "performs P n \<Longrightarrow> (\<And>a. performs P (s a)) \<Longrightarrow> performs P (case o' of None \<Rightarrow> n | Some a \<Rightarrow> s a)"
  "(\<And>e. performs P (l e)) \<Longrightarrow> (\<And>a. performs P (g a)) \<Longrightarrow> performs P (case sm of Inl e \<Rightarrow> l e | Inr a \<Rightarrow> g a)"
  by (simp_all split: prod.split option.split sum.split)

lemma performs_acquire [performs_intros]: "P (Acquire n) \<Longrightarrow> performs P (acquire n)"
  by (auto simp: performs_def acquire_def adds_def)

lemma performs_pace [performs_intros]: "P (Pace n) \<Longrightarrow> performs P (pace n)"
  by (auto simp: performs_def pace_def adds_def)

lemma adds_http_get: "P (Request n u hs pdf) \<Longrightarrow> http_get env pdf n u hs w = (w', r) \<Longrightarrow> adds P w w'"
  by (auto simp: http_get_def Let_def adds_def)

lemma performs_get [performs_intros]:
  "P (Request n u hs False) \<Longrightarrow> performs P (fetch_bytes_with_headers env n u hs)"
  "P (Request n u hs True) \<Longrightarrow> performs P (fetch_pdf_with_headers env n u hs)"
  by (auto simp: performs_def fetch_bytes_with_headers_def fetch_pdf_with_headers_def
      split: prod.split sum.split intro: adds_http_get)

lemma performs_get_plain [performs_intros]:
  "P (Request n u [] False) \<Longrightarrow> performs P (fetch_bytes env n u)"
  "P (Request n u [] True) \<Longrightarrow> performs P (fetch_pdf env n u)"
  by (simp_all add: fetch_bytes_def fetch_pdf_def performs_get)

lemma log_append_effects:
  "log_append env i w = (w', r) \<Longrightarrow> effects w' = effects w @ [Append i (is_ok r)] \<and> w_files w' = w_files w"
  by (auto simp: log_append_def split: prod.splits)

lemma performs_log [performs_intros]:
  "(\<And>b. P (Append i b)) \<Longrightarrow> performs P (log_row_act env i)"
  "(\<And>b. P (Append i b)) \<Longrightarrow> performs P (log_row_best_effort env i)"
proof -
  assume P: "\<And>b. P (Append i b)"
  have "adds P w (fst (log_append env i w))" for w
    using log_append_effects [of env i w] P by (cases "log_append env i w") (auto simp: adds_def)
  then show "performs P (log_row_act env i)" "performs P (log_row_best_effort env i)"
    by (auto simp: performs_def log_row_act_def log_row_best_effort_def split: prod.split sum.split)
      (metis fst_conv)+
qed

text \<open>Computing with the sequencing operators.\<close>

lemma and_then_simps [simp]:
  "m w = (w', Ok a) \<Longrightarrow> and_then m f w = f a w'"
  "m w = (w', Err e) \<Longrightarrow> and_then m f w = (w', Err e)"
  "m w = (w', Panic) \<Longrightarrow> and_then m f w = (w', Panic)"
  by (simp_all add: and_then_def)

lemma and_then_Ok:
  "and_then m f w = (w', Ok b) \<longleftrightarrow> (\<exists>v a. m w = (v, Ok a) \<and> f a v = (w', Ok b))"
  by (auto simp: and_then_def split: prod.split res.split)

lemma and_then_throw [simp]: "and_then (throw e) f = throw e"
  by (rule ext) (simp add: and_then_def throw_def)

lemma and_then_return [simp]: "and_then (return_ok a) f = f a"
  by (rule ext) (simp add: and_then_def return_ok_def)

lemma ok_or_simps [simp]: "ok_or e None = throw e" "ok_or e (Some a) = return_ok a"
  by (simp_all add: ok_or_def)

lemma ok_or_Ok: "ok_or e v w = (w', Ok a) \<longleftrightarrow> w' = w \<and> v = Some a"
  by (auto simp: ok_or_def throw_def return_ok_def split: option.split)

lemma lift_Ok: "lift r w = (w', Ok a) \<longleftrightarrow> w' = w \<and> r = Ok a"
  by (auto simp: lift_def)

lemma return_ok_Ok: "return_ok b w = (w', Ok a) \<longleftrightarrow> w' = w \<and> a = b"
  by (auto simp: return_ok_def)

lemma log_row_act_Ok:
  "log_row_act env i w = (w', Ok u) \<Longrightarrow> effects w' = effects w @ [Append i True]"
  by (auto simp: log_row_act_def split: prod.splits sum.splits dest: log_append_effects)

lemmas act_Ok_simps = and_then_Ok ok_or_Ok lift_Ok return_ok_Ok

end
