(* ===== verification/Sources.thy ===== *)
theory Sources
  imports Fetch_Context
begin

text \<open>
  The fetchers behind the \<^verbatim>\<open>Source\<close> trait (\<^verbatim>\<open>crates/doiget-core/src/sources/\<close>), except arXiv, which has
  its own theory: Crossref and Unpaywall (tier 1), the metadata sources (tier 2) and the text-mining
  sources (tier 3).  Each is the code's sequence of gate, rate limiter, request, decoding, log row and
  result; what differs is the URL, the headers and the decoding.

  Bodies are decoded through \<^verbatim>\<open>serde_json\<close>'s value (\<open>from_json\<close>).  For the two answers the code reads into
  a struct this leaves out JSON objects that repeat a key and arrays standing for structs.
\<close>

subsection \<open>The shared sequence\<close>

definition metadata_attempt ::
  "fetch_env \<Rightarrow> string \<Rightarrow> log_capability \<Rightarrow> paper_ref \<Rightarrow> url option \<Rightarrow> headers \<Rightarrow> (url \<Rightarrow> url)
     \<Rightarrow> (string \<Rightarrow> json \<Rightarrow> (json \<times> string option) res) \<Rightarrow> fetch_result act" where
  "metadata_attempt env name cp r u hs redact decode =
     and_then (acquire name) (\<lambda>_.
     and_then (ok_or (SourceSchema ''URL construction failed'') u) (\<lambda>u.
     and_then (fetch_bytes_with_headers env name u hs) (\<lambda>(body, final).
     and_then (ok_or (SourceSchema ''non-JSON'') (from_json env body)) (\<lambda>envelope.
     and_then (lift (decode body envelope)) (\<lambda>(rec, lic).
     and_then (log_row_act env (fetch_row env name cp r (length body) lic)) (\<lambda>_.
     return_ok \<lparr> fr_source = name, fr_license = or_str lic ''unknown'', fr_pdf_bytes = None,
                 fr_final_url = Some (redact final), fr_metadata_json = Some rec \<rparr>))))))"

text \<open>The eligibility check in front of it.\<close>

definition doi_fetch ::
  "string \<Rightarrow> (capability_profile \<Rightarrow> bool) \<Rightarrow> (doi \<Rightarrow> capability_profile \<Rightarrow> fetch_result act)
     \<Rightarrow> paper_ref \<Rightarrow> capability_profile \<Rightarrow> fetch_result act" where
  "doi_fetch name gate k r profile = (case r of
     RefArxiv _ \<Rightarrow> throw (NotEligible name)
   | RefDoi doi \<Rightarrow> if \<not> gate profile then throw (NotEligible name) else k doi profile)"

definition is_doi :: "paper_ref \<Rightarrow> bool" where
  "is_doi r = (case r of RefDoi _ \<Rightarrow> True | RefArxiv _ \<Rightarrow> False)"

subsection \<open>Tier 1: Crossref and Unpaywall\<close>

definition crossref_decode :: "string \<Rightarrow> json \<Rightarrow> (json \<times> string option) res" where
  "crossref_decode body envelope = (case (jstr envelope [''status''], jget envelope ''message'') of
     (Some st, Some m) \<Rightarrow> if st \<noteq> ''ok'' then Err (SourceSchema (''crossref status = '' @ st)) else Ok (m, None)
   | _ \<Rightarrow> Err (SourceSchema ''crossref returned non-JSON''))"

definition crossref_source :: "fetch_env \<Rightarrow> url \<Rightarrow> source_impl" where
  "crossref_source env base = \<lparr> src_name = ''crossref'', can_serve = (\<lambda>profile r. is_doi r),
     src_fetch = (\<lambda>r profile. doi_fetch ''crossref'' (\<lambda>_. True) (\<lambda>doi profile.
       metadata_attempt env ''crossref'' Oa r (url_join env base (''/works/'' @ doi_as_str doi)) [] id crossref_decode)
       r profile),
     src_fetch_content = default_fetch_content \<rparr>"

definition opt_string_field :: "json \<Rightarrow> string \<Rightarrow> string option option" where
  "opt_string_field j k = (case jget j k of
     None \<Rightarrow> Some None | Some JNull \<Rightarrow> Some None | Some (JString s) \<Rightarrow> Some (Some s) | Some _ \<Rightarrow> None)"

definition opt_json :: "string option \<Rightarrow> json" where
  "opt_json v = (case v of None \<Rightarrow> JNull | Some s \<Rightarrow> JString s)"

text \<open>\<^verbatim>\<open>UnpaywallOaLocation\<close>, read and written back.\<close>

definition unpaywall_location :: "json \<Rightarrow> json option" where
  "unpaywall_location j = (case j of
     JObject _ \<Rightarrow>
       (case (opt_string_field j ''url'', opt_string_field j ''url_for_pdf'', opt_string_field j ''license'') of
          (Some u, Some p, Some l) \<Rightarrow>
            Some (JObject [(''license'', opt_json l), (''url'', opt_json u), (''url_for_pdf'', opt_json p)])
        | _ \<Rightarrow> None)
   | _ \<Rightarrow> None)"

fun unpaywall_locations :: "json list \<Rightarrow> json list option" where
  "unpaywall_locations [] = Some []"
| "unpaywall_locations (j # js) = (case (unpaywall_location j, unpaywall_locations js) of
     (Some l, Some ls) \<Rightarrow> Some (l # ls) | _ \<Rightarrow> None)"

text \<open>\<^verbatim>\<open>UnpaywallWork\<close>, read and written back.\<close>

definition unpaywall_work :: "json \<Rightarrow> json option" where
  "unpaywall_work j =
     (case (jstr j [''doi''], Option.bind (jget j ''is_oa'') as_bool, opt_string_field j ''oa_status'',
            opt_string_field j ''title'',
            (case jget j ''best_oa_location'' of
               None \<Rightarrow> Some JNull | Some JNull \<Rightarrow> Some JNull | Some l \<Rightarrow> unpaywall_location l),
            (case jget j ''oa_locations'' of
               None \<Rightarrow> Some [] | Some (JArray ls) \<Rightarrow> unpaywall_locations ls | Some _ \<Rightarrow> None)) of
        (Some d, Some oa, Some st, Some t, Some best, Some locs) \<Rightarrow>
          Some (JObject [(''best_oa_location'', best), (''doi'', JString d), (''is_oa'', JBool oa),
            (''oa_locations'', JArray locs), (''oa_status'', opt_json st), (''title'', opt_json t)])
      | _ \<Rightarrow> None)"

definition unpaywall_decode :: "string \<Rightarrow> json \<Rightarrow> (json \<times> string option) res" where
  "unpaywall_decode body envelope = (case unpaywall_work envelope of
     None \<Rightarrow> Err (SourceSchema ''unpaywall returned non-JSON'')
   | Some work \<Rightarrow> Ok (work, Some (or_str (jstr work [''best_oa_location'', ''license'']) ''unknown'')))"

definition unpaywall_source :: "fetch_env \<Rightarrow> url \<Rightarrow> string \<Rightarrow> source_impl" where
  "unpaywall_source env base email = \<lparr> src_name = ''unpaywall'', can_serve = (\<lambda>profile r. is_doi r),
     src_fetch = (\<lambda>r profile. doi_fetch ''unpaywall'' (\<lambda>_. True) (\<lambda>doi profile.
       metadata_attempt env ''unpaywall'' Oa r
         (map_option (append_pairs [(''email'', email)]) (url_push env base [doi_as_str doi])) [] id unpaywall_decode)
       r profile),
     src_fetch_content = default_fetch_content \<rparr>"

subsection \<open>Tier 2\<close>

text \<open>The record, or an error that quotes the body.\<close>

definition or_quote :: "string \<Rightarrow> string \<Rightarrow> 'a option \<Rightarrow> ('a \<Rightarrow> 'b res) \<Rightarrow> 'b res" where
  "or_quote hint body v k = (case v of None \<Rightarrow> schema_error_quoting hint body | Some a \<Rightarrow> k a)"

definition openalex_decode :: "string \<Rightarrow> json \<Rightarrow> (json \<times> string option) res" where
  "openalex_decode body work =
     or_quote ''openalex response missing id'' body (jget work ''id'') (\<lambda>_. Ok (work, None))"

definition openalex_source :: "fetch_env \<Rightarrow> url \<Rightarrow> string \<Rightarrow> source_impl" where
  "openalex_source env base email = \<lparr> src_name = ''openalex'',
     can_serve = (\<lambda>profile r. openalex (capability_profile.metadata profile) \<and> is_doi r),
     src_fetch = (\<lambda>r profile. doi_fetch ''openalex'' (\<lambda>p. openalex (capability_profile.metadata p)) (\<lambda>doi profile.
       metadata_attempt env ''openalex'' log_capability.Metadata r
         (map_option (append_pairs (if email = [] then [] else [(''mailto'', email)]))
            (url_join env base (''/works/doi:'' @ doi_as_str doi))) [] id openalex_decode)
       r profile),
     src_fetch_content = default_fetch_content \<rparr>"

definition s2_decode :: "string \<Rightarrow> json \<Rightarrow> (json \<times> string option) res" where
  "s2_decode body paper =
     or_quote ''s2 response missing paperId'' body (jget paper ''paperId'') (\<lambda>_. Ok (paper, None))"

definition DEFAULT_FIELDS :: string where
  "DEFAULT_FIELDS = ''title,year,citationCount,references''"

definition s2_source :: "fetch_env \<Rightarrow> url \<Rightarrow> string option \<Rightarrow> source_impl" where
  "s2_source env base key = \<lparr> src_name = ''semantic_scholar'',
     can_serve = (\<lambda>profile r. semantic_scholar (capability_profile.metadata profile) \<and> is_doi r),
     src_fetch = (\<lambda>r profile. doi_fetch ''semantic_scholar'' (\<lambda>p. semantic_scholar (capability_profile.metadata p))
       (\<lambda>doi profile. metadata_attempt env ''semantic_scholar'' log_capability.Metadata r
         (map_option (append_pairs [(''fields'', DEFAULT_FIELDS)])
            (url_join env base (''/graph/v1/paper/DOI:'' @ doi_as_str doi)))
         (case nonempty key of None \<Rightarrow> [] | Some k \<Rightarrow> [(''x-api-key'', k)]) id s2_decode)
       r profile),
     src_fetch_content = default_fetch_content \<rparr>"

definition doaj_decode :: "string \<Rightarrow> json \<Rightarrow> (json \<times> string option) res" where
  "doaj_decode body envelope =
     or_quote ''doaj response missing results array'' body (jarray envelope [''results'']) (\<lambda>results.
       case results of [] \<Rightarrow> Err (SourceSchema ''doaj search returned 0 results for this DOI'')
       | first # _ \<Rightarrow> Ok (first, None))"

definition doaj_source :: "fetch_env \<Rightarrow> url \<Rightarrow> source_impl" where
  "doaj_source env base = \<lparr> src_name = ''doaj'',
     can_serve = (\<lambda>profile r. doaj (capability_profile.metadata profile) \<and> is_doi r),
     src_fetch = (\<lambda>r profile. doi_fetch ''doaj'' (\<lambda>p. doaj (capability_profile.metadata p)) (\<lambda>doi profile.
       metadata_attempt env ''doaj'' log_capability.Metadata r
         (map_option (append_pairs [(''pageSize'', ''1'')])
            (url_join env base (''/api/search/articles/'' @ percent_encode ''-._~:'' (''doi:'' @ doi_as_str doi))))
         [] id doaj_decode)
       r profile),
     src_fetch_content = default_fetch_content \<rparr>"

definition datacite_license_of :: "json \<Rightarrow> string" where
  "datacite_license_of attributes = or_str
     (case jarray attributes [''rightsList''] of
        None \<Rightarrow> None | Some rs \<Rightarrow> find_map (\<lambda>r. jstr r [''rightsIdentifier'']) rs) ''unknown''"

definition resource_type_general :: "json \<Rightarrow> string option" where
  "resource_type_general attributes = jstr attributes [''types'', ''resourceTypeGeneral'']"

definition datacite_decode :: "string \<Rightarrow> json \<Rightarrow> (json \<times> string option) res" where
  "datacite_decode body envelope =
     or_quote ''datacite response missing data.attributes'' body (jpath envelope [''data'', ''attributes''])
       (\<lambda>attributes. Ok (attributes, Some (datacite_license_of attributes)))"

definition datacite_source :: "fetch_env \<Rightarrow> url \<Rightarrow> source_impl" where
  "datacite_source env base = \<lparr> src_name = ''datacite'',
     can_serve = (\<lambda>profile r. datacite (capability_profile.metadata profile) \<and> is_doi r),
     src_fetch = (\<lambda>r profile. doi_fetch ''datacite'' (\<lambda>p. datacite (capability_profile.metadata p)) (\<lambda>doi profile.
       metadata_attempt env ''datacite'' log_capability.Metadata r
         (url_set_path env base (''dois'' # split_char CHR ''/'' (doi_as_str doi))) [] id datacite_decode)
       r profile),
     src_fetch_content = default_fetch_content \<rparr>"

definition first_str :: "json \<Rightarrow> string \<Rightarrow> string option" where
  "first_str d k = (case jget d k of
     None \<Rightarrow> None
   | Some v \<Rightarrow> (case as_str v of
       Some s \<Rightarrow> Some s
     | None \<Rightarrow> (case as_array v of Some (f # _) \<Rightarrow> as_str f | _ \<Rightarrow> None)))"

definition hal_decode :: "string \<Rightarrow> json \<Rightarrow> (json \<times> string option) res" where
  "hal_decode body envelope =
     or_quote ''hal response missing response.docs'' body (jarray envelope [''response'', ''docs'']) (\<lambda>docs.
       case docs of [] \<Rightarrow> Err (SourceSchema ''hal has no deposit for this DOI'')
       | d # _ \<Rightarrow>
           if Option.bind (jget d ''openAccess_bool'') as_bool \<noteq> Some True
           then Err (NotRetrievable ''hal'' ''deposit is not open access (openAccess_bool != true)'')
           else Ok (d, Some (or_str (first_str d ''licence_s'') ''unknown'')))"

definition HAL_FIELDS :: string where
  "HAL_FIELDS = ''docid,title_s,authFullName_s,producedDateY_i,doiId_s,uri_s,'' @
     ''openAccess_bool,fileMain_s,licence_s,docType_s''"

definition quoted :: "string \<Rightarrow> string \<Rightarrow> string" where
  "quoted field s = field @ '':'' @ [CHR 0x22] @ s @ [CHR 0x22]"

definition hal_source :: "fetch_env \<Rightarrow> url \<Rightarrow> source_impl" where
  "hal_source env base = \<lparr> src_name = ''hal'',
     can_serve = (\<lambda>profile r. hal (capability_profile.metadata profile) \<and> is_doi r),
     src_fetch = (\<lambda>r profile. doi_fetch ''hal'' (\<lambda>p. hal (capability_profile.metadata p)) (\<lambda>doi profile.
       metadata_attempt env ''hal'' log_capability.Metadata r
         (map_option (append_pairs [(''q'', quoted ''doiId_s'' (doi_as_str doi)), (''fl'', HAL_FIELDS),
              (''rows'', ''1''), (''wt'', ''json'')])
            (url_join env base ''/search/'')) [] id hal_decode)
       r profile),
     src_fetch_content = default_fetch_content \<rparr>"

definition COAR_OPEN :: string where
  "COAR_OPEN = ''c_abf2''"

definition access_right_code :: "json \<Rightarrow> string option" where
  "access_right_code r = jstr r [''bestAccessRight'', ''code'']"

definition openaire_is_open_access :: "json \<Rightarrow> bool" where
  "openaire_is_open_access r \<longleftrightarrow> access_right_code r = Some COAR_OPEN"

definition openaire_license_of :: "json \<Rightarrow> string" where
  "openaire_license_of r = or_str
     (case jarray r [''instances''] of
        None \<Rightarrow> None | Some is \<Rightarrow> find_map (\<lambda>i. jstr i [''license'']) is) ''unknown''"

definition openaire_decode :: "string \<Rightarrow> json \<Rightarrow> (json \<times> string option) res" where
  "openaire_decode body envelope =
     or_quote ''openaire response missing results array'' body (jarray envelope [''results'']) (\<lambda>results.
       case results of [] \<Rightarrow> Err (SourceSchema ''openaire has no research product for this DOI'')
       | r # _ \<Rightarrow>
           if \<not> openaire_is_open_access r
           then Err (NotRetrievable ''openaire''
                  (''record is not open access (bestAccessRight.code = '' @ or_str (access_right_code r) ''absent'' @ '')''))
           else Ok (r, Some (openaire_license_of r)))"

definition openaire_source :: "fetch_env \<Rightarrow> url \<Rightarrow> source_impl" where
  "openaire_source env base = \<lparr> src_name = ''openaire'',
     can_serve = (\<lambda>profile r. openaire (capability_profile.metadata profile) \<and> is_doi r),
     src_fetch = (\<lambda>r profile. doi_fetch ''openaire'' (\<lambda>p. openaire (capability_profile.metadata p)) (\<lambda>doi profile.
       metadata_attempt env ''openaire'' log_capability.Metadata r
         (map_option (append_pairs [(''pid'', doi_as_str doi), (''pageSize'', ''1'')])
            (url_join env base ''/graph/v1/researchProducts'')) [] id openaire_decode)
       r profile),
     src_fetch_content = default_fetch_content \<rparr>"

text \<open>A licence that is absent or blank is reported as \<^verbatim>\<open>unknown\<close>.\<close>

definition stated_license :: "json \<Rightarrow> string" where
  "stated_license r = (case jstr r [''license''] of
     Some s \<Rightarrow> if str_trim s = [] then ''unknown'' else s | None \<Rightarrow> ''unknown'')"

definition core_decode :: "doi \<Rightarrow> string \<Rightarrow> json \<Rightarrow> (json \<times> string option) res" where
  "core_decode doi body envelope =
     or_quote ''core response missing results array'' body (jarray envelope [''results'']) (\<lambda>results.
       case results of [] \<Rightarrow> Err (FENotFound (''core has no work for '' @ doi_as_str doi))
       | work # _ \<Rightarrow> Ok (work, Some (stated_license work)))"

definition core_api_key_from_env :: "(string \<Rightarrow> string option) \<Rightarrow> string option" where
  "core_api_key_from_env env = nonempty (map_option str_trim (env ''DOIGET_CORE_API_KEY''))"

definition core_source :: "fetch_env \<Rightarrow> url \<Rightarrow> source_impl" where
  "core_source env base = \<lparr> src_name = ''core'',
     can_serve = (\<lambda>profile r. core (capability_profile.metadata profile) \<and> is_doi r),
     src_fetch = (\<lambda>r profile. doi_fetch ''core'' (\<lambda>p. core (capability_profile.metadata p)) (\<lambda>doi profile.
       metadata_attempt env ''core'' log_capability.Metadata r
         (map_option (append_pairs [(''q'', quoted ''doi'' (doi_as_str doi)), (''limit'', ''1'')])
            (url_join env base ''/v3/search/works''))
         (case core_api_key_from_env (vars env) of
            None \<Rightarrow> [] | Some k \<Rightarrow> [(''authorization'', ''Bearer '' @ k)]) id (core_decode doi))
       r profile),
     src_fetch_content = default_fetch_content \<rparr>"

definition epmc_pdf_url :: "json \<Rightarrow> string option" where
  "epmc_pdf_url r = (case jarray r [''fullTextUrlList'', ''fullTextUrl''] of
     None \<Rightarrow> None
   | Some es \<Rightarrow> find_map (\<lambda>e.
       case (jstr e [''documentStyle''], jstr e [''availabilityCode''], jstr e [''url'']) of
         (Some style, Some cd, Some u) \<Rightarrow>
           if eq_ignore_ascii_case style ''pdf'' \<and> (cd = ''F'' \<or> cd = ''OA'') then Some u else None
       | _ \<Rightarrow> None) es)"

definition epmc_decode :: "doi \<Rightarrow> string \<Rightarrow> json \<Rightarrow> (json \<times> string option) res" where
  "epmc_decode doi body envelope =
     or_quote ''europepmc response missing resultList.result'' body (jarray envelope [''resultList'', ''result''])
       (\<lambda>results. case results of
         [] \<Rightarrow> Err (FENotFound (''europepmc has no record for '' @ doi_as_str doi))
       | r # _ \<Rightarrow>
           if epmc_pdf_url r = None
           then Err (NotRetrievable ''europe-pmc''
                  (''no F or OA pdf entry (isOpenAccess = '' @ or_str (jstr r [''isOpenAccess'']) ''absent''
                   @ '', inEPMC = '' @ or_str (jstr r [''inEPMC'']) ''absent'' @ '')''))
           else Ok (r, Some (stated_license r)))"

definition epmc_source :: "fetch_env \<Rightarrow> url \<Rightarrow> source_impl" where
  "epmc_source env base = \<lparr> src_name = ''europe-pmc'',
     can_serve = (\<lambda>profile r. europe_pmc (capability_profile.metadata profile) \<and> is_doi r),
     src_fetch = (\<lambda>r profile. doi_fetch ''europe-pmc'' (\<lambda>p. europe_pmc (capability_profile.metadata p)) (\<lambda>doi profile.
       metadata_attempt env ''europe-pmc'' log_capability.Metadata r
         (map_option (append_pairs [(''query'', quoted ''DOI'' (doi_as_str doi)), (''format'', ''json''),
              (''resultType'', ''core''), (''pageSize'', ''1'')])
            (url_join env base ''/europepmc/webservices/rest/search'')) [] id (epmc_decode doi))
       r profile),
     src_fetch_content = default_fetch_content \<rparr>"

text \<open>
  An error answer longer than 200 bytes whose 200th byte lies inside a character does not become an
  error: quoting it panics.
\<close>

lemma quoting_a_body_panics:
  "openalex_decode (replicate 199 CHR ''x'' @ [CHR 0xC3, CHR 0xA9]) (JObject [(''error'', JString ''e'')]) = Panic"
  by code_simp

subsection \<open>What tier-2 records say about open copies\<close>

definition openalex_pdf_url :: "json \<Rightarrow> string option" where
  "openalex_pdf_url r = (case jarray r [''locations''] of
     None \<Rightarrow> None
   | Some locs \<Rightarrow> find_map (\<lambda>l.
       if Option.bind (jget l ''is_oa'') as_bool \<noteq> Some True then None
       else nonempty (jstr l [''pdf_url''])) locs)"

definition core_pdf_url :: "json \<Rightarrow> string option" where
  "core_pdf_url r = nonempty (jstr r [''downloadUrl''])"

definition hal_pdf_url :: "json \<Rightarrow> string option" where
  "hal_pdf_url r =
     (if Option.bind (jget r ''openAccess_bool'') as_bool \<noteq> Some True then None
      else nonempty (jstr r [''fileMain_s'']))"

text \<open>The first component of \<^verbatim>\<open>describe_locations\<close>; the text next to it is prose.\<close>

definition describe_locations :: "json \<Rightarrow> nat option" where
  "describe_locations r = (case jarray r [''locations''] of
     None \<Rightarrow> None
   | Some [] \<Rightarrow> None
   | Some locs \<Rightarrow> Some (length (filter (\<lambda>l. Option.bind (jget l ''is_oa'') as_bool = Some True) locs)))"

subsection \<open>Tier 3\<close>

definition APS_PREFIXES :: "string list" where
  "APS_PREFIXES = [''10.1103'']"

definition ELSEVIER_PREFIXES :: "string list" where
  "ELSEVIER_PREFIXES = [''10.1016'', ''10.1006'', ''10.1053'']"

definition SPRINGER_PREFIXES :: "string list" where
  "SPRINGER_PREFIXES = [''10.1007'', ''10.1038'', ''10.1057'', ''10.1140'']"

definition IEEE_PREFIXES :: "string list" where
  "IEEE_PREFIXES = [''10.1109'', ''10.23919'']"

definition tdm_can_serve :: "tdm_grant option \<Rightarrow> string list \<Rightarrow> paper_ref \<Rightarrow> bool" where
  "tdm_can_serve grant owned r = (case r of
     RefArxiv _ \<Rightarrow> False
   | RefDoi doi \<Rightarrow> grant \<noteq> None \<and> doi_prefix doi \<in> set owned)"

definition grant_key :: "tdm_grant option \<Rightarrow> string option" where
  "grant_key grant = (case grant of None \<Rightarrow> None | Some g \<Rightarrow> nonempty (Some (api_key g)))"

definition tdm_fetch ::
  "string \<Rightarrow> (capability_profile \<Rightarrow> tdm_grant option) \<Rightarrow> (doi \<Rightarrow> string \<Rightarrow> fetch_result act)
     \<Rightarrow> paper_ref \<Rightarrow> capability_profile \<Rightarrow> fetch_result act" where
  "tdm_fetch name grant k =
     doi_fetch name (\<lambda>p. grant_key (grant p) \<noteq> None) (\<lambda>doi p. k doi (the (grant_key (grant p))))"

text \<open>\<^verbatim>\<open>redact_api_key_in_url\<close>, for the parameter name of one publisher.\<close>

definition redact_param :: "string \<Rightarrow> url \<Rightarrow> url" where
  "redact_param param u =
     (if list_all (\<lambda>(k, _). k \<noteq> param) (query_pairs u) then u
      else u\<lparr>query_pairs := map (\<lambda>(k, v). if k = param then (k, ''REDACTED'') else (k, v)) (query_pairs u)\<rparr>)"

definition aps_request_url :: "fetch_env \<Rightarrow> url \<Rightarrow> doi \<Rightarrow> url option" where
  "aps_request_url env base doi =
     url_join env base (''/v2/journals/articles/'' @ percent_encode ''-._~/'' (doi_as_str doi))"

definition aps_decode :: "string \<Rightarrow> json \<Rightarrow> (json \<times> string option) res" where
  "aps_decode body envelope = (case envelope of
     JObject _ \<Rightarrow>
       if jget envelope ''doi'' = None \<and> jget envelope ''id'' = None
       then Err (SourceSchema ''tdm-aps response missing both doi and id fields'') else Ok (envelope, None)
   | _ \<Rightarrow> schema_error_quoting ''tdm-aps response is not a JSON object'' body)"

definition aps_fetch_content :: "fetch_env \<Rightarrow> url \<Rightarrow> paper_ref \<Rightarrow> capability_profile \<Rightarrow> string option act" where
  "aps_fetch_content env base r profile = (case r of
     RefArxiv _ \<Rightarrow> return_ok None
   | RefDoi doi \<Rightarrow>
       if \<not> tdm_can_serve (tdm_aps profile) APS_PREFIXES r then return_ok None
       else (case grant_key (tdm_aps profile) of
          None \<Rightarrow> return_ok None
        | Some key \<Rightarrow>
            and_then (acquire ''tdm-aps'') (\<lambda>_.
            and_then (ok_or (SourceSchema ''URL construction failed'') (aps_request_url env base doi)) (\<lambda>u.
            and_then (fetch_pdf_with_headers env ''tdm-aps'' u
                        [(''X-API-Key'', key), (''Accept'', ''application/pdf'')]) (\<lambda>(bytes, final).
            and_then (log_row_act env (fetch_row env ''tdm-aps'' TdmAps r (length bytes) None)) (\<lambda>_.
            return_ok (Some bytes)))))))"

definition aps_source :: "fetch_env \<Rightarrow> url \<Rightarrow> source_impl" where
  "aps_source env base = \<lparr> src_name = ''tdm-aps'',
     can_serve = (\<lambda>profile. tdm_can_serve (tdm_aps profile) APS_PREFIXES),
     src_fetch = (\<lambda>r. tdm_fetch ''tdm-aps'' tdm_aps (\<lambda>doi key.
       metadata_attempt env ''tdm-aps'' TdmAps r (aps_request_url env base doi) [(''X-API-Key'', key)] id aps_decode) r),
     src_fetch_content = aps_fetch_content env base \<rparr>"

definition elsevier_decode :: "string \<Rightarrow> json \<Rightarrow> (json \<times> string option) res" where
  "elsevier_decode body envelope =
     or_quote ''tdm-elsevier response missing full-text-retrieval-response'' body
       (jget envelope ''full-text-retrieval-response'') (\<lambda>response.
       if jget response ''coredata'' = None then Err (SourceSchema ''tdm-elsevier response missing coredata'')
       else Ok (response, None))"

definition elsevier_source :: "fetch_env \<Rightarrow> url \<Rightarrow> source_impl" where
  "elsevier_source env base = \<lparr> src_name = ''tdm-elsevier'',
     can_serve = (\<lambda>profile. tdm_can_serve (tdm_elsevier profile) ELSEVIER_PREFIXES),
     src_fetch = (\<lambda>r. tdm_fetch ''tdm-elsevier'' tdm_elsevier (\<lambda>doi key.
       metadata_attempt env ''tdm-elsevier'' TdmElsevier r
         (map_option (append_pairs [(''httpAccept'', ''application/json'')])
            (url_join env base (''/content/article/doi/'' @ percent_encode ''-._~'' (doi_as_str doi))))
         [(''X-ELS-APIKey'', key)] id elsevier_decode) r),
     src_fetch_content = default_fetch_content \<rparr>"

text \<open>The first entry of a result array.\<close>

definition first_entry_decode :: "string \<Rightarrow> string \<Rightarrow> string \<Rightarrow> json \<Rightarrow> (json \<times> string option) res" where
  "first_entry_decode name field body envelope =
     or_quote (name @ '' response missing '' @ field @ '' array'') body (jarray envelope [field]) (\<lambda>es.
       case es of [] \<Rightarrow> Err (SourceSchema (name @ '' returned 0 '' @ field @ '' for this DOI''))
       | first # _ \<Rightarrow> Ok (first, None))"

definition springer_source :: "fetch_env \<Rightarrow> url \<Rightarrow> source_impl" where
  "springer_source env base = \<lparr> src_name = ''tdm-springer'',
     can_serve = (\<lambda>profile. tdm_can_serve (tdm_springer profile) SPRINGER_PREFIXES),
     src_fetch = (\<lambda>r. tdm_fetch ''tdm-springer'' tdm_springer (\<lambda>doi key.
       metadata_attempt env ''tdm-springer'' TdmSpringer r
         (map_option (append_pairs [(''q'', ''doi:'' @ doi_as_str doi), (''api_key'', key)])
            (url_join env base ''/openaccess/json''))
         [] (redact_param ''api_key'') (first_entry_decode ''tdm-springer'' ''records'')) r),
     src_fetch_content = default_fetch_content \<rparr>"

definition ieee_source :: "fetch_env \<Rightarrow> url \<Rightarrow> source_impl" where
  "ieee_source env base = \<lparr> src_name = ''tdm-ieee'',
     can_serve = (\<lambda>profile. tdm_can_serve (tdm_ieee profile) IEEE_PREFIXES),
     src_fetch = (\<lambda>r. tdm_fetch ''tdm-ieee'' tdm_ieee (\<lambda>doi key.
       metadata_attempt env ''tdm-ieee'' TdmIeee r
         (map_option (append_pairs [(''doi'', doi_as_str doi), (''format'', ''json''), (''apikey'', key)])
            (url_join env base ''/api/v1/search/articles''))
         [] (redact_param ''apikey'') (first_entry_decode ''tdm-ieee'' ''articles'')) r),
     src_fetch_content = default_fetch_content \<rparr>"

subsection \<open>The contract of the trait\<close>

text \<open>
  What the rest of the program relies on.  A source touches only its own rate slot, its own allowlist key
  and its own log rows; it does nothing at all when its gate is shut; every request follows an
  acquisition of its slot; and it answers only after a row with its name, the reference and the canonical
  digest has been written.
\<close>

definition own_effect :: "string \<Rightarrow> effect \<Rightarrow> bool" where
  "own_effect name e = (case e of
     Acquire n \<Rightarrow> n = name | Pace n \<Rightarrow> n = name | Request n _ _ _ \<Rightarrow> n = name
   | Append i _ \<Rightarrow> i_source i = Some name \<and> i_event i = Fetch \<and> i_result i = LogOk)"

text \<open>The row of a success is durable: the log file ends with it, unless the file's last line was torn.\<close>

definition success_row ::
  "(string \<Rightarrow> string) \<Rightarrow> (string \<Rightarrow> string) \<Rightarrow> string \<Rightarrow> paper_ref \<Rightarrow> log_row \<Rightarrow> bool" where
  "success_row h_sha h_hx name r row \<longleftrightarrow>
     event row = Fetch \<and> result row = LogOk \<and> source row = Some name \<and> row_ref row = Some (as_input_str r)
     \<and> canonical_digest row = Some (digest_hex h_sha h_hx (promote r name None))"

definition on_log :: "fetch_env \<Rightarrow> string \<Rightarrow> paper_ref \<Rightarrow> world \<Rightarrow> bool" where
  "on_log env name r w \<longleftrightarrow> (\<exists>f row. success_row (sha env) (hx env) name r row
     \<and> map_of (w_logs w) (p_name (w_log w)) = Some (add_line f (V2Line row) False))"

definition starts_with_acquire :: "string \<Rightarrow> world \<Rightarrow> world \<Rightarrow> bool" where
  "starts_with_acquire name w w' \<longleftrightarrow>
     effects w' = effects w \<or> (\<exists>es. effects w' = effects w @ Acquire name # es)"

locale source_contract =
  fixes env :: fetch_env
    and src :: source_impl
    and gate :: "capability_profile \<Rightarrow> paper_ref \<Rightarrow> bool"
  assumes own: "performs (own_effect (src_name src)) (src_fetch src r p)"
    and own_content: "performs (own_effect (src_name src)) (src_fetch_content src r p)"
    and gated: "\<not> gate p r \<Longrightarrow> src_fetch src r p = throw (NotEligible (src_name src))"
    and gated_content: "\<not> gate p r \<Longrightarrow> src_fetch_content src r p = return_ok None"
    and paced: "src_fetch src r p w = (w', res) \<Longrightarrow> starts_with_acquire (src_name src) w w'"
    and logged: "src_fetch src r p w = (w', Ok a) \<Longrightarrow> on_log env (src_name src) r w' \<and> fr_source a = src_name src"
begin

lemma success_needs_gate: "src_fetch src r p w = (w', Ok a) \<Longrightarrow> gate p r"
  using gated [of p r] by (cases "gate p r") (auto simp: throw_def)

lemma closed_gate_is_silent: "\<not> gate p r \<Longrightarrow> fst (src_fetch src r p w) = w"
  using gated by (simp add: throw_def)

lemma store_untouched: "src_fetch src r p w = (w', res) \<Longrightarrow> w_files w' = w_files w"
  using performsD [OF own] by (auto simp: adds_def)

lemma requests_are_own:
  assumes "src_fetch src r p w = (w', res)" and "Request n u hs pdf \<in> set (drop (length (effects w)) (effects w'))"
  shows "n = src_name src \<and> gate p r"
proof -
  from performsD [OF own assms(1)] obtain es where es: "effects w' = effects w @ es"
      "list_all (own_effect (src_name src)) es"
    by (auto simp: adds_def)
  with assms(2) have "own_effect (src_name src) (Request n u hs pdf)" by (auto simp: list_all_iff)
  moreover have "gate p r"
  proof (rule ccontr)
    assume "\<not> gate p r"
    from closed_gate_is_silent [OF this, of w] assms show False by simp
  qed
  ultimately show ?thesis by (simp add: own_effect_def)
qed

end

subsection \<open>Every source keeps it\<close>

lemma own_effect_simps [simp]:
  "own_effect n (Acquire n)" "own_effect n (Pace n)" "own_effect n (Request n u hs pdf)"
  "own_effect n (Append (fetch_row env n cp r sz lic) b)"
  by (simp_all add: own_effect_def fetch_row_def)

lemma log_row_on_log:
  assumes "log_row_act env (fetch_row env name cp r sz lic) w = (w', Ok u)"
  shows "on_log env name r w'"
proof -
  obtain dir p where wl: "w_logs w = dir" "w_log w = p" by simp
  obtain d q res where a: "append_row (cj env) (sha env) (hx env) (line_bytes env) (clock env (effects w))
      (log_fault env (effects w)) (fetch_row env name cp r sz lic) (dir, p) = ((d, q), res)"
    by (metis surj_pair)
  with assms wl obtain k where k: "res = Inr k" and w': "w_logs w' = d" "w_log w' = q"
    by (auto simp: log_row_act_def log_append_def split: sum.splits)
  have "p_name q = p_name p"
    using a k by (auto simp: append_row_def maybe_rotate_def Let_def split: prod.splits sum.splits if_splits)
  moreover from append_row_effect [OF a] k
  have "reported_row d (p_name p) (p_session p) (fetch_row env name cp r sz lic) k (last_hash q)" by simp
  ultimately show ?thesis
    using w' unfolding reported_row_def on_log_def success_row_def by (auto simp: fetch_row_def)
qed

lemma metadata_attempt_own: "performs (own_effect name) (metadata_attempt env name cp r u hs redact dec)"
  unfolding metadata_attempt_def
  by (intro performs_intros, simp_all)

lemma metadata_attempt_Ok:
  assumes "metadata_attempt env name cp r u hs redact dec w = (w', Ok a)"
  shows "on_log env name r w' \<and> fr_source a = name"
  using assms by (auto simp: metadata_attempt_def act_Ok_simps split: prod.splits dest: log_row_on_log)

lemma starts_with_acquire_then:
  assumes "performs P (k ())" shows "starts_with_acquire name w (fst (and_then (acquire name) k w))"
proof -
  let ?w = "w\<lparr>effects := effects w @ [Acquire name]\<rparr>"
  have "and_then (acquire name) k w = k () ?w" by (simp add: acquire_def)
  moreover from assms have "adds P ?w (fst (k () ?w))" by (simp add: performs_def)
  ultimately show ?thesis by (auto simp: adds_def starts_with_acquire_def)
qed

lemma metadata_attempt_paced:
  "metadata_attempt env name cp r u hs redact dec w = (w', res) \<Longrightarrow> starts_with_acquire name w w'"
proof -
  assume a: "metadata_attempt env name cp r u hs redact dec w = (w', res)"
  have "starts_with_acquire name w (fst (metadata_attempt env name cp r u hs redact dec w))"
    unfolding metadata_attempt_def
    by (rule starts_with_acquire_then [where P = "own_effect name"]) (intro performs_intros, simp_all)
  with a show ?thesis by simp
qed

text \<open>So it is enough that a source is the shared sequence behind its gate.\<close>

definition doi_gate :: "(capability_profile \<Rightarrow> bool) \<Rightarrow> capability_profile \<Rightarrow> paper_ref \<Rightarrow> bool" where
  "doi_gate g p r \<longleftrightarrow> is_doi r \<and> g p"

lemma doi_fetch_cases:
  "doi_fetch name g k r p = (if doi_gate g p r then k (case r of RefDoi d \<Rightarrow> d | RefArxiv _ \<Rightarrow> Doi []) p
     else throw (NotEligible name))"
  by (cases r) (auto simp: doi_fetch_def doi_gate_def is_doi_def)

lemma throw_Ok [simp]: "throw e w = (w', Ok a) \<longleftrightarrow> False" and throw_eq: "throw e w = (w', x) \<longleftrightarrow> w' = w \<and> x = Err e"
  by (auto simp: throw_def)

lemma starts_refl [simp]: "starts_with_acquire name w w"
  by (simp add: starts_with_acquire_def)

text \<open>\<open>url\<close>, \<open>hs\<close> and \<open>dec\<close> may depend on the DOI and the profile.\<close>

lemma source_contractI:
  assumes name: "src_name src = name"
    and fetch: "\<And>r p. src_fetch src r p =
      doi_fetch name g (\<lambda>doi p. metadata_attempt env name cp r (u doi p) (hs doi p) redact (dec doi)) r p"
    and content: "src_fetch_content src = default_fetch_content"
  shows "source_contract env src (doi_gate g)"
proof
  show "performs (own_effect (src_name src)) (src_fetch src r p)" for r p
    by (simp add: name fetch doi_fetch_cases metadata_attempt_own)
  show "performs (own_effect (src_name src)) (src_fetch_content src r p)" for r p
    by (simp add: content default_fetch_content_def)
  show "\<not> doi_gate g p r \<Longrightarrow> src_fetch src r p = throw (NotEligible (src_name src))" for r p
    by (simp add: name fetch doi_fetch_cases)
  show "\<not> doi_gate g p r \<Longrightarrow> src_fetch_content src r p = return_ok None" for r p
    by (simp add: content default_fetch_content_def)
  show "src_fetch src r p w = (w', res) \<Longrightarrow> starts_with_acquire (src_name src) w w'" for r p w w' res
    by (auto simp: name fetch doi_fetch_cases throw_eq dest: metadata_attempt_paced split: if_splits)
  show "src_fetch src r p w = (w', Ok a) \<Longrightarrow> on_log env (src_name src) r w' \<and> fr_source a = src_name src" for r p w w' a
    by (auto simp: name fetch doi_fetch_cases dest: metadata_attempt_Ok split: if_splits)
qed

lemmas doi_source_defs = crossref_source_def unpaywall_source_def openalex_source_def s2_source_def
  doaj_source_def datacite_source_def hal_source_def openaire_source_def core_source_def epmc_source_def
  elsevier_source_def springer_source_def ieee_source_def

interpretation crossref: source_contract env "crossref_source env base" "doi_gate (\<lambda>_. True)"
  for env base
  by (rule source_contractI) (simp_all add: doi_source_defs tdm_fetch_def)

interpretation unpaywall: source_contract env "unpaywall_source env base email" "doi_gate (\<lambda>_. True)"
  for env base email
  by (rule source_contractI) (simp_all add: doi_source_defs tdm_fetch_def)

interpretation openalex: source_contract env "openalex_source env base email" "doi_gate (\<lambda>p. openalex (capability_profile.metadata p))"
  for env base email
  by (rule source_contractI) (simp_all add: doi_source_defs tdm_fetch_def)

interpretation s2: source_contract env "s2_source env base key" "doi_gate (\<lambda>p. semantic_scholar (capability_profile.metadata p))"
  for env base key
  by (rule source_contractI) (simp_all add: doi_source_defs tdm_fetch_def)

interpretation doaj: source_contract env "doaj_source env base" "doi_gate (\<lambda>p. doaj (capability_profile.metadata p))"
  for env base
  by (rule source_contractI) (simp_all add: doi_source_defs tdm_fetch_def)

interpretation datacite: source_contract env "datacite_source env base" "doi_gate (\<lambda>p. datacite (capability_profile.metadata p))"
  for env base
  by (rule source_contractI) (simp_all add: doi_source_defs tdm_fetch_def)

interpretation hal: source_contract env "hal_source env base" "doi_gate (\<lambda>p. hal (capability_profile.metadata p))"
  for env base
  by (rule source_contractI) (simp_all add: doi_source_defs tdm_fetch_def)

interpretation openaire: source_contract env "openaire_source env base" "doi_gate (\<lambda>p. openaire (capability_profile.metadata p))"
  for env base
  by (rule source_contractI) (simp_all add: doi_source_defs tdm_fetch_def)

interpretation core: source_contract env "core_source env base" "doi_gate (\<lambda>p. core (capability_profile.metadata p))"
  for env base
  by (rule source_contractI) (simp_all add: doi_source_defs tdm_fetch_def)

interpretation epmc: source_contract env "epmc_source env base" "doi_gate (\<lambda>p. europe_pmc (capability_profile.metadata p))"
  for env base
  by (rule source_contractI) (simp_all add: doi_source_defs tdm_fetch_def)

interpretation elsevier: source_contract env "elsevier_source env base" "doi_gate (\<lambda>p. grant_key (tdm_elsevier p) \<noteq> None)"
  for env base
  by (rule source_contractI) (simp_all add: doi_source_defs tdm_fetch_def)

interpretation springer: source_contract env "springer_source env base" "doi_gate (\<lambda>p. grant_key (tdm_springer p) \<noteq> None)"
  for env base
  by (rule source_contractI) (simp_all add: doi_source_defs tdm_fetch_def)

interpretation ieee: source_contract env "ieee_source env base" "doi_gate (\<lambda>p. grant_key (tdm_ieee p) \<noteq> None)"
  for env base
  by (rule source_contractI) (simp_all add: doi_source_defs tdm_fetch_def)

text \<open>APS is the one source that also serves documents.\<close>

lemma aps_content_own: "performs (own_effect ''tdm-aps'') (aps_fetch_content env base r p)"
  unfolding aps_fetch_content_def
  by (cases r) (simp_all, (intro impI performs_intros, simp_all)?)

lemma aps_fetch_eq:
  "src_fetch (aps_source env base) r p = src_fetch ((aps_source env base)\<lparr>src_fetch_content := default_fetch_content\<rparr>) r p"
  by simp

lemma aps_metadata_contract:
  "source_contract env ((aps_source env base)\<lparr>src_fetch_content := default_fetch_content\<rparr>)
     (doi_gate (\<lambda>p. grant_key (tdm_aps p) \<noteq> None))"
  by (rule source_contractI) (simp_all add: aps_source_def tdm_fetch_def)

interpretation aps: source_contract env "aps_source env base" "doi_gate (\<lambda>p. grant_key (tdm_aps p) \<noteq> None)"
  for env base
proof
  note c = aps_metadata_contract [of env base]
  show "performs (own_effect (src_name (aps_source env base))) (src_fetch (aps_source env base) r p)" for r p
    using source_contract.own [OF c, of r p] by simp
  show "performs (own_effect (src_name (aps_source env base))) (src_fetch_content (aps_source env base) r p)" for r p
    using aps_content_own [of env base r p] by (simp add: aps_source_def)
  show "\<not> doi_gate (\<lambda>p. grant_key (tdm_aps p) \<noteq> None) p r \<Longrightarrow>
      src_fetch (aps_source env base) r p = throw (NotEligible (src_name (aps_source env base)))" for r p
    using source_contract.gated [OF c, of p r] by simp
  show "\<not> doi_gate (\<lambda>p. grant_key (tdm_aps p) \<noteq> None) p r \<Longrightarrow>
      src_fetch_content (aps_source env base) r p = return_ok None" for r p
    by (cases r) (auto simp: aps_source_def aps_fetch_content_def doi_gate_def is_doi_def)
  show "src_fetch (aps_source env base) r p w = (w', res) \<Longrightarrow>
      starts_with_acquire (src_name (aps_source env base)) w w'" for r p w w' res
    using source_contract.paced [OF c, of r p w w' res] by simp
  show "src_fetch (aps_source env base) r p w = (w', Ok a) \<Longrightarrow>
      on_log env (src_name (aps_source env base)) r w' \<and> fr_source a = src_name (aps_source env base)" for r p w w' a
    using source_contract.logged [OF c, of r p w w' a] by simp
qed

end
