(* ===== verification/Arxiv.thy ===== *)
theory Arxiv
  imports Sources
begin

text \<open>
  The arXiv source (\<^verbatim>\<open>crates/doiget-core/src/sources/arxiv.rs\<close>): the Atom feed reader and the two-request
  fetch.  The tokens of the feed come from the \<^verbatim>\<open>quick-xml\<close> crate and are a parameter; a text token
  carries what \<^verbatim>\<open>quick_xml::escape::unescape\<close> makes of it, an attribute its normalised value.
\<close>

subsection \<open>The Atom feed\<close>

datatype xml_event =
    Start string
  | Empty string "(string \<times> string option) list"
  | XText "string option"
  | End string
  | Eof
  | XmlError
  | OtherEvent

datatype target = Title | Summary | Published | Updated | AuthorName | TDoi | JournalRef

record atom_state =
  in_entry :: bool
  saw_entry :: bool
  depth :: int
  a_title :: "string option"
  a_abstract :: "string option"
  a_published :: "string option"
  a_updated :: "string option"
  a_authors :: "string list"
  a_categories :: "string list"
  a_doi :: "string option"
  a_journal_ref :: "string option"
  target :: "target option"
  in_author :: bool

definition atom_init :: atom_state where
  "atom_init = \<lparr> in_entry = False, saw_entry = False, depth = 0, a_title = None, a_abstract = None,
     a_published = None, a_updated = None, a_authors = [], a_categories = [], a_doi = None,
     a_journal_ref = None, target = None, in_author = False \<rparr>"

definition local_name :: "string \<Rightarrow> string" where
  "local_name q = rev (takeWhile (\<lambda>c. c \<noteq> CHR '':'') (rev q))"

definition start_child :: "string \<Rightarrow> atom_state \<Rightarrow> atom_state" where
  "start_child nm s =
     (if nm = ''title'' then s\<lparr>target := Some Title\<rparr>
      else if nm = ''summary'' then s\<lparr>target := Some Summary\<rparr>
      else if nm = ''published'' then s\<lparr>target := Some Published\<rparr>
      else if nm = ''updated'' then s\<lparr>target := Some Updated\<rparr>
      else if nm = ''doi'' then s\<lparr>target := Some TDoi\<rparr>
      else if nm = ''journal_ref'' then s\<lparr>target := Some JournalRef\<rparr>
      else if nm = ''author'' then s\<lparr>in_author := True, a_authors := a_authors s @ [[]]\<rparr>
      else s)"

definition push_str :: "string option \<Rightarrow> string \<Rightarrow> string option" where
  "push_str v t = Some ((case v of None \<Rightarrow> [] | Some s \<Rightarrow> s) @ t)"

definition push_last :: "string list \<Rightarrow> string \<Rightarrow> string list" where
  "push_last xs t = (if xs = [] then [] else butlast xs @ [last xs @ t])"

fun take_text :: "target \<Rightarrow> string \<Rightarrow> atom_state \<Rightarrow> atom_state" where
  "take_text Title t s = s\<lparr>a_title := push_str (a_title s) t\<rparr>"
| "take_text Summary t s = s\<lparr>a_abstract := push_str (a_abstract s) t\<rparr>"
| "take_text Published t s = s\<lparr>a_published := push_str (a_published s) t\<rparr>"
| "take_text Updated t s = s\<lparr>a_updated := push_str (a_updated s) t\<rparr>"
| "take_text TDoi t s = s\<lparr>a_doi := push_str (a_doi s) t\<rparr>"
| "take_text JournalRef t s = s\<lparr>a_journal_ref := push_str (a_journal_ref s) t\<rparr>"
| "take_text AuthorName t s = s\<lparr>a_authors := push_last (a_authors s) t\<rparr>"

text \<open>One event: \<open>Inl False\<close> is the syntax error, \<open>Inl True\<close> leaves the loop.\<close>

fun atom_step :: "atom_state \<Rightarrow> xml_event \<Rightarrow> (bool \<times> atom_state) + atom_state" where
  "atom_step s (Start q) =
     (let nm = local_name q in
      if \<not> in_entry s then
        Inr (if nm = ''entry'' then s\<lparr>in_entry := True, saw_entry := True, depth := 0\<rparr> else s)
      else
        let s = s\<lparr>depth := depth s + 1\<rparr> in
        Inr (if depth s = 1 then start_child nm s
             else if depth s = 2 \<and> in_author s \<and> nm = ''name'' then s\<lparr>target := Some AuthorName\<rparr> else s))"
| "atom_step s (Empty q attrs) =
     Inr (if in_entry s \<and> depth s = 0 \<and> local_name q = ''category''
          then s\<lparr>a_categories := a_categories s
                 @ filter_map (\<lambda>(k, v). if k = ''term'' then v else None) attrs\<rparr>
          else s)"
| "atom_step s (XText t) =
     Inr (case (target s, t) of (Some tg, Some x) \<Rightarrow> take_text tg x s | _ \<Rightarrow> s)"
| "atom_step s (End q) =
     (let nm = local_name q in
      if \<not> in_entry s then Inr s
      else if depth s = 0 \<and> nm = ''entry'' then Inl (True, s)
      else
        let s = s\<lparr>depth := depth s - 1\<rparr> in
        Inr (if depth s = 0 then
               (if nm = ''author''
                then s\<lparr>in_author := False, target := None,
                       a_authors := (if a_authors s \<noteq> [] \<and> last (a_authors s) = [] then butlast (a_authors s)
                                     else a_authors s)\<rparr>
                else s\<lparr>target := None\<rparr>)
             else if depth s = 1 \<and> in_author s \<and> nm = ''name'' then s\<lparr>target := None\<rparr>
             else s))"
| "atom_step s Eof = Inl (True, s)"
| "atom_step s XmlError = Inl (False, s)"
| "atom_step s OtherEvent = Inr s"

text \<open>The reader ends every stream with \<open>Eof\<close>; an exhausted list counts as one.\<close>

fun atom_loop :: "atom_state \<Rightarrow> xml_event list \<Rightarrow> fetch_error + atom_state" where
  "atom_loop s [] = Inr s"
| "atom_loop s (e # es) = (case atom_step s e of
     Inl (True, s) \<Rightarrow> Inr s
   | Inl (False, _) \<Rightarrow> Inl (SourceSchema ''arxiv Atom XML parse error'')
   | Inr s \<Rightarrow> atom_loop s es)"

definition trimmed_member :: "string \<Rightarrow> string option \<Rightarrow> (string \<times> json) list" where
  "trimmed_member k v = (case v of
     None \<Rightarrow> []
   | Some t \<Rightarrow> if str_trim t = [] then [] else [(k, JString (str_trim t))])"

definition list_member :: "string \<Rightarrow> string list \<Rightarrow> (string \<times> json) list" where
  "list_member k xs = (if xs = [] then [] else [(k, JArray (map JString xs))])"

definition parse_atom_feed :: "xml_event list \<Rightarrow> fetch_error + json" where
  "parse_atom_feed events = (case atom_loop atom_init events of
     Inl e \<Rightarrow> Inl e
   | Inr s \<Rightarrow>
       if \<not> saw_entry s then Inl (FENotFound ''arxiv Atom feed had no <entry> element (unknown id?)'')
       else Inr (JObject
         (trimmed_member ''title'' (a_title s) @ trimmed_member ''abstract'' (a_abstract s)
          @ list_member ''authors'' (a_authors s) @ trimmed_member ''published'' (a_published s)
          @ trimmed_member ''updated'' (a_updated s) @ trimmed_member ''doi'' (a_doi s)
          @ trimmed_member ''journal_ref'' (a_journal_ref s) @ list_member ''categories'' (a_categories s))))"

text \<open>Text around an event the loop ignores is joined.  \<^verbatim>\<open>quick-xml\<close> reports entity references such
  as \<^verbatim>\<open>&amp;\<close> as events of their own, so the reader loses them.\<close>

lemma ignored_event_joins_text:
  "parse_atom_feed [Start ''feed'', Start ''entry'', Start ''title'', XText (Some ''Research''), OtherEvent,
     XText (Some ''Development''), End ''title'', End ''entry'', End ''feed'', Eof]
   = Inr (JObject [(''title'', JString ''ResearchDevelopment'')])"
  by code_simp

subsection \<open>The source\<close>

definition arxiv_pdf_url :: "fetch_env \<Rightarrow> url \<Rightarrow> arxiv_id \<Rightarrow> url option" where
  "arxiv_pdf_url env base ident = url_join env base (''/pdf/'' @ arxiv_as_str ident @ ''.pdf'')"

definition arxiv_metadata_url :: "fetch_env \<Rightarrow> url \<Rightarrow> arxiv_id \<Rightarrow> url option" where
  "arxiv_metadata_url env meta_base ident =
     map_option (append_pairs [(''id_list'', arxiv_as_str ident)]) (url_join env meta_base ''/api/query'')"

definition arxiv_row :: "fetch_env \<Rightarrow> log_capability \<Rightarrow> arxiv_id \<Rightarrow> nat \<Rightarrow> row_input" where
  "arxiv_row env cp ident sz = fetch_row env ''arxiv'' cp (RefArxiv ident) sz (Some ''arxiv-default'')"

definition arxiv_fetch_metadata_only ::
  "fetch_env \<Rightarrow> (string \<Rightarrow> xml_event list) \<Rightarrow> url \<Rightarrow> arxiv_id \<Rightarrow> json act" where
  "arxiv_fetch_metadata_only env xml meta_base ident =
     and_then (acquire ''arxiv'') (\<lambda>_.
     and_then (ok_or (SourceSchema ''URL construction failed'') (arxiv_metadata_url env meta_base ident)) (\<lambda>u.
     and_then (fetch_bytes env ''arxiv'' u) (\<lambda>(body, _).
     and_then (case parse_atom_feed (xml body) of Inl e \<Rightarrow> throw e | Inr m \<Rightarrow> return_ok m) (\<lambda>m.
     and_then (log_row_act env (arxiv_row env log_capability.Metadata ident (length body))) (\<lambda>_.
     return_ok m)))))"

text \<open>The best-effort metadata leg: every failure is \<open>None\<close>.\<close>

definition atom_leg :: "fetch_env \<Rightarrow> (string \<Rightarrow> xml_event list) \<Rightarrow> url \<Rightarrow> arxiv_id \<Rightarrow> json option act" where
  "atom_leg env xml meta_base ident = (case arxiv_metadata_url env meta_base ident of
     None \<Rightarrow> return_ok None
   | Some u \<Rightarrow> catch (fetch_bytes env ''arxiv'' u) (\<lambda>r. return_ok (case r of
       Inl e \<Rightarrow> None
     | Inr (body, _) \<Rightarrow> (case parse_atom_feed (xml body) of Inl e \<Rightarrow> None | Inr m \<Rightarrow> Some m))))"

definition arxiv_fetch ::
  "fetch_env \<Rightarrow> (string \<Rightarrow> xml_event list) \<Rightarrow> url \<Rightarrow> url \<Rightarrow> paper_ref \<Rightarrow> capability_profile \<Rightarrow> fetch_result act" where
  "arxiv_fetch env xml base meta_base r profile = (case r of
     RefDoi _ \<Rightarrow> throw (NotEligible ''arxiv'')
   | RefArxiv ident \<Rightarrow>
     and_then (acquire ''arxiv'') (\<lambda>_.
     and_then (atom_leg env xml meta_base ident) (\<lambda>meta.
     and_then (pace ''arxiv'') (\<lambda>_.
     and_then (ok_or (SourceSchema ''URL construction failed'') (arxiv_pdf_url env base ident)) (\<lambda>u.
     and_then (fetch_pdf env ''arxiv'' u) (\<lambda>(body, final).
     and_then (log_row_act env (arxiv_row env Oa ident (length body))) (\<lambda>_.
     return_ok \<lparr> fr_source = ''arxiv'', fr_license = ''arxiv-default'', fr_pdf_bytes = Some body,
                 fr_final_url = Some final, fr_metadata_json = meta \<rparr>)))))))"

definition arxiv_source :: "fetch_env \<Rightarrow> (string \<Rightarrow> xml_event list) \<Rightarrow> url \<Rightarrow> url \<Rightarrow> source_impl" where
  "arxiv_source env xml base meta_base = \<lparr> src_name = ''arxiv'',
     can_serve = (\<lambda>profile r. \<not> is_doi r),
     src_fetch = arxiv_fetch env xml base meta_base,
     src_fetch_content = default_fetch_content \<rparr>"

subsection \<open>The contract\<close>

lemma arxiv_row_eq: "arxiv_row env cp ident sz =
    fetch_row env ''arxiv'' cp (RefArxiv ident) sz (Some ''arxiv-default'')"
  by (simp add: arxiv_row_def)

lemma atom_leg_own: "performs (own_effect ''arxiv'') (atom_leg env xml meta_base ident)"
  unfolding atom_leg_def by (intro performs_intros, simp_all)

lemma arxiv_fetch_own: "performs (own_effect ''arxiv'') (arxiv_fetch env xml base meta_base r p)"
  by (cases r) (simp_all add: arxiv_fetch_def arxiv_row_eq, intro performs_intros atom_leg_own, simp_all)

lemma arxiv_fetch_Ok:
  "arxiv_fetch env xml base meta_base r p w = (w', Ok a) \<Longrightarrow>
     on_log env ''arxiv'' r w' \<and> fr_source a = ''arxiv'' \<and> fr_pdf_bytes a \<noteq> None"
  by (cases r)
    (auto simp: arxiv_fetch_def act_Ok_simps arxiv_row_eq split: prod.splits dest: log_row_on_log)

lemma arxiv_fetch_paced:
  "arxiv_fetch env xml base meta_base r p w = (w', res) \<Longrightarrow> starts_with_acquire ''arxiv'' w w'"
proof (cases r)
  case (RefArxiv ident)
  assume a: "arxiv_fetch env xml base meta_base r p w = (w', res)"
  have "starts_with_acquire ''arxiv'' w (fst (arxiv_fetch env xml base meta_base r p w))"
    unfolding arxiv_fetch_def RefArxiv paper_ref.case
    by (rule starts_with_acquire_then [where P = "own_effect ''arxiv''"])
      (unfold arxiv_row_eq, intro performs_intros atom_leg_own, simp_all)
  with a show ?thesis by simp
qed (simp add: arxiv_fetch_def throw_def)

interpretation arxiv: source_contract env "arxiv_source env xml base meta_base" "\<lambda>p r. \<not> is_doi r"
  for env xml base meta_base
proof
  fix r p w w' res a
  let ?s = "arxiv_source env xml base meta_base"
  show "performs (own_effect (src_name ?s)) (src_fetch ?s r p)"
    "performs (own_effect (src_name ?s)) (src_fetch_content ?s r p)"
    by (simp_all add: arxiv_source_def arxiv_fetch_own default_fetch_content_def)
  show "\<not> \<not> is_doi r \<Longrightarrow> src_fetch ?s r p = throw (NotEligible (src_name ?s))"
    "\<not> \<not> is_doi r \<Longrightarrow> src_fetch_content ?s r p = return_ok None"
    by (cases r; simp add: arxiv_source_def arxiv_fetch_def is_doi_def default_fetch_content_def)+
  show "src_fetch ?s r p w = (w', res) \<Longrightarrow> starts_with_acquire (src_name ?s) w w'"
    by (simp add: arxiv_source_def arxiv_fetch_paced)
  show "src_fetch ?s r p w = (w', Ok a) \<Longrightarrow> on_log env (src_name ?s) r w' \<and> fr_source a = src_name ?s"
    by (simp add: arxiv_source_def arxiv_fetch_Ok)
qed

text \<open>Both requests of one attempt are paced: between them stands a call of \<^verbatim>\<open>pace\<close>.\<close>

lemma arxiv_requests_are_spaced:
  assumes "arxiv_fetch env xml base meta_base r p w = (w', res)"
  shows "\<exists>es. effects w' = effects w @ es
    \<and> (case filter (\<lambda>e. case e of Append _ _ \<Rightarrow> False | _ \<Rightarrow> True) es of
         [] \<Rightarrow> True
       | [Acquire _, Pace _] \<Rightarrow> True
       | [Acquire _, Request _ _ _ False, Pace _] \<Rightarrow> True
       | [Acquire _, Pace _, Request _ _ _ True] \<Rightarrow> True
       | [Acquire _, Request _ _ _ False, Pace _, Request _ _ _ True] \<Rightarrow> True
       | _ \<Rightarrow> False)"
  using assms
  by (cases r)
    (auto simp: arxiv_fetch_def atom_leg_def acquire_def pace_def and_then_def catch_def throw_def return_ok_def
      fetch_bytes_def fetch_pdf_def fetch_bytes_with_headers_def fetch_pdf_with_headers_def http_get_def
      Let_def ok_or_def log_row_act_def
      split: prod.splits res.splits option.splits sum.splits dest!: log_append_effects)

end
