(* ===== verification/Citation_Graph.thy ===== *)
theory Citation_Graph
  imports Sources
begin

text \<open>
  Citation graph expansion (\<^verbatim>\<open>crates/doiget-core/src/citation_graph.rs\<close>): the caps, the breadth-first walk
  over OpenAlex works and the graph it returns.  The visited \<^verbatim>\<open>HashSet\<close> is a list, the \<^verbatim>\<open>VecDeque\<close> a list
  taken from its front.
\<close>

subsection \<open>Data\<close>

record graph_caps =
  gc_depth :: nat
  gc_total :: nat
  gc_per_paper :: nat

definition MAX_DEPTH :: nat where
  "MAX_DEPTH = 3"

definition MAX_TOTAL :: nat where
  "MAX_TOTAL = 100"

definition MAX_PER_PAPER :: nat where
  "MAX_PER_PAPER = 20"

definition clamped :: "graph_caps \<Rightarrow> graph_caps" where
  "clamped c = \<lparr> gc_depth = min (gc_depth c) MAX_DEPTH, gc_total = min (gc_total c) MAX_TOTAL,
     gc_per_paper = min (gc_per_paper c) MAX_PER_PAPER \<rparr>"

definition default_caps :: graph_caps where
  "default_caps = \<lparr> gc_depth = MAX_DEPTH, gc_total = MAX_TOTAL, gc_per_paper = MAX_PER_PAPER \<rparr>"

record graph_node =
  n_id :: string
  n_depth :: nat

record graph_edge =
  e_from :: string
  e_to :: string

record graph_result =
  seed_work_id :: string
  nodes :: "graph_node list"
  edges :: "graph_edge list"
  truncated :: bool
  total_visited :: nat

text \<open>The mutable variables of \<^verbatim>\<open>expand\<close>.\<close>

record walk =
  w_nodes :: "graph_node list"
  w_edges :: "graph_edge list"
  w_visited :: "string list"
  w_queue :: "(string \<times> nat) list"
  w_truncated :: bool

datatype graph_outcome = GOk graph_result | GErr graph_error | GPanic

subsection \<open>Works\<close>

definition last_segment :: "string \<Rightarrow> string" where
  "last_segment s = rev (takeWhile (\<lambda>c. c \<noteq> CHR ''/'') (rev s))"

definition extract_work_id :: "json \<Rightarrow> string option" where
  "extract_work_id work = map_option last_segment (jstr work [''id''])"

definition extract_referenced_works :: "json \<Rightarrow> string list" where
  "extract_referenced_works work = (case jarray work [''referenced_works''] of
     None \<Rightarrow> []
   | Some arr \<Rightarrow> map last_segment (filter_map as_str arr))"

definition build_openalex_work_url :: "fetch_env \<Rightarrow> string \<Rightarrow> url option" where
  "build_openalex_work_url env work_id =
     Option.bind (url_parse env (or_str (vars env ''DOIGET_OPENALEX_BASE'') ''https://api.openalex.org''))
       (\<lambda>base. url_join env base (''/works/'' @ work_id))"

subsection \<open>The walk\<close>

fun enqueue_loop :: "graph_caps \<Rightarrow> string \<Rightarrow> nat \<Rightarrow> string list \<Rightarrow> walk \<Rightarrow> walk" where
  "enqueue_loop caps parent child_depth [] s = s"
| "enqueue_loop caps parent child_depth (child # refs) s =
     (let edge = \<lparr> e_from = parent, e_to = child \<rparr> in
      if child \<in> set (w_visited s)
      then enqueue_loop caps parent child_depth refs (s\<lparr>w_edges := w_edges s @ [edge]\<rparr>)
      else if gc_total caps \<le> length (w_nodes s) then s\<lparr>w_truncated := True\<rparr>
      else enqueue_loop caps parent child_depth refs
        \<lparr> w_nodes = w_nodes s @ [\<lparr> n_id = child, n_depth = child_depth \<rparr>], w_edges = w_edges s @ [edge],
          w_visited = child # w_visited s, w_queue = w_queue s @ [(child, child_depth)],
          w_truncated = w_truncated s \<rparr>)"

definition enqueue_children :: "graph_caps \<Rightarrow> string \<Rightarrow> string list \<Rightarrow> nat \<Rightarrow> walk \<Rightarrow> walk" where
  "enqueue_children caps parent refs child_depth s =
     enqueue_loop caps parent child_depth (take (gc_per_paper caps) refs)
       (if gc_per_paper caps < length refs then s\<lparr>w_truncated := True\<rparr> else s)"

definition step_row :: "log_result \<Rightarrow> string \<Rightarrow> nat option \<Rightarrow> row_input" where
  "step_row res work_id sz = \<lparr> i_event = Fetch, i_result = res, i_capability = log_capability.Metadata,
     i_ref = Some work_id, i_source = Some ''openalex'', i_error_code = None, i_size_bytes = sz,
     i_license = None, i_store_path = None, i_canonical_digest = None \<rparr>"

definition stop_here :: "walk \<Rightarrow> walk" where
  "stop_here s = s\<lparr>w_truncated := True\<rparr>"

definition walk_measure :: "graph_caps \<Rightarrow> walk \<Rightarrow> nat" where
  "walk_measure caps s = 2 * (gc_total caps - length (w_nodes s)) + length (w_queue s)"

lemma walk_measure_enqueue_loop:
  "walk_measure caps (enqueue_loop caps parent d refs s) \<le> walk_measure caps s"
proof (induction caps parent d refs s rule: enqueue_loop.induct)
  case (2 caps parent d child refs s)
  have less: "Suc (2 * (m - Suc n)) \<le> 2 * (m - n)" if "n < m" for m n :: nat
    using that by arith
  show ?case
    using 2 less [of "length (w_nodes s)" "gc_total caps"]
    by (auto simp: Let_def walk_measure_def not_le elim: le_trans)
qed simp

lemma walk_measure_enqueue:
  "walk_measure caps (enqueue_children caps parent refs d s) \<le> walk_measure caps s"
  using walk_measure_enqueue_loop [of caps parent d "take (gc_per_paper caps) refs" "s\<lparr>w_truncated := True\<rparr>"]
    walk_measure_enqueue_loop [of caps parent d "take (gc_per_paper caps) refs" s]
  by (auto simp: enqueue_children_def walk_measure_def)

lemma walk_measure_stop [simp]: "walk_measure caps (stop_here s) = walk_measure caps s"
  by (simp add: walk_measure_def stop_here_def)

lemma walk_measure_pop: "w_queue s = x # q \<Longrightarrow> walk_measure caps (s\<lparr>w_queue := q\<rparr>) < walk_measure caps s"
  by (simp add: walk_measure_def)

text \<open>The \<^verbatim>\<open>while\<close> loop ends: a step takes one work off the queue, and each work put on it uses up one of the
  nodes the total cap allows.\<close>

function graph_loop :: "fetch_env \<Rightarrow> graph_caps \<Rightarrow> walk \<Rightarrow> world \<Rightarrow> world \<times> (log_error + walk)" where
  "graph_loop env caps s w = (case w_queue s of
     [] \<Rightarrow> (w, Inr s)
   | (work_id, depth) # q \<Rightarrow>
     let s = s\<lparr>w_queue := q\<rparr> in
     if gc_depth caps \<le> depth then graph_loop env caps (stop_here s) w
     else if gc_total caps \<le> length (w_nodes s) then (w, Inr (stop_here s))
     else (case build_openalex_work_url env work_id of
         None \<Rightarrow> graph_loop env caps (stop_here s) w
       | Some u \<Rightarrow>
         (case http_get env False ''openalex'' u [] w of
            (w, Inl e) \<Rightarrow>
              graph_loop env caps (stop_here s) (fst (log_append env (step_row LogErr work_id None) w))
          | (w, Inr (body, _)) \<Rightarrow>
            (case log_append env (step_row LogOk work_id (Some (length body))) w of
               (w, Inl e) \<Rightarrow> (w, Inl e)
             | (w, Inr _) \<Rightarrow>
               (case from_json env body of
                  None \<Rightarrow> graph_loop env caps (stop_here s) w
                | Some work \<Rightarrow>
                    graph_loop env caps
                      (enqueue_children caps work_id (extract_referenced_works work) (depth + 1) s) w)))))"
  by pat_completeness auto
termination
  by (relation "measure (\<lambda>(env, caps, s, w). walk_measure caps s)")
    (auto simp: walk_measure_pop intro: le_less_trans [OF walk_measure_enqueue walk_measure_pop])

declare graph_loop.simps [simp del]

text \<open>\<^verbatim>\<open>expand\<close>.  The walk starts from the seed alone, with its references already put on the queue.\<close>

definition start_walk :: "string \<Rightarrow> walk" where
  "start_walk seed = \<lparr> w_nodes = [\<lparr> n_id = seed, n_depth = 0 \<rparr>], w_edges = [], w_visited = [seed],
     w_queue = [], w_truncated = False \<rparr>"

definition graph_result_of :: "string \<Rightarrow> walk \<Rightarrow> graph_result" where
  "graph_result_of seed s = \<lparr> seed_work_id = seed, nodes = w_nodes s, edges = w_edges s,
     truncated = w_truncated s, total_visited = length (w_nodes s) \<rparr>"

definition expand ::
  "fetch_env \<Rightarrow> doi \<Rightarrow> graph_caps \<Rightarrow> source_impl \<Rightarrow> capability_profile \<Rightarrow> world \<Rightarrow> world \<times> graph_outcome" where
  "expand env seed_doi caps src profile w =
     (if \<not> openalex (capability_profile.metadata profile) then (w, GErr GECapabilityDenied)
      else let caps = clamped caps in
      (case src_fetch src (RefDoi seed_doi) profile w of
         (w, Panic) \<Rightarrow> (w, GPanic)
       | (w, Err e) \<Rightarrow> (w, GErr (GESource e))
       | (w, Ok seed_result) \<Rightarrow>
         (case fr_metadata_json seed_result of
            None \<Rightarrow> (w, GErr SeedNotIndexed)
          | Some seed_work \<Rightarrow>
            (case extract_work_id seed_work of
               None \<Rightarrow> (w, GErr SeedNotIndexed)
             | Some seed \<Rightarrow>
               (case graph_loop env caps
                       (enqueue_children caps seed (extract_referenced_works seed_work) 1 (start_walk seed)) w of
                  (w, Inl e) \<Rightarrow> (w, GErr (GELog e))
                | (w, Inr s) \<Rightarrow> (w, GOk (graph_result_of seed s)))))))"

subsection \<open>The invariant of the walk\<close>

text \<open>Every conjunct holds between two turns of the loop; the queue is always the tail of the node list.\<close>

definition linked :: "graph_node list \<Rightarrow> graph_edge \<Rightarrow> bool" where
  "linked ns e \<longleftrightarrow> (\<exists>a \<in> set ns. \<exists>b \<in> set ns. e_from e = n_id a \<and> e_to e = n_id b \<and> n_depth b \<le> Suc (n_depth a))"

definition has_parent :: "graph_node list \<Rightarrow> graph_edge list \<Rightarrow> graph_node \<Rightarrow> bool" where
  "has_parent ns es n \<longleftrightarrow>
     (\<exists>a \<in> set ns. \<lparr> e_from = n_id a, e_to = n_id n \<rparr> \<in> set es \<and> n_depth n = Suc (n_depth a))"

definition pair_of :: "graph_node \<Rightarrow> string \<times> nat" where
  "pair_of n = (n_id n, n_depth n)"

definition breadth_first :: "string \<Rightarrow> graph_caps \<Rightarrow> graph_node list \<Rightarrow> graph_edge list \<Rightarrow> bool" where
  "breadth_first seed caps ns es \<longleftrightarrow>
     ns \<noteq> [] \<and> hd ns = \<lparr> n_id = seed, n_depth = 0 \<rparr> \<and> distinct (map n_id ns)
     \<and> length ns \<le> max 1 (gc_total caps) \<and> sorted (map n_depth ns)
     \<and> (\<forall>n \<in> set ns. n_depth n \<le> max 1 (gc_depth caps))
     \<and> (\<forall>e \<in> set es. linked ns e) \<and> (\<forall>n \<in> set (tl ns). has_parent ns es n)"

definition walk_inv :: "string \<Rightarrow> graph_caps \<Rightarrow> walk \<Rightarrow> bool" where
  "walk_inv seed caps s \<longleftrightarrow>
     breadth_first seed caps (w_nodes s) (w_edges s) \<and> set (w_visited s) = n_id ` set (w_nodes s)
     \<and> suffix (w_queue s) (map pair_of (w_nodes s))
     \<and> (\<forall>(x, k) \<in> set (w_queue s). \<forall>n \<in> set (w_nodes s). n_depth n \<le> Suc k)"

text \<open>What holds besides while the children of \<open>parent\<close>, at depth \<open>d\<close>, are being put on the queue.\<close>

definition parent_ok :: "graph_caps \<Rightarrow> string \<Rightarrow> nat \<Rightarrow> walk \<Rightarrow> bool" where
  "parent_ok caps parent d s \<longleftrightarrow>
     Suc d \<le> max 1 (gc_depth caps) \<and> \<lparr> n_id = parent, n_depth = d \<rparr> \<in> set (w_nodes s)
     \<and> (\<forall>n \<in> set (w_nodes s). n_depth n \<le> Suc d) \<and> (\<forall>(x, k) \<in> set (w_queue s). d \<le> k)"

lemma linkedI:
  "\<lparr> n_id = parent, n_depth = d \<rparr> \<in> set ns \<Longrightarrow> b \<in> set ns \<Longrightarrow> n_depth b \<le> Suc d
     \<Longrightarrow> linked ns \<lparr> e_from = parent, e_to = n_id b \<rparr>"
  unfolding linked_def by (rule bexI [of _ "\<lparr> n_id = parent, n_depth = d \<rparr>"], rule bexI [of _ b]) simp_all

lemma linked_append [intro]: "linked ns e \<Longrightarrow> linked (ns @ ms) e"
  by (auto simp: linked_def)

lemma has_parent_append [intro]: "has_parent ns es n \<Longrightarrow> has_parent (ns @ ms) (es @ fs) n"
  by (auto simp: has_parent_def)

lemma breadth_first_edge:
  assumes "breadth_first seed caps ns es" and "linked ns e"
  shows "breadth_first seed caps ns (es @ [e])"
  using assms has_parent_append [of ns es _ "[]" "[e]"] by (auto simp: breadth_first_def)

lemma breadth_first_node:
  assumes bf: "breadth_first seed caps ns es" and p: "\<lparr> n_id = parent, n_depth = d \<rparr> \<in> set ns"
    and new: "c \<notin> n_id ` set ns" and room: "length ns < gc_total caps"
    and deep: "Suc d \<le> max 1 (gc_depth caps)" "\<forall>n \<in> set ns. n_depth n \<le> Suc d"
  shows "breadth_first seed caps (ns @ [\<lparr> n_id = c, n_depth = Suc d \<rparr>]) (es @ [\<lparr> e_from = parent, e_to = c \<rparr>])"
proof -
  let ?n = "\<lparr> n_id = c, n_depth = Suc d \<rparr>" and ?e = "\<lparr> e_from = parent, e_to = c \<rparr>"
  from bf have ne: "ns \<noteq> []" by (simp add: breadth_first_def)
  have 1: "\<forall>e \<in> set (es @ [?e]). linked (ns @ [?n]) e"
    using bf p unfolding breadth_first_def linked_def by force
  have "has_parent (ns @ [?n]) (es @ [?e]) ?n" using p unfolding has_parent_def by force
  with bf ne have 2: "\<forall>n \<in> set (tl (ns @ [?n])). has_parent (ns @ [?n]) (es @ [?e]) n"
    by (auto simp: breadth_first_def)
  have 3: "sorted (map n_depth (ns @ [?n]))" "distinct (map n_id (ns @ [?n]))"
    using bf deep new by (auto simp: breadth_first_def sorted_append)
  have 4: "\<forall>n \<in> set (ns @ [?n]). n_depth n \<le> max 1 (gc_depth caps)"
    using bf deep by (auto simp: breadth_first_def)
  have 5: "ns @ [?n] \<noteq> []" "hd (ns @ [?n]) = \<lparr> n_id = seed, n_depth = 0 \<rparr>" "length (ns @ [?n]) \<le> max 1 (gc_total caps)"
    using ne bf room by (simp_all add: breadth_first_def)
  show ?thesis unfolding breadth_first_def by (intro conjI 1 2 3 4 5)
qed

lemma enqueue_loop_inv:
  assumes "walk_inv seed caps s" and "parent_ok caps parent d s"
  shows "walk_inv seed caps (enqueue_loop caps parent (Suc d) refs s)"
  using assms
proof (induction refs arbitrary: s)
  case (Cons child refs)
  let ?e = "\<lparr> e_from = parent, e_to = child \<rparr>" and ?n = "\<lparr> n_id = child, n_depth = Suc d \<rparr>"
  note inv = Cons.prems(1) [unfolded walk_inv_def] and ok = Cons.prems(2) [unfolded parent_ok_def]
  consider (seen) "child \<in> set (w_visited s)"
    | (full) "child \<notin> set (w_visited s)" "gc_total caps \<le> length (w_nodes s)"
    | (new) "child \<notin> set (w_visited s)" "length (w_nodes s) < gc_total caps"
    by fastforce
  then show ?case
  proof cases
    case seen
    with inv obtain b where "b \<in> set (w_nodes s)" "n_id b = child" by auto
    with ok have "linked (w_nodes s) ?e" using linkedI [of parent d "w_nodes s" b] by auto
    with inv have "walk_inv seed caps (s\<lparr>w_edges := w_edges s @ [?e]\<rparr>)"
      by (simp add: walk_inv_def breadth_first_edge)
    moreover from ok have "parent_ok caps parent d (s\<lparr>w_edges := w_edges s @ [?e]\<rparr>)"
      by (simp add: parent_ok_def)
    ultimately show ?thesis using seen Cons.IH by simp
  next
    case full
    with inv show ?thesis by (simp add: walk_inv_def)
  next
    case new
    let ?s = "\<lparr> w_nodes = w_nodes s @ [?n], w_edges = w_edges s @ [?e], w_visited = child # w_visited s,
        w_queue = w_queue s @ [(child, Suc d)], w_truncated = w_truncated s \<rparr>"
    from inv ok new have "breadth_first seed caps (w_nodes s @ [?n]) (w_edges s @ [?e])"
      by (auto intro: breadth_first_node)
    then have "walk_inv seed caps ?s"
      using inv ok by (auto simp: walk_inv_def pair_of_def suffix_def)
    moreover from ok have "parent_ok caps parent d ?s"
      by (auto simp: parent_ok_def)
    ultimately show ?thesis using new Cons.IH by (simp add: Let_def)
  qed
qed simp

lemma enqueue_children_inv:
  assumes "walk_inv seed caps s" and "parent_ok caps parent d s"
  shows "walk_inv seed caps (enqueue_children caps parent refs (Suc d) s)"
  using assms enqueue_loop_inv [of seed caps "s\<lparr>w_truncated := True\<rparr>" parent d]
    enqueue_loop_inv [of seed caps s parent d]
  by (auto simp: enqueue_children_def walk_inv_def parent_ok_def)

text \<open>Taking a work off the queue.\<close>

lemma walk_inv_pop:
  assumes "walk_inv seed caps s" and q: "w_queue s = (x, d) # q"
  shows "walk_inv seed caps (s\<lparr>w_queue := q\<rparr>)"
    and "Suc d \<le> gc_depth caps \<Longrightarrow> parent_ok caps x d (s\<lparr>w_queue := q\<rparr>)"
proof -
  from assms obtain before where split: "map pair_of (w_nodes s) = before @ (x, d) # q"
    by (auto simp: walk_inv_def suffix_def)
  then show "walk_inv seed caps (s\<lparr>w_queue := q\<rparr>)"
    using assms by (auto simp: walk_inv_def suffix_def intro: exI [of _ "before @ [(x, d)]"])
  have "(x, d) \<in> set (map pair_of (w_nodes s))" by (simp add: split)
  then have "\<lparr> n_id = x, n_depth = d \<rparr> \<in> set (w_nodes s)"
    by (auto simp: pair_of_def) (metis graph_node.surjective old.unit.exhaust)
  moreover have "map n_depth (w_nodes s) = map snd before @ d # map snd q"
    using arg_cong [OF split, of "map snd"] by (simp add: pair_of_def comp_def)
  then have "\<forall>k \<in> set (map snd q). d \<le> k"
    using assms by (auto simp: walk_inv_def breadth_first_def sorted_append)
  ultimately show "Suc d \<le> gc_depth caps \<Longrightarrow> parent_ok caps x d (s\<lparr>w_queue := q\<rparr>)"
    using assms by (auto simp: parent_ok_def walk_inv_def)
qed

lemma walk_inv_stop [simp]: "walk_inv seed caps (stop_here s) \<longleftrightarrow> walk_inv seed caps s"
  by (simp add: walk_inv_def stop_here_def)

lemma walk_inv_start: "walk_inv seed caps (start_walk seed)" "parent_ok caps seed 0 (start_walk seed)"
  by (simp_all add: walk_inv_def breadth_first_def start_walk_def parent_ok_def pair_of_def suffix_def)

text \<open>Besides, a work is expanded at most once, and then gives at most \<^verbatim>\<open>per_paper\<close> edges.\<close>

definition out_edges :: "graph_edge list \<Rightarrow> string \<Rightarrow> graph_edge list" where
  "out_edges es x = filter (\<lambda>e. e_from e = x) es"

definition unexpanded :: "string \<Rightarrow> walk \<Rightarrow> bool" where
  "unexpanded parent s \<longleftrightarrow> (\<forall>(x, k) \<in> set (w_queue s). x \<noteq> parent \<and> out_edges (w_edges s) x = [])"

definition graph_inv :: "string \<Rightarrow> graph_caps \<Rightarrow> walk \<Rightarrow> bool" where
  "graph_inv seed caps s \<longleftrightarrow> walk_inv seed caps s
     \<and> (\<forall>x. length (out_edges (w_edges s) x) \<le> gc_per_paper caps)
     \<and> (\<forall>(x, k) \<in> set (w_queue s). out_edges (w_edges s) x = [])"

lemma out_edges_append [simp]: "out_edges (es @ fs) x = out_edges es x @ out_edges fs x"
  by (simp add: out_edges_def)

lemma out_edges_single [simp]: "out_edges [\<lparr> e_from = p, e_to = c \<rparr>] x = (if p = x then [\<lparr> e_from = p, e_to = c \<rparr>] else [])"
  by (simp add: out_edges_def)

lemma out_edges_unvisited:
  "walk_inv seed caps s \<Longrightarrow> c \<notin> set (w_visited s) \<Longrightarrow> out_edges (w_edges s) c = []"
  by (auto simp: walk_inv_def breadth_first_def linked_def out_edges_def filter_empty_conv)

lemma enqueue_loop_fanout:
  assumes "walk_inv seed caps s" and "parent_ok caps parent d s" and "unexpanded parent s"
    and "t = enqueue_loop caps parent (Suc d) refs s"
  shows "unexpanded parent t
    \<and> (\<forall>x. length (out_edges (w_edges t) x)
          \<le> length (out_edges (w_edges s) x) + (if x = parent then length refs else 0))"
  using assms
proof (induction refs arbitrary: s)
  case (Cons child refs)
  let ?e = "\<lparr> e_from = parent, e_to = child \<rparr>" and ?n = "\<lparr> n_id = child, n_depth = Suc d \<rparr>"
  note one = enqueue_loop_inv [OF Cons.prems(1,2), of "[child]"]
  from Cons.prems(1,2) have "parent \<in> set (w_visited s)"
    using imageI [of "\<lparr> n_id = parent, n_depth = d \<rparr>" "set (w_nodes s)" n_id]
    by (simp add: walk_inv_def parent_ok_def)
  then have other: "child \<notin> set (w_visited s) \<Longrightarrow> child \<noteq> parent" by auto
  show ?case
  proof (cases "child \<in> set (w_visited s)")
    case True
    let ?s = "s\<lparr>w_edges := w_edges s @ [?e]\<rparr>"
    from True Cons.prems one have "walk_inv seed caps ?s" "parent_ok caps parent d ?s" "unexpanded parent ?s"
      by (auto simp: parent_ok_def unexpanded_def)
    from Cons.IH [OF this] True Cons.prems(4) show ?thesis
      by (fastforce split: if_splits)
  next
    case False
    note new = False other [OF False] out_edges_unvisited [OF Cons.prems(1) False]
    let ?s = "\<lparr> w_nodes = w_nodes s @ [?n], w_edges = w_edges s @ [?e], w_visited = child # w_visited s,
        w_queue = w_queue s @ [(child, Suc d)], w_truncated = w_truncated s \<rparr>"
    show ?thesis
    proof (cases "gc_total caps \<le> length (w_nodes s)")
      case True
      with new Cons.prems show ?thesis by (simp add: unexpanded_def)
    next
      case room: False
      with new Cons.prems one have "walk_inv seed caps ?s" "parent_ok caps parent d ?s" "unexpanded parent ?s"
        by (auto simp: parent_ok_def unexpanded_def Let_def)
      from Cons.IH [OF this] room new Cons.prems(4) show ?thesis
        by (fastforce simp: Let_def split: if_splits)
    qed
  qed
qed simp

lemma enqueue_children_graph_inv:
  assumes "graph_inv seed caps s" and ok: "parent_ok caps parent d s"
    and un: "unexpanded parent s" "out_edges (w_edges s) parent = []"
  shows "graph_inv seed caps (enqueue_children caps parent refs (Suc d) s)"
proof -
  let ?s = "if gc_per_paper caps < length refs then s\<lparr>w_truncated := True\<rparr> else s"
  let ?t = "enqueue_loop caps parent (Suc d) (take (gc_per_paper caps) refs) ?s"
  have s: "walk_inv seed caps ?s" "parent_ok caps parent d ?s" "unexpanded parent ?s"
      "w_edges ?s = w_edges s"
    using assms by (simp_all add: graph_inv_def walk_inv_def parent_ok_def unexpanded_def)
  note f = enqueue_loop_fanout [OF s(1-3) refl, of "take (gc_per_paper caps) refs"]
  have "length (out_edges (w_edges ?t) x) \<le> gc_per_paper caps" for x
    using f assms(1) un(2) s(4)
    by (cases "x = parent") (fastforce simp: graph_inv_def dest: spec [of _ x] intro: order_trans)+
  moreover from f have "\<forall>(x, k) \<in> set (w_queue ?t). out_edges (w_edges ?t) x = []"
    by (auto simp: unexpanded_def)
  ultimately show ?thesis
    using enqueue_loop_inv [OF s(1,2)] by (simp add: graph_inv_def enqueue_children_def)
qed

lemma graph_inv_pop:
  assumes inv: "graph_inv seed caps s" and q: "w_queue s = (x, d) # q"
  shows "graph_inv seed caps (s\<lparr>w_queue := q\<rparr>)" and "unexpanded x (s\<lparr>w_queue := q\<rparr>)"
    and "out_edges (w_edges s) x = []"
proof -
  show "graph_inv seed caps (s\<lparr>w_queue := q\<rparr>)" and e: "out_edges (w_edges s) x = []"
    using inv q walk_inv_pop [of seed caps s x d q] by (auto simp: graph_inv_def)
  from inv q obtain before where "map pair_of (w_nodes s) = before @ (x, d) # q"
    by (auto simp: graph_inv_def walk_inv_def suffix_def)
  then have "map fst (map pair_of (w_nodes s)) = map fst before @ x # map fst q" by simp
  moreover have "distinct (map fst (map pair_of (w_nodes s)))"
    using inv by (simp add: graph_inv_def walk_inv_def breadth_first_def pair_of_def comp_def)
  ultimately have "x \<notin> set (map fst q)" by auto
  then show "unexpanded x (s\<lparr>w_queue := q\<rparr>)"
    using inv q by (force simp: unexpanded_def graph_inv_def)
qed

lemma graph_inv_stop [simp]: "graph_inv seed caps (stop_here s) \<longleftrightarrow> graph_inv seed caps s"
  by (simp add: graph_inv_def) (simp add: stop_here_def)

lemma graph_loop_inv:
  "graph_inv seed caps s \<Longrightarrow> graph_loop env caps s w = (w', Inr t) \<Longrightarrow> graph_inv seed caps t"
proof (induction s arbitrary: w rule: measure_induct_rule [of "walk_measure caps"])
  case (less s)
  show ?case
  proof (cases "w_queue s")
    case Nil
    with less show ?thesis by (simp add: graph_loop.simps [of env caps s])
  next
    case (Cons x q)
    obtain i d where x: "x = (i, d)" by fastforce
    note pop = graph_inv_pop [OF less.prems(1) Cons [unfolded x]]
    have ok: "Suc d \<le> gc_depth caps \<Longrightarrow> parent_ok caps i d (s\<lparr>w_queue := q\<rparr>)"
      by (rule walk_inv_pop(2) [OF less.prems(1) [unfolded graph_inv_def, THEN conjunct1] Cons [unfolded x]])
    have expand: "Suc d \<le> gc_depth caps
        \<Longrightarrow> graph_inv seed caps (enqueue_children caps i refs (Suc d) (s\<lparr>w_queue := q\<rparr>))" for refs
      using enqueue_children_graph_inv [OF pop(1) ok pop(2)] pop(3) by simp
    note smaller = walk_measure_pop [OF Cons, of caps]
    from less.prems(2) pop(1) Cons x smaller show ?thesis
      by (subst (asm) graph_loop.simps)
        (auto simp: Let_def split: if_splits option.splits prod.splits sum.splits
          intro: expand le_less_trans [OF walk_measure_enqueue smaller] elim!: less.IH [rotated 2])
  qed
qed

lemma graph_inv_start: "graph_inv seed caps (enqueue_children caps seed refs 1 (start_walk seed))"
proof -
  have "graph_inv seed caps (start_walk seed)" "unexpanded seed (start_walk seed)"
      "out_edges (w_edges (start_walk seed)) seed = []"
    using walk_inv_start(1) by (simp_all add: graph_inv_def unexpanded_def) (simp_all add: start_walk_def out_edges_def)
  from enqueue_children_graph_inv [OF this(1) walk_inv_start(2) this(2,3)] show ?thesis by simp
qed

text \<open>What \<open>expand\<close> returns is such a walk.\<close>

lemma expand_GOk:
  assumes "expand env doi caps src profile w = (w', GOk g)"
  shows "openalex (capability_profile.metadata profile)"
    and "breadth_first (seed_work_id g) (clamped caps) (nodes g) (edges g)"
    and "total_visited g = length (nodes g)"
    and "length (out_edges (edges g) x) \<le> gc_per_paper (clamped caps)"
proof -
  from assms show "openalex (capability_profile.metadata profile)"
    by (auto simp: expand_def split: if_splits)
  from assms obtain seed refs v s
    where loop: "graph_loop env (clamped caps) (enqueue_children (clamped caps) seed refs 1 (start_walk seed)) v = (w', Inr s)"
      and g: "g = graph_result_of seed s"
    by (auto simp: expand_def Let_def split: if_splits prod.splits res.splits option.splits sum.splits)
  note inv = graph_loop_inv [OF graph_inv_start loop]
  show "breadth_first (seed_work_id g) (clamped caps) (nodes g) (edges g)" "total_visited g = length (nodes g)"
      "length (out_edges (edges g) x) \<le> gc_per_paper (clamped caps)"
    using inv g by (simp_all add: graph_inv_def walk_inv_def graph_result_of_def)
qed

text \<open>In such a graph the recorded depth is the distance.\<close>

definition cites :: "graph_edge list \<Rightarrow> (string \<times> string) set" where
  "cites es = (\<lambda>e. (e_from e, e_to e)) ` set es"

lemma breadth_first_split: "breadth_first seed caps ns es \<Longrightarrow> ns = \<lparr> n_id = seed, n_depth = 0 \<rparr> # tl ns"
  unfolding breadth_first_def by (metis list.collapse)

lemma breadth_first_reaches:
  assumes bf: "breadth_first seed caps ns es"
  shows "n \<in> set ns \<Longrightarrow> (seed, n_id n) \<in> cites es ^^ n_depth n"
proof (induction "n_depth n" arbitrary: n)
  case 0
  with bf have "n = \<lparr> n_id = seed, n_depth = 0 \<rparr>"
    using breadth_first_split [OF bf] unfolding breadth_first_def has_parent_def
    by (metis nat.distinct(1) set_ConsD)
  then show ?case by simp
next
  case (Suc d)
  then have "n \<in> set (tl ns)"
    using breadth_first_split [OF bf] by (metis graph_node.select_convs(2) nat.distinct(1) set_ConsD)
  with bf obtain a where a: "a \<in> set ns" "n_depth n = Suc (n_depth a)" "\<lparr> e_from = n_id a, e_to = n_id n \<rparr> \<in> set es"
    by (auto simp: breadth_first_def has_parent_def)
  then have "(n_id a, n_id n) \<in> cites es" unfolding cites_def by force
  with Suc a show ?case by auto
qed

lemma breadth_first_shortest:
  assumes bf: "breadth_first seed caps ns es"
  shows "n \<in> set ns \<Longrightarrow> (seed, n_id n) \<in> cites es ^^ k \<Longrightarrow> n_depth n \<le> k"
proof (induction k arbitrary: n)
  case 0
  have "distinct (map n_id ns)" using bf by (simp add: breadth_first_def)
  moreover have "\<lparr> n_id = seed, n_depth = 0 \<rparr> \<in> set ns"
    using breadth_first_split [OF bf] by (metis list.set_intros(1))
  ultimately have "n = \<lparr> n_id = seed, n_depth = 0 \<rparr>" using 0 by (auto simp: distinct_map inj_on_def)
  then show ?case by simp
next
  case (Suc k)
  then obtain y where y: "(seed, y) \<in> cites es ^^ k" "(y, n_id n) \<in> cites es" by auto
  with bf obtain a b where ab: "a \<in> set ns" "b \<in> set ns" "n_id a = y" "n_id b = n_id n" "n_depth b \<le> Suc (n_depth a)"
    unfolding breadth_first_def linked_def cites_def by fastforce
  moreover have "b = n" using ab Suc.prems bf by (auto simp: breadth_first_def distinct_map inj_on_def)
  ultimately show ?case using Suc.IH [of a] y by fastforce
qed

text \<open>C13: The depth of a work in the returned citation graph is its distance from the seed.  For every node
  there is a path of exactly that many returned edges from the seed to it, and no shorter one: the walk
  really is breadth-first, for every seed, every combination of caps, and whatever the provider answers
  (cycles, duplicated references, failed requests, bodies that are not JSON).\<close>

theorem graph_depth_is_distance:
  assumes "expand env doi caps src profile w = (w', GOk g)" and "n \<in> set (nodes g)"
  shows "(seed_work_id g, n_id n) \<in> cites (edges g) ^^ n_depth n
    \<and> (\<forall>k. (seed_work_id g, n_id n) \<in> cites (edges g) ^^ k \<longrightarrow> n_depth n \<le> k)"
  using breadth_first_reaches breadth_first_shortest expand_GOk(2) [OF assms(1)] assms(2) by blast

definition demo_work :: json where
  "demo_work = JObject [(''id'', JString ''https://openalex.org/W1''),
     (''referenced_works'', JArray [JString ''https://openalex.org/W2'', JString ''https://openalex.org/W1'',
        JString ''https://openalex.org/W3'', JString ''https://openalex.org/W2''])]"

definition demo_source :: source_impl where
  "demo_source = \<lparr> src_name = ''openalex'', can_serve = (\<lambda>p r. True),
     src_fetch = (\<lambda>r p. return_ok \<lparr> fr_source = ''openalex'', fr_license = ''unknown'', fr_pdf_bytes = None,
                     fr_final_url = None, fr_metadata_json = Some demo_work \<rparr>),
     src_fetch_content = default_fetch_content \<rparr>"

definition demo_graph :: graph_result where
  "demo_graph = \<lparr> seed_work_id = ''W1'',
     nodes = [\<lparr> n_id = ''W1'', n_depth = 0 \<rparr>, \<lparr> n_id = ''W2'', n_depth = 1 \<rparr>, \<lparr> n_id = ''W3'', n_depth = 1 \<rparr>],
     edges = [\<lparr> e_from = ''W1'', e_to = ''W2'' \<rparr>, \<lparr> e_from = ''W1'', e_to = ''W1'' \<rparr>,
              \<lparr> e_from = ''W1'', e_to = ''W3'' \<rparr>, \<lparr> e_from = ''W1'', e_to = ''W2'' \<rparr>],
     truncated = True, total_visited = 3 \<rparr>"

lemma demo_expand:
  assumes "openalex (capability_profile.metadata p)" and "gc_depth caps \<le> 1" and "gc_total caps = 9"
    and "gc_per_paper caps = 9"
  shows "expand env doi caps demo_source p w = (w, GOk demo_graph)"
proof -
  have loop: "graph_loop env c s w = (w, Inr (s\<lparr>w_queue := [], w_truncated := w_queue s \<noteq> [] \<or> w_truncated s\<rparr>))"
    if "\<forall>(x, d) \<in> set (w_queue s). gc_depth c \<le> d" for c s
    using that
  proof (induction "w_queue s" arbitrary: s)
    case Nil
    then show ?case by (cases s) (simp add: graph_loop.simps)
  next
    case (Cons x q)
    obtain i d where x: "x = (i, d)" by fastforce
    note q = Cons.hyps(2) [symmetric, unfolded x]
    with Cons.prems have "graph_loop env c s w = graph_loop env c (stop_here (s\<lparr>w_queue := q\<rparr>)) w"
      by (subst graph_loop.simps) simp
    with q Cons.prems Cons.hyps(1) [of "stop_here (s\<lparr>w_queue := q\<rparr>)"] show ?case
      by (simp add: stop_here_def)
  qed
  show ?thesis
    using assms
    by (simp add: expand_def demo_source_def return_ok_def demo_work_def extract_work_id_def jstr_def jget_def
        as_str_def last_segment_def extract_referenced_works_def jarray_def as_array_def filter_map_def
        enqueue_children_def start_walk_def loop clamped_def MAX_DEPTH_def MAX_TOTAL_def MAX_PER_PAPER_def
        graph_result_of_def demo_graph_def Let_def)
qed

theorem graph_depth_is_distance_witness:
  "(''W1'', ''W3'') \<in> cites (edges demo_graph) ^^ 1"
proof -
  obtain p :: capability_profile where p: "openalex (capability_profile.metadata p)"
    by (metis capability_profile.select_convs(1) metadata_access.select_convs(1))
  have n: "\<lparr> n_id = ''W3'', n_depth = 1 \<rparr> \<in> set (nodes demo_graph)"
    by (simp add: demo_graph_def)
  from graph_depth_is_distance [OF demo_expand [OF p, of "\<lparr> gc_depth = 1, gc_total = 9, gc_per_paper = 9 \<rparr>"] n]
  show ?thesis by (simp add: demo_graph_def)
qed

text \<open>C17: The hard caps hold whatever the caller asks for: at most 100 works, no work twice, none deeper
  than 3, at most 20 references followed per work, listed by increasing depth from the seed, every edge
  between two listed works, and \<^verbatim>\<open>total_visited\<close> the number of nodes.  A smaller request is honoured, down to the seed itself and one
  level of references.\<close>

theorem graph_caps_hold:
  assumes "expand env doi caps src profile w = (w', GOk g)"
  shows "length (nodes g) \<le> 100 \<and> length (nodes g) \<le> max 1 (gc_total caps) \<and> total_visited g = length (nodes g)
    \<and> distinct (map n_id (nodes g)) \<and> sorted (map n_depth (nodes g))
    \<and> hd (nodes g) = \<lparr> n_id = seed_work_id g, n_depth = 0 \<rparr>
    \<and> (\<forall>n \<in> set (nodes g). n_depth n \<le> 3 \<and> n_depth n \<le> max 1 (gc_depth caps))
    \<and> (\<forall>x. length (out_edges (edges g) x) \<le> min 20 (gc_per_paper caps))
    \<and> (\<forall>e \<in> set (edges g). {e_from e, e_to e} \<subseteq> n_id ` set (nodes g))"
proof -
  note bf = expand_GOk(2) [OF assms, unfolded breadth_first_def clamped_def MAX_DEPTH_def MAX_TOTAL_def, simplified]
  then have "\<forall>e \<in> set (edges g). {e_from e, e_to e} \<subseteq> n_id ` set (nodes g)"
    unfolding linked_def by fastforce
  moreover have "\<forall>x. length (out_edges (edges g) x) \<le> min 20 (gc_per_paper caps)"
    using expand_GOk(4) [OF assms] by (simp add: clamped_def MAX_PER_PAPER_def min.commute)
  ultimately show ?thesis using bf expand_GOk(3) [OF assms] by auto
qed

theorem graph_caps_hold_witness:
  "length (nodes demo_graph) \<le> 100 \<and> total_visited demo_graph = length (nodes demo_graph)"
proof -
  obtain p :: capability_profile where p: "openalex (capability_profile.metadata p)"
    by (metis capability_profile.select_convs(1) metadata_access.select_convs(1))
  from graph_caps_hold [OF demo_expand [OF p, of "\<lparr> gc_depth = 0, gc_total = 9, gc_per_paper = 9 \<rparr>"]]
  show ?thesis by simp
qed

text \<open>
  The comments say that a depth of 0 asks for the seed alone.  It does not: the seed's references are put
  on the node list before the loop compares any depth.
\<close>

lemma depth_zero_still_lists_references:
  assumes "openalex (capability_profile.metadata p)"
  shows "\<exists>n \<in> set (nodes demo_graph). n_depth n = 1
    \<and> expand env doi \<lparr> gc_depth = 0, gc_total = 9, gc_per_paper = 9 \<rparr> demo_source p w = (w, GOk demo_graph)"
  using demo_expand [OF assms] by (simp add: demo_graph_def)

subsection \<open>What the walk touches\<close>

definition graph_effect :: "effect \<Rightarrow> bool" where
  "graph_effect e = (case e of
     Acquire n \<Rightarrow> n = ''openalex'' | Pace n \<Rightarrow> n = ''openalex'' | Request n _ _ _ \<Rightarrow> n = ''openalex''
   | Append i _ \<Rightarrow> i_source i = Some ''openalex'' \<and> i_event i = Fetch)"

text \<open>The loop itself only requests and logs: it never waits for the rate limiter.\<close>

definition loop_effect :: "effect \<Rightarrow> bool" where
  "loop_effect e = (case e of
     Acquire _ \<Rightarrow> False | Pace _ \<Rightarrow> False | Request n _ hs pdf \<Rightarrow> n = ''openalex'' \<and> hs = [] \<and> \<not> pdf
   | Append i _ \<Rightarrow> i_source i = Some ''openalex'' \<and> i_event i = Fetch)"

lemma loop_effect_simps [simp]:
  "loop_effect (Request ''openalex'' u [] False)" "loop_effect (Append (step_row res x sz) b)"
  by (simp_all add: loop_effect_def step_row_def)

lemma own_is_graph_effect: "own_effect ''openalex'' e \<Longrightarrow> graph_effect e"
  by (cases e) (simp_all add: own_effect_def graph_effect_def)

lemma loop_is_graph_effect: "loop_effect e \<Longrightarrow> graph_effect e"
  by (cases e) (simp_all add: loop_effect_def graph_effect_def)

lemma adds_log_append: "(\<And>b. P (Append i b)) \<Longrightarrow> log_append env i w = (w', r) \<Longrightarrow> adds P w w'"
  by (auto simp: adds_def dest: log_append_effects)

lemma graph_loop_effects: "adds loop_effect w (fst (graph_loop env caps s w))"
proof (induction s arbitrary: w rule: measure_induct_rule [of "walk_measure caps"])
  case (less s)
  show ?case
  proof (cases "w_queue s")
    case Nil
    then show ?thesis by (simp add: graph_loop.simps [of env caps s])
  next
    case (Cons x q)
    obtain work_id d where x: "x = (work_id, d)" by fastforce
    note smaller = walk_measure_pop [OF Cons, of caps]
    have http: "http_get env False ''openalex'' u [] w = (v, r) \<Longrightarrow> adds loop_effect w v" for u v r
      by (rule adds_http_get) simp_all
    have log: "log_append env (step_row res i sz) v = (v', r) \<Longrightarrow> adds loop_effect v v'" for res i sz v v' r
      by (erule adds_log_append [rotated]) simp
    have log': "adds loop_effect v (fst (log_append env (step_row res i sz) v))" for res i sz v
      by (metis log prod.collapse)
    have later: "adds loop_effect w (fst (graph_loop env caps t v))"
      if "walk_measure caps t < walk_measure caps s" "adds loop_effect w v" for t v
      using that less.IH adds_trans by blast
    show ?thesis
      unfolding graph_loop.simps [of env caps s w]
      using Cons x smaller
      by (auto simp: Let_def split: if_splits option.splits prod.splits sum.splits
          intro!: later le_less_trans [OF walk_measure_enqueue smaller]
          intro: adds_trans [OF http log] adds_trans [OF http log'] http)
  qed
qed

text \<open>Citation expansion talks to OpenAlex and to nobody else, and only when it is enabled.  Everything
  it adds to the trace is a wait, a request or a fetch row of the \<^verbatim>\<open>openalex\<close> key; nothing at all is added
  when the metadata capability is off; and the store is never touched.\<close>

theorem graph_only_talks_to_openalex:
  "adds (\<lambda>e. openalex (capability_profile.metadata profile) \<and> graph_effect e) w
     (fst (expand env doi caps (openalex_source env base email) profile w))"
proof (cases "openalex (capability_profile.metadata profile)")
  case True
  let ?src = "openalex_source env base email"
  obtain v r where f: "src_fetch ?src (RefDoi doi) profile w = (v, r)" by fastforce
  have "performs (own_effect ''openalex'') (src_fetch ?src (RefDoi doi) profile)"
    using openalex.own [of env base email "RefDoi doi" profile] by (simp add: openalex_source_def)
  from performsD [OF this f] have v: "adds graph_effect w v"
    by (rule adds_mono) (rule own_is_graph_effect)
  have "adds graph_effect w (fst (graph_loop env c s v))" for c s
    by (rule adds_trans [OF v adds_mono [OF graph_loop_effects]]) (rule loop_is_graph_effect)
  then have "adds graph_effect w v'" if "graph_loop env c s v = (v', x)" for c s v' x
    using that by (metis fst_conv)
  with True f v show ?thesis
    by (auto simp: expand_def Let_def split: res.splits option.splits prod.splits sum.splits)
qed (simp add: expand_def)

end
