(* ===== verification/Orch_Env.thy ===== *)
theory Orch_Env
  imports Arxiv
begin

text \<open>
  What the resolution of one reference is given besides its reference and profile: the fetch context, the
  store, the environment variables and configuration file, and the library functions it calls.  Then the
  constructors that read the environment (\<^verbatim>\<open>crates/doiget-core/src/orchestrator.rs\<close>, first part), and the
  claim every later theory makes of its operations: which effects they may add to the trace.

  A staged PDF is a temporary file; \<open>Unstageable\<close> is a temporary directory whose path is not UTF-8, which
  the code handles as a case of its own.
\<close>

datatype staged = StageFailed | Unstageable | StagedAt string

record orch_env =
  fe :: fetch_env
  uni :: unicode
  char_lower :: "string \<Rightarrow> string"
  str_lower :: "string \<Rightarrow> string"
  xml_events :: "string \<Rightarrow> xml_event list"
  const_url :: "string \<Rightarrow> url"
  set_path_str :: "url \<Rightarrow> string \<Rightarrow> url"
  rfc3339_year :: "string \<Rightarrow> int option"
  now_text :: "effect list \<Rightarrow> string"
  rfc_text :: "nat \<Rightarrow> string"
  error_text :: "fetch_error \<Rightarrow> string"
  location_text :: "json \<Rightarrow> string"
  file_contact :: "string option"
  file_unpaywall :: "string option"
  utc_text :: "string \<Rightarrow> string option"
  other_toml :: "doc_line list \<Rightarrow> toml_table option"
  the_store :: fs_store
  store_io :: "effect list \<Rightarrow> io_env"
  staging :: "effect list \<Rightarrow> staged"

subsection \<open>Contacts and base URLs\<close>

definition FALLBACK_CONTACT_EMAIL :: string where
  "FALLBACK_CONTACT_EMAIL = ''doiget@localhost''"

definition env_nonempty :: "orch_env \<Rightarrow> string \<Rightarrow> string option" where
  "env_nonempty env key = (case vars (fe env) key of
     None \<Rightarrow> None | Some s \<Rightarrow> if str_trim s = [] then None else Some s)"

definition configured_contact_email :: "orch_env \<Rightarrow> string option" where
  "configured_contact_email env = opt_else (env_nonempty env ''DOIGET_CONTACT_EMAIL'') (file_contact env)"

definition resolve_contact_email :: "orch_env \<Rightarrow> string" where
  "resolve_contact_email env = or_str (configured_contact_email env) FALLBACK_CONTACT_EMAIL"

text \<open>The Crossref and the Unpaywall address.\<close>

definition resolve_contact_emails :: "orch_env \<Rightarrow> string \<times> string" where
  "resolve_contact_emails env =
     (let env_contact = env_nonempty env ''DOIGET_CONTACT_EMAIL'';
          env_unpaywall = env_nonempty env ''DOIGET_UNPAYWALL_EMAIL'' in
      case (env_contact, env_unpaywall) of
        (Some c, Some u) \<Rightarrow> (c, u)
      | _ \<Rightarrow>
          let c = or_str (opt_else env_contact (file_contact env)) FALLBACK_CONTACT_EMAIL in
          (c, or_str (opt_else env_unpaywall (file_unpaywall env)) c))"

definition optional_base :: "orch_env \<Rightarrow> string \<Rightarrow> url option" where
  "optional_base env key = Option.bind (vars (fe env) key) (url_parse (fe env))"

definition base_or :: "orch_env \<Rightarrow> string \<Rightarrow> string \<Rightarrow> url" where
  "base_or env key dflt = (case optional_base env key of Some u \<Rightarrow> u | None \<Rightarrow> const_url env dflt)"

definition arxiv_source_from_env :: "orch_env \<Rightarrow> source_impl" where
  "arxiv_source_from_env env =
     arxiv_source (fe env) (xml_events env) (base_or env ''DOIGET_ARXIV_BASE'' ''https://arxiv.org'')
       (base_or env ''DOIGET_ARXIV_BASE'' ''https://export.arxiv.org'')"

definition crossref_source_from_env :: "orch_env \<Rightarrow> source_impl" where
  "crossref_source_from_env env =
     crossref_source (fe env) (base_or env ''DOIGET_CROSSREF_BASE'' ''https://api.crossref.org'')"

definition unpaywall_source_from_env :: "orch_env \<Rightarrow> string \<Rightarrow> source_impl" where
  "unpaywall_source_from_env env contact =
     unpaywall_source (fe env) (base_or env ''DOIGET_UNPAYWALL_BASE'' ''https://api.unpaywall.org/v2'') contact"

subsection \<open>The effects an operation may add\<close>

text \<open>As \<open>adds\<close> and \<open>performs\<close>, but the store may change.\<close>

definition emits :: "(effect \<Rightarrow> bool) \<Rightarrow> 'a act \<Rightarrow> bool" where
  "emits P m \<longleftrightarrow> (\<forall>w. \<exists>es. effects (fst (m w)) = effects w @ es \<and> list_all P es)"

named_theorems emits_intros

lemma emitsD: "emits P m \<Longrightarrow> m w = (w', r) \<Longrightarrow> \<exists>es. effects w' = effects w @ es \<and> list_all P es"
  unfolding emits_def by (metis fst_conv)

lemma emits_performs: "performs P m \<Longrightarrow> emits P m"
  by (auto simp: performs_def emits_def adds_def)

lemma emits_seq:
  assumes m: "m w = (v, r)" and "emits P m" and "\<exists>es. effects w' = effects v @ es \<and> list_all P es"
  shows "\<exists>es. effects w' = effects w @ es \<and> list_all P es"
  using emitsD [OF assms(2) m] assms(3) by auto

lemma emits_and_then [emits_intros]:
  assumes "emits P m" and "\<And>a. emits P (f a)"
  shows "emits P (and_then m f)"
proof -
  have "\<exists>es. effects (fst (and_then m f w)) = effects w @ es \<and> list_all P es" for w
  proof (cases "m w")
    case (Pair v r)
    show ?thesis
      by (rule emits_seq [OF Pair assms(1)])
        (cases r; use assms(2) Pair in \<open>simp add: and_then_def emits_def\<close>)
  qed
  then show ?thesis by (simp add: emits_def)
qed

lemma emits_catch [emits_intros]:
  assumes "emits P m" and "\<And>a. emits P (f a)"
  shows "emits P (catch m f)"
proof -
  have "\<exists>es. effects (fst (catch m f w)) = effects w @ es \<and> list_all P es" for w
  proof (cases "m w")
    case (Pair v r)
    show ?thesis
      by (rule emits_seq [OF Pair assms(1)])
        (cases r; use assms(2) Pair in \<open>simp add: catch_def emits_def\<close>)
  qed
  then show ?thesis by (simp add: emits_def)
qed

lemma emits_splits [emits_intros]:
  "(\<And>a b. emits P (f a b)) \<Longrightarrow> emits P (case x of (a, b) \<Rightarrow> f a b)"
  "(b \<Longrightarrow> emits P m) \<Longrightarrow> (\<not> b \<Longrightarrow> emits P m') \<Longrightarrow> emits P (if b then m else m')"
  "emits P n \<Longrightarrow> (\<And>a. emits P (s a)) \<Longrightarrow> emits P (case o' of None \<Rightarrow> n | Some a \<Rightarrow> s a)"
  "(\<And>e. emits P (l e)) \<Longrightarrow> (\<And>a. emits P (g a)) \<Longrightarrow> emits P (case sm of Inl e \<Rightarrow> l e | Inr a \<Rightarrow> g a)"
  by (simp_all split: prod.split option.split sum.split)

lemma emits_pure [emits_intros, simp]:
  "emits P (return_ok a)" "emits P (throw e)" "emits P (lift r)" "emits P (ok_or e v)"
  by (auto intro: emits_performs)

lemma performs_catch_Ok:
  "catch m f w = (w', Ok b) \<longleftrightarrow> (\<exists>v a. m w = (v, Ok a) \<and> f (Inr a) v = (w', Ok b))
     \<or> (\<exists>v e. m w = (v, Err e) \<and> f (Inl e) v = (w', Ok b))"
  by (auto simp: catch_def split: prod.split res.split)

lemma catch_simps [simp]:
  "m w = (w', Ok a) \<Longrightarrow> catch m f w = f (Inr a) w'"
  "m w = (w', Err e) \<Longrightarrow> catch m f w = f (Inl e) w'"
  "m w = (w', Panic) \<Longrightarrow> catch m f w = (w', Panic)"
  by (simp_all add: catch_def)

subsection \<open>Which effects a profile permits\<close>

text \<open>
  The keys a resolution of \<open>r\<close> under \<open>profile\<close> may use: the four base services, the metadata sources whose
  flag is set, and a publisher's text-mining service for its own DOIs and under a grant.
\<close>

definition key_allowed :: "capability_profile \<Rightarrow> paper_ref \<Rightarrow> string \<Rightarrow> bool" where
  "key_allowed profile r n \<longleftrightarrow>
     n \<in> {''crossref'', ''unpaywall'', ''arxiv'', ''oa-publisher''}
     \<or> (let acc = capability_profile.metadata profile in
        (n, True) \<in> {(''openalex'', openalex acc), (''semantic_scholar'', semantic_scholar acc),
          (''datacite'', datacite acc), (''hal'', hal acc), (''openaire'', openaire acc), (''core'', core acc),
          (''europe-pmc'', europe_pmc acc), (''biorxiv'', biorxiv acc), (''inspire'', inspire acc), (''ads'', ads acc)})
     \<or> (n, True) \<in> {(''tdm-aps'', tdm_can_serve (tdm_aps profile) APS_PREFIXES r),
          (''tdm-elsevier'', tdm_can_serve (tdm_elsevier profile) ELSEVIER_PREFIXES r),
          (''tdm-springer'', tdm_can_serve (tdm_springer profile) SPRINGER_PREFIXES r),
          (''tdm-ieee'', tdm_can_serve (tdm_ieee profile) IEEE_PREFIXES r)}"

definition permitted :: "capability_profile \<Rightarrow> paper_ref \<Rightarrow> effect \<Rightarrow> bool" where
  "permitted profile r e = (case e of
     Acquire n \<Rightarrow> key_allowed profile r n
   | Pace n \<Rightarrow> key_allowed profile r n
   | Request n _ _ _ \<Rightarrow> key_allowed profile r n
   | Append i _ \<Rightarrow> i_event i \<in> {Fetch, Resolve} \<longrightarrow> (\<exists>n. i_source i = Some n \<and> key_allowed profile r n))"

lemma own_is_permitted:
  assumes "own_effect n e" and "key_allowed profile r n"
  shows "permitted profile r e"
  using assms by (cases e) (auto simp: own_effect_def permitted_def)

lemma performs_own_permitted:
  "performs (own_effect n) m \<Longrightarrow> key_allowed profile r n \<Longrightarrow> performs (permitted profile r) m"
  by (erule performs_mono) (rule own_is_permitted)

lemma key_allowed_base [simp]:
  "key_allowed profile r ''crossref''" "key_allowed profile r ''unpaywall''"
  "key_allowed profile r ''arxiv''" "key_allowed profile r ''oa-publisher''"
  by (simp_all add: key_allowed_def)

lemma key_allowed_optional [simp]:
  "openalex (capability_profile.metadata profile) \<Longrightarrow> key_allowed profile r ''openalex''"
  "semantic_scholar (capability_profile.metadata profile) \<Longrightarrow> key_allowed profile r ''semantic_scholar''"
  "datacite (capability_profile.metadata profile) \<Longrightarrow> key_allowed profile r ''datacite''"
  "hal (capability_profile.metadata profile) \<Longrightarrow> key_allowed profile r ''hal''"
  "openaire (capability_profile.metadata profile) \<Longrightarrow> key_allowed profile r ''openaire''"
  "core (capability_profile.metadata profile) \<Longrightarrow> key_allowed profile r ''core''"
  "europe_pmc (capability_profile.metadata profile) \<Longrightarrow> key_allowed profile r ''europe-pmc''"
  "biorxiv (capability_profile.metadata profile) \<Longrightarrow> key_allowed profile r ''biorxiv''"
  "inspire (capability_profile.metadata profile) \<Longrightarrow> key_allowed profile r ''inspire''"
  "ads (capability_profile.metadata profile) \<Longrightarrow> key_allowed profile r ''ads''"
  by (simp_all add: key_allowed_def)

lemma key_allowed_tdm [simp]:
  "tdm_can_serve (tdm_aps profile) APS_PREFIXES r \<Longrightarrow> key_allowed profile r ''tdm-aps''"
  "tdm_can_serve (tdm_elsevier profile) ELSEVIER_PREFIXES r \<Longrightarrow> key_allowed profile r ''tdm-elsevier''"
  "tdm_can_serve (tdm_springer profile) SPRINGER_PREFIXES r \<Longrightarrow> key_allowed profile r ''tdm-springer''"
  "tdm_can_serve (tdm_ieee profile) IEEE_PREFIXES r \<Longrightarrow> key_allowed profile r ''tdm-ieee''"
  by (simp_all add: key_allowed_def)

lemma permitted_simps [simp]:
  "permitted profile r (Acquire n) = key_allowed profile r n"
  "permitted profile r (Pace n) = key_allowed profile r n"
  "permitted profile r (Request n u hs pdf) = key_allowed profile r n"
  by (simp_all add: permitted_def)

lemma base_sources_permitted [performs_intros]:
  "performs (permitted profile r) (src_fetch (arxiv_source_from_env env) r' p)"
  "performs (permitted profile r) (src_fetch (crossref_source_from_env env) r' p)"
  "performs (permitted profile r) (src_fetch (unpaywall_source_from_env env contact) r' p)"
  unfolding arxiv_source_from_env_def crossref_source_from_env_def unpaywall_source_from_env_def
  by (rule performs_own_permitted [OF arxiv.own], simp add: arxiv_source_def)
    (rule performs_own_permitted [OF crossref.own], simp add: crossref_source_def,
     rule performs_own_permitted [OF unpaywall.own], simp add: unpaywall_source_def)

subsection \<open>An environment to run in\<close>

text \<open>For the witnesses: every server answers 404 but \<^verbatim>\<open>arxiv.org\<close>, which sends a small PDF.\<close>

definition demo_answer :: "effect list \<Rightarrow> source_allowlist \<Rightarrow> url \<Rightarrow> headers \<Rightarrow> nat \<Rightarrow> reqwest_error + http_response" where
  "demo_answer es al u hs n = Inr
     (if host_str u = Some ''arxiv.org''
      then \<lparr> r_url = u, status = 200, retry_after_hdr = None, content_length = Some 9, chunks = [Inr ''%PDF-1.7x''] \<rparr>
      else \<lparr> r_url = u, status = 404, retry_after_hdr = None, content_length = None, chunks = [] \<rparr>)"

definition demo_fetch_env :: fetch_env where
  "demo_fetch_env = \<lparr> url_parse = (\<lambda>_. None), url_join = (\<lambda>u p. Some (u\<lparr>url_rest := url_rest u @ p\<rparr>)),
     url_push = (\<lambda>u ps. Some (u\<lparr>url_rest := url_rest u @ concat ps\<rparr>)), url_set_path = (\<lambda>u ps. Some (u\<lparr>url_rest := concat ps\<rparr>)),
     url_path = url_rest, render = url_rest, set_scheme = (\<lambda>_ _. None), name_ok = (\<lambda>_. True), value_ok = (\<lambda>_. True),
     nanos = (\<lambda>_. None), send = demo_answer,
     client = \<lparr> clients = (\<lambda>n. Some (allowlist_new n [])), allowlists = Map.empty \<rparr>,
     cj = demo_canon, sha = toy_sha, hx = hex_lower, line_bytes = (\<lambda>_. 100),
     clock = (\<lambda>es. demo_readings (length es)), log_fault = (\<lambda>_. NoFault), vars = (\<lambda>_. None), from_json = (\<lambda>_. None) \<rparr>"

definition demo_orch :: orch_env where
  "demo_orch = \<lparr> fe = demo_fetch_env, uni = ascii_unicode, char_lower = id, str_lower = id, xml_events = (\<lambda>_. []),
     const_url = (\<lambda>s. demo_url ''https'' (drop 8 s)), set_path_str = (\<lambda>u s. u\<lparr>url_rest := s\<rparr>),
     rfc3339_year = (\<lambda>_. None), now_text = (\<lambda>_. ''2026-01-01T00:00:00Z''), rfc_text = (\<lambda>_. ''now''),
     error_text = (\<lambda>_. ''failed''), location_text = (\<lambda>_. ''closed''), file_contact = None, file_unpaywall = None,
     utc_text = Some, other_toml = (\<lambda>_. None), the_store = demo_store, store_io = (\<lambda>_. calm),
     staging = (\<lambda>_. StagedAt ''t'') \<rparr>"

definition demo_world :: world where
  "demo_world = \<lparr> effects = [], w_logs = [], w_log = demo_log, w_files = [] \<rparr>"

definition no_access :: metadata_access where
  "no_access = \<lparr> openalex = False, semantic_scholar = False, doaj = False, datacite = False, hal = False,
     openaire = False, core = False, europe_pmc = False, biorxiv = False, inspire = False, ads = False \<rparr>"

definition demo_profile :: capability_profile where
  "demo_profile = \<lparr> metadata = no_access, tdm_elsevier = None, tdm_aps = None, tdm_springer = None, tdm_ieee = None,
     limits = HARD_CODED \<rparr>"

end
