(* ===== verification/Preprint.thy ===== *)
theory Preprint
  imports Orch_Env
begin

text \<open>
  Finding a preprint of a DOI (\<^verbatim>\<open>crates/doiget-core/src/preprint.rs\<close>): the readers of the answers of
  Crossref, OpenAlex, INSPIRE, ADS, bioRxiv and arXiv's search, and the searches that ask them in turn.
\<close>

subsection \<open>Splitting on a pattern\<close>

fun find_sub :: "string \<Rightarrow> string \<Rightarrow> (string \<times> string) option" where
  "find_sub p s = (if starts_with s p then Some ([], drop (length p) s)
     else (case s of [] \<Rightarrow> None | c # cs \<Rightarrow> map_option (\<lambda>(a, b). (c # a, b)) (find_sub p cs)))"

declare find_sub.simps [simp del]

lemma find_sub_SomeD: "find_sub p s = Some (a, b) \<Longrightarrow> s = a @ p @ b"
  by (induction p s arbitrary: a b rule: find_sub.induct)
    (subst (asm) find_sub.simps, auto simp: starts_with_iff split: if_splits list.splits)

function split_on :: "string \<Rightarrow> string \<Rightarrow> string list" where
  "split_on p s = (case (if p = [] then None else find_sub p s) of
     None \<Rightarrow> [s] | Some (a, rest) \<Rightarrow> a # split_on p rest)"
  by pat_completeness auto
termination
  by (relation "measure (length \<circ> snd)") (auto dest!: find_sub_SomeD split: if_splits)

declare split_on.simps [simp del]

text \<open>The first item of \<^verbatim>\<open>rsplit\<close>.\<close>

definition rsplit_first :: "string \<Rightarrow> string \<Rightarrow> string" where
  "rsplit_first p s = rev (hd (split_on (rev p) (rev s)))"

definition rsplit_once :: "char \<Rightarrow> string \<Rightarrow> (string \<times> string) option" where
  "rsplit_once c s = map_option (\<lambda>(a, b). (rev b, rev a)) (split_once c (rev s))"

definition replace_all :: "string \<Rightarrow> string \<Rightarrow> string \<Rightarrow> string" where
  "replace_all p new s = join_with new (split_on p s)"

subsection \<open>What is found\<close>

datatype found_by =
    ByUnpaywall | CrossrefRelation | OpenAlexLocation | ArxivTitleSearch | BiorxivPubs | Inspire | Ads

fun found_by_as_str :: "found_by \<Rightarrow> string" where
  "found_by_as_str ByUnpaywall = ''unpaywall''"
| "found_by_as_str CrossrefRelation = ''crossref_relation''"
| "found_by_as_str OpenAlexLocation = ''openalex_location''"
| "found_by_as_str ArxivTitleSearch = ''arxiv_title_search''"
| "found_by_as_str BiorxivPubs = ''biorxiv_pubs''"
| "found_by_as_str Inspire = ''inspire''"
| "found_by_as_str Ads = ''ads''"

record found =
  f_arxiv_id :: arxiv_id
  f_found_by :: found_by

record found_doi =
  fd_doi :: doi
  fd_platform :: "string option"
  fd_found_by :: found_by

subsection \<open>Reading the answers\<close>

text \<open>\<^verbatim>\<open>Value::pointer\<close>: a token indexes an array when it is a number without leading zeros.\<close>

fun jpointer :: "json \<Rightarrow> string list \<Rightarrow> json option" where
  "jpointer j [] = Some j"
| "jpointer j (t # toks) = Option.bind
     (case j of
        JObject kvs \<Rightarrow> map_of kvs t
      | JArray js \<Rightarrow>
          (if t \<noteq> [] \<and> list_all is_ascii_digit t \<and> (hd t = CHR ''0'' \<longrightarrow> t = ''0'') \<and> dec_value t < length js
           then Some (js ! dec_value t) else None)
      | _ \<Rightarrow> None)
     (\<lambda>v. jpointer v toks)"

definition arxiv_id_of :: "string \<Rightarrow> arxiv_id option" where
  "arxiv_id_of raw =
     (let raw = rev (dropWhile (\<lambda>c. c = CHR ''/'') (rev (str_trim raw)));
          unversioned = (case rsplit_once CHR ''v'' raw of
            Some (head, tail) \<Rightarrow> if tail \<noteq> [] \<and> list_all is_ascii_digit tail then head else raw
          | None \<Rightarrow> raw) in
      case arxiv_parse unversioned of Inl _ \<Rightarrow> None | Inr a \<Rightarrow> Some a)"

definition preprint_relations :: "json \<Rightarrow> json list option" where
  "preprint_relations msg = Option.bind (jpointer msg [''relation'', ''has-preprint'']) as_array"

definition from_crossref :: "json \<Rightarrow> arxiv_id option" where
  "from_crossref msg = Option.bind (preprint_relations msg) (find_map (\<lambda>r.
     case (map_option str_trim (jstr r [''id'']), jstr r [''id-type'']) of
       (Some i, Some ty) \<Rightarrow>
         if ty = ''arxiv'' then arxiv_id_of i
         else if ty = ''doi'' \<and> starts_with (to_ascii_lowercase i) ''10.48550/arxiv.''
         then arxiv_id_of (drop (length ''10.48550/arxiv.'') i)
         else None
     | _ \<Rightarrow> None))"

definition doi_of :: "string \<Rightarrow> doi option" where
  "doi_of s = (case doi_parse s of Inl _ \<Rightarrow> None | Inr d \<Rightarrow> Some d)"

definition preprint_doi_from_crossref :: "json \<Rightarrow> doi option" where
  "preprint_doi_from_crossref msg = Option.bind (preprint_relations msg) (find_map (\<lambda>r.
     if jstr r [''id-type''] \<noteq> Some ''doi'' then None
     else (case map_option str_trim (jstr r [''id'']) of
         None \<Rightarrow> None
       | Some i \<Rightarrow> if starts_with (to_ascii_lowercase i) ''10.48550/'' then None else doi_of i)))"

definition from_pubs :: "json \<Rightarrow> (doi \<times> string option) option" where
  "from_pubs answer = (case Option.bind (jarray answer [''collection'']) first_of of
     None \<Rightarrow> None
   | Some f \<Rightarrow>
       (case Option.bind (jstr f [''preprint_doi'']) (\<lambda>s. doi_of (str_trim s)) of
          None \<Rightarrow> None | Some d \<Rightarrow> Some (d, jstr f [''preprint_platform''])))"

definition from_openalex_work :: "json \<Rightarrow> arxiv_id option" where
  "from_openalex_work work = Option.bind (jarray work [''locations'']) (find_map (\<lambda>l.
     case jstr l [''landing_page_url''] of
       None \<Rightarrow> None
     | Some u \<Rightarrow> Option.bind
         (opt_else (strip_prefix ''http://arxiv.org/abs/'' u) (strip_prefix ''https://arxiv.org/abs/'' u)) arxiv_id_of))"

definition from_inspire_record :: "json \<Rightarrow> arxiv_id option" where
  "from_inspire_record record = Option.bind (Option.bind (jpointer record [''metadata'', ''arxiv_eprints'']) as_array)
     (find_map (\<lambda>e. Option.bind (jstr e [''value'']) arxiv_id_of))"

definition from_ads_answer :: "json \<Rightarrow> arxiv_id option" where
  "from_ads_answer answer =
     Option.bind (Option.bind (jpointer answer [''response'', ''docs'', ''0'', ''identifier'']) as_array)
       (\<lambda>ids. find_map (\<lambda>i. Option.bind (strip_prefix ''arXiv:'' i) arxiv_id_of) (filter_map as_str ids))"

subsection \<open>arXiv's search feed\<close>

record search_hit =
  h_id :: string
  h_title :: string
  h_authors :: "string list"
  h_doi :: "string option"

definition xml_unescape :: "string \<Rightarrow> string" where
  "xml_unescape s = str_trim
     (replace_all ''&amp;'' ''&'' (replace_all ''&#39;'' [CHR 0x27] (replace_all ''&quot;'' [CHR 0x22]
       (replace_all ''&gt;'' ''>'' (replace_all ''&lt;'' ''<'' s)))))"

definition tag_text :: "string \<Rightarrow> string \<Rightarrow> string option" where
  "tag_text e name = (case find_sub (''<'' @ name @ ''>'') e of
     None \<Rightarrow> None
   | Some (_, rest) \<Rightarrow> map_option (\<lambda>(body, _). xml_unescape body) (find_sub (''</'' @ name @ ''>'') rest))"

definition parse_entry :: "string \<Rightarrow> search_hit" where
  "parse_entry e0 =
     (let e = hd (split_on ''</entry>'' e0) in
      \<lparr> h_id = or_str (tag_text e ''id'') [], h_title = or_str (tag_text e ''title'') [],
        h_authors = map (\<lambda>n. xml_unescape (hd (split_on ''</name>'' n))) (tl (split_on ''<name>'' e)),
        h_doi = (case tl (split_on ''<arxiv:doi'' e) of
           [] \<Rightarrow> None
         | d # _ \<Rightarrow> map_option (\<lambda>(_, rest). xml_unescape (hd (split_on ''</arxiv:doi>'' rest)))
             (split_once CHR ''>'' d)) \<rparr>)"

definition parse_feed :: "string \<Rightarrow> search_hit list" where
  "parse_feed feed = map parse_entry (tl (split_on ''<entry>'' feed))"

definition normalise :: "orch_env \<Rightarrow> string \<Rightarrow> string" where
  "normalise env t =
     concat (map (char_lower env) (filter (is_alphanumeric (uni env)) (utf8_chars (plain_title (uni env) t))))"

definition distinctive :: "orch_env \<Rightarrow> string \<Rightarrow> bool" where
  "distinctive env t \<longleftrightarrow>
     20 \<le> length (utf8_chars (normalise env t))
     \<and> 3 \<le> length (filter (\<lambda>w. w \<noteq> [])
          (split_where (\<lambda>c. \<not> is_alphanumeric (uni env) c) (utf8_chars (plain_title (uni env) t))))"

definition same_paper :: "orch_env \<Rightarrow> string \<Rightarrow> string \<Rightarrow> doi \<Rightarrow> search_hit \<Rightarrow> bool" where
  "same_paper env t family doi h \<longleftrightarrow>
     normalise env (h_title h) = normalise env t
     \<and> list_ex (\<lambda>a. str_lower env family \<in> set (split_whitespace (str_lower env a))) (h_authors h)
     \<and> (case h_doi h of None \<Rightarrow> True | Some d \<Rightarrow> eq_ignore_ascii_case d (doi_as_str doi))"

definition match_search :: "orch_env \<Rightarrow> string \<Rightarrow> string \<Rightarrow> string \<Rightarrow> doi \<Rightarrow> arxiv_id option" where
  "match_search env feed t family doi = find_map (\<lambda>h.
     if same_paper env t family doi h then arxiv_id_of (rsplit_first ''/abs/'' (h_id h)) else None) (parse_feed feed)"

subsection \<open>Asking\<close>

definition resolve_row :: "orch_env \<Rightarrow> doi \<Rightarrow> string \<Rightarrow> log_result \<Rightarrow> nat option \<Rightarrow> string option \<Rightarrow> row_input" where
  "resolve_row env doi name res sz cd = \<lparr> i_event = Resolve, i_result = res, i_capability = log_capability.Metadata,
     i_ref = Some (doi_as_str doi), i_source = Some name, i_error_code = cd, i_size_bytes = sz, i_license = None,
     i_store_path = None,
     i_canonical_digest = Some (digest_hex (sha (fe env)) (hx (fe env)) (promote (RefDoi doi) name None)) \<rparr>"

definition http_act :: "fetch_env \<Rightarrow> string \<Rightarrow> url \<Rightarrow> headers \<Rightarrow> (http_error + string \<times> url) act" where
  "http_act env name u hs w = (case http_get env False name u hs w of (w, r) \<Rightarrow> (w, Ok r))"

definition logged_get_with :: "orch_env \<Rightarrow> doi \<Rightarrow> string \<Rightarrow> url \<Rightarrow> headers \<Rightarrow> string option act" where
  "logged_get_with env doi name u hs =
     and_then (acquire name) (\<lambda>_.
     and_then (http_act (fe env) name u hs) (\<lambda>r.
       case r of
         Inr (body, _) \<Rightarrow>
           and_then (log_row_act (fe env) (resolve_row env doi name LogOk (Some (length body)) None))
             (\<lambda>_. return_ok (Some body))
       | Inl e \<Rightarrow>
           if (case e of HttpStatus st _ _ \<Rightarrow> st = 404 | _ \<Rightarrow> False)
           then and_then (log_row_act (fe env) (resolve_row env doi name LogErr None (Some ''NOT_FOUND'')))
             (\<lambda>_. return_ok None)
           else and_then (log_row_act (fe env) (resolve_row env doi name LogErr None
                  (Some (code_as_wire (fetch_error_code (FEHttp e)))))) (\<lambda>_. throw (FEHttp e))))"

definition logged_get :: "orch_env \<Rightarrow> doi \<Rightarrow> string \<Rightarrow> url \<Rightarrow> string option act" where
  "logged_get env doi name u = logged_get_with env doi name u []"

definition api_base :: "orch_env \<Rightarrow> string \<Rightarrow> string \<Rightarrow> url act" where
  "api_base env key dflt =
     ok_or (SourceSchema (key @ '' is not a URL'')) (url_parse (fe env) (or_str (vars (fe env) key) dflt))"

text \<open>The body as JSON; a 404 stays \<open>None\<close>.\<close>

definition json_answer :: "orch_env \<Rightarrow> string \<Rightarrow> string option \<Rightarrow> json option act" where
  "json_answer env hint body = (case body of
     None \<Rightarrow> return_ok None
   | Some b \<Rightarrow> and_then (ok_or (SourceSchema hint) (from_json (fe env) b)) (\<lambda>j. return_ok (Some j)))"

definition openalex_work :: "orch_env \<Rightarrow> doi \<Rightarrow> json option act" where
  "openalex_work env doi =
     and_then (api_base env ''DOIGET_OPENALEX_BASE'' ''https://api.openalex.org'') (\<lambda>u.
     and_then (logged_get env doi ''openalex''
       (append_pairs (case configured_contact_email env of None \<Rightarrow> [] | Some m \<Rightarrow> [(''mailto'', m)])
          (set_path_str env u (''/works/doi:'' @ doi_as_str doi))))
       (json_answer env ''OpenAlex returned non-JSON''))"

definition inspire_record :: "orch_env \<Rightarrow> doi \<Rightarrow> json option act" where
  "inspire_record env doi =
     and_then (api_base env ''DOIGET_INSPIRE_BASE'' ''https://inspirehep.net'') (\<lambda>u.
     and_then (logged_get env doi ''inspire'' (set_path_str env u (''/api/doi/'' @ doi_as_str doi)))
       (json_answer env ''INSPIRE returned non-JSON''))"

definition ads_answer :: "orch_env \<Rightarrow> doi \<Rightarrow> json option act" where
  "ads_answer env doi =
     (let token = str_trim (or_str (vars (fe env) ''DOIGET_ADS_TOKEN'') []) in
      if token = [] then return_ok None
      else
        and_then (api_base env ''DOIGET_ADS_BASE'' ''https://api.adsabs.harvard.edu'') (\<lambda>u.
        and_then (logged_get_with env doi ''ads''
          (append_pairs [(''q'', quoted ''doi'' (doi_as_str doi)), (''fl'', ''identifier''), (''rows'', ''1'')]
             (set_path_str env u ''/v1/search/query''))
          [(''Authorization'', ''Bearer '' @ token)])
          (json_answer env ''ADS returned non-JSON'')))"

definition arxiv_search :: "orch_env \<Rightarrow> doi \<Rightarrow> string \<Rightarrow> string \<Rightarrow> string act" where
  "arxiv_search env doi t family =
     and_then (api_base env ''DOIGET_ARXIV_BASE'' ''https://export.arxiv.org'') (\<lambda>u.
     and_then (logged_get env doi ''arxiv''
       (append_pairs
          [(''search_query'', quoted ''ti'' (filter (\<lambda>c. c \<noteq> CHR 0x22) t) @ '' AND au:'' @ family),
           (''max_results'', ''5'')]
          (set_path_str env u ''/api/query'')))
       (\<lambda>body. return_ok (case body of None \<Rightarrow> [] | Some b \<Rightarrow> from_utf8_lossy b)))"

text \<open>One method: a log failure aborts, any other failure counts as not found.\<close>

definition ask :: "'a act \<Rightarrow> ('a option \<Rightarrow> 'b act) \<Rightarrow> 'b act" where
  "ask m k = catch m (\<lambda>r. case r of
     Inr v \<Rightarrow> k (Some v)
   | Inl (FELog e) \<Rightarrow> throw (FELog e)
   | Inl _ \<Rightarrow> k None)"

definition try_finder ::
  "bool \<Rightarrow> json option act \<Rightarrow> (json \<Rightarrow> arxiv_id option) \<Rightarrow> found_by \<Rightarrow> found option act \<Rightarrow> found option act" where
  "try_finder enabled m extract how rest =
     (if \<not> enabled then rest
      else ask m (\<lambda>v. case Option.bind (Option.bind v id) extract of
        Some a \<Rightarrow> return_ok (Some \<lparr> f_arxiv_id = a, f_found_by = how \<rparr>) | None \<Rightarrow> rest))"

definition title_search :: "orch_env \<Rightarrow> doi \<Rightarrow> json \<Rightarrow> found option act" where
  "title_search env doi msg =
     (let t = or_str (Option.bind (jpointer msg [''title'', ''0'']) as_str) [];
          family = or_str (Option.bind (jpointer msg [''author'', ''0'', ''family'']) as_str) [] in
      if \<not> distinctive env t \<or> family = [] then return_ok None
      else ask (arxiv_search env doi t family) (\<lambda>v. return_ok (case v of
        None \<Rightarrow> None
      | Some feed \<Rightarrow> map_option (\<lambda>a. \<lparr> f_arxiv_id = a, f_found_by = ArxivTitleSearch \<rparr>)
          (match_search env feed t family doi))))"

definition find_preprint :: "orch_env \<Rightarrow> doi \<Rightarrow> json \<Rightarrow> metadata_access \<Rightarrow> found option act" where
  "find_preprint env doi msg enabled = (case from_crossref msg of
     Some a \<Rightarrow> return_ok (Some \<lparr> f_arxiv_id = a, f_found_by = CrossrefRelation \<rparr>)
   | None \<Rightarrow>
       try_finder (openalex enabled) (openalex_work env doi) from_openalex_work OpenAlexLocation
       (try_finder (inspire enabled) (inspire_record env doi) from_inspire_record Inspire
       (try_finder (ads enabled) (ads_answer env doi) from_ads_answer Ads
       (title_search env doi msg))))"

definition pubs_act :: "orch_env \<Rightarrow> doi \<Rightarrow> string \<Rightarrow> found_doi option act \<Rightarrow> found_doi option act" where
  "pubs_act env doi server rest =
     and_then (api_base env ''DOIGET_BIORXIV_BASE'' ''https://api.biorxiv.org'') (\<lambda>u.
     ask (logged_get env doi ''biorxiv''
            (set_path_str env u (''/pubs/'' @ server @ ''/'' @ doi_as_str doi @ ''/na/json'')))
       (\<lambda>v. case Option.bind (Option.bind (Option.bind v id) (from_json (fe env))) from_pubs of
          Some (d, platform) \<Rightarrow>
            return_ok (Some \<lparr> fd_doi = d, fd_platform = platform, fd_found_by = BiorxivPubs \<rparr>)
        | None \<Rightarrow> rest))"

definition find_preprint_doi :: "orch_env \<Rightarrow> doi \<Rightarrow> json \<Rightarrow> bool \<Rightarrow> found_doi option act" where
  "find_preprint_doi env doi msg biorxiv_enabled = (case preprint_doi_from_crossref msg of
     Some d \<Rightarrow> return_ok (Some \<lparr> fd_doi = d, fd_platform = None, fd_found_by = CrossrefRelation \<rparr>)
   | None \<Rightarrow>
       if \<not> biorxiv_enabled then return_ok None
       else pubs_act env doi ''biorxiv'' (pubs_act env doi ''medrxiv'' (return_ok None)))"

subsection \<open>What the searches do and can fail with\<close>

lemma performs_http_act [performs_intros]:
  "P (Request n u hs False) \<Longrightarrow> performs P (http_act env n u hs)"
  by (auto simp: performs_def http_act_def split: prod.splits intro: adds_http_get)

lemma performs_logged_get [performs_intros]:
  assumes "key_allowed profile r n"
  shows "performs (permitted profile r) (logged_get_with env doi n u hs)"
    "performs (permitted profile r) (logged_get env doi n u)"
proof -
  have row: "permitted profile r (Append (resolve_row env doi n res sz cd) b)" for res sz cd b
    using assms by (simp add: permitted_def resolve_row_def)
  show g: "performs (permitted profile r) (logged_get_with env doi n u hs)" for hs
    unfolding logged_get_with_def using assms by (intro performs_intros) (simp_all add: row)
  show "performs (permitted profile r) (logged_get env doi n u)"
    unfolding logged_get_def by (rule g)
qed

lemma performs_helpers [performs_intros]:
  "performs P (api_base env key dflt)" "performs P (json_answer env hint body)"
  by (simp_all add: api_base_def json_answer_def performs_and_then split: option.split)

lemma performs_ask [performs_intros]:
  "performs P m \<Longrightarrow> (\<And>v. performs P (k v)) \<Longrightarrow> performs P (ask m k)"
  unfolding ask_def by (intro performs_intros) (auto split: fetch_error.split)

lemma performs_try_finder [performs_intros]:
  "(enabled \<Longrightarrow> performs P m) \<Longrightarrow> performs P rest \<Longrightarrow> performs P (try_finder enabled m extract how rest)"
  unfolding try_finder_def by (cases enabled) (auto intro!: performs_intros split: option.split)

lemma performs_find_preprint [performs_intros]:
  "performs (permitted profile r) (find_preprint env doi msg (capability_profile.metadata profile))"
proof -
  have "performs (permitted profile r) (title_search env doi msg)"
    unfolding title_search_def arxiv_search_def Let_def by (intro performs_intros) simp_all
  moreover have "openalex (capability_profile.metadata profile) \<Longrightarrow> performs (permitted profile r) (openalex_work env doi)"
    unfolding openalex_work_def by (intro performs_intros) (simp_all add: key_allowed_def)
  moreover have "inspire (capability_profile.metadata profile) \<Longrightarrow> performs (permitted profile r) (inspire_record env doi)"
    unfolding inspire_record_def by (intro performs_intros) (simp_all add: key_allowed_def)
  moreover have "ads (capability_profile.metadata profile) \<Longrightarrow> performs (permitted profile r) (ads_answer env doi)"
    unfolding ads_answer_def Let_def by (intro performs_intros) (simp_all add: key_allowed_def)
  ultimately show ?thesis
    unfolding find_preprint_def by (intro performs_intros) simp_all
qed

lemma performs_find_preprint_doi [performs_intros]:
  "performs (permitted profile r) (find_preprint_doi env doi msg (biorxiv (capability_profile.metadata profile)))"
  unfolding find_preprint_doi_def pubs_act_def
  by (cases "biorxiv (capability_profile.metadata profile)")
    (simp_all add: performs_splits, (intro performs_intros, simp_all add: key_allowed_def)?)

text \<open>The comment of \<^verbatim>\<open>find\<close> holds: only the log can make it fail.\<close>

definition fails_only_on_log :: "'a act \<Rightarrow> bool" where
  "fails_only_on_log m \<longleftrightarrow> (\<forall>w w' e. m w = (w', Err e) \<longrightarrow> (\<exists>l. e = FELog l))"

lemma fails_return [simp]: "fails_only_on_log (return_ok a)" and fails_throw_log [simp]: "fails_only_on_log (throw (FELog l))"
  by (simp_all add: fails_only_on_log_def return_ok_def throw_def)

lemma fails_ask: "(\<And>v. fails_only_on_log (k v)) \<Longrightarrow> fails_only_on_log (ask m k)"
  unfolding fails_only_on_log_def ask_def catch_def throw_def
  by (fastforce split: prod.splits res.splits fetch_error.splits)

lemma fails_try_finder: "fails_only_on_log rest \<Longrightarrow> fails_only_on_log (try_finder enabled m extract how rest)"
  unfolding try_finder_def by (auto intro!: fails_ask split: option.split)

lemma find_preprint_fails_only_on_log: "fails_only_on_log (find_preprint env doi msg enabled)"
  unfolding find_preprint_def title_search_def Let_def
  by (auto intro!: fails_try_finder fails_ask split: option.split)

text \<open>
  The comment of \<^verbatim>\<open>find_preprint_doi\<close> says the same, but an override of the bioRxiv base that is not a URL
  aborts the whole fetch.
\<close>

lemma bad_biorxiv_base_aborts:
  assumes "preprint_doi_from_crossref msg = None" and "vars (fe env) ''DOIGET_BIORXIV_BASE'' = Some b"
    and "url_parse (fe env) b = None"
  shows "\<exists>hint. find_preprint_doi env doi msg True w = (w, Err (SourceSchema hint))"
  using assms by (simp add: find_preprint_doi_def pubs_act_def api_base_def or_str_def throw_def)

end
