(* ===== verification/Attempts.thy ===== *)
theory Attempts
  imports Preprint
begin

text \<open>
  The resolution chains of \<^verbatim>\<open>crates/doiget-core/src/orchestrator.rs\<close> and the trace they leave: what happened
  with every optional source, consulted or not.
\<close>

subsection \<open>Outcomes\<close>

datatype attempt_outcome =
    Disabled "string list"
  | NotApplicable
  | WrongPublisher string
  | NotNeeded
  | NoRecord
  | NotOpenAccess string
  | Denied denial_context
  | Failed string
  | Resolved

record source_attempt =
  sa_source :: string
  sa_outcome :: attempt_outcome

fun was_consulted :: "attempt_outcome \<Rightarrow> bool" where
  "was_consulted NoRecord = True"
| "was_consulted (NotOpenAccess _) = True"
| "was_consulted (Denied _) = True"
| "was_consulted (Failed _) = True"
| "was_consulted Resolved = True"
| "was_consulted _ = False"

fun outcome_wire :: "attempt_outcome \<Rightarrow> string" where
  "outcome_wire (Disabled _) = ''not_consulted_disabled''"
| "outcome_wire NotApplicable = ''not_consulted_not_applicable''"
| "outcome_wire (WrongPublisher _) = ''not_consulted_wrong_publisher''"
| "outcome_wire NotNeeded = ''not_consulted_not_needed''"
| "outcome_wire NoRecord = ''consulted_no_record''"
| "outcome_wire (NotOpenAccess _) = ''consulted_not_open_access''"
| "outcome_wire (Denied _) = ''consulted_denied''"
| "outcome_wire (Failed _) = ''consulted_failed''"
| "outcome_wire Resolved = ''consulted_resolved''"

fun outcome_detail :: "attempt_outcome \<Rightarrow> string option" where
  "outcome_detail (WrongPublisher d) = Some d"
| "outcome_detail (NotOpenAccess d) = Some d"
| "outcome_detail (Failed d) = Some d"
| "outcome_detail _ = None"

fun required_env :: "attempt_outcome \<Rightarrow> string list option" where
  "required_env (Disabled vs) = Some vs"
| "required_env _ = None"

fun outcome_denial :: "attempt_outcome \<Rightarrow> denial_context option" where
  "outcome_denial (Denied d) = Some d"
| "outcome_denial _ = None"

fun reason_debug :: "denial_reason \<Rightarrow> string" where
  "reason_debug RedirectNotInAllowlist = ''RedirectNotInAllowlist''"
| "reason_debug InsecureScheme = ''InsecureScheme''"
| "reason_debug HostInBlockList = ''HostInBlockList''"
| "reason_debug SizeCapExceeded = ''SizeCapExceeded''"
| "reason_debug SchemaDrift = ''SchemaDrift''"
| "reason_debug CapabilityNotGranted = ''CapabilityNotGranted''"
| "reason_debug RateLimitWindow = ''RateLimitWindow''"
| "reason_debug SsrfPrivateAddress = ''SsrfPrivateAddress''"
| "reason_debug ContentTypeMismatch = ''ContentTypeMismatch''"

fun outcome_render :: "attempt_outcome \<Rightarrow> string" where
  "outcome_render (Disabled vs) = ''not consulted (set '' @ join_with '' + '' vs @ '' to enable)''"
| "outcome_render NotApplicable = ''not consulted (cannot serve this ref kind)''"
| "outcome_render (WrongPublisher d) = ''not consulted ('' @ d @ '')''"
| "outcome_render NotNeeded = ''not consulted (an earlier source answered)''"
| "outcome_render NoRecord = ''consulted: no record''"
| "outcome_render (NotOpenAccess d) = ''consulted: found, not open access ('' @ d @ '')''"
| "outcome_render (Denied d) = (case attempted d of
     Some a \<Rightarrow> ''consulted: refused ('' @ reason_debug (reason d) @ '', '' @ a @ '')''
   | None \<Rightarrow> ''consulted: refused ('' @ reason_debug (reason d) @ '')'')"
| "outcome_render (Failed d) = ''consulted: failed ('' @ d @ '')''"
| "outcome_render Resolved = ''consulted: resolved''"

text \<open>The \<^verbatim>\<open>{:<12}\<close> of a source name counts characters.\<close>

definition pad12 :: "string \<Rightarrow> string" where
  "pad12 s = s @ replicate (12 - length (utf8_chars s)) CHR '' ''"

definition render_attempts :: "source_attempt list \<Rightarrow> string" where
  "render_attempts as = join_with [CHR 0x0A]
     (map (\<lambda>a. ''  '' @ pad12 (sa_source a) @ '' '' @ outcome_render (sa_outcome a)) as)"

definition widening_env :: "source_attempt list \<Rightarrow> string list" where
  "widening_env as = foldl (\<lambda>seen v. if v \<in> set seen then seen else seen @ [v]) []
     (concat (map (\<lambda>a. case required_env (sa_outcome a) of None \<Rightarrow> [] | Some vs \<Rightarrow> vs) as))"

definition nothing_was_consulted :: "source_attempt list \<Rightarrow> bool" where
  "nothing_was_consulted as \<longleftrightarrow> as \<noteq> [] \<and> list_all (\<lambda>a. \<not> was_consulted (sa_outcome a)) as"

definition classify_attempt :: "orch_env \<Rightarrow> fetch_error \<Rightarrow> attempt_outcome" where
  "classify_attempt env e = (case e of
     FENotFound _ \<Rightarrow> NoRecord
   | NotRetrievable _ d \<Rightarrow> NotOpenAccess d
   | _ \<Rightarrow> (case fetch_denial e of
       Some d \<Rightarrow> if reason d \<noteq> CapabilityNotGranted then Denied d else Failed (error_text env e)
     | None \<Rightarrow> Failed (error_text env e)))"

lemma classified_was_consulted [simp]: "was_consulted (classify_attempt env e)"
  by (auto simp: classify_attempt_def split: fetch_error.split option.split)

subsection \<open>Fields of a record\<close>

record crossref_fields =
  cf_title :: "string option"
  cf_authors :: "string list"
  cf_year :: "int option"
  cf_venue :: "string option"
  cf_volume :: "string option"
  cf_issue :: "string option"
  cf_pages :: "string option"
  cf_type :: "string option"
  cf_short_venue :: "string option"

definition no_fields :: crossref_fields where
  "no_fields = \<lparr> cf_title = None, cf_authors = [], cf_year = None, cf_venue = None, cf_volume = None,
     cf_issue = None, cf_pages = None, cf_type = None, cf_short_venue = None \<rparr>"

definition first_text :: "json \<Rightarrow> string \<Rightarrow> string option" where
  "first_text j k = Option.bind (Option.bind (jarray j [k]) first_of) as_str"

definition as_i32 :: "json \<Rightarrow> int option" where
  "as_i32 j = (case as_i64 j of
     None \<Rightarrow> None | Some i \<Rightarrow> if - (2 ^ 31) \<le> i \<and> i < 2 ^ 31 then Some i else None)"

definition normalize_page_range :: "string \<Rightarrow> string" where
  "normalize_page_range p =
     (if contains_str p ''--'' \<or> CHR ''-'' \<notin> set p then p else replace_all ''-'' ''--'' p)"

definition crossref_author :: "json \<Rightarrow> string option" where
  "crossref_author a = (case (jstr a [''family''], jstr a [''given'']) of
     (Some f, Some g) \<Rightarrow> Some (f @ '', '' @ g)
   | (Some f, None) \<Rightarrow> Some f
   | (None, Some g) \<Rightarrow> Some g
   | (None, None) \<Rightarrow> None)"

definition all_of :: "('a \<Rightarrow> 'b option) \<Rightarrow> 'a list option \<Rightarrow> 'b list" where
  "all_of f v = (case v of None \<Rightarrow> [] | Some xs \<Rightarrow> filter_map f xs)"

definition extract_crossref_fields :: "unicode \<Rightarrow> json \<Rightarrow> crossref_fields" where
  "extract_crossref_fields un msg = \<lparr>
     cf_title = map_option (plain_title un) (first_text msg ''title''),
     cf_authors = all_of crossref_author (jarray msg [''author'']),
     cf_year = Option.bind (Option.bind (Option.bind (Option.bind
         (jarray msg [''issued'', ''date-parts'']) first_of) as_array) first_of) as_i32,
     cf_venue = map_option (plain_title un) (first_text msg ''container-title''),
     cf_volume = jstr msg [''volume''], cf_issue = jstr msg [''issue''],
     cf_pages = map_option normalize_page_range (jstr msg [''page'']),
     cf_type = jstr msg [''type''],
     cf_short_venue = nonempty (map_option (\<lambda>s. plain_title un (str_trim s))
         (first_text msg ''short-container-title'')) \<rparr>"

definition datacite_creator :: "json \<Rightarrow> string option" where
  "datacite_creator c = opt_else (jstr c [''name''])
     (case (jstr c [''givenName''], jstr c [''familyName'']) of
        (Some g, Some f) \<Rightarrow> Some (g @ '' '' @ f)
      | (None, Some f) \<Rightarrow> Some f
      | _ \<Rightarrow> None)"

definition extract_datacite_fields :: "json \<Rightarrow> crossref_fields" where
  "extract_datacite_fields attributes = no_fields\<lparr>
     cf_title := Option.bind (Option.bind (jarray attributes [''titles'']) first_of) (\<lambda>t. jstr t [''title'']),
     cf_authors := all_of datacite_creator (jarray attributes [''creators'']),
     cf_year := Option.bind (jget attributes ''publicationYear'') as_i32,
     cf_venue := (case jget attributes ''publisher'' of
         None \<Rightarrow> None | Some v \<Rightarrow> opt_else (as_str v) (jstr v [''name''])),
     cf_type := resource_type_general attributes \<rparr>"

definition extract_optional_fields :: "string \<Rightarrow> json \<Rightarrow> crossref_fields" where
  "extract_optional_fields name meta = (if name = ''datacite'' then extract_datacite_fields meta else no_fields)"

subsection \<open>The chain of metadata sources\<close>

record chain_entry =
  ce_name :: string
  ce_env :: "string list"
  ce_src :: source_impl

definition optional_chain :: "orch_env \<Rightarrow> chain_entry list" where
  "optional_chain env = (let f = fe env; base = base_or env; entry = (\<lambda>n v s. \<lparr> ce_name = n, ce_env = [v], ce_src = s \<rparr>) in
     [entry ''datacite'' ''DOIGET_ENABLE_DATACITE''
        (datacite_source f (base ''DOIGET_DATACITE_BASE'' ''https://api.datacite.org'')),
      entry ''europe-pmc'' ''DOIGET_ENABLE_EUROPE_PMC''
        (epmc_source f (base ''DOIGET_EUROPE_PMC_BASE'' ''https://www.ebi.ac.uk'')),
      entry ''openaire'' ''DOIGET_ENABLE_OPENAIRE''
        (openaire_source f (base ''DOIGET_OPENAIRE_BASE'' ''https://api.openaire.eu'')),
      entry ''hal'' ''DOIGET_ENABLE_HAL''
        (hal_source f (base ''DOIGET_HAL_BASE'' ''https://api.archives-ouvertes.fr'')),
      entry ''core'' ''DOIGET_ENABLE_CORE''
        (core_source f (base ''DOIGET_CORE_BASE'' ''https://api.core.ac.uk'')),
      entry ''openalex'' ''DOIGET_ENABLE_OPENALEX''
        (openalex_source f (base ''DOIGET_OPENALEX_BASE'' ''https://api.openalex.org'') (resolve_contact_email env))])"

text \<open>The variables of the loop: the answer, the fields taken from it, the trace.\<close>

record chain_state =
  ch_resolved :: "(string \<times> json) option"
  ch_fields :: crossref_fields
  ch_rows :: "source_attempt list"

definition push_row :: "string \<Rightarrow> attempt_outcome \<Rightarrow> chain_state \<Rightarrow> chain_state" where
  "push_row n oc st = st\<lparr>ch_rows := ch_rows st @ [\<lparr> sa_source = n, sa_outcome = oc \<rparr>]\<rparr>"

fun optional_loop ::
  "orch_env \<Rightarrow> paper_ref \<Rightarrow> capability_profile \<Rightarrow> bool \<Rightarrow> chain_entry list \<Rightarrow> chain_state \<Rightarrow> chain_state act" where
  "optional_loop env r profile answered [] st = return_ok st"
| "optional_loop env r profile answered (e # es) st =
     (if answered \<or> ch_resolved st \<noteq> None
      then optional_loop env r profile answered es (push_row (ce_name e) NotNeeded st)
      else if \<not> can_serve (ce_src e) profile r
      then optional_loop env r profile answered es
             (push_row (ce_name e) (if is_doi r then Disabled (ce_env e) else NotApplicable) st)
      else catch (src_fetch (ce_src e) r profile) (\<lambda>x. case x of
          Inr a \<Rightarrow>
            let fields' = (case fr_metadata_json a of
                  Some m \<Rightarrow> extract_optional_fields (ce_name e) m | None \<Rightarrow> ch_fields st) in
            optional_loop env r profile answered es
              ((push_row (ce_name e) Resolved st)\<lparr>ch_fields := fields',
                 ch_resolved := map_option (\<lambda>m. (ce_name e, m)) (fr_metadata_json a)\<rparr>)
        | Inl err \<Rightarrow>
            optional_loop env r profile answered es (push_row (ce_name e) (classify_attempt env err) st)))"

definition resolve_optional_chain ::
  "orch_env \<Rightarrow> paper_ref \<Rightarrow> capability_profile \<Rightarrow> bool \<Rightarrow> chain_state \<Rightarrow> chain_state act" where
  "resolve_optional_chain env r profile answered st =
     optional_loop env r profile answered (optional_chain env) (st\<lparr>ch_resolved := None\<rparr>)"

subsection \<open>The chain of text-mining sources\<close>

record tdm_entry =
  te_name :: string
  te_hint :: "string list"
  te_prefixes :: "string list"
  te_publisher :: string
  te_src :: source_impl

definition tdm_chain :: "orch_env \<Rightarrow> tdm_entry list" where
  "tdm_chain env = (let f = fe env; base = base_or env in
     [\<lparr> te_name = ''tdm-aps'', te_hint = [''DOIGET_KEY_APS'', ''DOIGET_AGREE_TDM_APS''], te_prefixes = APS_PREFIXES,
        te_publisher = ''American Physical Society (APS)'',
        te_src = aps_source f (base ''DOIGET_APS_BASE'' ''https://harvest.aps.org'') \<rparr>,
      \<lparr> te_name = ''tdm-elsevier'', te_hint = [''DOIGET_KEY_ELSEVIER'', ''DOIGET_AGREE_TDM_ELSEVIER''],
        te_prefixes = ELSEVIER_PREFIXES, te_publisher = ''Elsevier BV'',
        te_src = elsevier_source f (base ''DOIGET_ELSEVIER_BASE'' ''https://api.elsevier.com'') \<rparr>,
      \<lparr> te_name = ''tdm-springer'', te_hint = [''DOIGET_KEY_SPRINGER'', ''DOIGET_AGREE_TDM_SPRINGER''],
        te_prefixes = SPRINGER_PREFIXES, te_publisher = ''Springer Nature'',
        te_src = springer_source f (base ''DOIGET_SPRINGER_BASE'' ''https://api.springernature.com'') \<rparr>,
      \<lparr> te_name = ''tdm-ieee'', te_hint = [''DOIGET_KEY_IEEE'', ''DOIGET_AGREE_TDM_IEEE''],
        te_prefixes = IEEE_PREFIXES, te_publisher = ''IEEE'',
        te_src = ieee_source f (base ''DOIGET_IEEE_BASE'' ''https://ieeexploreapi.ieee.org'') \<rparr>])"

definition wrong_publisher :: "doi \<Rightarrow> tdm_entry \<Rightarrow> attempt_outcome" where
  "wrong_publisher d e = WrongPublisher (''DOI prefix '' @ doi_prefix d @ '' is not '' @ te_publisher e)"

fun tdm_loop ::
  "orch_env \<Rightarrow> paper_ref \<Rightarrow> capability_profile \<Rightarrow> bool \<Rightarrow> tdm_entry list
     \<Rightarrow> json option \<times> source_attempt list \<Rightarrow> (json option \<times> source_attempt list) act" where
  "tdm_loop env r profile answered [] st = return_ok st"
| "tdm_loop env r profile answered (e # es) (resolved, rows) =
     (let row = (\<lambda>oc. rows @ [\<lparr> sa_source = te_name e, sa_outcome = oc \<rparr>]) in
      if answered \<or> resolved \<noteq> None
      then tdm_loop env r profile answered es (resolved, row NotNeeded)
      else (case r of
          RefArxiv _ \<Rightarrow> tdm_loop env r profile answered es (resolved, row NotApplicable)
        | RefDoi d \<Rightarrow>
            if doi_prefix d \<notin> set (te_prefixes e)
            then tdm_loop env r profile answered es (resolved, row (wrong_publisher d e))
            else if \<not> can_serve (te_src e) profile r
            then tdm_loop env r profile answered es (resolved, row (Disabled (te_hint e)))
            else catch (src_fetch (te_src e) r profile) (\<lambda>x. case x of
                Inr a \<Rightarrow> tdm_loop env r profile answered es (fr_metadata_json a, row Resolved)
              | Inl err \<Rightarrow> tdm_loop env r profile answered es (resolved, row (classify_attempt env err)))))"

definition resolve_tdm_chain ::
  "orch_env \<Rightarrow> paper_ref \<Rightarrow> capability_profile \<Rightarrow> bool \<Rightarrow> source_attempt list
     \<Rightarrow> (json option \<times> source_attempt list) act" where
  "resolve_tdm_chain env r profile answered rows =
     tdm_loop env r profile answered (tdm_chain env) (None, rows)"

subsection \<open>The trace tells what was asked\<close>

text \<open>Whatever was added to the effects is an effect of a source whose row says it was consulted.\<close>

definition trace_covers :: "source_attempt list \<Rightarrow> world \<Rightarrow> world \<Rightarrow> bool" where
  "trace_covers rows w w' \<longleftrightarrow>
     adds (\<lambda>e. \<exists>a \<in> set rows. was_consulted (sa_outcome a) \<and> own_effect (sa_source a) e) w w'"

lemma trace_covers_refl [simp]: "trace_covers [] w w"
  by (simp add: trace_covers_def)

lemma trace_covers_skip: "trace_covers rows w w' \<Longrightarrow> trace_covers (a # rows) w w'"
  unfolding trace_covers_def by (erule adds_mono) auto

lemma trace_covers_Cons:
  assumes "performs (own_effect n) m" and "m w = (v, x)" and "was_consulted oc" and "trace_covers rows v w'"
  shows "trace_covers (\<lparr> sa_source = n, sa_outcome = oc \<rparr> # rows) w w'"
  unfolding trace_covers_def
proof (rule adds_trans)
  show "adds (\<lambda>e. \<exists>a \<in> set (\<lparr> sa_source = n, sa_outcome = oc \<rparr> # rows).
      was_consulted (sa_outcome a) \<and> own_effect (sa_source a) e) w v"
    using performsD [OF assms(1,2)] by (rule adds_mono) (simp add: assms(3))
  show "adds (\<lambda>e. \<exists>a \<in> set (\<lparr> sa_source = n, sa_outcome = oc \<rparr> # rows).
      was_consulted (sa_outcome a) \<and> own_effect (sa_source a) e) v w'"
    using assms(4) unfolding trace_covers_def by (rule adds_mono) auto
qed

text \<open>What a loop over sources must know of them, and what the rows it returns then say.\<close>

definition traced :: "string list \<Rightarrow> source_attempt list \<Rightarrow> source_attempt list \<Rightarrow> world \<Rightarrow> world \<Rightarrow> bool" where
  "traced names before after w w' \<longleftrightarrow>
     (\<exists>rows. after = before @ rows \<and> map sa_source rows = names \<and> trace_covers rows w w')"

lemma traced_refl: "traced [] rows rows w w"
  by (simp add: traced_def)

lemma traced_skip:
  "traced names (before @ [\<lparr> sa_source = n, sa_outcome = oc \<rparr>]) after w w' \<Longrightarrow> traced (n # names) before after w w'"
proof -
  assume "traced names (before @ [\<lparr> sa_source = n, sa_outcome = oc \<rparr>]) after w w'"
  then obtain rows where "after = before @ \<lparr> sa_source = n, sa_outcome = oc \<rparr> # rows" "map sa_source rows = names"
      "trace_covers rows w w'"
    by (auto simp: traced_def)
  then show ?thesis
    unfolding traced_def
    by (intro exI [of _ "\<lparr> sa_source = n, sa_outcome = oc \<rparr> # rows"]) (simp add: trace_covers_skip)
qed

lemma traced_consult:
  assumes "performs (own_effect n) m" and "m w = (v, x)" and "was_consulted oc"
    and "traced names (before @ [\<lparr> sa_source = n, sa_outcome = oc \<rparr>]) after v w'"
  shows "traced (n # names) before after w w'"
  using assms(4) trace_covers_Cons [OF assms(1-3)] unfolding traced_def by fastforce

locale source_chain =
  fixes members :: "(string \<times> source_impl) list"
  assumes own_member: "(n, s) \<in> set members \<Longrightarrow> performs (own_effect n) (src_fetch s r p)"
begin

lemma optional_loop_traced:
  assumes "(\<lambda>e. (ce_name e, ce_src e)) ` set es \<subseteq> set members"
    and "optional_loop env r p answered es st w = (w', Ok st')"
  shows "traced (map ce_name es) (ch_rows st) (ch_rows st') w w'"
  using assms
proof (induction es arbitrary: st w)
  case Nil
  then show ?case by (simp add: return_ok_def traced_refl)
next
  case (Cons e es)
  note own = own_member [of "ce_name e" "ce_src e"]
  have sub: "(\<lambda>e. (ce_name e, ce_src e)) ` set es \<subseteq> set members" using Cons.prems(1) by simp
  consider (quiet) oc where "optional_loop env r p answered es (push_row (ce_name e) oc st) w = (w', Ok st')"
    | (ok) v a f x where "src_fetch (ce_src e) r p w = (v, Ok a)"
        "optional_loop env r p answered es
           ((push_row (ce_name e) Resolved st)\<lparr>ch_fields := f, ch_resolved := x\<rparr>) v = (w', Ok st')"
    | (err) v err where "src_fetch (ce_src e) r p w = (v, Err err)"
        "optional_loop env r p answered es (push_row (ce_name e) (classify_attempt env err) st) v = (w', Ok st')"
    using Cons.prems(2) by (auto simp: performs_catch_Ok Let_def split: if_splits)
  then show ?case
  proof cases
    case (quiet oc)
    from Cons.IH [OF sub this] show ?thesis by (simp add: push_row_def traced_skip)
  next
    case (ok v a f x)
    from Cons.IH [OF sub ok(2)] traced_consult [OF own ok(1), of Resolved] Cons.prems(1)
    show ?thesis by (simp add: push_row_def)
  next
    case (err v er)
    from Cons.IH [OF sub err(2)] traced_consult [OF own err(1), of "classify_attempt env er"] Cons.prems(1)
    show ?thesis by (simp add: push_row_def)
  qed
qed

lemma tdm_loop_traced:
  assumes "(\<lambda>e. (te_name e, te_src e)) ` set es \<subseteq> set members"
    and "tdm_loop env r p answered es st w = (w', Ok st')"
  shows "traced (map te_name es) (snd st) (snd st') w w'"
  using assms
proof (induction es arbitrary: st w)
  case Nil
  then show ?case by (simp add: return_ok_def traced_refl)
next
  case (Cons e es)
  obtain resolved rows where st: "st = (resolved, rows)" by fastforce
  note own = own_member [of "te_name e" "te_src e"]
  have sub: "(\<lambda>e. (te_name e, te_src e)) ` set es \<subseteq> set members" using Cons.prems(1) by simp
  let ?row = "\<lambda>oc. rows @ [\<lparr> sa_source = te_name e, sa_outcome = oc \<rparr>]"
  consider (quiet) oc where "tdm_loop env r p answered es (resolved, ?row oc) w = (w', Ok st')"
    | (ok) v a where "src_fetch (te_src e) r p w = (v, Ok a)"
        "tdm_loop env r p answered es (fr_metadata_json a, ?row Resolved) v = (w', Ok st')"
    | (err) v er where "src_fetch (te_src e) r p w = (v, Err er)"
        "tdm_loop env r p answered es (resolved, ?row (classify_attempt env er)) v = (w', Ok st')"
    using Cons.prems(2) st by (auto simp: performs_catch_Ok Let_def split: if_splits paper_ref.splits)
  then show ?case
  proof cases
    case (quiet oc)
    from Cons.IH [OF sub this] show ?thesis by (simp add: st traced_skip)
  next
    case (ok v a)
    from Cons.IH [OF sub ok(2)] traced_consult [OF own ok(1), of Resolved] Cons.prems(1)
    show ?thesis by (simp add: st)
  next
    case (err v er)
    from Cons.IH [OF sub err(2)] traced_consult [OF own err(1), of "classify_attempt env er"] Cons.prems(1)
    show ?thesis by (simp add: st)
  qed
qed

end

lemmas tier2_own = datacite.own epmc.own openaire.own hal.own core.own openalex.own
lemmas tier3_own = aps.own elsevier.own springer.own ieee.own

lemma src_name_simps [simp]:
  "src_name (datacite_source f b) = ''datacite''" "src_name (epmc_source f b) = ''europe-pmc''"
  "src_name (openaire_source f b) = ''openaire''" "src_name (hal_source f b) = ''hal''"
  "src_name (core_source f b) = ''core''" "src_name (openalex_source f b m) = ''openalex''"
  "src_name (aps_source f b) = ''tdm-aps''" "src_name (elsevier_source f b) = ''tdm-elsevier''"
  "src_name (springer_source f b) = ''tdm-springer''" "src_name (ieee_source f b) = ''tdm-ieee''"
  "src_name (s2_source f b k) = ''semantic_scholar''" "src_name (crossref_source f b) = ''crossref''"
  "src_name (unpaywall_source f b m) = ''unpaywall''" "src_name (arxiv_source f x b mb) = ''arxiv''"
  by (simp_all add: doi_source_defs aps_source_def arxiv_source_def)

interpretation optional: source_chain "map (\<lambda>e. (ce_name e, ce_src e)) (optional_chain env)" for env
proof
  fix n s r p
  assume "(n, s) \<in> set (map (\<lambda>e. (ce_name e, ce_src e)) (optional_chain env))"
  then have "n = src_name s" "\<exists>gate. source_contract (fe env) s gate"
    by (auto simp: optional_chain_def Let_def intro: datacite.source_contract_axioms epmc.source_contract_axioms
        openaire.source_contract_axioms hal.source_contract_axioms core.source_contract_axioms
        openalex.source_contract_axioms)
  then show "performs (own_effect n) (src_fetch s r p)" using source_contract.own by blast
qed

interpretation tdm: source_chain "map (\<lambda>e. (te_name e, te_src e)) (tdm_chain env)" for env
proof
  fix n s r p
  assume "(n, s) \<in> set (map (\<lambda>e. (te_name e, te_src e)) (tdm_chain env))"
  then have "n = src_name s" "\<exists>gate. source_contract (fe env) s gate"
    by (auto simp: tdm_chain_def Let_def intro: aps.source_contract_axioms elsevier.source_contract_axioms
        springer.source_contract_axioms ieee.source_contract_axioms)
  then show "performs (own_effect n) (src_fetch s r p)" using source_contract.own by blast
qed

text \<open>C12: The resolution trace tells the truth about every optional source.  One pass over the metadata
  chain appends exactly one row for each of the six sources, in the order of the chain, and every rate-limiter
  wait, request and log row the pass made is one of a source whose row says it was consulted: a source
  reported as disabled, not needed or not applicable was not contacted.\<close>

theorem optional_trace_is_honest:
  assumes "resolve_optional_chain env r p answered st w = (w', Ok st')"
  shows "\<exists>rows. ch_rows st' = ch_rows st @ rows
    \<and> map sa_source rows = [''datacite'', ''europe-pmc'', ''openaire'', ''hal'', ''core'', ''openalex'']
    \<and> trace_covers rows w w'"
proof -
  have "map ce_name (optional_chain env)
      = [''datacite'', ''europe-pmc'', ''openaire'', ''hal'', ''core'', ''openalex'']"
    by (simp add: optional_chain_def Let_def)
  with optional.optional_loop_traced [OF _ assms [unfolded resolve_optional_chain_def], of env]
  show ?thesis by (auto simp: traced_def)
qed

text \<open>The same holds of the text-mining chain.\<close>

theorem tdm_trace_is_honest:
  assumes "resolve_tdm_chain env r p answered rows0 w = (w', Ok (m, rows'))"
  shows "\<exists>rows. rows' = rows0 @ rows
    \<and> map sa_source rows = [''tdm-aps'', ''tdm-elsevier'', ''tdm-springer'', ''tdm-ieee'']
    \<and> trace_covers rows w w'"
proof -
  have "map te_name (tdm_chain env) = [''tdm-aps'', ''tdm-elsevier'', ''tdm-springer'', ''tdm-ieee'']"
    by (simp add: tdm_chain_def Let_def)
  with tdm.tdm_loop_traced [OF _ assms [unfolded resolve_tdm_chain_def], of env]
  show ?thesis by (auto simp: traced_def)
qed

text \<open>
  The converse fails in one case.  A defensive gate refuses without contacting anybody, and its error is
  classified as a consultation that failed.
\<close>

lemma refused_by_gate_counts_as_consulted:
  "was_consulted (classify_attempt env (NotEligible n)) \<and> fst (throw (NotEligible n) w) = w"
  by (simp add: throw_def)

subsection \<open>Only what the profile permits\<close>

lemma optional_loop_permitted:
  assumes "\<forall>e \<in> set es. (can_serve (ce_src e) profile r \<longrightarrow> key_allowed profile r (ce_name e))
      \<and> performs (own_effect (ce_name e)) (src_fetch (ce_src e) r profile)"
  shows "performs (permitted profile r) (optional_loop env r profile answered es st)"
  using assms
proof (induction es arbitrary: st)
  case (Cons e es)
  have "performs (permitted profile r) (src_fetch (ce_src e) r profile)" if "can_serve (ce_src e) profile r"
    using Cons.prems that by (auto intro: performs_own_permitted)
  with Cons show ?case
    by (auto simp: Let_def intro!: performs_catch split: sum.split)
qed simp

lemma tdm_loop_permitted:
  assumes "\<forall>e \<in> set es. (can_serve (te_src e) profile r \<longrightarrow> key_allowed profile r (te_name e))
      \<and> performs (own_effect (te_name e)) (src_fetch (te_src e) r profile)"
  shows "performs (permitted profile r) (tdm_loop env r profile answered es st)"
  using assms
proof (induction es arbitrary: st)
  case (Cons e es)
  have "performs (permitted profile r) (src_fetch (te_src e) r profile)" if "can_serve (te_src e) profile r"
    using Cons.prems that by (auto intro: performs_own_permitted)
  with Cons show ?case
    by (cases st) (auto simp: Let_def intro!: performs_catch split: sum.split paper_ref.split)
qed simp

lemma can_serve_simps [simp]:
  "can_serve (datacite_source f b) profile r \<longleftrightarrow> datacite (capability_profile.metadata profile) \<and> is_doi r"
  "can_serve (epmc_source f b) profile r \<longleftrightarrow> europe_pmc (capability_profile.metadata profile) \<and> is_doi r"
  "can_serve (openaire_source f b) profile r \<longleftrightarrow> openaire (capability_profile.metadata profile) \<and> is_doi r"
  "can_serve (hal_source f b) profile r \<longleftrightarrow> hal (capability_profile.metadata profile) \<and> is_doi r"
  "can_serve (core_source f b) profile r \<longleftrightarrow> core (capability_profile.metadata profile) \<and> is_doi r"
  "can_serve (openalex_source f b m) profile r \<longleftrightarrow> openalex (capability_profile.metadata profile) \<and> is_doi r"
  "can_serve (s2_source f b k) profile r \<longleftrightarrow> semantic_scholar (capability_profile.metadata profile) \<and> is_doi r"
  "can_serve (aps_source f b) profile r \<longleftrightarrow> tdm_can_serve (tdm_aps profile) APS_PREFIXES r"
  "can_serve (elsevier_source f b) profile r \<longleftrightarrow> tdm_can_serve (tdm_elsevier profile) ELSEVIER_PREFIXES r"
  "can_serve (springer_source f b) profile r \<longleftrightarrow> tdm_can_serve (tdm_springer profile) SPRINGER_PREFIXES r"
  "can_serve (ieee_source f b) profile r \<longleftrightarrow> tdm_can_serve (tdm_ieee profile) IEEE_PREFIXES r"
  by (simp_all add: doi_source_defs aps_source_def)

lemma optional_chain_allowed:
  "e \<in> set (optional_chain env) \<Longrightarrow> can_serve (ce_src e) profile r \<Longrightarrow> key_allowed profile r (ce_name e)"
  by (auto simp: optional_chain_def Let_def)

lemma tdm_chain_allowed:
  "e \<in> set (tdm_chain env) \<Longrightarrow> can_serve (te_src e) profile r \<Longrightarrow> key_allowed profile r (te_name e)"
  by (auto simp: tdm_chain_def Let_def)

lemma performs_chains [performs_intros]:
  "performs (permitted profile r) (resolve_optional_chain env r profile answered cst)"
  "performs (permitted profile r) (resolve_tdm_chain env r profile answered rows)"
  unfolding resolve_optional_chain_def resolve_tdm_chain_def
  by (rule optional_loop_permitted, use optional.own_member [of _ _ env] optional_chain_allowed in fastforce)
    (rule tdm_loop_permitted, use tdm.own_member [of _ _ env] tdm_chain_allowed in fastforce)

subsection \<open>A run\<close>

text \<open>With every flag off, a DOI that Crossref could not answer leaves six disabled rows and no request.\<close>

theorem optional_trace_is_honest_witness:
  "\<exists>st rows. resolve_optional_chain demo_orch (RefDoi (Doi ''10.1234/x'')) demo_profile False
       \<lparr> ch_resolved = None, ch_fields = no_fields, ch_rows = [] \<rparr> demo_world = (demo_world, Ok st)
     \<and> ch_rows st = rows \<and> map sa_source rows = [''datacite'', ''europe-pmc'', ''openaire'', ''hal'', ''core'', ''openalex'']
     \<and> trace_covers rows demo_world demo_world"
proof -
  let ?run = "resolve_optional_chain demo_orch (RefDoi (Doi ''10.1234/x'')) demo_profile False
       \<lparr> ch_resolved = None, ch_fields = no_fields, ch_rows = [] \<rparr> demo_world"
  have run: "?run = (demo_world, Ok \<lparr> ch_resolved = None, ch_fields = no_fields,
      ch_rows = map (\<lambda>e. \<lparr> sa_source = ce_name e, sa_outcome = Disabled (ce_env e) \<rparr>) (optional_chain demo_orch) \<rparr>)"
    unfolding resolve_optional_chain_def
    by (simp add: optional_chain_def Let_def push_row_def return_ok_def demo_profile_def no_access_def is_doi_def)
  from optional_trace_is_honest [OF run] show ?thesis by (simp add: run)
qed

end
