(* ===== verification/Records.thy ===== *)
theory Records
  imports Attempts
begin

text \<open>
  From provider answers to stored records (\<^verbatim>\<open>crates/doiget-core/src/orchestrator.rs\<close>): titles, authors and
  locations taken from the answers, the record built for a citation or a metadata-only request, its repair
  (\<^verbatim>\<open>metadata_quality.rs\<close>), and the write of a record with its log row.
\<close>

subsection \<open>Titles, authors, locations\<close>

definition extract_metadata_title :: "unicode \<Rightarrow> json \<Rightarrow> string option" where
  "extract_metadata_title un meta = (case jget meta ''title'' of
     None \<Rightarrow> None
   | Some t \<Rightarrow> map_option (plain_title un)
       (case as_str t of
          Some s \<Rightarrow> nonempty (Some (str_trim s))
        | None \<Rightarrow> (case as_array t of
            None \<Rightarrow> None
          | Some xs \<Rightarrow> find_map (\<lambda>v. nonempty (map_option str_trim (as_str v))) xs)))"

definition person_name :: "json \<Rightarrow> string option" where
  "person_name a =
     (let given = or_str (jstr a [''given'']) []; family = or_str (jstr a [''family'']) [];
          name = str_trim (given @ '' '' @ family) in
      if name = [] then jstr a [''name''] else Some name)"

definition or_else_list :: "'a list \<Rightarrow> 'a list \<Rightarrow> 'a list" where
  "or_else_list xs ys = (if xs = [] then ys else xs)"

definition extract_metadata_authors :: "json \<Rightarrow> string list" where
  "extract_metadata_authors meta = or_else_list (all_of as_str (jarray meta [''authors'']))
     (or_else_list (all_of person_name (jarray meta [''author'']))
        (all_of person_name (jarray meta [''z_authors''])))"

definition extract_arxiv_categories :: "json \<Rightarrow> string list" where
  "extract_arxiv_categories atom = all_of as_str (jarray atom [''categories''])"

definition is_text :: "json \<Rightarrow> string \<Rightarrow> string \<Rightarrow> bool" where
  "is_text e k v \<longleftrightarrow> (case jstr e [k] of None \<Rightarrow> False | Some s \<Rightarrow> eq_ignore_ascii_case s v)"

definition extract_crossref_publisher_url :: "json \<Rightarrow> string option" where
  "extract_crossref_publisher_url msg = (case jarray msg [''link''] of
     None \<Rightarrow> None
   | Some arr \<Rightarrow>
       let eligible = filter (\<lambda>e. is_text e ''intended-application'' ''unspecified'') arr;
           url_of = (\<lambda>e. nonempty (jstr e [''URL''])) in
       opt_else (Option.bind (find (\<lambda>e. is_text e ''content-type'' ''application/pdf'') eligible) url_of)
         (find_map url_of eligible))"

definition extract_unpaywall_oa_url :: "json \<Rightarrow> string option" where
  "extract_unpaywall_oa_url meta = Option.bind (jget meta ''best_oa_location'')
     (\<lambda>l. opt_else (jstr l [''url_for_pdf'']) (jstr l [''url'']))"

definition extract_unpaywall_oa_status :: "json \<Rightarrow> string option" where
  "extract_unpaywall_oa_status meta = nonempty (jstr meta [''oa_status''])"

definition pull_oa_url_from_location :: "fetch_env \<Rightarrow> json \<Rightarrow> url option" where
  "pull_oa_url_from_location f l =
     Option.bind (opt_else (jstr l [''url_for_pdf'']) (jstr l [''url''])) (url_parse f)"

fun push_unique :: "('a \<Rightarrow> 'k) \<Rightarrow> 'a list \<Rightarrow> 'a list \<Rightarrow> 'a list" where
  "push_unique key [] out = out"
| "push_unique key (u # us) out =
     push_unique key us (if key u \<in> set (map key out) then out else out @ [u])"

definition extract_oa_url_chain :: "fetch_env \<Rightarrow> json option \<Rightarrow> url list" where
  "extract_oa_url_chain f meta = (case meta of
     None \<Rightarrow> []
   | Some m \<Rightarrow> push_unique (render f)
       (filter_map (pull_oa_url_from_location f)
          ((case jget m ''best_oa_location'' of None \<Rightarrow> [] | Some b \<Rightarrow> [b])
           @ (case jarray m [''oa_locations''] of None \<Rightarrow> [] | Some ls \<Rightarrow> ls))) [])"

definition strip_arxiv_version :: "string \<Rightarrow> string" where
  "strip_arxiv_version s = (case rsplit_once CHR ''v'' s of
     Some (stem, digits) \<Rightarrow>
       if stem \<noteq> [] \<and> is_ascii_digit (last stem) \<and> digits \<noteq> [] \<and> list_all is_ascii_digit digits
       then stem else s
   | None \<Rightarrow> s)"

definition extract_arxiv_id_from_url :: "fetch_env \<Rightarrow> url \<Rightarrow> string option" where
  "extract_arxiv_id_from_url f u =
     (if host_str u \<notin> Some ` {''arxiv.org'', ''www.arxiv.org'', ''export.arxiv.org'', ''e-print.arxiv.org''} then None
      else map_option strip_arxiv_version
        (case strip_prefix ''/pdf/'' (url_path f u) of
           Some s \<Rightarrow> Some (if ends_with s ''.pdf'' then take (length s - 4) s else s)
         | None \<Rightarrow> strip_prefix ''/abs/'' (url_path f u)))"

subsection \<open>Metadata-only requests\<close>

record metadata_outcome =
  mo_source :: string
  mo_profile :: string
  mo_license :: "string option"
  mo_oa_url :: "string option"
  mo_oa_status :: "string option"
  mo_metadata :: json
  mo_quality :: "string list"
  mo_repaired :: "(string \<times> string) list"

definition mk_outcome ::
  "string \<Rightarrow> string option \<Rightarrow> string option \<Rightarrow> string option \<Rightarrow> json \<Rightarrow> metadata_outcome" where
  "mk_outcome name lic oa_url oa meta = \<lparr> mo_source = name, mo_profile = name, mo_license = lic,
     mo_oa_url = oa_url, mo_oa_status = oa, mo_metadata = meta, mo_quality = [], mo_repaired = [] \<rparr>"

definition or_null :: "json option \<Rightarrow> json" where
  "or_null v = (case v of None \<Rightarrow> JNull | Some j \<Rightarrow> j)"

definition known_license :: "string \<Rightarrow> string option" where
  "known_license l = (if l = ''unknown'' then None else Some l)"

definition datacite_metadata_only :: "orch_env \<Rightarrow> paper_ref \<Rightarrow> capability_profile \<Rightarrow> metadata_outcome option act" where
  "datacite_metadata_only env r profile =
     (let src = datacite_source (fe env) (base_or env ''DOIGET_DATACITE_BASE'' ''https://api.datacite.org'') in
      if \<not> can_serve src profile r then return_ok None
      else catch (src_fetch src r profile) (\<lambda>x. case x of
          Inr a \<Rightarrow> return_ok (Some (mk_outcome ''datacite'' (known_license (fr_license a)) None None
                     (or_null (fr_metadata_json a))))
        | Inl (FELog e) \<Rightarrow> throw (FELog e)
        | Inl _ \<Rightarrow> return_ok None))"

definition metadata_only_doi ::
  "orch_env \<Rightarrow> paper_ref \<Rightarrow> capability_profile \<Rightarrow> bool \<Rightarrow> metadata_outcome act" where
  "metadata_only_doi env r profile include_oa =
     (let unpaywall = unpaywall_source_from_env env (resolve_contact_email env) in
      catch (src_fetch (crossref_source_from_env env) r profile) (\<lambda>x. case x of
        Inr res \<Rightarrow>
          let meta = or_null (fr_metadata_json res);
              plain = mk_outcome ''crossref'' None (extract_crossref_publisher_url meta) None meta in
          if \<not> include_oa then return_ok plain
          else catch (src_fetch unpaywall r profile) (\<lambda>y. return_ok (case y of
              Inr uw \<Rightarrow>
                let um = or_null (fr_metadata_json uw) in
                mk_outcome ''crossref'' (known_license (fr_license uw)) (extract_unpaywall_oa_url um)
                  (extract_unpaywall_oa_status um) meta
            | Inl _ \<Rightarrow> plain))
      | Inl crossref_err \<Rightarrow>
          and_then (datacite_metadata_only env r profile) (\<lambda>d. case d of
            Some outcome \<Rightarrow> return_ok outcome
          | None \<Rightarrow> catch (src_fetch unpaywall r profile) (\<lambda>y. case y of
              Inr res \<Rightarrow>
                let um = or_null (fr_metadata_json res) in
                return_ok (mk_outcome ''unpaywall'' (known_license (fr_license res)) (extract_unpaywall_oa_url um)
                  (extract_unpaywall_oa_status um) um)
            | Inl _ \<Rightarrow> throw crossref_err))))"

text \<open>
  The resolver cache answers first, unless a base URL is overridden: \<open>cached\<close> is what it holds for this
  reference and these options, if there is a cache.
\<close>

definition resolver_base_overridden :: "orch_env \<Rightarrow> bool" where
  "resolver_base_overridden env \<longleftrightarrow>
     list_ex (\<lambda>k. vars (fe env) k \<noteq> None) [''DOIGET_CROSSREF_BASE'', ''DOIGET_UNPAYWALL_BASE'', ''DOIGET_ARXIV_BASE'']"

definition metadata_only_with_options ::
  "orch_env \<Rightarrow> metadata_outcome option \<Rightarrow> paper_ref \<Rightarrow> capability_profile \<Rightarrow> bool \<Rightarrow> metadata_outcome act" where
  "metadata_only_with_options env cached r profile include_oa =
     (case (if resolver_base_overridden env then None else cached) of
        Some outcome \<Rightarrow> return_ok outcome
      | None \<Rightarrow> (case r of
          RefDoi _ \<Rightarrow> metadata_only_doi env r profile include_oa
        | RefArxiv ident \<Rightarrow>
            and_then (arxiv_fetch_metadata_only (fe env) (xml_events env)
                (base_or env ''DOIGET_ARXIV_BASE'' ''https://export.arxiv.org'') ident)
              (\<lambda>m. return_ok (mk_outcome ''arxiv'' (Some ''arxiv-default'') None (Some ''green'') m))))"

subsection \<open>Records\<close>

definition no_extension :: "string \<Rightarrow> doiget_extension" where
  "no_extension at = \<lparr> fetched_at = at, d_source = [], d_license = [], oa_status = None, d_size_bytes = 0,
     mcp_call_id = None, tags = [], collections = [], annotation = None, repaired_fields = [],
     short_venue = None, origin = None \<rparr>"

definition no_record :: metadata where
  "no_record = \<lparr> m_schema_version = SCHEMA_VERSION, title = [], authors = [], year = None, m_doi = None,
     m_arxiv_id = None, arxiv_categories = [], m_abstract = None, venue = None, volume = None, issue = None,
     pages = None, publisher = None, issn = None, isbn = None, m_type = None, m_keywords = [], m_url = None,
     pdf_path = None, m_doiget = None, other = [] \<rparr>"

definition build_metadata_only_metadata :: "unicode \<Rightarrow> string \<Rightarrow> paper_ref \<Rightarrow> metadata_outcome \<Rightarrow> metadata" where
  "build_metadata_only_metadata un at r outcome = no_record\<lparr>
     title := or_str (extract_metadata_title un (mo_metadata outcome)) (as_input_str r),
     authors := extract_metadata_authors (mo_metadata outcome),
     m_doi := (case r of RefDoi d \<Rightarrow> Some d | RefArxiv _ \<Rightarrow> None),
     m_arxiv_id := (case r of RefDoi _ \<Rightarrow> None | RefArxiv a \<Rightarrow> Some a),
     m_url := mo_oa_url outcome,
     m_doiget := Some ((no_extension at)\<lparr>d_source := mo_source outcome,
       d_license := or_str (mo_license outcome) ''unknown'', oa_status := mo_oa_status outcome\<rparr>)\<rparr>"

text \<open>\<^verbatim>\<open>BTreeMap::insert\<close> into the extra keys, which are kept in order.\<close>

definition insert_other :: "string \<Rightarrow> toml_value \<Rightarrow> toml_table \<Rightarrow> toml_table" where
  "insert_other k v t = sort_key fst (AList.update k v t)"

definition cite_datacite :: "metadata \<Rightarrow> json \<Rightarrow> metadata" where
  "cite_datacite m attributes =
     (let f = extract_datacite_fields attributes;
          m = m\<lparr>title := or_str (cf_title f) (title m), authors := or_else_list (cf_authors f) (authors m),
                year := opt_else (cf_year f) (year m), publisher := cf_venue f, m_type := cf_type f\<rparr>;
          m = (case jstr attributes [''version''] of
            None \<Rightarrow> m | Some v \<Rightarrow> m\<lparr>other := insert_other ''version'' (TString v) (other m)\<rparr>) in
      m\<lparr>m_url := jstr attributes [''url'']\<rparr>)"

definition cite_metadata :: "orch_env \<Rightarrow> string \<Rightarrow> paper_ref \<Rightarrow> metadata_outcome \<Rightarrow> metadata" where
  "cite_metadata env at r outcome =
     (let m = build_metadata_only_metadata (uni env) at r outcome; meta = mo_metadata outcome in
      if mo_source outcome = ''crossref'' then
        let f = extract_crossref_fields (uni env) meta in
        m\<lparr>title := or_str (cf_title f) (title m), authors := or_else_list (cf_authors f) (authors m),
          year := cf_year f, venue := cf_venue f,
          m_doiget := map_option (\<lambda>d. d\<lparr>short_venue := cf_short_venue f\<rparr>) (m_doiget m),
          volume := cf_volume f, issue := cf_issue f, pages := cf_pages f, m_type := cf_type f,
          publisher := jstr meta [''publisher''], issn := first_text meta ''ISSN''\<rparr>
      else if mo_source outcome = ''datacite'' then cite_datacite m meta
      else if mo_source outcome = ''arxiv'' then
        m\<lparr>year := Option.bind (jstr meta [''published'']) (rfc3339_year env),
          arxiv_categories := extract_arxiv_categories meta\<rparr>
      else m)"

subsection \<open>Repair\<close>

text \<open>\<^verbatim>\<open>repair_with\<close> and \<^verbatim>\<open>repair\<close> with their requests; \<open>Metadata_Quality\<close> holds what they compute.\<close>

fun repair_loop ::
  "paper_ref \<Rightarrow> capability_profile \<Rightarrow> string list \<Rightarrow> source_impl list
     \<Rightarrow> metadata \<times> (string \<times> string) list \<Rightarrow> (metadata \<times> (string \<times> string) list) act" where
  "repair_loop r profile wanted [] st = return_ok st"
| "repair_loop r profile wanted (src # srcs) st =
     (if list_all (\<lambda>f. map_of (snd st) f \<noteq> None) wanted then return_ok st
      else if \<not> can_serve src profile r then repair_loop r profile wanted srcs st
      else catch (src_fetch src r profile) (\<lambda>x. case x of
          Inl _ \<Rightarrow> repair_loop r profile wanted srcs st
        | Inr a \<Rightarrow> (case fr_metadata_json a of
            None \<Rightarrow> repair_loop r profile wanted srcs st
          | Some work \<Rightarrow> repair_loop r profile wanted srcs (fold (repair_field (src_name src) work) wanted st))))"

definition repair_with_act ::
  "metadata \<Rightarrow> source_impl list \<Rightarrow> capability_profile \<Rightarrow> (metadata \<times> quality_report) act" where
  "repair_with_act m srcs profile =
     (let repairable = filter (\<lambda>f. f \<in> {''title'', ''venue''}) (replacement_char_fields m) in
      and_then
        (case (repairable, m_doi m) of
           (_ # _, Some d) \<Rightarrow> repair_loop (RefDoi d) profile repairable srcs (m, [])
         | _ \<Rightarrow> return_ok (m, []))
        (\<lambda>(m', rep). return_ok
          (m'\<lparr>m_doiget := map_option (\<lambda>d. d\<lparr>repaired_fields := btree_extend (repaired_fields d) rep\<rparr>) (m_doiget m')\<rparr>,
           \<lparr> repaired = rep, remaining = replacement_char_fields m' \<rparr>)))"

definition repair_sources_from_env :: "orch_env \<Rightarrow> source_impl list" where
  "repair_sources_from_env env =
     [s2_source (fe env) (const_url env ''https://api.semanticscholar.org'') (nonempty (vars (fe env) ''DOIGET_S2_API_KEY'')),
      openalex_source (fe env) (const_url env ''https://api.openalex.org'') (resolve_contact_email env)]"

definition repair_act :: "orch_env \<Rightarrow> metadata \<Rightarrow> capability_profile \<Rightarrow> (metadata \<times> quality_report) act" where
  "repair_act env m profile =
     (if replacement_char_fields m = [] then return_ok (m, \<lparr> repaired = [], remaining = [] \<rparr>)
      else repair_with_act m (repair_sources_from_env env) profile)"

lemma repair_loop_refines:
  "repair_loop r profile wanted srcs st w = (w', Ok st') \<Longrightarrow>
     \<exists>rs. map rs_name rs = map src_name srcs \<and> map rs_can_serve rs = map (\<lambda>s. can_serve s profile r) srcs
        \<and> repair_sources wanted rs st = st'"
proof (induction srcs arbitrary: st w)
  case Nil
  then show ?case by (simp add: return_ok_def)
next
  case (Cons src srcs)
  let ?head = "\<lambda>a. \<lparr> rs_name = src_name src, rs_can_serve = can_serve src profile r, rs_answer = a \<rparr>"
  have step: ?case if "repair_loop r profile wanted srcs st1 v = (w', Ok st')"
      and "\<And>rs. repair_sources wanted (?head a # rs) st = repair_sources wanted rs st1" for st1 v a
  proof -
    from Cons.IH [OF that(1)] obtain rs where "map rs_name rs = map src_name srcs"
        "map rs_can_serve rs = map (\<lambda>s. can_serve s profile r) srcs" "repair_sources wanted rs st1 = st'"
      by blast
    with that(2) show ?thesis by (intro exI [of _ "?head a # rs"]) simp
  qed
  show ?case
  proof (cases "list_all (\<lambda>f. map_of (snd st) f \<noteq> None) wanted")
    case True
    with Cons.prems show ?thesis
      by (intro exI [of _ "map (\<lambda>s. \<lparr> rs_name = src_name s, rs_can_serve = can_serve s profile r,
            rs_answer = Inr None \<rparr>) (src # srcs)"]) (simp add: return_ok_def)
  next
    case wanted: False
    show ?thesis
    proof (cases "can_serve src profile r")
      case False
      with Cons.prems wanted show ?thesis by (intro step [where a = "Inr None"]) auto
    next
      case True
      with Cons.prems wanted consider
          (ok) v a where "src_fetch src r profile w = (v, Ok a)"
            "(case fr_metadata_json a of
                None \<Rightarrow> repair_loop r profile wanted srcs st
              | Some work \<Rightarrow> repair_loop r profile wanted srcs (fold (repair_field (src_name src) work) wanted st)) v
             = (w', Ok st')"
        | (err) v e where "src_fetch src r profile w = (v, Err e)"
            "repair_loop r profile wanted srcs st v = (w', Ok st')"
        by (auto simp: performs_catch_Ok)
      then show ?thesis
      proof cases
        case (ok v a)
        show ?thesis
        proof (cases "fr_metadata_json a")
          case None
          with ok(2) have "repair_loop r profile wanted srcs st v = (w', Ok st')" by simp
          then show ?thesis by (rule step [where a = "Inr None"]) (use wanted True in simp)
        next
          case (Some work)
          with ok(2) have "repair_loop r profile wanted srcs (fold (repair_field (src_name src) work) wanted st) v
              = (w', Ok st')" by simp
          then show ?thesis by (rule step [where a = "Inr (Some work)"]) (use wanted True in simp)
        qed
      next
        case (err v e)
        from err(2) show ?thesis by (rule step [where a = "Inl e"]) (use wanted True in simp)
      qed
    qed
  qed
qed

text \<open>C18: The repair that asks the live sources computes the specified repair.  Whatever the servers answer,
  the record and the report are those of the pure \<^verbatim>\<open>repair\<close> of \<open>Metadata_Quality\<close> for some answers of the
  two production sources (so everything shown there, in particular that only damaged titles and venues are
  changed and only to values that restore them, holds of every fetch).\<close>

theorem repair_act_refines_repair:
  assumes "repair_act env m profile w = (w', Ok (m', report))"
  shows "\<exists>s2 oa. rs_name s2 = ''semantic_scholar'' \<and> rs_name oa = ''openalex'' \<and> (m', report) = repair True m s2 oa"
proof (cases "replacement_char_fields m = []")
  case True
  with assms show ?thesis
    by (intro exI [of _ "\<lparr> rs_name = ''semantic_scholar'', rs_can_serve = False, rs_answer = Inr None \<rparr>"]
        exI [of _ "\<lparr> rs_name = ''openalex'', rs_can_serve = False, rs_answer = Inr None \<rparr>"])
      (simp add: repair_act_def repair_def return_ok_def)
next
  case damaged: False
  let ?wanted = "filter (\<lambda>f. f \<in> {''title'', ''venue''}) (replacement_char_fields m)"
  let ?srcs = "repair_sources_from_env env"
  let ?finish = "\<lambda>(m', rep). (m'\<lparr>m_doiget := map_option (\<lambda>d. d\<lparr>repaired_fields := btree_extend (repaired_fields d) rep\<rparr>) (m_doiget m')\<rparr>,
           \<lparr> repaired = rep, remaining = replacement_char_fields m' \<rparr>)"
  have "\<exists>rs. map rs_name rs = map src_name ?srcs \<and> (m', report) = repair_with m rs"
  proof (cases "?wanted \<noteq> [] \<and> m_doi m \<noteq> None")
    case True
    then obtain d f fs where d: "m_doi m = Some d" and f: "?wanted = f # fs"
      by (metis not_None_eq list.exhaust)
    with assms damaged obtain st' where loop: "repair_loop (RefDoi d) profile (f # fs) ?srcs (m, []) w = (w', Ok st')"
        and out: "(m', report) = ?finish st'"
      by (auto simp: repair_act_def repair_with_act_def and_then_Ok return_ok_Ok split: prod.splits)
    from repair_loop_refines [OF loop] obtain rs where "map rs_name rs = map src_name ?srcs"
        "repair_sources (f # fs) rs (m, []) = st'" by blast
    with out d f show ?thesis
      by (intro exI [of _ rs]) (auto simp: repair_with_def Let_def split: prod.splits)
  next
    case False
    then have "repair_with_act m ?srcs profile = return_ok (?finish (m, []))"
      by (cases ?wanted) (auto simp: repair_with_act_def Let_def split: option.split)
    with assms damaged have "(m', report) = ?finish (m, [])"
      by (simp add: repair_act_def return_ok_def)
    with False show ?thesis
      by (intro exI [of _ "map (\<lambda>s. \<lparr> rs_name = src_name s, rs_can_serve = False, rs_answer = Inr None \<rparr>) ?srcs"])
        (auto simp: repair_with_def Let_def)
  qed
  then obtain rs where names: "map rs_name rs = map src_name ?srcs" and out: "(m', report) = repair_with m rs"
    by blast
  from names have "map rs_name rs = [''semantic_scholar'', ''openalex'']"
    by (simp add: repair_sources_from_env_def)
  note rs = this out
  then obtain s2 oa where "rs = [s2, oa]" "rs_name s2 = ''semantic_scholar''" "rs_name oa = ''openalex''"
    by (auto simp: map_eq_Cons_conv)
  with rs damaged show ?thesis by (auto simp: repair_def)
qed

subsection \<open>Writing\<close>

definition stage_pdf :: "orch_env \<Rightarrow> string \<Rightarrow> string option act" where
  "stage_pdf env bytes w = (case staging env (effects w) of
     StageFailed \<Rightarrow> (w, Err (SourceSchema ''creating PDF staging tempfile''))
   | Unstageable \<Rightarrow> (w, Ok None)
   | StagedAt p \<Rightarrow> (w\<lparr>w_files := AList.update p (Bytes bytes) (w_files w)\<rparr>, Ok (Some p)))"

text \<open>The temporary file is gone when the scope that holds it ends, however it ends.\<close>

definition with_staged :: "orch_env \<Rightarrow> string \<Rightarrow> (string option \<Rightarrow> 'a act) \<Rightarrow> 'a act" where
  "with_staged env bytes k = and_then (stage_pdf env bytes) (\<lambda>p w. case k p w of (w, res) \<Rightarrow>
     (case p of None \<Rightarrow> w | Some q \<Rightarrow> w\<lparr>w_files := AList.delete q (w_files w)\<rparr>, res))"

definition record_digest :: "orch_env \<Rightarrow> metadata \<Rightarrow> string option" where
  "record_digest env m = Option.bind (m_doiget m) (\<lambda>d.
     map_option (\<lambda>(st, i). digest_hex (sha (fe env)) (hx (fe env)) (canonical_new st i (d_source d) None))
       (case (m_doi m, m_arxiv_id m) of
          (Some x, _) \<Rightarrow> Some (STDoi, doi_as_str x)
        | (None, Some a) \<Rightarrow> Some (STArxiv, arxiv_as_str a)
        | (None, None) \<Rightarrow> None))"

definition store_row :: "orch_env \<Rightarrow> safekey \<Rightarrow> metadata \<Rightarrow> bool \<Rightarrow> bool \<Rightarrow> row_input" where
  "store_row env key m has_pdf_src ok =
     \<lparr> i_event = StoreWrite, i_result = (if ok then LogOk else LogErr),
       i_capability = (if ok \<and> Option.bind (m_doiget m) origin = Some ORIGIN_USER_SUPPLIED then UserSupplied else Oa),
       i_ref = opt_else (map_option doi_as_str (m_doi m)) (map_option arxiv_as_str (m_arxiv_id m)),
       i_source = map_option d_source (m_doiget m),
       i_error_code = (if ok then None else Some ''STORE_ERROR''),
       i_size_bytes = (if ok then Some (case m_doiget m of None \<Rightarrow> 0 | Some d \<Rightarrow> d_size_bytes d) else None),
       i_license = (if ok then map_option d_license (m_doiget m) else None),
       i_store_path = Some (if has_pdf_src then safekey_as_str key @ ''.pdf''
                            else ''.metadata/'' @ safekey_as_str key @ ''.toml''),
       i_canonical_digest = record_digest env m \<rparr>"

definition store_write :: "orch_env \<Rightarrow> safekey \<Rightarrow> metadata \<Rightarrow> string option \<Rightarrow> world \<Rightarrow> world \<times> (store_error + unit)" where
  "store_write env key m pdf w =
     (case write_with_impl (uni env) (utc_text env) (other_toml env) (the_store env) (store_io env (effects w))
             key m pdf Preserve (w_files w) of
        (fs', res) \<Rightarrow> (w\<lparr>w_files := fs'\<rparr>, res))"

definition write_metadata_and_pdf :: "orch_env \<Rightarrow> safekey \<Rightarrow> metadata \<Rightarrow> string option \<Rightarrow> unit act" where
  "write_metadata_and_pdf env key m pdf w = (case store_write env key m pdf w of
     (w, Inr _) \<Rightarrow> log_row_act (fe env) (store_row env key m (pdf \<noteq> None) True) w
   | (w, Inl e) \<Rightarrow>
       (fst (log_append (fe env) (store_row env key m (pdf \<noteq> None) False) w),
        Err (SourceSchema ''store write failed'')))"

definition metadata_only_to_store ::
  "orch_env \<Rightarrow> metadata_outcome option \<Rightarrow> paper_ref \<Rightarrow> capability_profile \<Rightarrow> bool \<Rightarrow> metadata_outcome act" where
  "metadata_only_to_store env cached r profile include_oa =
     and_then (metadata_only_with_options env cached r profile include_oa) (\<lambda>outcome.
     and_then (\<lambda>w. return_ok (build_metadata_only_metadata (uni env) (now_text env (effects w)) r outcome) w) (\<lambda>m.
     and_then (repair_act env m profile) (\<lambda>(m, quality).
     and_then (write_metadata_and_pdf env (ref_safekey (sha (fe env)) (hx (fe env)) r) m None) (\<lambda>_.
     return_ok (outcome\<lparr>mo_quality := quality_flags quality, mo_repaired := repaired quality\<rparr>)))))"

subsection \<open>A run\<close>

text \<open>A damaged title with every repair source disabled stays as it is and is reported.\<close>

definition damaged_record :: metadata where
  "damaged_record = no_record\<lparr>title := REPLACEMENT_CHAR, m_doi := Some (Doi ''10.1234/x'')\<rparr>"

theorem repair_act_refines_repair_witness:
  "\<exists>s2 oa. repair_act demo_orch damaged_record demo_profile demo_world
      = (demo_world, Ok (damaged_record, \<lparr> repaired = [], remaining = [''title''] \<rparr>))
    \<and> rs_name s2 = ''semantic_scholar'' \<and> rs_name oa = ''openalex''
    \<and> (damaged_record, \<lparr> repaired = [], remaining = [''title''] \<rparr>) = repair True damaged_record s2 oa"
proof -
  have run: "repair_act demo_orch damaged_record demo_profile demo_world
      = (demo_world, Ok (damaged_record, \<lparr> repaired = [], remaining = [''title''] \<rparr>))"
    by code_simp
  from repair_act_refines_repair [OF run] show ?thesis by (simp add: run)
qed

end
