(* ===== verification/Orchestrator.thy ===== *)
theory Orchestrator
  imports Records
begin

text \<open>
  Fetching a paper (\<^verbatim>\<open>crates/doiget-core/src/orchestrator.rs\<close>): the open-access leg, the fallbacks behind
  it, the two fetch paths, the gate in front of them, and batches.  This is the build with every feature.
\<close>

subsection \<open>The PDF leg\<close>

datatype pdf_leg_status =
    Fetched
  | NoOaUrl
  | Blocked error_code string "denial_context option" "string option"
  | PreprintFallback string string found_by
  | PreprintDoiFallback doi "string option" string found_by
  | TdmFetched string string

definition oa_row :: "orch_env \<Rightarrow> doi \<Rightarrow> nat option \<Rightarrow> row_input" where
  "oa_row env d sz = \<lparr> i_event = Fetch, i_result = (if sz = None then LogErr else LogOk), i_capability = Oa,
     i_ref = Some (doi_as_str d), i_source = Some ''oa-publisher'',
     i_error_code = (if sz = None then Some (code_as_wire NetworkError) else None), i_size_bytes = sz,
     i_license = None, i_store_path = None,
     i_canonical_digest = Some (digest_hex (sha (fe env)) (hx (fe env))
       (canonical_new STDoi (doi_as_str d) ''oa-publisher'' None)) \<rparr>"

definition try_fetch_oa_pdf :: "orch_env \<Rightarrow> doi \<Rightarrow> url \<Rightarrow> (http_error + string) act" where
  "try_fetch_oa_pdf env d u =
     (let h = (case host_str u of None \<Rightarrow> [] | Some h \<Rightarrow> to_ascii_lowercase h);
          refused = (case client_source_allowlist (client (fe env)) ''oa-publisher'' of
            None \<Rightarrow> None
          | Some al \<Rightarrow> if permits al h then None else Some (RedirectDenied ''oa-publisher'' h (redirect_hosts al))) in
      and_then (acquire ''oa-publisher'') (\<lambda>_.
        case refused of
          Some e \<Rightarrow> and_then (log_row_best_effort (fe env) (oa_row env d None)) (\<lambda>_. return_ok (Inl e))
        | None \<Rightarrow> and_then (\<lambda>w. case http_get (fe env) True ''oa-publisher'' u [] w of (w, x) \<Rightarrow> (w, Ok x)) (\<lambda>x. case x of
            Inr (body, _) \<Rightarrow>
              and_then (log_row_best_effort (fe env) (oa_row env d (Some (length body)))) (\<lambda>_. return_ok (Inr body))
          | Inl e \<Rightarrow>
              and_then (log_row_best_effort (fe env) (oa_row env d None)) (\<lambda>_. return_ok (Inl e)))))"

text \<open>The candidates in order; \<open>Inl\<close> is the last error.\<close>

fun oa_loop :: "orch_env \<Rightarrow> doi \<Rightarrow> http_error option \<Rightarrow> url list \<Rightarrow> (http_error option + string) act" where
  "oa_loop env d last_err [] = return_ok (Inl last_err)"
| "oa_loop env d last_err (u # us) = and_then (try_fetch_oa_pdf env d u) (\<lambda>x. case x of
     Inr bytes \<Rightarrow> return_ok (Inr bytes)
   | Inl e \<Rightarrow> oa_loop env d (Some e) us)"

definition oa_leg :: "orch_env \<Rightarrow> doi \<Rightarrow> url list \<Rightarrow> (pdf_leg_status \<times> string option) act" where
  "oa_leg env d chain =
     (if chain = [] then return_ok (NoOaUrl, None)
      else and_then (oa_loop env d None chain) (\<lambda>x. return_ok (case x of
          Inr bytes \<Rightarrow> (Fetched, Some bytes)
        | Inl (Some e) \<Rightarrow>
            let fe_err = FEHttp e in
            (Blocked (fetch_error_code fe_err) (error_text env fe_err) (fetch_denial fe_err)
               (find_map (extract_arxiv_id_from_url (fe env)) chain), None)
        | Inl None \<Rightarrow>
            (Blocked InternalError ''OA PDF chain walker exhausted without recording success or error'' None None,
             None))))"

subsection \<open>The fallbacks\<close>

definition NO_OPEN_COPY :: string where
  "NO_OPEN_COPY = ''no open copy known to Unpaywall''"

text \<open>The identifier to try, the block it stands in for, and who found it.\<close>

definition preprint_target :: "pdf_leg_status \<Rightarrow> found option \<Rightarrow> (string \<times> string \<times> found_by) option" where
  "preprint_target leg discovered = (case (leg, discovered) of
     (Blocked _ msg _ (Some s), _) \<Rightarrow> Some (s, msg, ByUnpaywall)
   | (Blocked _ msg _ None, Some f) \<Rightarrow> Some (arxiv_as_str (f_arxiv_id f), msg, f_found_by f)
   | (NoOaUrl, Some f) \<Rightarrow> Some (arxiv_as_str (f_arxiv_id f), NO_OPEN_COPY, f_found_by f)
   | _ \<Rightarrow> None)"

definition try_arxiv_preprint_fallback ::
  "orch_env \<Rightarrow> pdf_leg_status \<Rightarrow> string option \<Rightarrow> found option \<Rightarrow> capability_profile
     \<Rightarrow> (pdf_leg_status \<times> string option \<times> arxiv_id option \<times> string option) act" where
  "try_arxiv_preprint_fallback env leg bytes discovered profile =
     (let keep = return_ok (leg, bytes, None, None) in
      case preprint_target leg discovered of
        None \<Rightarrow> keep
      | Some (s, block, by_whom) \<Rightarrow> (case arxiv_parse s of
          Inl _ \<Rightarrow> keep
        | Inr a \<Rightarrow>
            catch (src_fetch (arxiv_source_from_env env) (RefArxiv a) profile) (\<lambda>x. case x of
              Inl _ \<Rightarrow> keep
            | Inr res \<Rightarrow> (case fr_pdf_bytes res of
                None \<Rightarrow> keep
              | Some b \<Rightarrow> return_ok
                  (PreprintFallback (arxiv_as_str a) block by_whom, Some b, Some a, Some (fr_license res))))))"

definition optional_source_oa_url :: "string \<Rightarrow> json \<Rightarrow> string option" where
  "optional_source_oa_url name meta =
     (if name = ''openalex'' then openalex_pdf_url meta
      else if name = ''core'' then core_pdf_url meta
      else if name = ''hal'' then hal_pdf_url meta
      else if name = ''europe-pmc'' then epmc_pdf_url meta
      else None)"

text \<open>The row of the answering source becomes \<open>NotOpenAccess\<close> when it flagged no location as open.\<close>

fun set_outcome :: "string \<Rightarrow> attempt_outcome \<Rightarrow> source_attempt list \<Rightarrow> source_attempt list" where
  "set_outcome n oc [] = []"
| "set_outcome n oc (a # rows) =
     (if sa_source a = n then a\<lparr>sa_outcome := oc\<rparr> # rows else a # set_outcome n oc rows)"

definition demote_row :: "orch_env \<Rightarrow> string \<Rightarrow> json \<Rightarrow> source_attempt list \<Rightarrow> source_attempt list" where
  "demote_row env name meta rows =
     (if name = ''openalex'' \<and> describe_locations meta = Some 0
      then set_outcome name (NotOpenAccess (location_text env meta)) rows else rows)"

definition replace_rows :: "source_attempt list \<Rightarrow> source_attempt list \<Rightarrow> source_attempt list" where
  "replace_rows rows fresh = filter (\<lambda>a. \<not> list_ex (\<lambda>f. sa_source f = sa_source a) fresh) rows @ fresh"

definition try_optional_source_oa_fallback ::
  "orch_env \<Rightarrow> doi \<Rightarrow> pdf_leg_status \<Rightarrow> string option \<Rightarrow> capability_profile \<Rightarrow> source_attempt list
     \<Rightarrow> (string \<times> json) option \<Rightarrow> (pdf_leg_status \<times> string option \<times> source_attempt list) act" where
  "try_optional_source_oa_fallback env d leg bytes profile rows already =
     (let failed = (case leg of Blocked _ _ _ _ \<Rightarrow> True | NoOaUrl \<Rightarrow> True | _ \<Rightarrow> False) in
      if bytes \<noteq> None \<or> \<not> failed then return_ok (leg, bytes, rows)
      else
        and_then (case already of
            Some nm \<Rightarrow> return_ok (Some nm, rows)
          | None \<Rightarrow>
              and_then (resolve_optional_chain env (RefDoi d) profile False
                          \<lparr> ch_resolved = None, ch_fields = no_fields, ch_rows = [] \<rparr>)
                (\<lambda>st. return_ok (ch_resolved st, replace_rows rows (ch_rows st))))
          (\<lambda>(answer, rows). case answer of
             None \<Rightarrow> return_ok (leg, bytes, rows)
           | Some (name, meta) \<Rightarrow> (case optional_source_oa_url name meta of
               None \<Rightarrow> return_ok (leg, bytes, demote_row env name meta rows)
             | Some raw \<Rightarrow> (case url_parse (fe env) raw of
                 None \<Rightarrow> return_ok (leg, bytes, rows)
               | Some u \<Rightarrow> and_then (try_fetch_oa_pdf env d u) (\<lambda>x. return_ok (case x of
                   Inr b \<Rightarrow> (Fetched, Some b, rows)
                 | Inl _ \<Rightarrow> (leg, bytes, rows)))))))"

definition record_row :: "source_attempt list \<Rightarrow> string \<Rightarrow> attempt_outcome \<Rightarrow> source_attempt list" where
  "record_row rows n oc = filter (\<lambda>a. sa_source a \<noteq> n) rows @ [\<lparr> sa_source = n, sa_outcome = oc \<rparr>]"

fun tdm_content_loop ::
  "orch_env \<Rightarrow> doi \<Rightarrow> capability_profile \<Rightarrow> pdf_leg_status \<Rightarrow> string \<Rightarrow> tdm_entry list \<Rightarrow> source_attempt list
     \<Rightarrow> (pdf_leg_status \<times> string option \<times> source_attempt list) act" where
  "tdm_content_loop env d profile leg block [] rows = return_ok (leg, None, rows)"
| "tdm_content_loop env d profile leg block (e # es) rows =
     (let next = tdm_content_loop env d profile leg block es in
      if doi_prefix d \<notin> set (te_prefixes e) then next (record_row rows (te_name e) (wrong_publisher d e))
      else if \<not> can_serve (te_src e) profile (RefDoi d) then next (record_row rows (te_name e) (Disabled (te_hint e)))
      else catch (src_fetch_content (te_src e) (RefDoi d) profile) (\<lambda>x. case x of
          Inl err \<Rightarrow> next (record_row rows (te_name e) (classify_attempt env err))
        | Inr None \<Rightarrow> next rows
        | Inr (Some b) \<Rightarrow>
            return_ok (TdmFetched (te_name e) block, Some b, record_row rows (te_name e) Resolved)))"

definition try_tdm_content_fallback ::
  "orch_env \<Rightarrow> doi \<Rightarrow> pdf_leg_status \<Rightarrow> string option \<Rightarrow> capability_profile \<Rightarrow> source_attempt list
     \<Rightarrow> (pdf_leg_status \<times> string option \<times> source_attempt list) act" where
  "try_tdm_content_fallback env d leg bytes profile rows = (case (bytes, leg) of
     (None, Blocked _ msg _ _) \<Rightarrow> tdm_content_loop env d profile leg msg (tdm_chain env) rows
   | _ \<Rightarrow> return_ok (leg, bytes, rows))"

fun first_candidate :: "orch_env \<Rightarrow> doi \<Rightarrow> url list \<Rightarrow> string option act" where
  "first_candidate env d [] = return_ok None"
| "first_candidate env d (u # us) = and_then (try_fetch_oa_pdf env d u) (\<lambda>x. case x of
     Inr b \<Rightarrow> return_ok (Some b) | Inl _ \<Rightarrow> first_candidate env d us)"

definition try_preprint_doi_fallback ::
  "orch_env \<Rightarrow> doi \<Rightarrow> json \<Rightarrow> pdf_leg_status \<Rightarrow> string option \<Rightarrow> string \<Rightarrow> capability_profile
     \<Rightarrow> (pdf_leg_status \<times> string option \<times> string option) act" where
  "try_preprint_doi_fallback env d crossref_meta leg bytes contact profile =
     (let keep = return_ok (leg, bytes, None);
          block = (case leg of NoOaUrl \<Rightarrow> Some NO_OPEN_COPY | Blocked _ msg _ _ \<Rightarrow> Some msg | _ \<Rightarrow> None) in
      case block of
        None \<Rightarrow> keep
      | Some original_block \<Rightarrow>
          and_then (find_preprint_doi env d crossref_meta (biorxiv (capability_profile.metadata profile))) (\<lambda>fnd.
            case fnd of
              None \<Rightarrow> keep
            | Some f \<Rightarrow>
                catch (src_fetch (unpaywall_source_from_env env contact) (RefDoi (fd_doi f)) profile) (\<lambda>x. case x of
                  Inl (FELog e) \<Rightarrow> throw (FELog e)
                | Inl _ \<Rightarrow> keep
                | Inr located \<Rightarrow>
                    and_then (first_candidate env (fd_doi f)
                                (extract_oa_url_chain (fe env) (fr_metadata_json located))) (\<lambda>b. return_ok (case b of
                      Some pdf \<Rightarrow>
                        (PreprintDoiFallback (fd_doi f) (fd_platform f) original_block (fd_found_by f), Some pdf,
                         Some (fr_license located))
                    | None \<Rightarrow> (leg, bytes, None))))))"

subsection \<open>Fetching an arXiv reference\<close>

record paper_outcome =
  po_source :: string
  po_profile :: string
  po_license :: string
  po_oa_status :: "string option"
  po_path :: string
  po_size_bytes :: nat
  po_schema_version :: string
  po_leg :: pdf_leg_status
  po_safekey :: string
  po_digest :: string
  po_title :: string
  po_authors :: "string list"
  po_year :: "int option"
  po_attempts :: "source_attempt list"
  po_quality :: "string list"
  po_repaired :: "(string \<times> string) list"

definition reported_error_code :: "paper_outcome \<Rightarrow> error_code option" where
  "reported_error_code out = (case po_leg out of
     Blocked cd _ denial _ \<Rightarrow> Some
       (case map_option reason denial of
          Some RedirectNotInAllowlist \<Rightarrow> CapabilityDenied
        | Some InsecureScheme \<Rightarrow> CapabilityDenied
        | Some HostInBlockList \<Rightarrow> CapabilityDenied
        | _ \<Rightarrow> cd)
   | _ \<Rightarrow> None)"

definition is_clean_success :: "paper_outcome \<Rightarrow> bool" where
  "is_clean_success out \<longleftrightarrow> (case po_leg out of Blocked _ _ _ _ \<Rightarrow> False | _ \<Rightarrow> True)"

definition pdf_name :: "safekey \<Rightarrow> string" where
  "pdf_name key = safekey_as_str key @ ''.pdf''"

definition reading :: "(effect list \<Rightarrow> 'a) \<Rightarrow> 'a act" where
  "reading f w = (w, Ok (f (effects w)))"

definition arxiv_record ::
  "orch_env \<Rightarrow> string \<Rightarrow> arxiv_id \<Rightarrow> safekey \<Rightarrow> fetch_result \<Rightarrow> string \<Rightarrow> metadata" where
  "arxiv_record env at ident key res pdf =
     (let none = ''arxiv:'' @ arxiv_as_str ident in
      no_record\<lparr>
        title := (case fr_metadata_json res of None \<Rightarrow> none | Some atom \<Rightarrow> or_str (extract_metadata_title (uni env) atom) none),
        authors := (case fr_metadata_json res of None \<Rightarrow> [] | Some atom \<Rightarrow> extract_metadata_authors atom),
        year := Option.bind (fr_metadata_json res) (\<lambda>atom. Option.bind (jstr atom [''published'']) (rfc3339_year env)),
        m_arxiv_id := Some ident,
        arxiv_categories := (case fr_metadata_json res of None \<Rightarrow> [] | Some atom \<Rightarrow> extract_arxiv_categories atom),
        m_url := map_option (render (fe env)) (fr_final_url res),
        pdf_path := Some (pdf_name key),
        m_doiget := Some ((no_extension at)\<lparr>d_source := ''arxiv'', d_license := fr_license res,
          oa_status := Some ''green'', d_size_bytes := length pdf\<rparr>)\<rparr>)"

definition fetch_paper_arxiv ::
  "orch_env \<Rightarrow> arxiv_id \<Rightarrow> capability_profile \<Rightarrow> string \<Rightarrow> safekey \<Rightarrow> paper_outcome act" where
  "fetch_paper_arxiv env ident profile store_root key =
     (let src = arxiv_source_from_env env; r = RefArxiv ident in
      if \<not> can_serve src profile r then throw (NotEligible ''arxiv'')
      else
        and_then (src_fetch src r profile) (\<lambda>res.
        and_then (ok_or (SourceSchema ''arxiv source returned no PDF bytes'') (fr_pdf_bytes res)) (\<lambda>pdf.
        and_then (reading (\<lambda>es. arxiv_record env (now_text env es) ident key res pdf)) (\<lambda>m.
        and_then (with_staged env pdf (\<lambda>p. case p of
            None \<Rightarrow> throw (SourceSchema ''staging tempfile path is not UTF-8'')
          | Some q \<Rightarrow> write_metadata_and_pdf env key m (Some q))) (\<lambda>_.
        return_ok \<lparr> po_source = ''arxiv'', po_profile = ''arxiv'', po_license = fr_license res,
          po_oa_status = Some ''green'', po_path = store_root @ ''/'' @ pdf_name key, po_size_bytes = length pdf,
          po_schema_version = SCHEMA_VERSION, po_leg = Fetched, po_safekey = safekey_as_str key,
          po_digest = digest_hex (sha (fe env)) (hx (fe env)) (canonical_new STArxiv (arxiv_as_str ident) ''arxiv'' None),
          po_title = title m, po_authors = authors m, po_year = year m, po_attempts = [],
          po_quality = quality_flags \<lparr> repaired = [], remaining = replacement_char_fields m \<rparr>, po_repaired = [] \<rparr>)))))"

subsection \<open>Fetching a DOI\<close>

text \<open>The local variables of \<^verbatim>\<open>fetch_paper_doi\<close> once every source has been asked.\<close>

record doi_state =
  ds_cross :: "fetch_error + fetch_result"
  ds_fields :: crossref_fields
  ds_rows :: "source_attempt list"
  ds_optional :: "json option"
  ds_license :: string
  ds_label :: string
  ds_oa_status :: "string option"
  ds_leg :: pdf_leg_status
  ds_bytes :: "string option"
  ds_arxiv :: "arxiv_id option"

text \<open>\<open>catch\<close>, keeping the error as a value.\<close>

definition attempt :: "'a act \<Rightarrow> (fetch_error + 'a) act" where
  "attempt m = catch m return_ok"

definition unpaywall_answer ::
  "orch_env \<Rightarrow> fetch_error + fetch_result \<Rightarrow> string \<times> string \<times> url list \<times> string option" where
  "unpaywall_answer env upw = (case upw of
     Inr a \<Rightarrow> (fr_license a, if fr_license a \<noteq> ''unknown'' then ''unpaywall'' else ''crossref'',
       extract_oa_url_chain (fe env) (fr_metadata_json a),
       Option.bind (fr_metadata_json a) extract_unpaywall_oa_status)
   | Inl _ \<Rightarrow> (''unknown'', ''crossref'', [], None))"

definition discover :: "orch_env \<Rightarrow> doi \<Rightarrow> json \<Rightarrow> capability_profile \<Rightarrow> pdf_leg_status \<Rightarrow> found option act" where
  "discover env d crossref_meta profile leg = (case leg of
     NoOaUrl \<Rightarrow> find_preprint env d crossref_meta (capability_profile.metadata profile)
   | Blocked _ _ _ None \<Rightarrow> find_preprint env d crossref_meta (capability_profile.metadata profile)
   | _ \<Rightarrow> return_ok None)"

definition final_license :: "string \<Rightarrow> string option \<Rightarrow> string option \<Rightarrow> pdf_leg_status \<Rightarrow> string" where
  "final_license lic fallback preprint leg =
     (case leg of TdmFetched _ _ \<Rightarrow> ''unknown'' | _ \<Rightarrow> or_str (opt_else fallback preprint) lic)"

definition ask_sources :: "orch_env \<Rightarrow> doi \<Rightarrow> capability_profile \<Rightarrow> doi_state act" where
  "ask_sources env d profile =
     (let r = RefDoi d; contact = snd (resolve_contact_emails env) in
      and_then (attempt (src_fetch (crossref_source_from_env env) r profile)) (\<lambda>cross.
      let crossref_meta = (case cross of Inl _ \<Rightarrow> JNull | Inr c \<Rightarrow> or_null (fr_metadata_json c)) in
      and_then (resolve_tdm_chain env r profile (is_ok cross) []) (\<lambda>(tdm_meta, rows).
      and_then (resolve_optional_chain env r profile (is_ok cross \<or> tdm_meta \<noteq> None)
          \<lparr> ch_resolved = None, ch_fields = extract_crossref_fields (uni env) crossref_meta, ch_rows = rows \<rparr>) (\<lambda>st.
      and_then (attempt (src_fetch (unpaywall_source_from_env env contact) r profile)) (\<lambda>upw.
      let (lic, label, oa_chain, oa) = unpaywall_answer env upw in
      and_then (oa_leg env d oa_chain) (\<lambda>(leg, bytes).
      and_then (discover env d crossref_meta profile leg) (\<lambda>discovered.
      and_then (try_arxiv_preprint_fallback env leg bytes discovered profile) (\<lambda>(leg, bytes, arx, fallback).
      and_then (try_optional_source_oa_fallback env d leg bytes profile (ch_rows st) (ch_resolved st)) (\<lambda>(leg, bytes, rows).
      and_then (try_tdm_content_fallback env d leg bytes profile rows) (\<lambda>(leg, bytes, rows).
      and_then (try_preprint_doi_fallback env d crossref_meta leg bytes contact profile) (\<lambda>(leg, bytes, preprint).
      return_ok \<lparr> ds_cross = cross, ds_fields = ch_fields st, ds_rows = rows,
        ds_optional = opt_else (map_option snd (ch_resolved st)) tdm_meta,
        ds_license = final_license lic fallback preprint leg, ds_label = label, ds_oa_status = oa,
        ds_leg = leg, ds_bytes = bytes, ds_arxiv = arx \<rparr>)))))))))))"

text \<open>Nothing usable came back: the Crossref error, with the trace of the optional sources.\<close>

definition total_failure :: "orch_env \<Rightarrow> fetch_error \<Rightarrow> source_attempt list \<Rightarrow> fetch_error" where
  "total_failure env e rows =
     (if rows = [] then e
      else FENotFound (error_text env e @ [CHR 0x0A] @ ''  = note: '' @
        (if nothing_was_consulted rows then ''no optional source was consulted for this DOI''
         else ''the optional sources were consulted and did not resolve it'') @ '':'' @ [CHR 0x0A] @ render_attempts rows))"

definition refuse_stub :: "orch_env \<Rightarrow> doi_state \<Rightarrow> unit act" where
  "refuse_stub env ds = (case ds_cross ds of
     Inl e \<Rightarrow> if ds_bytes ds = None \<and> ds_optional ds = None then throw (total_failure env e (ds_rows ds)) else return_ok ()
   | Inr _ \<Rightarrow> return_ok ())"

definition pdf_label :: "pdf_leg_status \<Rightarrow> string" where
  "pdf_label leg = (case leg of
     PreprintFallback _ _ _ \<Rightarrow> ''arxiv'' | TdmFetched s _ \<Rightarrow> s | _ \<Rightarrow> ''oa-publisher'')"

definition final_label :: "doi_state \<Rightarrow> string" where
  "final_label ds = (case ds_bytes ds of None \<Rightarrow> ds_label ds | Some _ \<Rightarrow> pdf_label (ds_leg ds))"

definition bytes_size :: "doi_state \<Rightarrow> nat" where
  "bytes_size ds = (case ds_bytes ds of None \<Rightarrow> 0 | Some b \<Rightarrow> length b)"

definition doi_record :: "orch_env \<Rightarrow> string \<Rightarrow> doi \<Rightarrow> safekey \<Rightarrow> doi_state \<Rightarrow> metadata" where
  "doi_record env at d key ds =
     (let f = ds_fields ds in
      no_record\<lparr>
        title := or_str (map_option (plain_title (uni env)) (cf_title f)) (doi_as_str d),
        authors := cf_authors f, year := cf_year f, m_doi := Some d, m_arxiv_id := ds_arxiv ds,
        venue := map_option (plain_title (uni env)) (cf_venue f), volume := cf_volume f, issue := cf_issue f,
        pages := cf_pages f, m_type := cf_type f,
        m_url := (case ds_cross ds of Inl _ \<Rightarrow> None | Inr c \<Rightarrow> map_option (render (fe env)) (fr_final_url c)),
        pdf_path := map_option (\<lambda>_. pdf_name key) (ds_bytes ds),
        m_doiget := Some ((no_extension at)\<lparr>d_source := final_label ds, d_license := ds_license ds,
          oa_status := ds_oa_status ds, d_size_bytes := bytes_size ds, short_venue := cf_short_venue f\<rparr>),
        other := (case ds_leg ds of
            PreprintDoiFallback pd _ _ _ \<Rightarrow> [(''preprint_doi'', TString (doi_as_str pd))] | _ \<Rightarrow> [])\<rparr>)"

text \<open>With no bytes to stage the body runs on nothing.\<close>

definition staged_or_not :: "orch_env \<Rightarrow> string option \<Rightarrow> (string option \<Rightarrow> 'a act) \<Rightarrow> 'a act" where
  "staged_or_not env bytes k = (case bytes of None \<Rightarrow> k None | Some b \<Rightarrow> with_staged env b k)"

definition store_doi ::
  "orch_env \<Rightarrow> doi \<Rightarrow> capability_profile \<Rightarrow> safekey \<Rightarrow> doi_state \<Rightarrow> (metadata \<times> quality_report) act" where
  "store_doi env d profile key ds = staged_or_not env (ds_bytes ds) (\<lambda>p.
     and_then (reading (\<lambda>es. doi_record env (now_text env es) d key ds)) (\<lambda>m.
     and_then (repair_act env m profile) (\<lambda>(m, quality).
     and_then (write_metadata_and_pdf env key m p) (\<lambda>_. return_ok (m, quality)))))"

definition doi_outcome ::
  "orch_env \<Rightarrow> doi \<Rightarrow> string \<Rightarrow> safekey \<Rightarrow> doi_state \<Rightarrow> metadata \<Rightarrow> quality_report \<Rightarrow> paper_outcome" where
  "doi_outcome env d store_root key ds m quality =
     \<lparr> po_source = final_label ds, po_profile = final_label ds, po_license = ds_license ds,
       po_oa_status = ds_oa_status ds,
       po_path = store_root @ ''/'' @ (if ds_bytes ds \<noteq> None then pdf_name key
                                       else ''.metadata/'' @ safekey_as_str key @ ''.toml''),
       po_size_bytes = bytes_size ds, po_schema_version = SCHEMA_VERSION, po_leg = ds_leg ds,
       po_safekey = safekey_as_str key,
       po_digest = digest_hex (sha (fe env)) (hx (fe env)) (canonical_new STDoi (doi_as_str d) (final_label ds) None),
       po_title = title m, po_authors = authors m, po_year = year m, po_attempts = ds_rows ds,
       po_quality = quality_flags quality, po_repaired = repaired quality \<rparr>"

definition fetch_paper_doi ::
  "orch_env \<Rightarrow> doi \<Rightarrow> capability_profile \<Rightarrow> string \<Rightarrow> safekey \<Rightarrow> paper_outcome act" where
  "fetch_paper_doi env d profile store_root key =
     and_then (ask_sources env d profile) (\<lambda>ds.
     and_then (refuse_stub env ds) (\<lambda>_.
     and_then (store_doi env d profile key ds) (\<lambda>(m, quality).
     return_ok (doi_outcome env d store_root key ds m quality))))"

subsection \<open>The gate and batches\<close>

definition check_repeat :: "orch_env \<Rightarrow> string \<Rightarrow> world \<Rightarrow> verdict" where
  "check_repeat env input w =
     (let t = clock (fe env) (effects w) in
      check_at (sha (fe env)) (hx (fe env)) (rfc_text env) (repeat_ix (w_log w)) input (now_instant t) (fingerprint t))"

definition forced_row :: "string \<Rightarrow> error_code \<Rightarrow> row_input" where
  "forced_row input cd = \<lparr> i_event = RepeatForced, i_result = LogOk, i_capability = Oa, i_ref = Some input,
     i_source = None, i_error_code = Some (code_as_wire cd), i_size_bytes = None, i_license = None,
     i_store_path = None, i_canonical_digest = None \<rparr>"

definition repeat_gate :: "orch_env \<Rightarrow> string \<Rightarrow> bool \<Rightarrow> unit act" where
  "repeat_gate env input force w = (case check_repeat env input w of
     Proceed \<Rightarrow> (w, Ok ())
   | Replay cd at \<Rightarrow>
       if force then log_row_act (fe env) (forced_row input cd) w
       else (w, Err (Replayed cd (''already asked about '' @ input @ '' at '' @ at @ '' and was told '' @ code_as_wire cd) None))
   | Wait cd at secs \<Rightarrow>
       if force then log_row_act (fe env) (forced_row input cd) w
       else (w, Err (Replayed RateLimited (''asked about '' @ input @ '' at '' @ at @ '' and was told '' @ code_as_wire cd)
               (Some secs))))"

definition fetch_paper_with ::
  "orch_env \<Rightarrow> paper_ref \<Rightarrow> capability_profile \<Rightarrow> string \<Rightarrow> bool \<Rightarrow> paper_outcome act" where
  "fetch_paper_with env r profile store_root force =
     and_then (repeat_gate env (as_input_str r) force) (\<lambda>_.
       let key = ref_safekey (sha (fe env)) (hx (fe env)) r in
       case r of
         RefArxiv ident \<Rightarrow> fetch_paper_arxiv env ident profile store_root key
       | RefDoi d \<Rightarrow> fetch_paper_doi env d profile store_root key)"

definition MAX_BATCH_REFS :: nat where
  "MAX_BATCH_REFS = 100"

text \<open>The answer is remembered even where no row of the session's end carries it.\<close>

definition observe_outcome :: "orch_env \<Rightarrow> string \<Rightarrow> error_code option \<Rightarrow> world \<Rightarrow> world" where
  "observe_outcome env input cd w =
     (let t = clock (fe env) (effects w); p = w_log w in
      w\<lparr>w_log := p\<lparr>repeat_ix := observe_at (sha (fe env)) (hx (fe env)) (repeat_ix p) input cd
          (now_instant t) (now_utc t) (fingerprint t)\<rparr>\<rparr>)"

fun batch_loop ::
  "orch_env \<Rightarrow> capability_profile \<Rightarrow> string \<Rightarrow> bool \<Rightarrow> paper_ref list
     \<Rightarrow> (paper_ref \<times> (fetch_error + paper_outcome)) list
     \<Rightarrow> (paper_ref \<times> (fetch_error + paper_outcome)) list act" where
  "batch_loop env profile store_root force [] results = return_ok results"
| "batch_loop env profile store_root force (r # rs) results =
     and_then (attempt (fetch_paper_with env r profile store_root force)) (\<lambda>x w.
       batch_loop env profile store_root force rs (results @ [(r, x)])
         (observe_outcome env (as_input_str r)
            (case x of Inl e \<Rightarrow> Some (fetch_error_code e) | Inr out \<Rightarrow> reported_error_code out) w))"

definition batch_fetch_with ::
  "orch_env \<Rightarrow> paper_ref list \<Rightarrow> capability_profile \<Rightarrow> string \<Rightarrow> bool
     \<Rightarrow> (paper_ref \<times> (fetch_error + paper_outcome)) list act" where
  "batch_fetch_with env refs profile store_root force =
     (if MAX_BATCH_REFS < length refs then throw (TooManyRefs (length refs) MAX_BATCH_REFS)
      else batch_loop env profile store_root force refs [])"

end
