(* ===== verification/Fetch_Safety.thy ===== *)
theory Fetch_Safety
  imports Orchestrator
begin

text \<open>
  What holds of every fetch (\<open>Orchestrator\<close>): the services it may talk to, what is on disk and on the log
  when it succeeds, the shape of its answer, the gate in front of it, and batches.
\<close>

subsection \<open>Only what the profile permits\<close>

lemma log_best_effort_permitted:
  "key_allowed profile r n \<Longrightarrow> i_source i = Some n \<Longrightarrow> performs (permitted profile r) (log_row_best_effort env i)"
  by (rule performs_log) (simp add: permitted_def)

lemma oa_row_source [simp]: "i_source (oa_row env d sz) = Some ''oa-publisher''"
  by (simp add: oa_row_def)

lemma performs_value_get:
  "P (Request n u hs pdf) \<Longrightarrow> performs P (\<lambda>w. case http_get env pdf n u hs w of (w, x) \<Rightarrow> (w, Ok x))"
  by (auto simp: performs_def split: prod.split intro: adds_http_get)

lemma performs_try_fetch [performs_intros]: "performs (permitted profile r) (try_fetch_oa_pdf env d u)"
  unfolding try_fetch_oa_pdf_def Let_def
  by (intro performs_intros performs_value_get log_best_effort_permitted [where n = "''oa-publisher''"], simp_all)

lemma performs_oa_loop [performs_intros]: "performs (permitted profile r) (oa_loop env d e us)"
  by (induction us arbitrary: e) (auto intro!: performs_intros)

lemma performs_first_candidate [performs_intros]: "performs (permitted profile r) (first_candidate env d us)"
  by (induction us) (auto intro!: performs_intros)

lemma performs_oa_leg [performs_intros]: "performs (permitted profile r) (oa_leg env d us)"
  unfolding oa_leg_def by (intro performs_intros)

lemma performs_discover [performs_intros]: "performs (permitted profile r) (discover env d meta profile leg)"
  unfolding discover_def by (simp add: performs_find_preprint split: pdf_leg_status.split option.split)

lemma performs_arxiv_fallback [performs_intros]:
  "performs (permitted profile r) (try_arxiv_preprint_fallback env leg bytes found profile)"
  unfolding try_arxiv_preprint_fallback_def Let_def by (intro performs_intros)

lemma performs_optional_fallback [performs_intros]:
  "performs (permitted profile (RefDoi d)) (try_optional_source_oa_fallback env d leg bytes profile rows already)"
  unfolding try_optional_source_oa_fallback_def Let_def by (intro performs_intros)

lemma tdm_content_loop_permitted:
  assumes "\<forall>e \<in> set es. (can_serve (te_src e) profile (RefDoi d) \<longrightarrow> key_allowed profile (RefDoi d) (te_name e))
      \<and> performs (own_effect (te_name e)) (src_fetch_content (te_src e) (RefDoi d) profile)"
  shows "performs (permitted profile (RefDoi d)) (tdm_content_loop env d profile leg block es rows)"
  using assms
proof (induction es arbitrary: rows)
  case (Cons e es)
  have "performs (permitted profile (RefDoi d)) (src_fetch_content (te_src e) (RefDoi d) profile)"
    if "can_serve (te_src e) profile (RefDoi d)"
    using Cons.prems that by (auto intro: performs_own_permitted)
  with Cons show ?case
    by (auto simp: Let_def intro!: performs_catch split: sum.split option.split)
qed simp

lemmas tier3_own_content =
  aps.own_content [unfolded src_name_simps] elsevier.own_content [unfolded src_name_simps]
  springer.own_content [unfolded src_name_simps] ieee.own_content [unfolded src_name_simps]

lemma tdm_content_own:
  "e \<in> set (tdm_chain env) \<Longrightarrow> performs (own_effect (te_name e)) (src_fetch_content (te_src e) r p)"
  by (auto simp: tdm_chain_def Let_def tier3_own_content)

lemma performs_tdm_fallback [performs_intros]:
  "performs (permitted profile (RefDoi d)) (try_tdm_content_fallback env d leg bytes profile rows)"
  unfolding try_tdm_content_fallback_def
  by (auto intro!: tdm_content_loop_permitted tdm_content_own tdm_chain_allowed
      split: option.split pdf_leg_status.split)

lemma performs_preprint_doi_fallback [performs_intros]:
  "performs (permitted profile r) (try_preprint_doi_fallback env d meta leg bytes contact profile)"
  unfolding try_preprint_doi_fallback_def Let_def
  by (intro performs_intros, simp)
    (auto intro!: performs_intros split: fetch_error.split)

lemma performs_attempt [performs_intros]: "performs P m \<Longrightarrow> performs P (attempt m)"
  unfolding attempt_def by (intro performs_intros)

lemma performs_ask_sources [performs_intros]:
  "performs (permitted profile (RefDoi d)) (ask_sources env d profile)"
  unfolding ask_sources_def Let_def by (intro performs_intros)

lemma performs_repair_loop:
  assumes "\<forall>s \<in> set srcs. (can_serve s profile r \<longrightarrow> key_allowed profile r (src_name s))
      \<and> performs (own_effect (src_name s)) (src_fetch s r profile)"
  shows "performs (permitted profile r) (repair_loop r profile wanted srcs st)"
  using assms
proof (induction srcs arbitrary: st)
  case (Cons s srcs)
  have "performs (permitted profile r) (src_fetch s r profile)" if "can_serve s profile r"
    using Cons.prems that by (auto intro: performs_own_permitted)
  moreover have "performs (permitted profile r) (repair_loop r profile wanted srcs st')" for st'
    using Cons by (intro Cons.IH) simp
  ultimately show ?case by (auto intro!: performs_catch split: sum.split option.split) (metis surj_pair)+
qed simp

lemma repair_sources_allowed:
  assumes "s \<in> set (repair_sources_from_env env)"
  shows "can_serve s profile r \<Longrightarrow> key_allowed profile r (src_name s)"
    and "performs (own_effect (src_name s)) (src_fetch s r' p)"
proof -
  from assms have "\<exists>gate. source_contract (fe env) s gate"
    by (auto simp: repair_sources_from_env_def intro: s2.source_contract_axioms openalex.source_contract_axioms)
  then show "performs (own_effect (src_name s)) (src_fetch s r' p)" using source_contract.own by blast
  show "can_serve s profile r \<Longrightarrow> key_allowed profile r (src_name s)"
    using assms by (auto simp: repair_sources_from_env_def)
qed

lemma performs_repair_act:
  assumes "m_doi m = Some d"
  shows "performs (permitted profile (RefDoi d)) (repair_act env m profile)"
proof -
  have "performs (permitted profile (RefDoi d)) (repair_loop (RefDoi d) profile wanted (repair_sources_from_env env) st)"
    for wanted st
    by (intro performs_repair_loop ballI conjI impI) (auto intro: repair_sources_allowed)
  with assms show ?thesis
    by (auto simp: repair_act_def repair_with_act_def Let_def intro!: performs_and_then
        split: list.split prod.split)
qed

text \<open>The parts that write.\<close>

lemma emits_reading: "(\<And>es. emits P (k (f es))) \<Longrightarrow> emits P (and_then (reading f) k)"
  by (simp add: emits_def and_then_def reading_def)

lemma emits_stage [emits_intros]: "emits P (stage_pdf env bytes)"
  by (simp add: emits_def stage_pdf_def split: staged.split)

lemma emits_with_staged [emits_intros]:
  assumes "\<And>p. emits P (k p)"
  shows "emits P (with_staged env bytes k)"
proof -
  have "emits P (\<lambda>w. case k p w of (w, res) \<Rightarrow>
      (case p of None \<Rightarrow> w | Some q \<Rightarrow> w\<lparr>w_files := AList.delete q (w_files w)\<rparr>, res))" for p
    unfolding emits_def
  proof
    fix w
    obtain w' res where k: "k p w = (w', res)" by fastforce
    with emitsD [OF assms k] show "\<exists>es. effects (fst (case k p w of (w, res) \<Rightarrow>
        (case p of None \<Rightarrow> w | Some q \<Rightarrow> w\<lparr>w_files := AList.delete q (w_files w)\<rparr>, res))) = effects w @ es \<and> list_all P es"
      by (auto split: option.split)
  qed
  then show ?thesis unfolding with_staged_def by (intro emits_intros)
qed

lemma store_row_event [simp]: "i_event (store_row env key m has ok) = StoreWrite"
  by (simp add: store_row_def)

lemma emits_write [emits_intros]: "emits (permitted profile r) (write_metadata_and_pdf env key m pdf)"
proof -
  have row: "permitted profile r (Append (store_row env key m has ok) b)" for has ok b
    by (simp add: permitted_def)
  have "\<exists>es. effects (fst (write_metadata_and_pdf env key m pdf w)) = effects w @ es
      \<and> list_all (permitted profile r) es" for w
  proof -
    obtain v x where v: "store_write env key m pdf w = (v, x)" by fastforce
    then have same: "effects v = effects w" by (auto simp: store_write_def split: prod.splits)
    have "performs (permitted profile r) (log_row_act (fe env) (store_row env key m (pdf \<noteq> None) True))"
      by (intro performs_log row)
    then have "\<exists>es. effects (fst (log_row_act (fe env) (store_row env key m (pdf \<noteq> None) True) v)) = effects v @ es
        \<and> list_all (permitted profile r) es"
      by (simp add: performs_def adds_def)
    moreover have "\<exists>es. effects (fst (log_append (fe env) (store_row env key m (pdf \<noteq> None) False) v)) = effects v @ es
        \<and> list_all (permitted profile r) es"
      using log_append_effects [of "fe env" "store_row env key m (pdf \<noteq> None) False" v] row
      by (cases "log_append (fe env) (store_row env key m (pdf \<noteq> None) False) v") auto
    ultimately show ?thesis
      using v same by (auto simp: write_metadata_and_pdf_def split: sum.split)
  qed
  then show ?thesis by (simp add: emits_def)
qed

lemma emits_fetch_arxiv: "emits (permitted profile r) (fetch_paper_arxiv env ident profile root key)"
  unfolding fetch_paper_arxiv_def Let_def
  by (intro emits_intros emits_reading emits_performs [OF base_sources_permitted(1)])

lemma m_doi_doi_record [simp]: "m_doi (doi_record env at d key ds) = Some d"
  by (simp add: doi_record_def Let_def)

lemma emits_store_doi [emits_intros]: "emits (permitted profile (RefDoi d)) (store_doi env d profile key ds)"
proof -
  have "emits (permitted profile (RefDoi d)) (and_then (reading (\<lambda>es. doi_record env (now_text env es) d key ds)) (\<lambda>m.
      and_then (repair_act env m profile) (\<lambda>(m, quality).
      and_then (write_metadata_and_pdf env key m p) (\<lambda>_. return_ok (m, quality)))))" for p
    by (intro emits_reading emits_intros emits_performs [OF performs_repair_act]) simp
  then show ?thesis
    by (cases "ds_bytes ds") (simp_all add: store_doi_def staged_or_not_def emits_with_staged)
qed

lemma emits_fetch_doi: "emits (permitted profile (RefDoi d)) (fetch_paper_doi env d profile root key)"
  unfolding fetch_paper_doi_def refuse_stub_def
  by (intro emits_intros emits_performs [OF performs_ask_sources])

lemma emits_repeat_gate: "emits (permitted profile r) (repeat_gate env input force)"
proof -
  have "performs (permitted profile r) (log_row_act (fe env) (forced_row input cd))" for cd
    by (intro performs_log) (simp add: permitted_def forced_row_def)
  then have "\<exists>es. effects (fst (log_row_act (fe env) (forced_row input cd) w)) = effects w @ es
      \<and> list_all (permitted profile r) es" for cd w
    by (simp add: performs_def adds_def)
  then show ?thesis by (simp add: emits_def repeat_gate_def split: verdict.split)
qed

text \<open>C1: A fetch talks only to services its capability profile permits.  Whatever the servers answer and
  whatever fails, every rate-limiter wait, request and source log row of a fetch belongs to one of the four base
  services, to a metadata source whose flag is set in the profile, or to a publisher's text-mining service for a
  DOI of that publisher and under a grant (which needs the explicit agreement).  This covers the resolution, the
  open-access leg, every fallback, the repair of damaged titles and the log.\<close>

theorem fetch_contacts_only_enabled:
  "\<exists>es. effects (fst (fetch_paper_with env r profile root force w)) = effects w @ es
     \<and> list_all (permitted profile r) es"
proof -
  have "emits (permitted profile r) (fetch_paper_with env r profile root force)"
    unfolding fetch_paper_with_def Let_def
    by (cases r) (auto intro!: emits_intros emits_repeat_gate emits_fetch_arxiv emits_fetch_doi)
  then show ?thesis by (simp add: emits_def)
qed

subsection \<open>A success is on disk and on the log\<close>

text \<open>Repair changes no field the log row or the path of a record depends on.\<close>

definition identity_of :: "metadata \<Rightarrow> doi option \<times> arxiv_id option \<times> string list \<times> (string \<times> string \<times> nat \<times> string option) option" where
  "identity_of m = (m_doi m, m_arxiv_id m, authors m,
     map_option (\<lambda>d. (d_source d, d_license d, d_size_bytes d, origin d)) (m_doiget m))"

lemma repair_field_identity: "identity_of (fst (repair_field s work f st)) = identity_of (fst st)"
  by (auto simp: repair_field_def identity_of_def split: prod.split option.split)

lemma fold_repair_identity: "identity_of (fst (fold (repair_field s work) fs st)) = identity_of (fst st)"
  by (induction fs arbitrary: st) (simp_all add: repair_field_identity)

lemma repair_loop_identity:
  "repair_loop r profile wanted srcs st w = (w', Ok st') \<Longrightarrow> identity_of (fst st') = identity_of (fst st)"
proof (induction srcs arbitrary: st w)
  case (Cons s srcs)
  from Cons.prems show ?case
    by (auto simp: performs_catch_Ok fold_repair_identity return_ok_Ok split: if_splits option.splits
        dest!: Cons.IH)
qed (simp add: return_ok_Ok)

lemma repair_act_identity:
  assumes "repair_act env m profile w = (w', Ok (m', q))"
  shows "identity_of m' = identity_of m"
proof -
  have "identity_of (m\<lparr>m_doiget := map_option (\<lambda>d. d\<lparr>repaired_fields := f d\<rparr>) (m_doiget m)\<rparr>) = identity_of m" for m f
    by (cases "m_doiget m") (simp_all add: identity_of_def)
  with assms show ?thesis
    by (auto simp: repair_act_def repair_with_act_def Let_def and_then_Ok return_ok_Ok
        split: if_splits list.splits option.splits prod.splits dest!: repair_loop_identity)
qed

lemma store_row_identity:
  assumes "identity_of m' = identity_of m"
  shows "store_row env key m' has ok = store_row env key m has ok"
  using assms by (cases "m_doiget m"; cases "m_doiget m'")
    (auto simp: identity_of_def store_row_def record_digest_def)

lemma log_row_reported:
  assumes "log_row_act env i w = (w', Ok u)"
  shows "\<exists>n h. reported_row (w_logs w') (p_name (w_log w')) (p_session (w_log w')) i n h \<and> w_files w' = w_files w"
proof -
  obtain dir p where wl: "w_logs w = dir" "w_log w = p" by simp
  obtain d q res where a: "append_row (cj env) (sha env) (hx env) (line_bytes env) (clock env (effects w))
      (log_fault env (effects w)) i (dir, p) = ((d, q), res)"
    by (metis surj_pair)
  with assms wl obtain k where k: "res = Inr k" and w': "w_logs w' = d" "w_log w' = q" "w_files w' = w_files w"
    by (auto simp: log_row_act_def log_append_def split: sum.splits)
  have "p_name q = p_name p" "p_session q = p_session p"
    using a k by (auto simp: append_row_def maybe_rotate_def Let_def split: prod.splits sum.splits if_splits)
  with append_row_effect [OF a] k w' show ?thesis by auto
qed

text \<open>
  What a fetch that wrote \<open>m\<close> leaves: the record is \<open>m\<close> merged into what was stored before, the PDF is the
  bytes that were received, and the log ends with the row of the write.
\<close>

definition recorded :: "orch_env \<Rightarrow> safekey \<Rightarrow> metadata \<Rightarrow> string option \<Rightarrow> world \<Rightarrow> world \<Rightarrow> bool" where
  "recorded env key m bytes w w' \<longleftrightarrow>
     (\<exists>es merged doc. merged_record (uni env) (utc_text env) (other_toml env) (store_io env es) Preserve
          (map_of (w_files w) (meta_file (the_store env) key)) m = Inr merged
        \<and> normalize_toml merged = Inr doc
        \<and> map_of (w_files w') (meta_file (the_store env) key) = Some (Doc doc))
     \<and> (\<forall>b. bytes = Some b \<longrightarrow> map_of (w_files w') (pdf_file (the_store env) key) = Some (Bytes b))
     \<and> (\<exists>has n h. reported_row (w_logs w') (p_name (w_log w')) (p_session (w_log w'))
          (store_row env key m has True) n h)"

lemma write_recorded:
  assumes "write_metadata_and_pdf env key m pdf v = (v', Ok u)"
    and "case pdf of None \<Rightarrow> bytes = None
      | Some q \<Rightarrow> q \<noteq> lock_file (the_store env) key \<and> map_of (w_files v) q = map_option Bytes bytes"
    and "map_of (w_files v) (meta_file (the_store env) key) = map_of (w_files w) (meta_file (the_store env) key)"
  shows "recorded env key m bytes w v'"
proof -
  from assms(1) obtain fs where
      wr: "write_with_impl (uni env) (utc_text env) (other_toml env) (the_store env) (store_io env (effects v))
        key m pdf Preserve (w_files v) = (fs, Inr ())"
      and lg: "log_row_act (fe env) (store_row env key m (pdf \<noteq> None) True) (v\<lparr>w_files := fs\<rparr>) = (v', Ok u)"
    by (auto simp: write_metadata_and_pdf_def store_write_def split: prod.splits sum.splits)
  from log_row_reported [OF lg] obtain n h where
      row: "reported_row (w_logs v') (p_name (w_log v')) (p_session (w_log v')) (store_row env key m (pdf \<noteq> None) True) n h"
      and fs: "w_files v' = fs"
    by auto
  have "case pdf of None \<Rightarrow> True | Some src \<Rightarrow> src \<noteq> lock_file (the_store env) key"
    using assms(2) by (auto split: option.splits)
  from write_effect [OF wr this] assms(2,3) fs show ?thesis
    using row unfolding recorded_def by (auto split: option.splits)
qed

definition stages_elsewhere :: "orch_env \<Rightarrow> safekey \<Rightarrow> bool" where
  "stages_elsewhere env key \<longleftrightarrow> (\<forall>es. case staging env es of
     StageFailed \<Rightarrow> True | Unstageable \<Rightarrow> False | StagedAt p \<Rightarrow> p \<notin> touched (the_store env) key)"

lemma with_staged_Ok:
  assumes "with_staged env b k w = (w', Ok a)" and "stages_elsewhere env key"
  shows "\<exists>q v. q \<notin> touched (the_store env) key
    \<and> k (Some q) (w\<lparr>w_files := AList.update q (Bytes b) (w_files w)\<rparr>) = (v, Ok a)
    \<and> w' = v\<lparr>w_files := AList.delete q (w_files v)\<rparr>"
proof -
  from assms(2) have "case staging env (effects w) of
     StageFailed \<Rightarrow> True | Unstageable \<Rightarrow> False | StagedAt p \<Rightarrow> p \<notin> touched (the_store env) key"
    by (simp add: stages_elsewhere_def)
  with assms(1) show ?thesis
    by (auto simp: with_staged_def stage_pdf_def and_then_Ok split: staged.splits prod.splits)
qed

lemma recorded_delete:
  assumes "recorded env key m bytes w v" and "q \<notin> touched (the_store env) key"
  shows "recorded env key m bytes w (v\<lparr>w_files := AList.delete q (w_files v)\<rparr>)"
  using assms unfolding recorded_def touched_def by (auto simp: delete_conv')

subsection \<open>The shape of an answer\<close>

definition is_pdf :: "string \<Rightarrow> bool" where
  "is_pdf b \<longleftrightarrow> take 5 b = PDF_MAGIC \<and> length b \<le> PDF_MAX_BYTES"

lemma http_get_pdf: "http_get env True n u hs w = (w', Inr (body, v)) \<Longrightarrow> is_pdf body"
proof -
  assume a: "http_get env True n u hs w = (w', Inr (body, v))"
  then obtain w1 ds where f: "fetch_inner (set_scheme env) (name_ok env) (value_ok env) (render env) (nanos env)
      (send env w1) (client env) n u hs True = (ds, Inr (body, v))"
    by (auto simp: http_get_def Let_def prod_eq_iff)
  show "is_pdf body"
  proof (cases rule: fetch_inner_cases [of "set_scheme env" "name_ok env" "value_ok env" "render env" "nanos env"
        "send env w1" "client env" n u hs True])
    case (1 e)
    with f show ?thesis by simp
  next
    case (2 c hm)
    let ?send = "send env w1 c (upgrade_http_to_https (set_scheme env) u) hm"
    from fetch_loop_decisive [of 0 "render env" "nanos env" True ?send] 2 f
    have "fetch_attempt (render env) (nanos env) True (length ds) (?send (length ds)) = Done (Inr (body, v))" by auto
    from fetch_attempt_success [OF this] show ?thesis by (auto simp: is_pdf_def)
  qed
qed

lemma fetch_pdf_is_pdf: "fetch_pdf_with_headers env n u hs w = (w', Ok (body, v)) \<Longrightarrow> is_pdf body"
  by (auto simp: fetch_pdf_with_headers_def split: prod.splits sum.splits dest: http_get_pdf)

text \<open>There are bytes exactly when the leg says so, and they are a PDF.\<close>

definition leg_ok :: "pdf_leg_status \<Rightarrow> string option \<Rightarrow> bool" where
  "leg_ok leg bytes \<longleftrightarrow> (case leg of NoOaUrl \<Rightarrow> bytes = None | Blocked _ _ _ _ \<Rightarrow> bytes = None
     | _ \<Rightarrow> (\<exists>b. bytes = Some b \<and> is_pdf b))"

lemma leg_ok_simps [simp]:
  "leg_ok NoOaUrl bytes \<longleftrightarrow> bytes = None" "leg_ok (Blocked cd m dn sg) bytes \<longleftrightarrow> bytes = None"
  "leg_ok Fetched bytes \<longleftrightarrow> (\<exists>b. bytes = Some b \<and> is_pdf b)"
  "leg_ok (PreprintFallback s m f) bytes \<longleftrightarrow> (\<exists>b. bytes = Some b \<and> is_pdf b)"
  "leg_ok (PreprintDoiFallback dd pf m f) bytes \<longleftrightarrow> (\<exists>b. bytes = Some b \<and> is_pdf b)"
  "leg_ok (TdmFetched s m) bytes \<longleftrightarrow> (\<exists>b. bytes = Some b \<and> is_pdf b)"
  by (simp_all add: leg_ok_def)

text \<open>What every answer of an operation satisfies.\<close>

definition delivers :: "('a \<Rightarrow> bool) \<Rightarrow> 'a act \<Rightarrow> bool" where
  "delivers Q m \<longleftrightarrow> (\<forall>w w' a. m w = (w', Ok a) \<longrightarrow> Q a)"

lemma delivers_simps [simp]:
  "delivers Q (return_ok a) \<longleftrightarrow> Q a" "delivers Q (throw e)"
  by (simp_all add: delivers_def return_ok_def throw_def)

lemma delivers_bind: "delivers R m \<Longrightarrow> (\<And>a. R a \<Longrightarrow> delivers Q (f a)) \<Longrightarrow> delivers Q (and_then m f)"
  unfolding delivers_def and_then_Ok by blast

lemma delivers_then: "(\<And>a. delivers Q (f a)) \<Longrightarrow> delivers Q (and_then m f)"
  unfolding delivers_def and_then_Ok by blast

lemma delivers_catch:
  "delivers R m \<Longrightarrow> (\<And>e. delivers Q (f (Inl e))) \<Longrightarrow> (\<And>a. R a \<Longrightarrow> delivers Q (f (Inr a))) \<Longrightarrow> delivers Q (catch m f)"
  unfolding delivers_def performs_catch_Ok by blast

lemma delivers_any: "delivers (\<lambda>_. True) m"
  by (simp add: delivers_def)

lemma delivers_after_log [simp]:
  "Q a \<Longrightarrow> delivers Q (and_then (log_row_best_effort env i) (\<lambda>_. return_ok a))"
  by (rule delivers_then) simp

definition right_pdf :: "'e + string \<Rightarrow> bool" where
  "right_pdf x = (case x of Inl _ \<Rightarrow> True | Inr b \<Rightarrow> is_pdf b)"

definition some_pdf :: "string option \<Rightarrow> bool" where
  "some_pdf x = (case x of None \<Rightarrow> True | Some b \<Rightarrow> is_pdf b)"

lemma pdf_simps [simp]:
  "right_pdf (Inl e)" "right_pdf (Inr b) \<longleftrightarrow> is_pdf b" "some_pdf None" "some_pdf (Some b) \<longleftrightarrow> is_pdf b"
  by (simp_all add: right_pdf_def some_pdf_def)

lemma try_fetch_pdf: "delivers right_pdf (try_fetch_oa_pdf env d u)"
proof -
  have "delivers (\<lambda>x. case x of Inl _ \<Rightarrow> True | Inr (b, _) \<Rightarrow> is_pdf b)
      (\<lambda>w. case http_get (fe env) True ''oa-publisher'' u [] w of (w, x) \<Rightarrow> (w, Ok x))"
    by (auto simp: delivers_def split: prod.splits sum.splits dest: http_get_pdf)
  note get = delivers_bind [OF this]
  show ?thesis
    unfolding try_fetch_oa_pdf_def Let_def
    by (rule delivers_then) (auto split: option.split sum.split intro!: get)
qed

lemma oa_loop_pdf: "delivers right_pdf (oa_loop env d e us)"
  by (induction us arbitrary: e) (auto split: sum.split intro!: delivers_bind [OF try_fetch_pdf])

lemma first_candidate_pdf: "delivers some_pdf (first_candidate env d us)"
  by (induction us) (auto split: sum.split intro!: delivers_bind [OF try_fetch_pdf])

lemma oa_leg_ok: "delivers (\<lambda>(leg, bytes). leg_ok leg bytes) (oa_leg env d us)"
  unfolding oa_leg_def Let_def
  by (auto split: sum.split option.split intro!: delivers_bind [OF oa_loop_pdf])

lemma arxiv_pdf: "delivers (\<lambda>a. some_pdf (fr_pdf_bytes a)) (src_fetch (arxiv_source_from_env env) r p)"
  unfolding delivers_def
  by (cases r) (auto simp: arxiv_source_from_env_def arxiv_source_def arxiv_fetch_def fetch_pdf_def act_Ok_simps
      throw_def dest: fetch_pdf_is_pdf)

lemma arxiv_fallback_ok:
  assumes "leg_ok leg bytes"
  shows "delivers (\<lambda>(leg, bytes, _). leg_ok leg bytes) (try_arxiv_preprint_fallback env leg bytes discovered profile)"
  unfolding try_arxiv_preprint_fallback_def Let_def
  using assms by (auto split: option.split sum.split intro!: delivers_catch [OF arxiv_pdf])

lemma optional_fallback_ok:
  assumes "leg_ok leg bytes"
  shows "delivers (\<lambda>(leg, bytes, _). leg_ok leg bytes)
    (try_optional_source_oa_fallback env d leg bytes profile rows already)"
  unfolding try_optional_source_oa_fallback_def Let_def
  using assms by (auto split: option.split sum.split intro!: delivers_then delivers_bind [OF try_fetch_pdf])

lemma tdm_content_pdf:
  "e \<in> set (tdm_chain env) \<Longrightarrow> delivers some_pdf (src_fetch_content (te_src e) r p)"
  unfolding delivers_def
  by (auto simp: tdm_chain_def Let_def aps_source_def doi_source_defs default_fetch_content_def
      aps_fetch_content_def act_Ok_simps split: paper_ref.splits if_splits option.splits dest!: fetch_pdf_is_pdf)

lemma tdm_content_loop_ok:
  assumes "set es \<subseteq> set (tdm_chain env)" and "leg_ok leg None"
  shows "delivers (\<lambda>(leg, bytes, _). leg_ok leg bytes) (tdm_content_loop env d profile leg block es rows)"
  using assms(1)
proof (induction es arbitrary: rows)
  case (Cons e es)
  then have "e \<in> set (tdm_chain env)" by simp
  with Cons show ?case
    by (auto simp: Let_def split: option.split intro!: delivers_catch [OF tdm_content_pdf])
qed (simp add: assms(2))

lemma tdm_fallback_ok:
  assumes "leg_ok leg bytes"
  shows "delivers (\<lambda>(leg, bytes, _). leg_ok leg bytes) (try_tdm_content_fallback env d leg bytes profile rows)"
  unfolding try_tdm_content_fallback_def
  using assms by (auto split: option.split pdf_leg_status.split intro!: tdm_content_loop_ok)

lemma preprint_doi_fallback_ok:
  assumes "leg_ok leg bytes"
  shows "delivers (\<lambda>(leg, bytes, _). leg_ok leg bytes)
    (try_preprint_doi_fallback env d meta leg bytes contact profile)"
  unfolding try_preprint_doi_fallback_def Let_def
  using assms
  by (auto split: option.split pdf_leg_status.split fetch_error.split
      intro!: delivers_then delivers_catch [OF delivers_any] delivers_bind [OF first_candidate_pdf])

lemmas delivers_skips =
  delivers_then [where m = "attempt m'" for m'] delivers_then [where m = "discover a b c d e" for a b c d e]
  delivers_then [where m = "resolve_tdm_chain a b c d e" for a b c d e]
  delivers_then [where m = "resolve_optional_chain a b c d e" for a b c d e]

lemma ask_sources_ok:
  "delivers (\<lambda>ds. leg_ok (ds_leg ds) (ds_bytes ds) \<and> (\<forall>s m. ds_leg ds = TdmFetched s m \<longrightarrow> ds_license ds = ''unknown''))
     (ask_sources env d profile)"
  unfolding ask_sources_def Let_def
  by (auto simp: final_license_def intro!: delivers_skips delivers_bind [OF oa_leg_ok]
      delivers_bind [OF arxiv_fallback_ok] delivers_bind [OF optional_fallback_ok]
      delivers_bind [OF tdm_fallback_ok] delivers_bind [OF preprint_doi_fallback_ok] split: prod.split)

definition record_file :: "string \<Rightarrow> safekey \<Rightarrow> string" where
  "record_file root key = root @ ''/'' @ ''.metadata/'' @ safekey_as_str key @ ''.toml''"

definition document_file :: "string \<Rightarrow> safekey \<Rightarrow> string" where
  "document_file root key = root @ ''/'' @ pdf_name key"

definition outcome_ok :: "orch_env \<Rightarrow> paper_ref \<Rightarrow> string \<Rightarrow> paper_outcome \<Rightarrow> bool" where
  "outcome_ok env r root out \<longleftrightarrow>
     (let key = ref_safekey (sha (fe env)) (hx (fe env)) r in
      po_profile out = po_source out \<and> po_schema_version out = SCHEMA_VERSION
      \<and> po_safekey out = safekey_as_str key
      \<and> po_digest out = digest_hex (sha (fe env)) (hx (fe env)) (promote r (po_source out) None)
      \<and> (if po_leg out = NoOaUrl \<or> \<not> is_clean_success out
         then po_size_bytes out = 0 \<and> po_path out = record_file root key
         else 5 \<le> po_size_bytes out \<and> po_size_bytes out \<le> PDF_MAX_BYTES \<and> po_path out = document_file root key)
      \<and> (case po_leg out of
           PreprintFallback _ _ _ \<Rightarrow> po_source out = ''arxiv''
         | TdmFetched s _ \<Rightarrow> po_source out = s \<and> po_license out = ''unknown''
         | _ \<Rightarrow> True))"

lemma is_pdf_length: "is_pdf b \<Longrightarrow> 5 \<le> length b \<and> length b \<le> PDF_MAX_BYTES"
proof -
  assume "is_pdf b"
  then have "length (take 5 b) = 5" "length b \<le> PDF_MAX_BYTES" by (simp_all add: is_pdf_def PDF_MAGIC_def)
  then show ?thesis by simp
qed

lemma arxiv_outcome_ok: "delivers (outcome_ok env (RefArxiv ident) root)
    (fetch_paper_arxiv env ident profile root (ref_safekey (sha (fe env)) (hx (fe env)) (RefArxiv ident)))"
proof -
  have pdf: "delivers (\<lambda>b. is_pdf b) (ok_or e (fr_pdf_bytes a))" if "some_pdf (fr_pdf_bytes a)" for e a
    using that by (cases "fr_pdf_bytes a") simp_all
  show ?thesis
    unfolding fetch_paper_arxiv_def Let_def
    by (auto intro!: delivers_bind [OF arxiv_pdf] delivers_bind [OF pdf]
        delivers_then [where m = "reading f" for f] delivers_then [where m = "with_staged a b c" for a b c]
        simp: outcome_ok_def is_clean_success_def document_file_def promote_def canonical_new_def dest: is_pdf_length)
qed

lemma doi_outcome_ok:
  assumes "leg_ok (ds_leg ds) (ds_bytes ds)" and "\<forall>s m. ds_leg ds = TdmFetched s m \<longrightarrow> ds_license ds = ''unknown''"
  shows "outcome_ok env (RefDoi d) root
    (doi_outcome env d root (ref_safekey (sha (fe env)) (hx (fe env)) (RefDoi d)) ds m q)"
  using assms
  by (cases "ds_leg ds")
    (auto simp: outcome_ok_def doi_outcome_def is_clean_success_def document_file_def record_file_def promote_def
      canonical_new_def bytes_size_def final_label_def pdf_label_def dest: is_pdf_length)

lemma fetch_outcome_ok: "delivers (outcome_ok env r root) (fetch_paper_with env r profile root force)"
  unfolding fetch_paper_with_def fetch_paper_doi_def Let_def
  by (cases r) (auto intro!: delivers_bind [OF delivers_any [of "repeat_gate a b c" for a b c]] arxiv_outcome_ok
      delivers_bind [OF ask_sources_ok] delivers_bind [OF delivers_any [of "refuse_stub a b" for a b]]
      delivers_bind [OF delivers_any [of "store_doi a b c e f" for a b c e f]] doi_outcome_ok)

subsection \<open>What a success leaves behind\<close>

text \<open>The record a fetch writes is about the reference, and says what the outcome says.\<close>

definition agrees :: "orch_env \<Rightarrow> paper_ref \<Rightarrow> paper_outcome \<Rightarrow> metadata \<Rightarrow> string option \<Rightarrow> bool" where
  "agrees env r out m bytes \<longleftrightarrow>
     (case r of RefDoi d \<Rightarrow> m_doi m = Some d | RefArxiv a \<Rightarrow> m_doi m = None \<and> m_arxiv_id m = Some a)
     \<and> title m = po_title out \<and> authors m = po_authors out \<and> year m = po_year out
     \<and> map_option (\<lambda>d. (d_source d, d_license d, d_size_bytes d)) (m_doiget m)
        = Some (po_source out, po_license out, po_size_bytes out)
     \<and> po_size_bytes out = (case bytes of None \<Rightarrow> 0 | Some b \<Rightarrow> length b)
     \<and> leg_ok (po_leg out) bytes"

lemma stages_elsewhere_write:
  assumes "q \<notin> touched (the_store env) key"
    and "write_metadata_and_pdf env key m (Some q) u = (v, Ok x)"
    and "w_files u = AList.update q (Bytes b) (w_files w)"
  shows "recorded env key m (Some b) w (v\<lparr>w_files := AList.delete q (w_files v)\<rparr>)"
  using assms
  by (intro recorded_delete write_recorded [OF assms(2)]) (auto simp: touched_def update_conv')

lemma files_kept: "performs P m \<Longrightarrow> m w = (w', res) \<Longrightarrow> w_files w' = w_files w"
  using performsD unfolding adds_def by blast

lemma arxiv_stored:
  assumes f: "fetch_paper_arxiv env ident profile root key w = (w', Ok out)" and s: "stages_elsewhere env key"
  shows "\<exists>m bytes. recorded env key m bytes w w' \<and> agrees env (RefArxiv ident) out m bytes"
proof -
  from f obtain w1 res pdf at where
      fetched: "src_fetch (arxiv_source_from_env env) (RefArxiv ident) profile w = (w1, Ok res)"
      "fr_pdf_bytes res = Some pdf"
    and staged: "with_staged env pdf (\<lambda>p. case p of None \<Rightarrow> throw (SourceSchema ''staging tempfile path is not UTF-8'')
          | Some q \<Rightarrow> write_metadata_and_pdf env key (arxiv_record env at ident key res pdf) (Some q)) w1 = (w', Ok ())"
    and out: "po_title out = title (arxiv_record env at ident key res pdf)"
      "po_authors out = authors (arxiv_record env at ident key res pdf)"
      "po_year out = year (arxiv_record env at ident key res pdf)" "po_source out = ''arxiv''"
      "po_license out = fr_license res" "po_size_bytes out = length pdf" "po_leg out = Fetched"
    by (auto simp: fetch_paper_arxiv_def Let_def act_Ok_simps reading_def throw_def split: if_splits)
  from with_staged_Ok [OF staged s] obtain q v where q: "q \<notin> touched (the_store env) key"
      and wr: "write_metadata_and_pdf env key (arxiv_record env at ident key res pdf) (Some q)
        (w1\<lparr>w_files := AList.update q (Bytes pdf) (w_files w1)\<rparr>) = (v, Ok ())"
      and w': "w' = v\<lparr>w_files := AList.delete q (w_files v)\<rparr>"
    by auto
  have "w_files w1 = w_files w"
    by (rule files_kept [OF base_sources_permitted(1) [of profile "RefArxiv ident"] fetched(1)])
  with stages_elsewhere_write [OF q wr, of pdf w] w'
  have "recorded env key (arxiv_record env at ident key res pdf) (Some pdf) w w'" by simp
  moreover have "is_pdf pdf" using arxiv_pdf fetched unfolding delivers_def by fastforce
  then have "agrees env (RefArxiv ident) out (arxiv_record env at ident key res pdf) (Some pdf)"
    using out by (simp add: agrees_def) (simp add: arxiv_record_def Let_def no_record_def no_extension_def)
  ultimately show ?thesis by blast
qed

lemma staged_or_not_Ok:
  assumes "staged_or_not env bytes k w = (w', Ok a)" and "stages_elsewhere env key"
  obtains p u v where "k p u = (v, Ok a)"
    and "case p of
        None \<Rightarrow> bytes = None \<and> u = w \<and> w' = v
      | Some q \<Rightarrow> q \<notin> touched (the_store env) key \<and> w' = v\<lparr>w_files := AList.delete q (w_files v)\<rparr>
          \<and> (\<exists>b. bytes = Some b \<and> u = w\<lparr>w_files := AList.update q (Bytes b) (w_files w)\<rparr>)"
proof (cases bytes)
  case None
  with assms(1) show ?thesis by (intro that [of None w w']) (simp_all add: staged_or_not_def)
next
  case (Some b)
  with assms(1) have "with_staged env b k w = (w', Ok a)" by (simp add: staged_or_not_def)
  from with_staged_Ok [OF this assms(2)] Some show ?thesis by (auto intro: that [of "Some q" for q])
qed

lemma refuse_stub_Ok: "refuse_stub env ds w = (w', Ok ()) \<longleftrightarrow>
    w' = w \<and> (is_ok (ds_cross ds) \<or> ds_bytes ds \<noteq> None \<or> ds_optional ds \<noteq> None)"
  by (cases "ds_cross ds") (auto simp: refuse_stub_def return_ok_def throw_def)

lemma doi_stored:
  assumes f: "fetch_paper_doi env d profile root key w = (w', Ok out)" and s: "stages_elsewhere env key"
  shows "\<exists>m bytes. recorded env key m bytes w w' \<and> agrees env (RefDoi d) out m bytes"
proof -
  from f obtain w1 ds m q where asked: "ask_sources env d profile w = (w1, Ok ds)"
      and stored: "store_doi env d profile key ds w1 = (w', Ok (m, q))"
      and out: "out = doi_outcome env d root key ds m q"
    by (auto simp: fetch_paper_doi_def act_Ok_simps refuse_stub_Ok)
  have w1: "w_files w1 = w_files w" by (rule files_kept [OF performs_ask_sources asked])
  have leg: "leg_ok (ds_leg ds) (ds_bytes ds)" using ask_sources_ok asked unfolding delivers_def by blast
  from staged_or_not_Ok [OF stored [unfolded store_doi_def] s] obtain p u v where
      run: "and_then (reading (\<lambda>es. doi_record env (now_text env es) d key ds)) (\<lambda>m.
         and_then (repair_act env m profile) (\<lambda>(m, quality).
         and_then (write_metadata_and_pdf env key m p) (\<lambda>_. return_ok (m, quality)))) u = (v, Ok (m, q))"
      and p: "case p of
        None \<Rightarrow> ds_bytes ds = None \<and> u = w1 \<and> w' = v
      | Some q \<Rightarrow> q \<notin> touched (the_store env) key \<and> w' = v\<lparr>w_files := AList.delete q (w_files v)\<rparr>
          \<and> (\<exists>b. ds_bytes ds = Some b \<and> u = w1\<lparr>w_files := AList.update q (Bytes b) (w_files w1)\<rparr>)"
    by blast
  from run obtain at u1 where
      rep: "repair_act env (doi_record env at d key ds) profile u = (u1, Ok (m, q))"
      and wr: "write_metadata_and_pdf env key m p u1 = (v, Ok ())"
    by (auto simp: and_then_Ok reading_def return_ok_Ok)
  have same: "identity_of m = identity_of (doi_record env at d key ds)" by (rule repair_act_identity [OF rep])
  have u1: "w_files u1 = w_files u"
    by (rule files_kept [OF performs_repair_act rep]) simp
  have "recorded env key m (ds_bytes ds) w w'"
  proof (cases p)
    case None
    with p wr u1 w1 show ?thesis by (auto intro: write_recorded)
  next
    case (Some q')
    with p obtain b where "ds_bytes ds = Some b" "q' \<notin> touched (the_store env) key"
        "w' = v\<lparr>w_files := AList.delete q' (w_files v)\<rparr>" "w_files u = AList.update q' (Bytes b) (w_files w)"
      using w1 by auto
    with stages_elsewhere_write [OF _ wr [unfolded Some], of b w] u1 show ?thesis by simp
  qed
  moreover have "agrees env (RefDoi d) out m (ds_bytes ds)"
    using same leg out
    by (cases "m_doiget m")
      (auto simp: agrees_def doi_outcome_def identity_of_def doi_record_def Let_def bytes_size_def no_record_def
        no_extension_def)
  ultimately show ?thesis by blast
qed

lemma fetch_stored:
  assumes f: "fetch_paper_with env r profile root force w = (w', Ok out)"
    and s: "stages_elsewhere env (ref_safekey (sha (fe env)) (hx (fe env)) r)"
  shows "\<exists>m bytes. recorded env (ref_safekey (sha (fe env)) (hx (fe env)) r) m bytes w w' \<and> agrees env r out m bytes"
proof -
  from f obtain w1 where gate: "repeat_gate env (as_input_str r) force w = (w1, Ok ())"
      and f1: "(case r of
         RefArxiv ident \<Rightarrow> fetch_paper_arxiv env ident profile root (ref_safekey (sha (fe env)) (hx (fe env)) r)
       | RefDoi d \<Rightarrow> fetch_paper_doi env d profile root (ref_safekey (sha (fe env)) (hx (fe env)) r)) w1 = (w', Ok out)"
    by (auto simp: fetch_paper_with_def Let_def and_then_Ok)
  have same: "w_files w1 = w_files w"
    using gate by (auto simp: repeat_gate_def split: verdict.splits if_splits dest!: log_row_reported)
  have "\<exists>m bytes. recorded env (ref_safekey (sha (fe env)) (hx (fe env)) r) m bytes w1 w' \<and> agrees env r out m bytes"
    using f1 s by (cases r) (auto intro: arxiv_stored doi_stored)
  with same show ?thesis by (simp add: recorded_def)
qed


text \<open>C14: The answer of a fetch is consistent.  Its safekey and digest are those of the reference, under the
  source it names.  When its PDF leg found a document, the size is that of a PDF (at least the magic, at most the
  size limit) and the path is the document's; when the leg is blocked or found no location, the size is 0 and the
  path is the record's.  A preprint is labelled arXiv, and a text-mining copy is labelled with its publisher's
  service and never with an open licence.\<close>

theorem outcome_is_consistent:
  assumes "fetch_paper_with env r profile root force w = (w', Ok out)"
  shows "outcome_ok env r root out"
  using assms fetch_outcome_ok unfolding delivers_def by blast

text \<open>C15: No stub record is stored.  When Crossref failed, no provider of the chains answered and no PDF was
  received, the fetch fails: nothing is written to the store and no row of a write is logged.  The error is the
  one of Crossref, or, once optional sources were listed, a not-found error that renders the trace.\<close>

theorem no_stub_is_stored:
  assumes "ask_sources env d profile w = (w1, Ok ds)"
    and "ds_cross ds = Inl e" and "ds_bytes ds = None" and "ds_optional ds = None"
  shows "fetch_paper_doi env d profile root key w = (w1, Err (total_failure env e (ds_rows ds)))
    \<and> w_files w1 = w_files w
    \<and> fetch_error_code (total_failure env e (ds_rows ds)) = (if ds_rows ds = [] then fetch_error_code e else NotFound)"
proof -
  have "refuse_stub env ds w1 = (w1, Err (total_failure env e (ds_rows ds)))"
    using assms(2-4) by (simp add: refuse_stub_def throw_def)
  with assms(1) have "fetch_paper_doi env d profile root key w = (w1, Err (total_failure env e (ds_rows ds)))"
    by (simp add: fetch_paper_doi_def)
  moreover have "w_files w1 = w_files w" by (rule files_kept [OF performs_ask_sources assms(1)])
  ultimately show ?thesis by (simp add: total_failure_def)
qed

text \<open>A directory that cannot be named in UTF-8 takes the PDF away, and nothing says so.\<close>

lemma unnameable_staging_loses_the_pdf:
  assumes "ds_bytes ds = Some b" and "\<And>es. staging env es = Unstageable"
  shows "store_doi env d profile key ds w =
       and_then (reading (\<lambda>es. doi_record env (now_text env es) d key ds)) (\<lambda>m.
       and_then (repair_act env m profile) (\<lambda>(m, quality).
       and_then (write_metadata_and_pdf env key m None) (\<lambda>_. return_ok (m, quality)))) w
    \<and> pdf_path (doi_record env at d key ds) = Some (pdf_name key)"
proof
  have "with_staged env b k w = k None w" for k :: "string option \<Rightarrow> (metadata \<times> quality_report) act"
    using assms(2) by (simp add: with_staged_def and_then_def stage_pdf_def split: prod.split)
  with assms(1) show "store_doi env d profile key ds w =
       and_then (reading (\<lambda>es. doi_record env (now_text env es) d key ds)) (\<lambda>m.
       and_then (repair_act env m profile) (\<lambda>(m, quality).
       and_then (write_metadata_and_pdf env key m None) (\<lambda>_. return_ok (m, quality)))) w"
    by (simp add: store_doi_def staged_or_not_def)
  show "pdf_path (doi_record env at d key ds) = Some (pdf_name key)"
    using assms(1) by (simp add: doi_record_def Let_def)
qed

subsection \<open>The gate and batches\<close>

lemma closed_gate:
  assumes "check_repeat env (as_input_str r) w \<noteq> Proceed"
  shows "\<exists>cd why secs. fetch_paper_with env r profile root False w = (w, Err (Replayed cd why secs))"
  using assms by (cases "check_repeat env (as_input_str r) w")
    (simp_all add: fetch_paper_with_def and_then_def repeat_gate_def)

lemma just_observed:
  assumes "map_of (entries (repeat_ix (w_log w))) (repeat_key (sha (fe env)) (hx (fe env)) input) = None"
  shows "check_repeat env input (observe_outcome env input (Some cd) w) \<noteq> Proceed"
proof -
  let ?t = "clock (fe env) (effects w)"
  from observe_key_fresh [OF disjI1 [OF assms], of cd "now_instant ?t" "now_utc ?t" "fingerprint ?t"]
  show ?thesis
    by (cases "code_disposition cd")
      (simp_all add: check_repeat_def observe_outcome_def check_at_def observe_at_def check_key_def Let_def
        REPLAY_WINDOW_def RETRY_AFTER_GAP_def NANOS_def)
qed


lemma batch_loop_answers:
  "case batch_loop env profile root force refs acc w of
     (_, Ok results) \<Rightarrow> map fst results = map fst acc @ refs | (_, Err _) \<Rightarrow> False | (_, Panic) \<Rightarrow> True"
proof (induction refs arbitrary: acc w)
  case (Cons r rs)
  obtain v x where v: "fetch_paper_with env r profile root force w = (v, x)" by fastforce
  with Cons.IH show ?case
    by (cases x) (fastforce simp: attempt_def catch_def and_then_def return_ok_def split: prod.splits res.splits)+
qed (simp add: return_ok_def)

text \<open>A batch answers every reference, in order, or refuses as a whole.  Within the limit of 100 references no
  failure of one reference stops the others: the results are one per reference, in the order given.  Beyond it
  the batch fails before anything is done.\<close>

theorem batch_answers_every_reference:
  "case batch_fetch_with env refs profile root force w of
     (_, Ok results) \<Rightarrow> map fst results = refs \<and> length refs \<le> 100
   | (w', Err e) \<Rightarrow> w' = w \<and> 100 < length refs \<and> e = TooManyRefs (length refs) 100
   | (_, Panic) \<Rightarrow> True"
  using batch_loop_answers [where acc = "[]" and env = env and profile = profile and root = root and force = force and refs = refs and w = w]
  by (auto simp: batch_fetch_with_def MAX_BATCH_REFS_def throw_def split: prod.splits res.splits)

subsection \<open>Runs\<close>

abbreviation demo_arxiv :: paper_ref where
  "demo_arxiv \<equiv> RefArxiv (ArxivId ''2401.12345'')"

abbreviation demo_doi :: paper_ref where
  "demo_doi \<equiv> RefDoi (Doi ''10.1234/x'')"

text \<open>The arXiv fetch succeeds; the fetch of a DOI nobody knows fails.\<close>

definition demo_run :: "world \<times> paper_outcome res" where
  "demo_run = fetch_paper_with demo_orch demo_arxiv demo_profile ''r'' False demo_world"

definition failed_run :: "world \<times> paper_outcome res" where
  "failed_run = fetch_paper_with demo_orch demo_doi demo_profile ''r'' False demo_world"

lemma demo_runs:
  "(case demo_run of (_, Ok out) \<Rightarrow> po_size_bytes out = 9 \<and> po_source out = ''arxiv'' | _ \<Rightarrow> False)
   \<and> (case failed_run of
       (w', Err e) \<Rightarrow> fetch_error_code e = NotFound \<and> entries (repeat_ix (w_log w')) = [] \<and> length (effects w') = 4 | _ \<Rightarrow> False)
   \<and> (case ask_sources demo_orch (Doi ''10.1234/x'') demo_profile demo_world of
       (w1, Ok ds) \<Rightarrow> \<not> is_ok (ds_cross ds) \<and> Option.is_none (ds_bytes ds) \<and> Option.is_none (ds_optional ds)
         \<and> ds_rows ds \<noteq> [] | _ \<Rightarrow> False)"
  by code_simp

lemmas demo_run_ok = demo_runs [THEN conjunct1]
lemmas failed_run_err = demo_runs [THEN conjunct2, THEN conjunct1]
lemmas demo_asked = demo_runs [THEN conjunct2, THEN conjunct2]

lemma demo_run_Ok:
  obtains w' out where "fetch_paper_with demo_orch demo_arxiv demo_profile ''r'' False demo_world = (w', Ok out)"
    and "po_size_bytes out = 9" and "po_source out = ''arxiv''"
  using demo_run_ok unfolding demo_run_def
  by (cases "fetch_paper_with demo_orch demo_arxiv demo_profile ''r'' False demo_world"; cases "snd (fetch_paper_with demo_orch demo_arxiv demo_profile ''r'' False demo_world)") auto

lemma failed_run_Err:
  obtains w' e where "fetch_paper_with demo_orch demo_doi demo_profile ''r'' False demo_world = (w', Err e)"
    and "fetch_error_code e = NotFound" and "entries (repeat_ix (w_log w')) = []" and "length (effects w') = 4"
  using failed_run_err unfolding failed_run_def
  by (cases "fetch_paper_with demo_orch demo_doi demo_profile ''r'' False demo_world";
      cases "snd (fetch_paper_with demo_orch demo_doi demo_profile ''r'' False demo_world)") auto

lemma demo_stages_elsewhere: "stages_elsewhere demo_orch key"
  by (simp add: stages_elsewhere_def demo_orch_def touched_def demo_store_def)


theorem outcome_is_consistent_witness:
  "\<exists>w' out. fetch_paper_with demo_orch demo_arxiv demo_profile ''r'' False demo_world = (w', Ok out)
     \<and> outcome_ok demo_orch demo_arxiv ''r'' out \<and> po_source out = ''arxiv''"
  by (rule demo_run_Ok) (use outcome_is_consistent in blast)

theorem no_stub_is_stored_witness:
  "\<exists>w1 e. fetch_paper_doi demo_orch (Doi ''10.1234/x'') demo_profile ''r'' (Safekey ''x'') demo_world = (w1, Err e)
     \<and> w_files w1 = [] \<and> fetch_error_code e = NotFound"
proof -
  let ?ask = "ask_sources demo_orch (Doi ''10.1234/x'') demo_profile demo_world"
  obtain w1 ds where ask: "?ask = (w1, Ok ds)"
    using demo_asked by (cases ?ask; cases "snd ?ask") auto
  with demo_asked obtain e where "ds_cross ds = Inl e" "ds_bytes ds = None" "ds_optional ds = None" "ds_rows ds \<noteq> []"
    by (cases "ds_cross ds") (auto simp: Option.is_none_def)
  with no_stub_is_stored [OF ask, of e] show ?thesis by (auto simp: demo_world_def)
qed


end
