(* ===== verification/User_Extension.thy ===== *)
theory User_Extension
  imports Allowlist Capability Errors Markup
begin

text \<open>
  The reader of the user's \<^verbatim>\<open>config.toml\<close> and the hosts it adds to the gate
  (\<^verbatim>\<open>crates/doiget-core/src/user_extension.rs\<close>; the \<^verbatim>\<open>[verify]\<close> reader of \<^verbatim>\<open>verify_config.rs\<close>).  The TOML parser is a parameter \<open>parse\<close>: the text
  as a \<open>raw_config\<close> (the keys this reader declares), or nothing when it does not deserialise.  The
  file system is a parameter too, the answer of reading one path.  The process environment is the
  \<open>env\<close> of \<open>Capability\<close>.
\<close>

subsection \<open>The pattern grammar\<close>

datatype pattern_error =
    PatEmpty
  | PatWhitespace
  | BareWildcard
  | MisplacedWildcard
  | MultiSegmentGlob
  | EmptySuffix
  | NoDot
  | EmptyLabel
  | LabelHyphenBorder string
  | BadChar string

fun validate_labels :: "string list \<Rightarrow> pattern_error + unit" where
  "validate_labels [] = Inr ()"
| "validate_labels (label # rest) =
     (if label = [] then Inl EmptyLabel
      else if starts_with label ''-'' \<or> ends_with label ''-'' then Inl (LabelHyphenBorder label)
      else if \<not> list_all (\<lambda>c. is_ascii_alphanumeric c \<or> c = CHR ''-'') label then Inl (BadChar label)
      else validate_labels rest)"

definition validate_fqdn :: "string \<Rightarrow> pattern_error + unit" where
  "validate_fqdn body =
     (if CHR ''.'' \<notin> set body then Inl NoDot else validate_labels (split_char CHR ''.'' body))"

definition validate_pattern :: "string \<Rightarrow> pattern_error + unit" where
  "validate_pattern pattern =
     (if pattern = [] then Inl PatEmpty
      else if str_trim pattern \<noteq> pattern then Inl PatWhitespace
      else if pattern = ''*'' then Inl BareWildcard
      else (case (case strip_prefix ''*.'' pattern of
            Some rest \<Rightarrow> if CHR ''*'' \<in> set rest then Inl MultiSegmentGlob else Inr rest
          | None \<Rightarrow> if CHR ''*'' \<in> set pattern then Inl MisplacedWildcard else Inr pattern) of
        Inl e \<Rightarrow> Inl e
      | Inr body \<Rightarrow> if body = [] then Inl EmptySuffix else validate_fqdn body))"

datatype host_pattern = HostPattern string

fun host_pattern_as_str :: "host_pattern \<Rightarrow> string" where
  "host_pattern_as_str (HostPattern s) = s"

definition host_pattern_new :: "string \<Rightarrow> pattern_error + host_pattern" where
  "host_pattern_new raw = (case validate_pattern raw of Inl e \<Rightarrow> Inl e | Inr _ \<Rightarrow> Inr (HostPattern raw))"

subsection \<open>The configuration file\<close>

record user_extension_host =
  ux_host :: host_pattern
  ux_note :: "string option"

record raw_host =
  raw_host_pattern :: string
  raw_host_note :: "string option"

record raw_network =
  raw_additional_hosts :: "raw_host list"
  raw_trust_academic :: bool
  raw_trust_registries :: bool
  raw_contact_email :: "string option"
  raw_unpaywall_email :: "string option"

record raw_cite =
  raw_key_template :: "string option"
  raw_file_field :: "string option"

record raw_config =
  raw_network_table :: "raw_network option"
  raw_store_root :: "string option option"
  raw_cite_table :: "raw_cite option"

record invalid_pattern_issue =
  ip_pattern :: string
  ip_kind :: pattern_error

datatype user_extension_error =
    UxIo string
  | UxParse string
  | InvalidPatterns string "invalid_pattern_issue list"

record user_extension_config =
  additional_hosts :: "user_extension_host list"
  trust_academic_repos :: bool
  trust_oa_registries :: bool
  cfg_store_root :: "string option"
  cfg_contact_email :: "string option"
  cfg_unpaywall_email :: "string option"
  cite_key_template :: "string option"
  cite_file_field :: "string option"

definition default_config :: user_extension_config where
  "default_config = \<lparr> additional_hosts = [], trust_academic_repos = False, trust_oa_registries = False,
     cfg_store_root = None, cfg_contact_email = None, cfg_unpaywall_email = None,
     cite_key_template = None, cite_file_field = None \<rparr>"

definition default_network :: raw_network where
  "default_network = \<lparr> raw_additional_hosts = [], raw_trust_academic = False, raw_trust_registries = False,
     raw_contact_email = None, raw_unpaywall_email = None \<rparr>"

definition trim_nonempty :: "string option \<Rightarrow> string option" where
  "trim_nonempty v = (case v of None \<Rightarrow> None
     | Some s \<Rightarrow> if str_trim s = [] then None else Some (str_trim s))"

text \<open>The two-phase loop over \<^verbatim>\<open>additional_hosts\<close>: every entry is validated, every issue kept.\<close>

fun sort_hosts :: "raw_host list \<Rightarrow> user_extension_host list \<times> invalid_pattern_issue list" where
  "sort_hosts [] = ([], [])"
| "sort_hosts (r # rs) =
     (let (valid, issues) = sort_hosts rs in
      case host_pattern_new (raw_host_pattern r) of
        Inr h \<Rightarrow> (\<lparr> ux_host = h, ux_note = raw_host_note r \<rparr> # valid, issues)
      | Inl k \<Rightarrow> (valid, \<lparr> ip_pattern = raw_host_pattern r, ip_kind = k \<rparr> # issues))"

definition parse_str :: "(string \<Rightarrow> raw_config option) \<Rightarrow> string \<Rightarrow> string \<Rightarrow>
    user_extension_error + user_extension_config" where
  "parse_str parse path text = (case parse text of
     None \<Rightarrow> Inl (UxParse path)
   | Some raw \<Rightarrow>
       (let net = (case raw_network_table raw of Some n \<Rightarrow> n | None \<Rightarrow> default_network);
            (validated, issues) = sort_hosts (raw_additional_hosts net) in
        if issues \<noteq> [] then Inl (InvalidPatterns path issues)
        else Inr \<lparr> additional_hosts = validated, trust_academic_repos = raw_trust_academic net,
               trust_oa_registries = raw_trust_registries net,
               cfg_store_root = trim_nonempty (Option.bind (raw_store_root raw) id),
               cfg_contact_email = trim_nonempty (raw_contact_email net),
               cfg_unpaywall_email = trim_nonempty (raw_unpaywall_email net),
               cite_key_template = trim_nonempty (Option.bind (raw_cite_table raw) raw_key_template),
               cite_file_field = trim_nonempty (Option.bind (raw_cite_table raw) raw_file_field) \<rparr>))"

text \<open>What reading a path answers.\<close>

datatype file_answer = Contents string | NotFound | Unreadable

definition load_config :: "(string \<Rightarrow> raw_config option) \<Rightarrow> (string \<Rightarrow> file_answer) \<Rightarrow> string \<Rightarrow>
    user_extension_error + user_extension_config" where
  "load_config parse read path = (case read path of
     Contents text \<Rightarrow> parse_str parse path text
   | NotFound \<Rightarrow> Inr default_config
   | Unreadable \<Rightarrow> Inl (UxIo path))"

subsection \<open>The verify section\<close>

text \<open>
  The \<^verbatim>\<open>[verify]\<close> table (\<^verbatim>\<open>verify_config.rs\<close>), read from the same file by a parser of its own: the
  two keys, when the table is there.
\<close>

datatype on_missing_id_t = MissingWarn | MissingError | MissingSkip

record verify_config =
  vc_strict :: bool
  vc_on_missing_id :: on_missing_id_t

definition default_verify :: verify_config where
  "default_verify = \<lparr> vc_strict = False, vc_on_missing_id = MissingWarn \<rparr>"

datatype verify_config_error = VcIo string | VcParse string

definition load_verify :: "(string \<Rightarrow> (bool \<times> on_missing_id_t) option option) \<Rightarrow> (string \<Rightarrow> file_answer) \<Rightarrow>
    string \<Rightarrow> verify_config_error + verify_config" where
  "load_verify parse read path = (case read path of
     NotFound \<Rightarrow> Inr default_verify
   | Unreadable \<Rightarrow> Inl (VcIo path)
   | Contents text \<Rightarrow> (case parse text of
       None \<Rightarrow> Inl (VcParse path)
     | Some None \<Rightarrow> Inr default_verify
     | Some (Some (strict, policy)) \<Rightarrow> Inr \<lparr> vc_strict = strict, vc_on_missing_id = policy \<rparr>))"

subsection \<open>Where the file is\<close>

text \<open>\<^verbatim>\<open>Utf8Path::join\<close> on a Unix system: an absolute right side replaces the left one.\<close>

definition path_join :: "string \<Rightarrow> string \<Rightarrow> string" where
  "path_join a b = (if starts_with b ''/'' then b else if a = [] \<or> ends_with a ''/'' then a @ b
     else a @ ''/'' @ b)"

datatype config_dir_error = NotUnicode string | NoHome

definition env_utf8 :: "(string \<Rightarrow> string option) \<Rightarrow> string \<Rightarrow> config_dir_error + string option" where
  "env_utf8 env key = (case env key of
     None \<Rightarrow> Inr None
   | Some s \<Rightarrow> if \<not> is_utf8 s then Inl (NotUnicode key) else if s = [] then Inr None else Inr (Some s))"

text \<open>One rung \<^verbatim>\<open>if let Some(s) = env_utf8(key)? { return .. }\<close> of the ladder.\<close>

definition rung :: "(string \<Rightarrow> string option) \<Rightarrow> string \<Rightarrow> (string \<Rightarrow> string) \<Rightarrow>
    config_dir_error + string \<Rightarrow> config_dir_error + string" where
  "rung env key f next = (case env_utf8 env key of
     Inl e \<Rightarrow> Inl e | Inr (Some s) \<Rightarrow> Inr (f s) | Inr None \<Rightarrow> next)"

definition config_dir :: "(string \<Rightarrow> string option) \<Rightarrow> config_dir_error + string" where
  "config_dir env =
     rung env ''XDG_CONFIG_HOME'' id
       (rung env ''APPDATA'' id
         (rung env ''HOME'' (\<lambda>s. path_join s ''.config'')
           (rung env ''USERPROFILE'' (\<lambda>s. path_join s ''.config'') (Inl NoHome))))"

definition config_path :: "(string \<Rightarrow> string option) \<Rightarrow> config_dir_error + string" where
  "config_path env = map_ok (\<lambda>d. path_join (path_join d ''doiget'') ''config.toml'') (config_dir env)"

definition load_or_default :: "(string \<Rightarrow> raw_config option) \<Rightarrow> (string \<Rightarrow> file_answer) \<Rightarrow>
    (string \<Rightarrow> string option) \<Rightarrow> user_extension_config" where
  "load_or_default parse read env = (case config_path env of
     Inl _ \<Rightarrow> default_config
   | Inr path \<Rightarrow> (case load_config parse read path of Inl _ \<Rightarrow> default_config | Inr c \<Rightarrow> c))"

definition is_path_sep :: "char \<Rightarrow> bool" where
  "is_path_sep c \<longleftrightarrow> c = CHR ''/'' \<or> c = CHR 0x5C"

definition env_filled :: "(string \<Rightarrow> string option) \<Rightarrow> string \<Rightarrow> string option" where
  "env_filled env key = (case env_var env key of Some h \<Rightarrow> if h = [] then None else Some h | None \<Rightarrow> None)"

definition expand_store_root :: "(string \<Rightarrow> string option) \<Rightarrow> string \<Rightarrow> string" where
  "expand_store_root env raw = (case strip_prefix ''~'' raw of
     None \<Rightarrow> raw
   | Some rest \<Rightarrow>
       if \<not> (rest = [] \<or> is_path_sep (hd rest)) then raw
       else (case (case env_filled env ''HOME'' of
                Some h \<Rightarrow> Some h | None \<Rightarrow> env_filled env ''USERPROFILE'') of
           Some h \<Rightarrow> (let trimmed = dropWhile is_path_sep rest in
               if trimmed = [] then h else path_join h trimmed)
         | None \<Rightarrow> raw))"

subsection \<open>The curated hosts\<close>

definition curated :: "(string \<times> string) list \<Rightarrow> user_extension_host list" where
  "curated patterns = concat (map (\<lambda>(pat, note). case host_pattern_new pat of
     Inr h \<Rightarrow> [\<lparr> ux_host = h, ux_note = Some note \<rparr>] | Inl _ \<Rightarrow> []) patterns)"

text \<open>U+2014 in UTF-8.\<close>

definition EM_DASH :: string where
  "EM_DASH = [CHR 0xE2, CHR 0x80, CHR 0x94]"

definition academic_repo_hosts :: "user_extension_host list" where
  "academic_repo_hosts = curated
     [(''*.ac.uk'', ''UK academic institutions (Universities UK)''),
      (''*.ac.jp'', ''Japanese academic institutions (NII)''),
      (''*.jst.go.jp'', ''J-STAGE / JST academic platform (Japan)''),
      (''*.edu.au'', ''Australian universities (TEQSA)''),
      (''*.edu.cn'', ''Chinese universities (MoE)''),
      (''*.ac.cn'', ''Chinese academic institutions''),
      (''*.edu.pl'', ''Polish universities (MEiN)''),
      (''*.ac.nz'', ''New Zealand universities''),
      (''*.ac.za'', ''South African universities (DHET)''),
      (''*.ac.in'', ''Indian academic institutions''),
      (''*.edu.br'', ''Brazilian universities (CAPES)''),
      (''*.edu.tw'', ''Taiwanese universities (MoE)''),
      (''*.edu.tr'', ''Turkish universities (Y'' @ [CHR 0xC3, CHR 0x96] @ ''K)''),
      (''*.edu.ar'', ''Argentine universities (SPU)''),
      (''*.edu.mx'', ''Mexican universities (SEP)'')]"

definition oa_registry_hosts :: "user_extension_host list" where
  "oa_registry_hosts = curated
     [(''scielo.org'', ''SciELO '' @ EM_DASH @ '' Latin American / Iberian OA network''),
      (''*.scielo.org'', ''SciELO national portals''),
      (''*.scielo.br'', ''SciELO Brazil''),
      (''zenodo.org'', ''Zenodo '' @ EM_DASH @ '' CERN general-purpose OA repository''),
      (''*.zenodo.org'', ''Zenodo subdomains''),
      (''osf.io'', ''OSF / OSF Preprints (Center for Open Science)''),
      (''*.osf.io'', ''OSF preprint servers (psyarxiv, socarxiv, ...)''),
      (''hal.science'', ''HAL '' @ EM_DASH @ '' French national OA repository''),
      (''*.hal.science'', ''HAL institutional portals''),
      (''core.ac.uk'', ''CORE '' @ EM_DASH @ '' OA aggregator (Open University / Jisc)''),
      (''www.jstage.jst.go.jp'', ''J-STAGE '' @ EM_DASH @ '' Japan's national journal platform (JST)'')]"

subsection \<open>Merging into the gate\<close>

text \<open>The inner loops: an entry is appended unless its text is already listed.\<close>

fun add_patterns :: "user_extension_host list \<Rightarrow> string list \<Rightarrow> string list" where
  "add_patterns [] pats = pats"
| "add_patterns (h # hs) pats =
     (let s = host_pattern_as_str (ux_host h) in
      add_patterns hs (if s \<in> set pats then pats else pats @ [s]))"

text \<open>\<^verbatim>\<open>iter_mut().find(..)\<close>: the first entry under the key is the one that is changed.\<close>

fun extend_oa :: "user_extension_host list \<Rightarrow> source_allowlist list \<Rightarrow> source_allowlist list option" where
  "extend_oa hs [] = None"
| "extend_oa hs (al # als) =
     (if al_source al = ''oa-publisher''
      then Some (al\<lparr>redirect_hosts := add_patterns hs (redirect_hosts al)\<rparr> # als)
      else map_option (\<lambda>r. al # r) (extend_oa hs als))"

definition merge_into_allowlists :: "source_allowlist list \<Rightarrow> user_extension_host list \<Rightarrow>
    source_allowlist list" where
  "merge_into_allowlists als hs =
     (if hs = [] then als
      else (case extend_oa hs als of
          Some als' \<Rightarrow> als'
        | None \<Rightarrow> als @ [allowlist_new ''oa-publisher'' (add_patterns hs [])]))"

subsection \<open>The grammar, exactly\<close>

text \<open>A host name of at least two labels, and a label: letters, digits and inner hyphens.\<close>

definition fqdn_label :: "string \<Rightarrow> bool" where
  "fqdn_label l \<longleftrightarrow> l \<noteq> [] \<and> list_all (\<lambda>c. is_ascii_alphanumeric c \<or> c = CHR ''-'') l
     \<and> hd l \<noteq> CHR ''-'' \<and> last l \<noteq> CHR ''-''"

definition fqdn :: "string \<Rightarrow> bool" where
  "fqdn b \<longleftrightarrow> CHR ''.'' \<in> set b \<and> list_all fqdn_label (split_char CHR ''.'' b)"

definition host_byte :: "char \<Rightarrow> bool" where
  "host_byte c \<longleftrightarrow> is_ascii_alphanumeric c \<or> c = CHR ''-'' \<or> c = CHR ''.''"

lemma validate_labels_ok: "is_ok (validate_labels ls) \<longleftrightarrow> list_all fqdn_label ls"
proof (induction ls)
  case (Cons l ls)
  have "starts_with l ''-'' \<longleftrightarrow> hd l = CHR ''-''" if "l \<noteq> []"
    using that by (cases l) (simp_all add: starts_with_def)
  moreover have "ends_with l ''-'' \<longleftrightarrow> last l = CHR ''-''" if "l \<noteq> []"
    using that by (cases l rule: rev_cases) (simp_all add: ends_with_def)
  ultimately show ?case using Cons by (auto simp: fqdn_label_def)
qed simp

lemma validate_fqdn_ok: "is_ok (validate_fqdn b) \<longleftrightarrow> fqdn b"
  by (simp add: validate_fqdn_def fqdn_def validate_labels_ok)

lemma fqdn_bytes: "fqdn b \<Longrightarrow> b \<noteq> [] \<and> list_all host_byte b"
proof -
  assume f: "fqdn b"
  have "host_byte c" if "c \<in> set (join_with ''.'' ls)" "list_all fqdn_label ls" for c ls
    using that
  proof (induction ls)
    case (Cons l ls)
    then show ?case
      by (cases "ls = []") (auto simp: join_with_Cons fqdn_label_def list_all_iff host_byte_def)
  qed simp
  with f show ?thesis
    by (metis fqdn_def join_split_char list_all_iff empty_iff list.set(1))
qed

lemma host_byte_plain: "host_byte c \<or> c = CHR ''*'' \<Longrightarrow> code c < 128 \<and> \<not> is_whitespace [c]"
  by (auto simp: host_byte_def is_whitespace_def ascii_class_defs)

lemma fqdn_no_star: "fqdn b \<Longrightarrow> CHR ''*'' \<notin> set b"
proof
  assume "fqdn b" "CHR ''*'' \<in> set b"
  then have "host_byte CHR ''*''" using fqdn_bytes [of b] by (simp add: list_all_iff)
  then show False by (simp add: host_byte_def ascii_class_defs)
qed

lemma fqdn_trim: "fqdn b \<Longrightarrow> str_trim b = b" "fqdn b \<Longrightarrow> str_trim (''*.'' @ b) = ''*.'' @ b"
proof -
  assume "fqdn b"
  from fqdn_bytes [OF this] have b: "\<forall>c\<in>set b. code c < 128 \<and> \<not> is_whitespace [c]"
    by (simp add: list_all_iff host_byte_plain)
  then show "str_trim b = b"
    by (intro trim_ascii_word) (simp add: list_all_iff)
  from b show "str_trim (''*.'' @ b) = ''*.'' @ b"
    by (intro trim_ascii_word) (simp add: list_all_iff host_byte_plain host_byte_def)
qed

lemma validate_pattern_shape:
  "is_ok (validate_pattern p) \<Longrightarrow> \<exists>b. fqdn b \<and> (p = b \<or> p = ''*.'' @ b)"
  by (auto simp: validate_pattern_def validate_fqdn_ok strip_prefix_Some
      split: if_splits option.splits sum.splits)

lemma validate_pattern_accepts:
  assumes f: "fqdn b" and p: "p = b \<or> p = ''*.'' @ b"
  shows "is_ok (validate_pattern p)"
  using p
proof
  note facts = fqdn_trim [OF f] fqdn_no_star [OF f] fqdn_bytes [OF f] f
  {
    assume [simp]: "p = b"
    have "strip_prefix ''*.'' b = None"
      using facts(3) by (auto simp: strip_prefix_None starts_with_iff)
    with facts show ?thesis by (auto simp: validate_pattern_def validate_fqdn_ok)
  }
  assume [simp]: "p = ''*.'' @ b"
  have "strip_prefix ''*.'' (''*.'' @ b) = Some b" by (simp only: strip_prefix_Some)
  with facts show ?thesis by (auto simp: validate_pattern_def validate_fqdn_ok)
qed

text \<open>The pattern grammar of the user's allowlist is exactly the documented one: a pattern is accepted
  when it is a host name of at least two labels (each nonempty, of ASCII letters, digits and inner
  hyphens), or such a name behind one leading \<^verbatim>\<open>*.\<close>; nothing else is, so no bare wildcard, no top-level
  domain, no scheme, port or path, and no padded text ever becomes a pattern.\<close>

theorem pattern_grammar_exact:
  "is_ok (validate_pattern p) \<longleftrightarrow> (\<exists>b. fqdn b \<and> (p = b \<or> p = ''*.'' @ b))"
  using validate_pattern_shape validate_pattern_accepts by blast

subsection \<open>The reader\<close>

definition valid_host :: "user_extension_host \<Rightarrow> bool" where
  "valid_host h \<longleftrightarrow> is_ok (validate_pattern (host_pattern_as_str (ux_host h)))"

lemma host_pattern_new_Inr: "host_pattern_new s = Inr h \<longleftrightarrow> h = HostPattern s \<and> is_ok (validate_pattern s)"
  by (auto simp: host_pattern_new_def is_ok_def split: sum.splits)

lemma sort_hosts_valid: "list_all valid_host (fst (sort_hosts rs))"
  by (induction rs) (auto simp: Let_def valid_host_def host_pattern_new_Inr split: prod.splits sum.splits)

lemma curated_valid: "list_all valid_host (curated ps)"
  by (induction ps) (auto simp: curated_def valid_host_def host_pattern_new_Inr split: sum.splits)

lemma load_config_valid: "load_config parse read path = Inr c \<Longrightarrow> list_all valid_host (additional_hosts c)"
  using sort_hosts_valid
  by (auto simp: load_config_def parse_str_def default_config_def Let_def
      split: file_answer.splits option.splits prod.splits if_splits) (metis fst_conv)+

subsection \<open>The merge\<close>

text \<open>That a table lists a pattern under a source key.\<close>

definition gate_lists :: "source_allowlist list \<Rightarrow> string \<Rightarrow> string \<Rightarrow> bool" where
  "gate_lists als k pat \<longleftrightarrow> (\<exists>al\<in>set als. al_source al = k \<and> pat \<in> set (redirect_hosts al))"

abbreviation host_text :: "user_extension_host \<Rightarrow> string" where
  "host_text h \<equiv> host_pattern_as_str (ux_host h)"

lemma gate_lists_Cons: "gate_lists (al # als) k pat \<longleftrightarrow>
    (al_source al = k \<and> pat \<in> set (redirect_hosts al)) \<or> gate_lists als k pat"
  by (auto simp: gate_lists_def)

lemma gate_lists_append: "gate_lists (as @ bs) k pat \<longleftrightarrow> gate_lists as k pat \<or> gate_lists bs k pat"
  by (auto simp: gate_lists_def)

lemma add_patterns_set: "set (add_patterns hs pats) = set pats \<union> host_text ` set hs"
  by (induction hs pats rule: add_patterns.induct) (auto simp: Let_def)

lemma add_patterns_distinct: "distinct pats \<Longrightarrow> distinct (add_patterns hs pats)"
  by (induction hs pats rule: add_patterns.induct) (auto simp: Let_def)

lemma add_patterns_again: "host_text ` set hs \<subseteq> set pats \<Longrightarrow> add_patterns hs pats = pats"
  by (induction hs pats rule: add_patterns.induct) (auto simp: Let_def)

lemma extend_oa_lists: "extend_oa hs als = Some als' \<Longrightarrow> gate_lists als' k pat \<longleftrightarrow>
    gate_lists als k pat \<or> (k = ''oa-publisher'' \<and> pat \<in> host_text ` set hs)"
  by (induction hs als arbitrary: als' rule: extend_oa.induct)
    (auto simp: gate_lists_Cons add_patterns_set split: if_splits)

lemma merge_lists: "gate_lists (merge_into_allowlists als hs) k pat \<longleftrightarrow>
    gate_lists als k pat \<or> (k = ''oa-publisher'' \<and> pat \<in> host_text ` set hs)"
  using extend_oa_lists [of hs als]
  by (auto simp: merge_into_allowlists_def gate_lists_append allowlist_new_def add_patterns_set
      gate_lists_def [of "[_]"] split: option.split)

lemma extend_oa_sources: "extend_oa hs als = Some als' \<Longrightarrow> map al_source als' = map al_source als"
  by (induction hs als arbitrary: als' rule: extend_oa.induct) (auto split: if_splits)

lemma extend_oa_again: "extend_oa hs als = Some als' \<Longrightarrow> extend_oa hs als' = Some als'"
  by (induction hs als arbitrary: als' rule: extend_oa.induct)
    (auto simp: add_patterns_again add_patterns_set split: if_splits)

lemma extend_oa_end: "extend_oa hs als = None \<Longrightarrow> al_source al = ''oa-publisher'' \<Longrightarrow>
    extend_oa hs (als @ [al]) = Some (als @ [al\<lparr>redirect_hosts := add_patterns hs (redirect_hosts al)\<rparr>])"
  by (induction hs als rule: extend_oa.induct) (auto split: if_splits)

lemma merge_again: "merge_into_allowlists (merge_into_allowlists als hs) hs = merge_into_allowlists als hs"
proof (cases "extend_oa hs als")
  case None
  then show ?thesis
    by (simp add: merge_into_allowlists_def extend_oa_end allowlist_new_def add_patterns_again add_patterns_set)
next
  case (Some als')
  then show ?thesis
    using extend_oa_again [OF Some] by (simp add: merge_into_allowlists_def)
qed

text \<open>A host that only a pattern of the user admits lies within the domain of that pattern.\<close>

lemma lower_star_prefix: "to_ascii_lowercase (''*.'' @ b) = ''*.'' @ to_ascii_lowercase b"
  by (simp add: to_ascii_lowercase_def to_ascii_lower_def is_ascii_uppercase_def)

lemma lower_head_star: "to_ascii_lowercase b = ''*.'' @ t \<Longrightarrow> CHR ''*'' \<in> set b"
proof -
  assume "to_ascii_lowercase b = ''*.'' @ t"
  then obtain c r where b: "b = c # r" "to_ascii_lower c = CHR ''*''"
    by (cases b) (auto simp: to_ascii_lowercase_def)
  have "code (to_ascii_lower c) = 42" using b(2) by simp
  then have "c = CHR ''*''"
    using b(2) by (cases "is_ascii_uppercase c") (auto simp: code_to_ascii_lower to_ascii_lower_def is_ascii_uppercase_def)
  with b(1) show ?thesis by simp
qed

lemma pattern_domain_valid:
  assumes "is_ok (validate_pattern p)"
  shows "\<exists>b. fqdn b \<and> pattern_domain p = to_ascii_lowercase b"
proof -
  obtain b where f: "fqdn b" and p: "p = b \<or> p = ''*.'' @ b"
    using validate_pattern_shape [OF assms] by blast
  have "strip_prefix ''*.'' (to_ascii_lowercase b) = None"
    using f fqdn_no_star [of b] lower_head_star [of b] by (auto simp: strip_prefix_None starts_with_iff)
  moreover have "strip_prefix ''*.'' (''*.'' @ to_ascii_lowercase b) = Some (to_ascii_lowercase b)"
    by (simp only: strip_prefix_Some)
  ultimately have "pattern_domain p = to_ascii_lowercase b"
    using p by (elim disjE) (simp_all only: pattern_domain_def lower_star_prefix option.case)
  with f show ?thesis by blast
qed

end
