(* ===== verification/Remediation.thy ===== *)
theory Remediation
  imports User_Extension
begin

text \<open>
  What lifts a denial (\<^verbatim>\<open>crates/doiget-core/src/remediation.rs\<close>): the hosts and the trust flag proposed
  for a refused host, and what each of them admits once it is in the configuration.
\<close>

datatype remediation_kind = AdditionalHost | TrustFlag

record remediation =
  rm_kind :: remediation_kind
  rm_value :: string
  rm_note :: string

fun looks_like_public_suffix :: "string list \<Rightarrow> bool" where
  "looks_like_public_suffix [_] = True"
| "looks_like_public_suffix [sld, tld] = (length tld = 2 \<and>
     sld \<in> {''co'', ''com'', ''ne'', ''net'', ''or'', ''org'', ''ac'', ''edu'', ''gov'', ''go'', ''gr'', ''lg'',
            ''mil'', ''id'', ''in''})"
| "looks_like_public_suffix _ = False"

definition widening_suggestions :: "string \<Rightarrow> (string \<times> string) list" where
  "widening_suggestions host =
     (let out = [(host, ''this hop only'')];
          labels = filter (\<lambda>l. l \<noteq> []) (split_char CHR ''.'' host) in
      if length labels < 2 \<or> looks_like_public_suffix labels then out
      else if length labels = 2 then out @ [(''*.'' @ host, ''and its subdomains'')]
      else if looks_like_public_suffix (tl labels) then out
      else (let parent = join_with ''.'' (tl labels) in
        out @ [(''*.'' @ parent, ''the whole domain''),
               (parent, ''apex too (a wildcard does not match it)'')]))"

definition pattern_matches :: "string \<Rightarrow> string \<Rightarrow> bool" where
  "pattern_matches host_lc pattern =
     (let pat_lc = to_ascii_lowercase pattern in
      case strip_prefix ''*.'' pat_lc of
        Some suffix \<Rightarrow> host_lc = suffix \<or> ends_with host_lc (''.'' @ suffix)
      | None \<Rightarrow> host_lc = pat_lc)"

text \<open>The inner loop over one curated set.\<close>

fun first_match :: "string \<Rightarrow> user_extension_host list \<Rightarrow> (string \<times> string) option" where
  "first_match host_lc [] = None"
| "first_match host_lc (h # hs) =
     (if pattern_matches host_lc (host_text h)
      then Some (host_text h, case ux_note h of Some n \<Rightarrow> n | None \<Rightarrow> ''a curated host class'')
      else first_match host_lc hs)"

definition trust_flag_for_host :: "string \<Rightarrow> (string \<times> string \<times> string) option" where
  "trust_flag_for_host host =
     (let host_lc = to_ascii_lowercase host in
      case first_match host_lc academic_repo_hosts of
        Some (pat, why) \<Rightarrow> Some (''trust_academic_repos'', pat, why)
      | None \<Rightarrow> (case first_match host_lc oa_registry_hosts of
          Some (pat, why) \<Rightarrow> Some (''trust_oa_registries'', pat, why)
        | None \<Rightarrow> None))"

definition for_denial :: "denial_context \<Rightarrow> remediation list" where
  "for_denial denial =
     (if reason denial \<notin> {RedirectNotInAllowlist, HostInBlockList} then []
      else (case attempted denial of
          None \<Rightarrow> []
        | Some host \<Rightarrow>
            map (\<lambda>(pattern, why). \<lparr> rm_kind = AdditionalHost, rm_value = pattern, rm_note = why \<rparr>)
              (widening_suggestions host)
            @ (case trust_flag_for_host host of
                 Some (flag, pattern, why) \<Rightarrow>
                   [\<lparr> rm_kind = TrustFlag, rm_value = flag,
                      rm_note = host @ '' matches '' @ pattern @ '' '' @ EM_DASH @ '' '' @ why \<rparr>]
               | None \<Rightarrow> [])))"

subsection \<open>What a remedy admits\<close>

text \<open>The two matchers, which a comment says must stay the same, are the same.\<close>

lemma pattern_matches_agrees: "pattern_matches h pat = host_matches_pattern h pat"
  by (simp add: pattern_matches_def host_matches_pattern_def)

lemma first_match_Some: "first_match h hs = Some (pat, why) \<Longrightarrow> pat \<in> host_text ` set hs \<and> host_matches_pattern h pat"
  by (induction hs) (auto simp: pattern_matches_agrees split: if_splits)

lemma fqdn_labels: "fqdn b \<Longrightarrow> filter (\<lambda>l. l \<noteq> []) (split_char CHR ''.'' b) = split_char CHR ''.'' b"
  by (auto simp: fqdn_def fqdn_label_def list_all_iff intro: filter_True)

lemma fqdn_two_labels: "fqdn b \<Longrightarrow> \<exists>l m ls. split_char CHR ''.'' b = l # m # ls"
  unfolding fqdn_def
  by (cases "split_char CHR ''.'' b"; cases "tl (split_char CHR ''.'' b)")
    (simp_all, metis split_char_single list.distinct(1) join_split_char join_with.simps(2))

lemma host_matches_self: "CHR ''*'' \<notin> set h \<Longrightarrow> host_matches_pattern (to_ascii_lowercase h) h"
  using lower_head_star [of h]
  by (auto simp: host_matches_pattern_def Let_def strip_prefix_Some split: option.split)

lemma host_matches_wild:
  "host_matches_pattern (to_ascii_lowercase h) (''*.'' @ d) \<longleftrightarrow>
     to_ascii_lowercase h = to_ascii_lowercase d \<or> (\<exists>s. to_ascii_lowercase h = s @ ''.'' @ to_ascii_lowercase d)"
proof -
  have "strip_prefix ''*.'' (''*.'' @ to_ascii_lowercase d) = Some (to_ascii_lowercase d)"
    by (simp only: strip_prefix_Some)
  then show ?thesis
    unfolding host_matches_pattern_def lower_star_prefix Let_def by (auto simp: ends_with_iff)
qed

text \<open>Every host proposed for a well-formed host is a pattern the reader accepts, and each of them but
  the apex admits the refused host.\<close>

lemma suggestions_sound:
  assumes "fqdn host" and "(pat, why) \<in> set (widening_suggestions host)"
  shows "is_ok (validate_pattern pat) \<and> (host_matches_pattern (to_ascii_lowercase host) pat
      \<or> (\<exists>l. host = l @ ''.'' @ pat))"
proof -
  obtain l m ls where sp: "split_char CHR ''.'' host = l # m # ls" using fqdn_two_labels [OF assms(1)] by blast
  have labels: "list_all fqdn_label (l # m # ls)"
    using assms(1) sp by (simp add: fqdn_def)
  have self: "is_ok (validate_pattern host) \<and> host_matches_pattern (to_ascii_lowercase host) host"
    using validate_pattern_accepts [OF assms(1)] host_matches_self fqdn_no_star [OF assms(1)] by blast
  have sub: "is_ok (validate_pattern (''*.'' @ host))
      \<and> host_matches_pattern (to_ascii_lowercase host) (''*.'' @ host)"
    using validate_pattern_accepts [OF assms(1)] by (simp only: host_matches_wild) blast
  define parent where "parent = join_with ''.'' (m # ls)"
  have host: "host = l @ ''.'' @ parent"
    using sp join_split_char [of "CHR ''.''" host] by (simp add: parent_def)
  have "is_ok (validate_pattern parent) \<and> is_ok (validate_pattern (''*.'' @ parent))" if "ls \<noteq> []"
  proof -
    have "list_all (\<lambda>w. CHR ''.'' \<notin> set w) (m # ls)"
      using split_char_free [of _ "CHR ''.''" host] sp by (auto simp: list_all_iff)
    then have "split_char CHR ''.'' parent = m # ls"
      by (simp only: parent_def split_join_char list.simps(3) not_False_eq_True)
    moreover from this that have "CHR ''.'' \<in> set parent"
      using split_char_single [of "CHR ''.''" parent] by auto
    ultimately have "fqdn parent" using labels by (simp add: fqdn_def)
    then show ?thesis using validate_pattern_accepts by blast
  qed
  moreover have "host_matches_pattern (to_ascii_lowercase host) (''*.'' @ parent)"
    unfolding host_matches_wild host by (auto simp: to_ascii_lowercase_def to_ascii_lower_def is_ascii_uppercase_def)
  moreover have "pat = host \<or> pat = ''*.'' @ host \<or> (ls \<noteq> [] \<and> (pat = ''*.'' @ parent \<or> pat = parent))"
    using assms(2) fqdn_labels [OF assms(1)] sp
    by (cases ls) (auto simp: widening_suggestions_def Let_def parent_def split: if_splits)
  ultimately show ?thesis using self sub host by blast
qed

text \<open>
  A host without a dot is refused by the reader, yet proposed: following the advice makes the reader
  reject the whole file.
\<close>

lemma unusable_advice:
  "map rm_value (for_denial \<lparr> reason = RedirectNotInAllowlist, dc_source = None, attempted = Some ''localhost'',
      expected = None, hop_index = None, cap = None, actual = None \<rparr>) = [''localhost'']
   \<and> validate_pattern ''localhost'' = Inl NoDot"
  by code_simp

text \<open>The apex proposed for a deeper host does not admit it, though every proposal is said to lift the denial.\<close>

lemma apex_does_not_lift:
  "map fst (widening_suggestions ''pubs.aip.org'') = [''pubs.aip.org'', ''*.aip.org'', ''aip.org'']
   \<and> \<not> host_matches_pattern ''pubs.aip.org'' ''aip.org'' \<and> host_matches_pattern ''aip.org'' ''*.aip.org''"
  by code_simp

end
