(* ===== verification/Client_Setup.thy ===== *)
theory Client_Setup
  imports Remediation Http
begin

text \<open>
  How the HTTP client of a process is put together: the base overrides of
  \<^verbatim>\<open>crates/doiget-core/src/base_override.rs\<close>, and the two production builders, \<^verbatim>\<open>build_http_client\<close> of
  \<^verbatim>\<open>crates/doiget-cli/src/commands/fetch.rs\<close> and \<^verbatim>\<open>build_http_client_for_fetch\<close> of
  \<^verbatim>\<open>crates/doiget-mcp/src/lib.rs\<close>.  The URL parser is the parameter \<open>url_of\<close>.  The user agent, which
  reaches only \<^verbatim>\<open>ClientBuilder::user_agent\<close>, is left out.
\<close>

subsection \<open>Base overrides\<close>

record base_override =
  bo_source :: string
  bo_env :: string
  selects_test_client :: bool

definition base_row :: "string \<Rightarrow> string \<Rightarrow> bool \<Rightarrow> base_override" where
  "base_row s e selects = \<lparr> bo_source = s, bo_env = e, selects_test_client = selects \<rparr>"

definition BASE_OVERRIDES :: "base_override list" where
  "BASE_OVERRIDES =
     [base_row ''arxiv'' ''DOIGET_ARXIV_BASE'' True,
      base_row ''arxiv'' ''DOIGET_ARXIV_SRC_BASE'' True,
      base_row ''crossref'' ''DOIGET_CROSSREF_BASE'' True,
      base_row ''unpaywall'' ''DOIGET_UNPAYWALL_BASE'' True,
      base_row ''oa-publisher'' ''DOIGET_OA_PUBLISHER_BASE'' True,
      base_row ''openalex'' ''DOIGET_OPENALEX_BASE'' True,
      base_row ''ar5iv'' ''DOIGET_AR5IV_BASE'' True,
      base_row ''biorxiv'' ''DOIGET_BIORXIV_BASE'' False,
      base_row ''inspire'' ''DOIGET_INSPIRE_BASE'' False,
      base_row ''ads'' ''DOIGET_ADS_BASE'' False,
      base_row ''ncbi'' ''DOIGET_NCBI_BASE'' True,
      base_row ''github'' ''DOIGET_GITHUB_API_BASE'' True,
      base_row ''github-raw'' ''DOIGET_GITHUB_RAW_BASE'' True,
      base_row ''datacite'' ''DOIGET_DATACITE_BASE'' False,
      base_row ''europe-pmc'' ''DOIGET_EUROPE_PMC_BASE'' False,
      base_row ''openaire'' ''DOIGET_OPENAIRE_BASE'' False,
      base_row ''hal'' ''DOIGET_HAL_BASE'' False,
      base_row ''core'' ''DOIGET_CORE_BASE'' False,
      base_row ''tdm-aps'' ''DOIGET_APS_BASE'' False,
      base_row ''tdm-elsevier'' ''DOIGET_ELSEVIER_BASE'' False,
      base_row ''tdm-springer'' ''DOIGET_SPRINGER_BASE'' False,
      base_row ''tdm-ieee'' ''DOIGET_IEEE_BASE'' False]"

datatype base_override_error = NotAUrl string string

fun set_overrides :: "(string \<Rightarrow> string option) \<Rightarrow> base_override list \<Rightarrow> (base_override \<times> string) list" where
  "set_overrides var_of [] = []"
| "set_overrides var_of (b # bs) = (case var_of (bo_env b) of
     Some v \<Rightarrow> (b, v) # set_overrides var_of bs | None \<Rightarrow> set_overrides var_of bs)"

text \<open>The registering loop: the first set row of a source wins, and a value must name a host.\<close>

fun register_overrides :: "(string \<Rightarrow> url option) \<Rightarrow> (base_override \<times> string) list \<Rightarrow>
    (string \<times> string) list \<Rightarrow> base_override_error + (string \<times> string) list" where
  "register_overrides url_of [] acc = Inr acc"
| "register_overrides url_of ((b, v) # rest) acc =
     (if bo_source b \<in> fst ` set acc then register_overrides url_of rest acc
      else (case Option.bind (url_of v) host_str of
          None \<Rightarrow> Inl (NotAUrl (bo_env b) v)
        | Some h \<Rightarrow> register_overrides url_of rest (acc @ [(bo_source b, h)])))"

definition test_entries :: "(string \<Rightarrow> url option) \<Rightarrow> (string \<Rightarrow> string option) \<Rightarrow>
    base_override_error + (string \<times> string) list option" where
  "test_entries url_of var_of =
     (let chosen = set_overrides var_of BASE_OVERRIDES in
      if \<not> list_ex (\<lambda>(b, _). selects_test_client b) chosen then Inr None
      else map_ok Some (register_overrides url_of chosen []))"

text \<open>\<^verbatim>\<open>HttpClient::new_for_tests_allow_http_multi\<close>; a client is again its captured allowlist.\<close>

definition test_client :: "(string \<times> string) list \<Rightarrow> http_client" where
  "test_client ents =
     (let m = foldl (\<lambda>m (s, h). m(s \<mapsto> allowlist_new s [h])) Map.empty ents in
      \<lparr> clients = m, allowlists = m \<rparr>)"

definition test_client_from :: "(string \<Rightarrow> url option) \<Rightarrow> (string \<Rightarrow> string option) \<Rightarrow>
    base_override_error + http_client option" where
  "test_client_from url_of var_of = map_ok (map_option test_client) (test_entries url_of var_of)"

subsection \<open>The production builders\<close>

definition cli_allowlists :: "(string \<Rightarrow> bool) \<Rightarrow> source_allowlist list" where
  "cli_allowlists cfg = tier_1_allowlist @ oa_publisher_allowlist @ discovery_allowlist @ fulltext_allowlist
     @ software_allowlist @ pubmed_allowlist @ preprint_allowlist
     @ (if cfg ''metadata'' then tier_2_allowlist else []) @ tier_3_allowlists cfg"

definition mcp_allowlists :: "(string \<Rightarrow> bool) \<Rightarrow> source_allowlist list" where
  "mcp_allowlists cfg = tier_1_allowlist @ oa_publisher_allowlist @ pubmed_allowlist @ preprint_allowlist
     @ tier_2_allowlist @ fulltext_allowlist @ tier_3_allowlists cfg"

text \<open>The merge of the user's hosts, which both builders write out.\<close>

definition config_hosts :: "user_extension_config \<Rightarrow> user_extension_host list" where
  "config_hosts c = additional_hosts c
     @ (if trust_academic_repos c then academic_repo_hosts else [])
     @ (if trust_oa_registries c then oa_registry_hosts else [])"

record setup_env =
  su_env :: "string \<Rightarrow> string option"
  su_url :: "string \<Rightarrow> url option"
  su_parse :: "string \<Rightarrow> raw_config option"
  su_read :: "string \<Rightarrow> file_answer"
  su_build_ok :: "source_allowlist \<Rightarrow> bool"

definition with_user_hosts :: "setup_env \<Rightarrow> source_allowlist list \<Rightarrow> source_allowlist list" where
  "with_user_hosts su als = (case config_path (su_env su) of
     Inl _ \<Rightarrow> als
   | Inr path \<Rightarrow> (case load_config (su_parse su) (su_read su) path of
       Inl _ \<Rightarrow> als
     | Inr c \<Rightarrow> (let hosts = config_hosts c in
         if hosts = [] then als else merge_into_allowlists als hosts)))"

datatype setup_error = BadBase base_override_error | BuildFailed

definition build_client :: "setup_env \<Rightarrow> source_allowlist list \<Rightarrow> setup_error + http_client" where
  "build_client su als = (case test_client_from (su_url su) (env_var (su_env su)) of
     Inl e \<Rightarrow> Inl (BadBase e)
   | Inr (Some c) \<Rightarrow> Inr c
   | Inr None \<Rightarrow> map_err (\<lambda>_. BuildFailed) (http_client_new (su_build_ok su) (with_user_hosts su als)))"

definition build_http_client :: "(string \<Rightarrow> bool) \<Rightarrow> setup_env \<Rightarrow> setup_error + http_client" where
  "build_http_client cfg su = build_client su (cli_allowlists cfg)"

definition build_http_client_for_fetch :: "(string \<Rightarrow> bool) \<Rightarrow> setup_env \<Rightarrow> setup_error + http_client" where
  "build_http_client_for_fetch cfg su = build_client su (mcp_allowlists cfg)"

subsection \<open>Test mode\<close>

text \<open>The module text counts seven selecting variables; the table has ten.\<close>

lemma ten_rows_select: "length (filter selects_test_client BASE_OVERRIDES) = 10"
  by code_simp

lemma set_overrides_iff: "(b, v) \<in> set (set_overrides f bs) \<longleftrightarrow> b \<in> set bs \<and> f (bo_env b) = Some v"
  by (induction bs) (auto split: option.splits)

lemma register_overrides_keys:
  "register_overrides url_of chosen acc = Inr ents \<Longrightarrow>
     fst ` set ents = fst ` set acc \<union> (bo_source \<circ> fst) ` set chosen"
proof (induction url_of chosen acc rule: register_overrides.induct)
  case (2 url_of b v rest acc)
  then show ?case
    by (cases "bo_source b \<in> fst ` set acc") (auto split: option.splits)
qed simp

lemma register_overrides_from:
  "register_overrides url_of chosen acc = Inr ents \<Longrightarrow> (s, h) \<in> set ents \<Longrightarrow>
     (s, h) \<in> set acc \<or> (\<exists>b v. (b, v) \<in> set chosen \<and> bo_source b = s \<and> Option.bind (url_of v) host_str = Some h)"
proof (induction url_of chosen acc rule: register_overrides.induct)
  case (2 url_of b v rest acc)
  show ?case
  proof (cases "bo_source b \<in> fst ` set acc")
    case True
    with 2 show ?thesis by (simp del: bind_eq_Some_conv) blast
  next
    case False
    with 2(3) obtain h' where h': "Option.bind (url_of v) host_str = Some h'"
        "register_overrides url_of rest (acc @ [(bo_source b, h')]) = Inr ents"
      by (auto split: option.splits)
    from 2(2) [OF False h' 2(4)] h'(1) show ?thesis by (simp del: bind_eq_Some_conv) blast
  qed
qed simp

lemma foldl_updates:
  "foldl (\<lambda>m (s, h). m(s \<mapsto> f s h)) m ents k = Some a \<Longrightarrow> m k = Some a \<or> (\<exists>h. (k, h) \<in> set ents \<and> a = f k h)"
  by (induction ents arbitrary: m) (fastforce split: if_splits)+

lemma dom_foldl_updates:
  "dom (foldl (\<lambda>m (s, h). m(s \<mapsto> f s h)) m ents) = dom m \<union> fst ` set ents"
  by (induction ents arbitrary: m) auto

lemma test_client_lookup:
  "clients (test_client ents) k = Some al \<Longrightarrow> \<exists>h. (k, h) \<in> set ents \<and> al = allowlist_new k [h]"
  "clients (test_client ents) k \<noteq> None \<longleftrightarrow> k \<in> fst ` set ents"
  "allowlists (test_client ents) = clients (test_client ents)"
  using foldl_updates [of "\<lambda>s h. allowlist_new s [h]" Map.empty ents k al]
    dom_foldl_updates [of "\<lambda>s h. allowlist_new s [h]" Map.empty ents]
  by (auto simp: test_client_def Let_def dom_def)

text \<open>Test mode is entered exactly when a selecting base variable is set, and it is exclusive: the client
  then knows precisely the sources that some variable overrides, each with the host of such a
  variable as its whole allowlist, so a source nobody mocked cannot reach its real service.\<close>

theorem test_mode_is_exclusive:
  assumes "test_client_from url_of var_of = Inr answer"
  shows "(answer = None \<longleftrightarrow> (\<forall>b\<in>set BASE_OVERRIDES. selects_test_client b \<longrightarrow> var_of (bo_env b) = None))
    \<and> (\<forall>c k. answer = Some c \<longrightarrow>
        (clients c k \<noteq> None \<longleftrightarrow> (\<exists>b\<in>set BASE_OVERRIDES. bo_source b = k \<and> var_of (bo_env b) \<noteq> None))
        \<and> (\<forall>al. clients c k = Some al \<longrightarrow> allowlists c k = Some al
            \<and> (\<exists>b\<in>set BASE_OVERRIDES. \<exists>v u h. bo_source b = k \<and> var_of (bo_env b) = Some v \<and> url_of v = Some u
                  \<and> host_str u = Some h \<and> al = allowlist_new k [h])))"
proof -
  define chosen where "chosen = set_overrides var_of BASE_OVERRIDES"
  have chosen: "(b, v) \<in> set chosen \<longleftrightarrow> b \<in> set BASE_OVERRIDES \<and> var_of (bo_env b) = Some v" for b v
    by (simp only: chosen_def set_overrides_iff)
  have sel: "list_ex (\<lambda>(b, _). selects_test_client b) chosen
      \<longleftrightarrow> (\<exists>b\<in>set BASE_OVERRIDES. selects_test_client b \<and> var_of (bo_env b) \<noteq> None)"
    using chosen by (fastforce simp: list_ex_iff)
  show ?thesis
  proof (cases "list_ex (\<lambda>(b, _). selects_test_client b) chosen")
    case False
    then have "answer = None"
      using assms by (simp add: test_client_from_def test_entries_def chosen_def)
    with False sel show ?thesis by auto
  next
    case True
    then obtain ents where ents: "register_overrides url_of chosen [] = Inr ents" and a: "answer = Some (test_client ents)"
      using assms by (auto simp: test_client_from_def test_entries_def chosen_def)
    have keys: "fst ` set ents = (bo_source \<circ> fst) ` set chosen"
      using register_overrides_keys [OF ents] by simp
    have "clients (test_client ents) k \<noteq> None
        \<longleftrightarrow> (\<exists>b\<in>set BASE_OVERRIDES. bo_source b = k \<and> var_of (bo_env b) \<noteq> None)" for k
    proof -
      have "k \<in> (bo_source \<circ> fst) ` set chosen \<longleftrightarrow> (\<exists>b v. (b, v) \<in> set chosen \<and> bo_source b = k)"
        by force
      then show ?thesis
        unfolding test_client_lookup(2) keys by (simp only: chosen) blast
    qed
    moreover have "\<exists>b\<in>set BASE_OVERRIDES. \<exists>v u h. bo_source b = k \<and> var_of (bo_env b) = Some v
        \<and> url_of v = Some u \<and> host_str u = Some h \<and> al = allowlist_new k [h]"
      if al: "clients (test_client ents) k = Some al" for k al
    proof -
      obtain h where h: "(k, h) \<in> set ents" "al = allowlist_new k [h]"
        using test_client_lookup(1) [OF al] by blast
      with register_overrides_from [OF ents h(1)] chosen show ?thesis
        by (simp add: bind_eq_Some_conv) blast
    qed
    ultimately show ?thesis using True sel by (simp add: a test_client_lookup(3) del: not_None_eq)
  qed
qed

text \<open>A URL reader for concrete runs.\<close>

definition demo_url_of :: "string \<Rightarrow> url option" where
  "demo_url_of s = (if starts_with s ''http'' then
     Some \<lparr> scheme = ''http'', host = None, host_str = Some ''127.0.0.1'', query_pairs = [], url_rest = s \<rparr> else None)"

theorem test_mode_is_exclusive_witness:
  "\<exists>c. test_client_from demo_url_of [''DOIGET_CROSSREF_BASE'' \<mapsto> ''http://127.0.0.1:9001''] = Inr (Some c)
     \<and> clients c ''arxiv'' = None \<and> clients c ''crossref'' = Some (allowlist_new ''crossref'' [''127.0.0.1''])"
proof -
  let ?v = "[''DOIGET_CROSSREF_BASE'' \<mapsto> ''http://127.0.0.1:9001'']"
  let ?c = "test_client [(''crossref'', ''127.0.0.1'')]"
  have run: "test_client_from demo_url_of ?v = Inr (Some ?c)"
    by (simp add: test_client_from_def test_entries_def BASE_OVERRIDES_def base_row_def demo_url_of_def
        starts_with_def)
  have "clients ?c ''arxiv'' \<noteq> None
      \<longleftrightarrow> (\<exists>b\<in>set BASE_OVERRIDES. bo_source b = ''arxiv'' \<and> ?v (bo_env b) \<noteq> None)"
    using test_mode_is_exclusive [OF run] by blast
  then have "clients ?c ''arxiv'' = None"
    by (simp add: BASE_OVERRIDES_def base_row_def)
  moreover have "clients ?c ''crossref'' = Some (allowlist_new ''crossref'' [''127.0.0.1''])"
    by (simp add: test_client_def Let_def)
  ultimately show ?thesis using run by blast
qed

subsection \<open>The production client\<close>

lemma find_append: "find P (xs @ ys) = (case find P xs of None \<Rightarrow> find P ys | Some x \<Rightarrow> Some x)"
  by (induction xs) auto

lemma register_sources_lookup:
  "foldl (register_source b) (Inr c) als = Inr c' \<Longrightarrow>
     allowlists c' k = (case find (\<lambda>al. al_source al = k) (rev als) of Some al \<Rightarrow> Some al | None \<Rightarrow> allowlists c k)"
proof (induction als arbitrary: c)
  case (Cons a als)
  show ?case
  proof (cases "b a")
    case True
    have step: "register_source b (Inr c) a
        = Inr (c\<lparr>allowlists := (allowlists c)(al_source a \<mapsto> a), clients := (clients c)(al_source a \<mapsto> a)\<rparr>)"
      using True by (simp add: register_source_def)
    show ?thesis
      using Cons.IH [OF Cons.prems [unfolded foldl_Cons step]]
      by (auto simp: find_append split: option.splits)
  next
    case False
    then have "register_source b (Inr c) a = Inl (c\<lparr>allowlists := (allowlists c)(al_source a \<mapsto> a)\<rparr>)"
      by (simp add: register_source_def)
    with Cons.prems show ?thesis by (simp add: register_sources_failed)
  qed
qed simp

lemma http_client_new_lookup:
  "http_client_new b als = Inr c \<Longrightarrow> allowlists c k = find (\<lambda>al. al_source al = k) (rev als)"
  using register_sources_lookup [of b "\<lparr> clients = Map.empty, allowlists = Map.empty \<rparr>" als c k]
  by (auto simp: http_client_new_def split: sum.splits option.splits)

lemma find_filter: "find P xs = (case filter P xs of [] \<Rightarrow> None | x # _ \<Rightarrow> Some x)"
  by (induction xs) auto

lemma find_rev_unique: "filter P xs = [x] \<Longrightarrow> find P (rev xs) = Some x"
  by (simp add: find_filter flip: rev_filter)

definition is_oa :: "source_allowlist \<Rightarrow> bool" where
  "is_oa al \<longleftrightarrow> al_source al = ''oa-publisher''"

lemma extend_oa_unique: "filter is_oa als = [oa] \<Longrightarrow> \<exists>als'. extend_oa hs als = Some als'
    \<and> filter is_oa als' = [oa\<lparr>redirect_hosts := add_patterns hs (redirect_hosts oa)\<rparr>]"
proof (induction als)
  case (Cons al als)
  then show ?case by (cases "is_oa al") (auto simp: is_oa_def)
qed simp

text \<open>The one publisher entry of both tables.\<close>

lemma oa_table: "oa_publisher_allowlist = [hd oa_publisher_allowlist]" "is_oa (hd oa_publisher_allowlist)"
  by (simp_all add: oa_publisher_allowlist_def is_oa_def allowlist_new_def)

lemma no_other_oa:
  "filter is_oa tier_1_allowlist = []" "filter is_oa discovery_allowlist = []" "filter is_oa fulltext_allowlist = []"
  "filter is_oa software_allowlist = []" "filter is_oa pubmed_allowlist = []" "filter is_oa preprint_allowlist = []"
  "filter is_oa tier_2_allowlist = []" "filter is_oa (tier_3_allowlists cfg) = []"
  by (simp_all add: is_oa_def allowlist_new_def tier_1_allowlist_def discovery_allowlist_def
      fulltext_allowlist_def software_allowlist_def pubmed_allowlist_def preprint_allowlist_def
      tier_2_allowlist_def tier_3_allowlists_def tier_3_aps_allowlist_def tier_3_elsevier_allowlist_def
      tier_3_springer_allowlist_def tier_3_ieee_allowlist_def)

lemma built_in_oa:
  assumes "als \<in> {cli_allowlists cfg, mcp_allowlists cfg}"
  shows "filter is_oa als = [hd oa_publisher_allowlist]"
proof -
  have "filter is_oa oa_publisher_allowlist = [hd oa_publisher_allowlist]"
    using oa_table by (metis filter.simps)
  with assms show ?thesis
    by (auto simp: cli_allowlists_def mcp_allowlists_def no_other_oa)
qed

lemma built_in_well_shaped: "als \<in> {cli_allowlists cfg, mcp_allowlists cfg} \<Longrightarrow> table_ok als"
  using tables_well_shaped [of cfg] table_ok_tiers(2)
  by (auto simp: cli_allowlists_def mcp_allowlists_def production_allowlists_def)

lemma curated_hosts_valid: "list_all valid_host academic_repo_hosts" "list_all valid_host oa_registry_hosts"
  by (simp_all only: academic_repo_hosts_def oa_registry_hosts_def curated_valid)

lemma config_hosts_valid: "list_all valid_host (additional_hosts c) \<Longrightarrow> list_all valid_host (config_hosts c)"
  using curated_hosts_valid by (simp add: config_hosts_def)

text \<open>The configuration a process reads, if it reads one.\<close>

definition config_in_effect :: "setup_env \<Rightarrow> user_extension_config \<Rightarrow> bool" where
  "config_in_effect su c \<longleftrightarrow> (\<exists>path. config_path (su_env su) = Inr path
     \<and> load_config (su_parse su) (su_read su) path = Inr c)"

lemma with_user_hosts_lists:
  "gate_lists (with_user_hosts su als) k pat \<longleftrightarrow> gate_lists als k pat
     \<or> (k = ''oa-publisher'' \<and> (\<exists>c. config_in_effect su c \<and> pat \<in> host_text ` set (config_hosts c)))"
  by (auto simp: with_user_hosts_def config_in_effect_def Let_def merge_lists split: sum.splits)

lemma lists_two_labels:
  assumes "als \<in> {cli_allowlists cfg, mcp_allowlists cfg}" and "gate_lists als k pat"
  shows "CHR ''.'' \<in> set (pattern_domain pat)"
  using built_in_well_shaped [OF assms(1)] assms(2)
  unfolding gate_lists_def well_shaped_pattern_def list_all_iff by blast

lemma lower_dot: "CHR ''.'' \<in> set b \<Longrightarrow> CHR ''.'' \<in> set (to_ascii_lowercase b)"
  by (force simp: to_ascii_lowercase_def to_ascii_lower_def is_ascii_uppercase_def image_iff)

lemma config_lists_two_labels:
  assumes "config_in_effect su c" and "pat \<in> host_text ` set (config_hosts c)"
  shows "CHR ''.'' \<in> set (pattern_domain pat)"
proof -
  have "list_all valid_host (config_hosts c)"
    using assms(1) load_config_valid config_hosts_valid unfolding config_in_effect_def by blast
  then have "is_ok (validate_pattern pat)" using assms(2) by (auto simp: list_all_iff valid_host_def)
  then show ?thesis using pattern_domain_valid [of pat] lower_dot by (auto simp: fqdn_def)
qed


lemma http_client_new_total: "\<forall>al. b al \<Longrightarrow> \<exists>c. http_client_new b als = Inr c"
proof -
  assume b: "\<forall>al. b al"
  have "\<exists>c'. foldl (register_source b) (Inr c) als = Inr c'" for c
    using b by (induction als arbitrary: c) (simp_all add: register_source_def Let_def)
  then show ?thesis by (metis (no_types, lifting) http_client_new_def old.sum.simps(6))
qed

subsection \<open>Following the advice\<close>

text \<open>The configuration after a proposed change: a host appended, or a flag set.\<close>

definition apply_remedy :: "remediation \<Rightarrow> user_extension_config \<Rightarrow> user_extension_config" where
  "apply_remedy r c = (case rm_kind r of
     AdditionalHost \<Rightarrow> c\<lparr>additional_hosts := additional_hosts c
         @ [\<lparr> ux_host = HostPattern (rm_value r), ux_note = None \<rparr>]\<rparr>
   | TrustFlag \<Rightarrow> (if rm_value r = ''trust_academic_repos'' then c\<lparr>trust_academic_repos := True\<rparr>
       else if rm_value r = ''trust_oa_registries'' then c\<lparr>trust_oa_registries := True\<rparr> else c))"

lemma remedy_matches:
  assumes r: "r \<in> set (for_denial d)" and h: "attempted d = Some h" "fqdn h"
  shows "(rm_kind r = AdditionalHost \<longrightarrow> is_ok (validate_pattern (rm_value r)))
    \<and> ((\<exists>l. h = l @ ''.'' @ rm_value r)
       \<or> (\<exists>pat\<in>host_text ` set (config_hosts (apply_remedy r conf)). host_matches_pattern (to_ascii_lowercase h) pat))"
proof -
  consider (host) why where "rm_kind r = AdditionalHost" "(rm_value r, why) \<in> set (widening_suggestions h)"
    | (flag) pat why where "rm_kind r = TrustFlag" "trust_flag_for_host h = Some (rm_value r, pat, why)"
    using r h(1)
    by (cases "trust_flag_for_host h") (auto simp: for_denial_def split: if_splits)
  then show ?thesis
  proof cases
    case host
    from suggestions_sound [OF h(2) host(2)] host(1) show ?thesis
      by (auto simp: apply_remedy_def config_hosts_def)
  next
    case flag
    have "pat \<in> host_text ` set (config_hosts (apply_remedy r conf)) \<and> host_matches_pattern (to_ascii_lowercase h) pat"
      using flag first_match_Some [of "to_ascii_lowercase h" academic_repo_hosts pat why]
        first_match_Some [of "to_ascii_lowercase h" oa_registry_hosts pat why]
      by (auto simp: trust_flag_for_host_def Let_def apply_remedy_def config_hosts_def split: option.splits)
    with flag(1) show ?thesis by (metis remediation_kind.distinct(1))
  qed
qed

lemma user_host_admitted:
  assumes als: "als \<in> {cli_allowlists cfg, mcp_allowlists cfg}"
    and built: "http_client_new b (merge_into_allowlists als hs) = Inr c"
    and u: "pat \<in> host_text ` set hs" "host_matches_pattern (to_ascii_lowercase h) pat"
  shows "\<exists>al. client_source_allowlist c ''oa-publisher'' = Some al \<and> permits al h"
proof -
  obtain als' where als': "extend_oa hs als = Some als'" "filter is_oa als'
      = [(hd oa_publisher_allowlist)\<lparr>redirect_hosts := add_patterns hs (redirect_hosts (hd oa_publisher_allowlist))\<rparr>]"
    (is "_ = [?oa]")
    using extend_oa_unique [OF built_in_oa [OF als]] by blast
  then have "merge_into_allowlists als hs = als'"
    using u(1) by (auto simp: merge_into_allowlists_def)
  with http_client_new_lookup [OF built, of "''oa-publisher''"] find_rev_unique [OF als'(2)]
  have "client_source_allowlist c ''oa-publisher'' = Some ?oa"
    by (simp add: client_source_allowlist_def is_oa_def [abs_def])
  moreover have "permits ?oa h"
    using u by (auto simp: permits_def matches_def list_ex_iff add_patterns_set)
  ultimately show ?thesis by blast
qed


subsection \<open>A concrete setup\<close>

definition demo_setup :: "raw_config option \<Rightarrow> setup_env" where
  "demo_setup raw = \<lparr> su_env = [''HOME'' \<mapsto> ''/home/u''], su_url = demo_url_of, su_parse = (\<lambda>_. raw),
     su_read = (\<lambda>p. if p = ''/home/u/.config/doiget/config.toml'' then Contents [] else NotFound),
     su_build_ok = (\<lambda>_. True) \<rparr>"

definition demo_raw :: "string \<Rightarrow> raw_config" where
  "demo_raw pat = \<lparr> raw_network_table = Some \<lparr> raw_additional_hosts =
       [\<lparr> raw_host_pattern = pat, raw_host_note = None \<rparr>], raw_trust_academic = False,
       raw_trust_registries = False, raw_contact_email = None, raw_unpaywall_email = None \<rparr>,
     raw_store_root = None, raw_cite_table = None \<rparr>"

definition demo_host :: string where
  "demo_host = ''ruj.uj.edu.pl''"

definition demo_remedy :: remediation where
  "demo_remedy = \<lparr> rm_kind = AdditionalHost, rm_value = ''*.uj.edu.pl'', rm_note = ''the whole domain'' \<rparr>"

definition demo_denial :: denial_context where
  "demo_denial = \<lparr> reason = RedirectNotInAllowlist, dc_source = Some ''oa-publisher'', attempted = Some demo_host,
     expected = None, hop_index = None, cap = None, actual = None \<rparr>"

abbreviation (input) demo_su :: setup_env where
  "demo_su \<equiv> demo_setup (Some (demo_raw ''*.uj.edu.pl''))"

lemma demo_production: "test_client_from (su_url demo_su) (env_var (su_env demo_su)) = Inr None"
  by (simp add: demo_setup_def test_client_from_def test_entries_def BASE_OVERRIDES_def base_row_def env_var_def)

lemma demo_config: "config_in_effect demo_su (apply_remedy demo_remedy default_config)"
proof -
  have "config_path (su_env demo_su) = Inr ''/home/u/.config/doiget/config.toml''" by code_simp
  moreover have "load_config (su_parse demo_su) (su_read demo_su) ''/home/u/.config/doiget/config.toml''
      = Inr (apply_remedy demo_remedy default_config)" by code_simp
  ultimately show ?thesis unfolding config_in_effect_def by blast
qed

lemma demo_built: "\<exists>c. build_client demo_su (mcp_allowlists (\<lambda>_. False)) = Inr c"
proof -
  have "\<forall>al. su_build_ok demo_su al" by (simp add: demo_setup_def)
  from http_client_new_total [OF this, of "with_user_hosts demo_su (mcp_allowlists (\<lambda>_. False))"]
  show ?thesis using demo_production by (auto simp: build_client_def)
qed

lemma demo_fqdn: "fqdn demo_host"
  by code_simp



end
