(* ===== verification/Dry_Run.thy ===== *)
theory Dry_Run
  imports Client_Setup Store
begin

text \<open>
  The preview of a fetch (\<^verbatim>\<open>crates/doiget-core/src/dry_run.rs\<close>): what it names, and how that compares
  with the paths of the store and the gate of the client.
\<close>

record pdf_source_plan =
  ps_key :: string
  candidate_hosts :: "string list"

record fetch_plan =
  fp_metadata_sources :: "string list"
  fp_pdf_sources :: "pdf_source_plan list"
  redirect_allowlists_loaded :: "string list"
  target_pdf_path :: string
  target_metadata_path :: string
  would_append_provenance :: bool
  candidate_hosts_are_upper_bound :: bool

record rate_limit_budget_t =
  global_per_sec :: nat
  per_source_min_gap_ms :: nat

definition rate_limit_budget :: rate_limit_budget_t where
  "rate_limit_budget = \<lparr> global_per_sec = max_fetches_per_second HARD_CODED,
     per_source_min_gap_ms = per_source_backoff_ms HARD_CODED \<rparr>"

definition hosts_of :: "source_allowlist list \<Rightarrow> string \<Rightarrow> string list option" where
  "hosts_of als k = map_option redirect_hosts (find (\<lambda>a. al_source a = k) als)"

text \<open>The two key \<open>sha\<close> and \<open>hx\<close> parameters are those of \<open>ref_safekey\<close>.\<close>

definition try_build_fetch_plan ::
  "(string \<Rightarrow> string) \<Rightarrow> (string \<Rightarrow> string) \<Rightarrow> paper_ref \<Rightarrow> string \<Rightarrow> fetch_error + fetch_plan" where
  "try_build_fetch_plan sha hx r root =
     (let key = safekey_as_str (ref_safekey sha hx r);
          pdf = path_join root (key @ ''.pdf'');
          meta = path_join (path_join root ''.metadata'') (key @ ''.toml'');
          loaded = map al_source (tier_1_allowlist @ oa_publisher_allowlist);
          plan = (\<lambda>srcs k hs. Inr \<lparr> fp_metadata_sources = srcs,
            fp_pdf_sources = [\<lparr> ps_key = k, candidate_hosts = hs \<rparr>], redirect_allowlists_loaded = loaded,
            target_pdf_path = pdf, target_metadata_path = meta, would_append_provenance = True,
            candidate_hosts_are_upper_bound = True \<rparr>) in
      case r of
        RefDoi _ \<Rightarrow> (case hosts_of oa_publisher_allowlist ''oa-publisher'' of
            None \<Rightarrow> Inl (SourceSchema ''internal-contract drift: oa-publisher allowlist missing'')
          | Some hs \<Rightarrow> plan [''crossref'', ''unpaywall''] ''oa-publisher'' hs)
      | RefArxiv _ \<Rightarrow> (case hosts_of tier_1_allowlist ''arxiv'' of
            None \<Rightarrow> Inl (SourceSchema ''internal-contract drift: tier-1 allowlist missing arxiv'')
          | Some hs \<Rightarrow> plan [] ''arxiv'' hs))"

definition build_fetch_plan ::
  "(string \<Rightarrow> string) \<Rightarrow> (string \<Rightarrow> string) \<Rightarrow> paper_ref \<Rightarrow> string \<Rightarrow> fetch_plan" where
  "build_fetch_plan sha hx r root = (case try_build_fetch_plan sha hx r root of
     Inr p \<Rightarrow> p
   | Inl _ \<Rightarrow>
       (let key = safekey_as_str (ref_safekey sha hx r);
            (srcs, k) = (case r of RefDoi _ \<Rightarrow> ([''crossref'', ''unpaywall''], ''oa-publisher'') | RefArxiv _ \<Rightarrow> ([], ''arxiv'')) in
        \<lparr> fp_metadata_sources = srcs, fp_pdf_sources = [\<lparr> ps_key = k, candidate_hosts = [] \<rparr>],
          redirect_allowlists_loaded = map al_source (tier_1_allowlist @ oa_publisher_allowlist),
          target_pdf_path = path_join root (key @ ''.pdf''),
          target_metadata_path = path_join (path_join root ''.metadata'') (key @ ''.toml''),
          would_append_provenance = True, candidate_hosts_are_upper_bound = True \<rparr>))"

subsection \<open>The envelope\<close>

definition ref_kind_object :: "paper_ref \<Rightarrow> json" where
  "ref_kind_object r = (case r of
     RefDoi d \<Rightarrow> JObject [(''doi'', JString (doi_as_str d))]
   | RefArxiv a \<Rightarrow> JObject [(''arxiv'', JString (arxiv_as_str a))])"

definition plan_json :: "fetch_plan \<Rightarrow> json" where
  "plan_json p = JObject
     [(''metadata_sources'', JArray (map JString (fp_metadata_sources p))),
      (''pdf_sources'', JArray (map (\<lambda>s. JObject [(''key'', JString (ps_key s)),
         (''candidate_hosts'', JArray (map JString (candidate_hosts s)))]) (fp_pdf_sources p))),
      (''redirect_allowlists_loaded'', JArray (map JString (redirect_allowlists_loaded p))),
      (''target_pdf_path'', JString (target_pdf_path p)),
      (''target_metadata_path'', JString (target_metadata_path p)),
      (''would_append_provenance'', JBool (would_append_provenance p)),
      (''candidate_hosts_are_upper_bound'', JBool (candidate_hosts_are_upper_bound p))]"

text \<open>\<open>float_text\<close> prints the \<^verbatim>\<open>f32\<close> of the global rate.\<close>

definition build_dry_run_envelope :: "(nat \<Rightarrow> string) \<Rightarrow> paper_ref \<Rightarrow> fetch_plan \<Rightarrow> json" where
  "build_dry_run_envelope float_text r plan = JObject
     [(''ok'', JBool True), (''dry_run'', JBool True), (''ref'', ref_kind_object r), (''plan'', plan_json plan),
      (''rate_limit_budget'', JObject
         [(''global_per_sec'', JFloat (float_text (global_per_sec rate_limit_budget))),
          (''per_source_min_gap_ms'', JInt (int (per_source_min_gap_ms rate_limit_budget)))])]"

subsection \<open>The preview and the fetch\<close>

lemma plan_is_built: "\<exists>p. try_build_fetch_plan sha hx r root = Inr p \<and> build_fetch_plan sha hx r root = p"
proof -
  have "hosts_of oa_publisher_allowlist ''oa-publisher'' \<noteq> None" "hosts_of tier_1_allowlist ''arxiv'' \<noteq> None"
    by code_simp+
  then show ?thesis
    by (auto simp: build_fetch_plan_def try_build_fetch_plan_def Let_def split: paper_ref.split option.split)
qed

lemma plan_paths:
  "target_pdf_path (build_fetch_plan sha hx r root) = path_join root (safekey_as_str (ref_safekey sha hx r) @ ''.pdf'')"
  "target_metadata_path (build_fetch_plan sha hx r root)
     = path_join (path_join root ''.metadata'') (safekey_as_str (ref_safekey sha hx r) @ ''.toml'')"
  by (auto simp: build_fetch_plan_def try_build_fetch_plan_def Let_def split: paper_ref.split option.split sum.split
      prod.split)

lemma path_join_under: "a \<noteq> [] \<Longrightarrow> \<not> ends_with a ''/'' \<Longrightarrow> \<not> starts_with b ''/'' \<Longrightarrow> path_join a b = a @ ''/'' @ b"
  by (simp add: path_join_def)

text \<open>A preview names the files a fetch writes: for every parsed reference the plan is built (its error
  is unreachable), its two paths are those the store computes for the record and the PDF under the
  same root, unless the reference's safekey contains two adjacent dots, and then the store refuses
  the reference although the preview shows paths for it; and the hosts it lists are those of the
  resolver's built-in table.\<close>

theorem plan_names_the_files:
  assumes "hash_format sha hx" and "ref_parse s = Inr r"
    and root: "root \<noteq> []" "\<not> ends_with root ''/''"
    and st: "st = \<lparr> fs_root = root, metadata_dir = root @ ''/'' @ METADATA_DIR \<rparr>"
    and key: "key = ref_safekey sha hx r" and plan: "plan = build_fetch_plan sha hx r root"
  shows "try_build_fetch_plan sha hx r root = Inr plan
    \<and> (if contains_str (safekey_as_str key) ''..''
       then metadata_path st key = Inl (PathTraversal (safekey_as_str key))
         \<and> pdf_path_of st key = Inl (PathTraversal (safekey_as_str key))
       else metadata_path st key = Inr (target_metadata_path plan) \<and> pdf_path_of st key = Inr (target_pdf_path plan))
    \<and> fp_pdf_sources plan = [(case r of
         RefDoi _ \<Rightarrow> \<lparr> ps_key = ''oa-publisher'', candidate_hosts = redirect_hosts (hd oa_publisher_allowlist) \<rparr>
       | RefArxiv _ \<Rightarrow> \<lparr> ps_key = ''arxiv'', candidate_hosts = redirect_hosts (last tier_1_allowlist) \<rparr>)]"
proof -
  have built: "try_build_fetch_plan sha hx r root = Inr plan"
    using plan_is_built [of sha hx r root] plan by auto
  note guard = guard_of_parsed_refs [OF assms(1,2)]
  obtain y where "safekey_as_str key = kind_prefix r @ y"
    using safekey_prefix [OF ref_parse_wf [OF assms(2)]] unfolding key by blast
  then have "\<not> starts_with (safekey_as_str key @ e) ''/''" for e
    by (auto simp: kind_prefix_def starts_with_iff split: paper_ref.splits)
  then have joins: "target_pdf_path plan = root @ ''/'' @ safekey_as_str key @ ''.pdf''"
    "target_metadata_path plan = (root @ ''/'' @ ''.metadata'') @ ''/'' @ safekey_as_str key @ ''.toml''"
    using root unfolding plan plan_paths key
    by (simp_all add: path_join_under starts_with_def ends_with_def)
  have "if contains_str (safekey_as_str key) ''..''
       then metadata_path st key = Inl (PathTraversal (safekey_as_str key))
         \<and> pdf_path_of st key = Inl (PathTraversal (safekey_as_str key))
       else metadata_path st key = Inr (target_metadata_path plan) \<and> pdf_path_of st key = Inr (target_pdf_path plan)"
    using guard guarded_paths [of key st] joins
    by (auto simp: key st metadata_path_def pdf_path_of_def METADATA_DIR_def)
  moreover have "fp_pdf_sources plan = [(case r of
         RefDoi _ \<Rightarrow> \<lparr> ps_key = ''oa-publisher'', candidate_hosts = redirect_hosts (hd oa_publisher_allowlist) \<rparr>
       | RefArxiv _ \<Rightarrow> \<lparr> ps_key = ''arxiv'', candidate_hosts = redirect_hosts (last tier_1_allowlist) \<rparr>)]"
    using built
    by (auto simp: try_build_fetch_plan_def Let_def hosts_of_def oa_publisher_allowlist_def
        tier_1_allowlist_def allowlist_new_def split: paper_ref.splits)
  ultimately show ?thesis using built by blast
qed

theorem plan_names_the_files_witness:
  "target_pdf_path (build_fetch_plan toy_sha hex_lower (RefDoi (Doi ''10.1234/ab'')) ''/papers'')
     = ''/papers/doi_10.1234_ab.pdf''
   \<and> metadata_path \<lparr> fs_root = ''/papers'', metadata_dir = ''/papers'' @ ''/'' @ METADATA_DIR \<rparr>
       (ref_safekey toy_sha hex_lower (RefDoi (Doi ''10.1234/ab'')))
     = Inr (target_metadata_path (build_fetch_plan toy_sha hex_lower (RefDoi (Doi ''10.1234/ab'')) ''/papers''))"
proof -
  have parsed: "ref_parse ''10.1234/ab'' = Inr (RefDoi (Doi ''10.1234/ab''))" by code_simp
  have root: "''/papers'' \<noteq> []" "\<not> ends_with ''/papers'' ''/''" by code_simp+
  have "\<not> contains_str (safekey_as_str (ref_safekey toy_sha hex_lower (RefDoi (Doi ''10.1234/ab'')))) ''..''"
    by code_simp
  with plan_names_the_files [OF hash_format_toy parsed root refl refl refl]
  have "metadata_path \<lparr> fs_root = ''/papers'', metadata_dir = ''/papers'' @ ''/'' @ METADATA_DIR \<rparr>
       (ref_safekey toy_sha hex_lower (RefDoi (Doi ''10.1234/ab'')))
     = Inr (target_metadata_path (build_fetch_plan toy_sha hex_lower (RefDoi (Doi ''10.1234/ab'')) ''/papers''))"
    by simp
  moreover have "target_pdf_path (build_fetch_plan toy_sha hex_lower (RefDoi (Doi ''10.1234/ab'')) ''/papers'')
     = ''/papers/doi_10.1234_ab.pdf''"
    by code_simp
  ultimately show ?thesis by blast
qed

text \<open>
  The preview calls its hosts an upper bound of what a fetch may touch; a fetch may also follow the DOI
  resolvers, which no table lists, and the hosts the user added.
\<close>

lemma candidate_hosts_are_no_bound:
  "permits (hd oa_publisher_allowlist) ''dx.doi.org''
   \<and> \<not> list_ex (host_matches_pattern ''dx.doi.org'') (redirect_hosts (hd oa_publisher_allowlist))"
  by code_simp

text \<open>It also says that the keys it lists are those the production client is built with.\<close>

lemma loaded_keys_are_not_all:
  "list_ex (\<lambda>al. al_source al \<notin> set (map al_source (tier_1_allowlist @ oa_publisher_allowlist)))
     (cli_allowlists (\<lambda>_. False))"
  by code_simp

end
