(* ===== verification/Source_Catalog.thy ===== *)
theory Source_Catalog
  imports Attempts
begin

text \<open>
  The catalog of sources (\<^verbatim>\<open>crates/doiget-core/src/source_catalog.rs\<close>): which sources exist, which of
  them a build contains and a profile enables, and which references each covers.  The compiled
  features are \<open>cfg\<close>, as in \<open>Capability\<close>.
\<close>

datatype role = MetadataRole | OaLocation | Content

fun role_as_str :: "role \<Rightarrow> string" where
  "role_as_str MetadataRole = ''metadata''"
| "role_as_str OaLocation = ''oa_location''"
| "role_as_str Content = ''content''"

datatype coverage = AnyDoi | ArxivRefs | DataCiteDois | Prefixes "string list"

record source_info =
  si_name :: string
  si_tier :: nat
  si_role :: role
  si_covers :: coverage
  si_publisher :: "string option"
  si_feature :: "string option"
  si_enable :: "string list"
  si_compiled :: bool

definition tier1_row :: "string \<Rightarrow> role \<Rightarrow> coverage \<Rightarrow> source_info" where
  "tier1_row n ro co = \<lparr> si_name = n, si_tier = 1, si_role = ro, si_covers = co, si_publisher = None,
     si_feature = None, si_enable = [], si_compiled = True \<rparr>"

definition tier2_row :: "(string \<Rightarrow> bool) \<Rightarrow> string \<Rightarrow> role \<Rightarrow> coverage \<Rightarrow> string list \<Rightarrow> source_info" where
  "tier2_row cfg n ro co en = \<lparr> si_name = n, si_tier = 2, si_role = ro, si_covers = co, si_publisher = None,
     si_feature = Some ''metadata'', si_enable = en, si_compiled = cfg ''metadata'' \<rparr>"

definition tier3_row :: "(string \<Rightarrow> bool) \<Rightarrow> string \<Rightarrow> string list \<Rightarrow> string \<Rightarrow> string list \<Rightarrow> source_info" where
  "tier3_row cfg n ps pub_name en = \<lparr> si_name = n, si_tier = 3, si_role = Content, si_covers = Prefixes ps,
     si_publisher = Some pub_name, si_feature = Some n, si_enable = en, si_compiled = cfg n \<rparr>"

definition CATALOG :: "(string \<Rightarrow> bool) \<Rightarrow> source_info list" where
  "CATALOG cfg = (let t2 = tier2_row cfg; t3 = tier3_row cfg in
     [tier1_row ''crossref'' MetadataRole AnyDoi,
      tier1_row ''unpaywall'' OaLocation AnyDoi,
      tier1_row ''oa-publisher'' Content AnyDoi,
      tier1_row ''arxiv'' Content ArxivRefs,
      t2 ''datacite'' MetadataRole DataCiteDois [''DOIGET_ENABLE_DATACITE''],
      t2 ''europe-pmc'' OaLocation AnyDoi [''DOIGET_ENABLE_EUROPE_PMC''],
      t2 ''openaire'' OaLocation AnyDoi [''DOIGET_ENABLE_OPENAIRE''],
      t2 ''hal'' OaLocation AnyDoi [''DOIGET_ENABLE_HAL''],
      t2 ''core'' OaLocation AnyDoi [''DOIGET_ENABLE_CORE'', ''DOIGET_CORE_API_KEY''],
      t2 ''openalex'' OaLocation AnyDoi [''DOIGET_ENABLE_OPENALEX''],
      t2 ''semantic_scholar'' MetadataRole AnyDoi [''DOIGET_ENABLE_S2''],
      t2 ''ads'' OaLocation AnyDoi [''DOIGET_ADS_TOKEN''],
      t2 ''inspire'' OaLocation AnyDoi [''DOIGET_ENABLE_INSPIRE''],
      t2 ''biorxiv'' OaLocation AnyDoi [''DOIGET_ENABLE_BIORXIV''],
      t2 ''doaj'' MetadataRole AnyDoi [''DOIGET_ENABLE_DOAJ''],
      t3 ''tdm-aps'' [''10.1103''] ''American Physical Society (APS)''
        [''DOIGET_KEY_APS'', ''DOIGET_AGREE_TDM_APS''],
      t3 ''tdm-elsevier'' [''10.1016'', ''10.1006'', ''10.1053''] ''Elsevier BV''
        [''DOIGET_KEY_ELSEVIER'', ''DOIGET_AGREE_TDM_ELSEVIER''],
      t3 ''tdm-springer'' [''10.1007'', ''10.1038'', ''10.1057'', ''10.1140''] ''Springer Nature''
        [''DOIGET_KEY_SPRINGER'', ''DOIGET_AGREE_TDM_SPRINGER''],
      t3 ''tdm-ieee'' [''10.1109'', ''10.23919''] ''IEEE''
        [''DOIGET_KEY_IEEE'', ''DOIGET_AGREE_TDM_IEEE'']])"

subsection \<open>Availability\<close>

datatype availability_t = Ready | NotBuilt string | NotEnabled "string list" | NotCovered

fun availability_as_str :: "availability_t \<Rightarrow> string" where
  "availability_as_str Ready = ''ready''"
| "availability_as_str (NotBuilt _) = ''not_built''"
| "availability_as_str (NotEnabled _) = ''not_enabled''"
| "availability_as_str NotCovered = ''not_covered''"

fun remedy :: "availability_t \<Rightarrow> string option" where
  "remedy (NotBuilt f) = Some (''build with --features '' @ f)"
| "remedy (NotEnabled en) = Some (''set '' @ join_with '' and '' en)"
| "remedy _ = None"

definition covers :: "source_info \<Rightarrow> paper_ref \<Rightarrow> bool" where
  "covers info r = (case (si_covers info, r) of
     (ArxivRefs, RefArxiv _) \<Rightarrow> True
   | (ArxivRefs, RefDoi _) \<Rightarrow> False
   | (_, RefArxiv _) \<Rightarrow> False
   | (Prefixes ps, RefDoi d) \<Rightarrow> hd (split_char CHR ''/'' (doi_as_str d)) \<in> set ps
   | (_, RefDoi _) \<Rightarrow> True)"

definition source_enabled :: "string \<Rightarrow> capability_profile \<Rightarrow> bool" where
  "source_enabled n p = (let m = capability_profile.metadata p in
     if n = ''datacite'' then datacite m
     else if n = ''europe-pmc'' then europe_pmc m
     else if n = ''openaire'' then openaire m
     else if n = ''hal'' then hal m
     else if n = ''core'' then core m
     else if n = ''openalex'' then openalex m
     else if n = ''semantic_scholar'' then semantic_scholar m
     else if n = ''doaj'' then doaj m
     else if n = ''biorxiv'' then biorxiv m
     else if n = ''inspire'' then inspire m
     else if n = ''ads'' then ads m
     else if n = ''tdm-aps'' then tdm_aps p \<noteq> None
     else if n = ''tdm-elsevier'' then tdm_elsevier p \<noteq> None
     else if n = ''tdm-springer'' then tdm_springer p \<noteq> None
     else if n = ''tdm-ieee'' then tdm_ieee p \<noteq> None
     else True)"

definition configured :: "source_info \<Rightarrow> capability_profile \<Rightarrow> availability_t" where
  "configured info p =
     (if \<not> si_compiled info then NotBuilt (case si_feature info of Some f \<Rightarrow> f | None \<Rightarrow> ''?'')
      else if \<not> source_enabled (si_name info) p then NotEnabled (si_enable info)
      else Ready)"

definition availability :: "source_info \<Rightarrow> capability_profile \<Rightarrow> paper_ref \<Rightarrow> availability_t" where
  "availability info p r = (case configured info p of
     Ready \<Rightarrow> if \<not> covers info r then NotCovered else Ready
   | a \<Rightarrow> a)"

text \<open>\<open>lower\<close> is \<^verbatim>\<open>str::to_lowercase\<close>.\<close>

definition for_publisher :: "(string \<Rightarrow> string) \<Rightarrow> (string \<Rightarrow> bool) \<Rightarrow> string \<Rightarrow> source_info list" where
  "for_publisher lower cfg query =
     (let q = lower (str_trim query) in
      filter (\<lambda>s. case si_covers s of
         Prefixes ps \<Rightarrow> list_ex (\<lambda>x. q = x \<or> starts_with q (x @ ''/'')) ps
           \<or> (case si_publisher s of Some n \<Rightarrow> contains_str (lower n) q | None \<Rightarrow> False)
       | ArxivRefs \<Rightarrow> q = ''arxiv'' \<or> q = ''10.48550''
       | _ \<Rightarrow> True) (CATALOG cfg))"

subsection \<open>The catalog and the sources\<close>

text \<open>Every fetch source of a process, under the name the attempt trace gives it.\<close>

definition fetch_sources :: "orch_env \<Rightarrow> source_impl list" where
  "fetch_sources env =
     [crossref_source (fe env) (base_or env ''DOIGET_CROSSREF_BASE'' ''https://api.crossref.org''),
      unpaywall_source_from_env env (resolve_contact_email env), arxiv_source_from_env env,
      s2_source (fe env) (const_url env ''https://api.semanticscholar.org'')
        (nonempty (vars (fe env) ''DOIGET_S2_API_KEY'')),
      doaj_source (fe env) (const_url env ''https://doaj.org'')]
     @ map ce_src (optional_chain env) @ map te_src (tdm_chain env)"

lemma first_segment: "hd (split_char CHR ''/'' (doi_as_str d)) = doi_prefix d"
proof (cases "split_once CHR ''/'' (doi_as_str d)")
  case None
  then have "split_char CHR ''/'' (doi_as_str d) = [doi_as_str d]"
    by (simp add: split_once_None split_char_single)
  with None show ?thesis by (simp add: doi_prefix_def)
next
  case (Some ab)
  then obtain a b where "split_once CHR ''/'' (doi_as_str d) = Some (a, b)" by (cases ab) auto
  moreover from this have "doi_as_str d = a @ CHR ''/'' # b" "CHR ''/'' \<notin> set a"
    by (simp_all add: split_once_Some)
  ultimately show ?thesis by (simp add: doi_prefix_def split_char_append)
qed

lemma availability_Ready:
  "availability info p r = Ready \<longleftrightarrow> si_compiled info \<and> source_enabled (si_name info) p \<and> covers info r"
  by (auto simp: availability_def configured_def split: availability_t.splits)

lemmas row_simps = availability_Ready tier1_row_def tier2_row_def tier3_row_def covers_def source_enabled_def Let_def

definition catalog_row_ok :: "(string \<Rightarrow> bool) \<Rightarrow> source_impl \<Rightarrow> source_info \<Rightarrow> bool" where
  "catalog_row_ok cfg s row \<longleftrightarrow> row \<in> set (CATALOG cfg) \<and> si_name row = src_name s
     \<and> (\<forall>p r. availability row p r = Ready \<longleftrightarrow> can_serve s p r)"

definition every_feature :: "string \<Rightarrow> bool" where
  "every_feature f \<longleftrightarrow> f \<in> {''metadata'', ''tdm-aps'', ''tdm-elsevier'', ''tdm-springer'', ''tdm-ieee''}"

lemma catalog_row:
  assumes "info \<in> set (CATALOG cfg)" and "si_name info = src_name s"
    and "\<And>p r. si_compiled info \<and> source_enabled (si_name info) p \<and> covers info r \<longleftrightarrow> can_serve s p r"
  shows "\<exists>row. catalog_row_ok cfg s row"
  using assms unfolding catalog_row_ok_def availability_Ready by blast

lemmas source_defs = crossref_source_def unpaywall_source_def arxiv_source_def s2_source_def doaj_source_def
  datacite_source_def epmc_source_def openaire_source_def hal_source_def core_source_def openalex_source_def

lemma tier_1_rows:
  "\<exists>row. catalog_row_ok every_feature (crossref_source f b) row"
  "\<exists>row. catalog_row_ok every_feature (unpaywall_source f b e) row"
  "\<exists>row. catalog_row_ok every_feature (arxiv_source f x b c) row"
  subgoal by (rule catalog_row [where info = "CATALOG every_feature ! 0"])
    (auto simp: CATALOG_def row_simps source_defs is_doi_def every_feature_def split: paper_ref.splits)
  subgoal by (rule catalog_row [where info = "CATALOG every_feature ! 1"])
    (auto simp: CATALOG_def row_simps source_defs is_doi_def every_feature_def split: paper_ref.splits)
  subgoal by (rule catalog_row [where info = "CATALOG every_feature ! 3"])
    (auto simp: CATALOG_def row_simps source_defs is_doi_def every_feature_def split: paper_ref.splits)
  done

lemma metadata_rows:
  "\<exists>row. catalog_row_ok every_feature (s2_source f b k) row"
  "\<exists>row. catalog_row_ok every_feature (doaj_source f b) row"
  "\<exists>row. catalog_row_ok every_feature (datacite_source f b) row"
  "\<exists>row. catalog_row_ok every_feature (epmc_source f b) row"
  "\<exists>row. catalog_row_ok every_feature (openaire_source f b) row"
  "\<exists>row. catalog_row_ok every_feature (hal_source f b) row"
  "\<exists>row. catalog_row_ok every_feature (core_source f b) row"
  "\<exists>row. catalog_row_ok every_feature (openalex_source f b e) row"
  subgoal by (rule catalog_row [where info = "CATALOG every_feature ! 10"])
    (auto simp: CATALOG_def row_simps source_defs is_doi_def every_feature_def split: paper_ref.splits)
  subgoal by (rule catalog_row [where info = "CATALOG every_feature ! 14"])
    (auto simp: CATALOG_def row_simps source_defs is_doi_def every_feature_def split: paper_ref.splits)
  subgoal by (rule catalog_row [where info = "CATALOG every_feature ! 4"])
    (auto simp: CATALOG_def row_simps source_defs is_doi_def every_feature_def split: paper_ref.splits)
  subgoal by (rule catalog_row [where info = "CATALOG every_feature ! 5"])
    (auto simp: CATALOG_def row_simps source_defs is_doi_def every_feature_def split: paper_ref.splits)
  subgoal by (rule catalog_row [where info = "CATALOG every_feature ! 6"])
    (auto simp: CATALOG_def row_simps source_defs is_doi_def every_feature_def split: paper_ref.splits)
  subgoal by (rule catalog_row [where info = "CATALOG every_feature ! 7"])
    (auto simp: CATALOG_def row_simps source_defs is_doi_def every_feature_def split: paper_ref.splits)
  subgoal by (rule catalog_row [where info = "CATALOG every_feature ! 8"])
    (auto simp: CATALOG_def row_simps source_defs is_doi_def every_feature_def split: paper_ref.splits)
  subgoal by (rule catalog_row [where info = "CATALOG every_feature ! 9"])
    (auto simp: CATALOG_def row_simps source_defs is_doi_def every_feature_def split: paper_ref.splits)
  done

lemma tdm_rows:
  "\<exists>row. catalog_row_ok every_feature (aps_source f b) row"
  "\<exists>row. catalog_row_ok every_feature (elsevier_source f b) row"
  "\<exists>row. catalog_row_ok every_feature (springer_source f b) row"
  "\<exists>row. catalog_row_ok every_feature (ieee_source f b) row"
  subgoal by (rule catalog_row [where info = "CATALOG every_feature ! 15"])
    (auto simp: CATALOG_def row_simps aps_source_def tdm_can_serve_def APS_PREFIXES_def first_segment
      every_feature_def split: paper_ref.splits)
  subgoal by (rule catalog_row [where info = "CATALOG every_feature ! 16"])
    (auto simp: CATALOG_def row_simps elsevier_source_def tdm_can_serve_def ELSEVIER_PREFIXES_def first_segment
      every_feature_def split: paper_ref.splits)
  subgoal by (rule catalog_row [where info = "CATALOG every_feature ! 17"])
    (auto simp: CATALOG_def row_simps springer_source_def tdm_can_serve_def SPRINGER_PREFIXES_def first_segment
      every_feature_def split: paper_ref.splits)
  subgoal by (rule catalog_row [where info = "CATALOG every_feature ! 18"])
    (auto simp: CATALOG_def row_simps ieee_source_def tdm_can_serve_def IEEE_PREFIXES_def first_segment
      every_feature_def split: paper_ref.splits)
  done

text \<open>The catalog tells the truth about reach: in a build with every feature, each of the fifteen fetch
  sources has a row under its own name, and the row is ready for a reference under a profile exactly
  when the source would accept the reference under that profile; and the rows of the text-mining
  sources name the prefixes, the publisher and the variables that the fetch chain uses.\<close>

theorem catalog_agrees_with_sources:
  "list_all (\<lambda>s. \<exists>row. catalog_row_ok every_feature s row) (fetch_sources env)
   \<and> list_all (\<lambda>e. \<exists>row\<in>set (CATALOG every_feature). si_name row = te_name e
        \<and> si_covers row = Prefixes (te_prefixes e) \<and> si_publisher row = Some (te_publisher e)
        \<and> si_enable row = te_hint e) (tdm_chain env)"
  by (auto simp: fetch_sources_def unpaywall_source_from_env_def arxiv_source_from_env_def optional_chain_def
      tdm_chain_def Let_def tier_1_rows metadata_rows tdm_rows)
    (simp_all add: CATALOG_def tier1_row_def tier2_row_def tier3_row_def Let_def APS_PREFIXES_def ELSEVIER_PREFIXES_def
      SPRINGER_PREFIXES_def IEEE_PREFIXES_def)

end
