(* ===== verification/Exchange.thy ===== *)
theory Exchange
  imports Preprint
begin

text \<open>
  The shape of the effects of a lookup: a sequence of exchanges, each a rate slot, one request and one
  log row, all of the same source.  \<open>asks\<close> bounds their number and says where they may go; the lookups
  of the later components are proved against it by composition.
\<close>

named_theorems asks_intros

definition exchange :: "(string \<Rightarrow> url \<Rightarrow> bool) \<Rightarrow> string option \<Rightarrow> effect list \<Rightarrow> bool" where
  "exchange scope about es \<longleftrightarrow> (\<exists>n u hs i b. es = [Acquire n, Request n u hs False, Append i b]
     \<and> scope n u \<and> i_source i = Some n \<and> i_ref i = about)"

definition asks :: "(string \<Rightarrow> url \<Rightarrow> bool) \<Rightarrow> string option \<Rightarrow> nat \<Rightarrow> 'a act \<Rightarrow> bool" where
  "asks scope about k m \<longleftrightarrow> (\<forall>w. \<exists>ess. effects (fst (m w)) = effects w @ concat ess \<and> length ess \<le> k
     \<and> list_all (exchange scope about) ess \<and> w_files (fst (m w)) = w_files w)"

lemma asksE:
  assumes "asks scope about k m" and "m w = (w', r)"
  obtains ess where "effects w' = effects w @ concat ess" "length ess \<le> k" "list_all (exchange scope about) ess"
    "w_files w' = w_files w"
  using assms unfolding asks_def by (metis fst_conv)

lemma asksI:
  assumes "\<And>w w' r. m w = (w', r) \<Longrightarrow> \<exists>ess. effects w' = effects w @ concat ess \<and> length ess \<le> k
     \<and> list_all (exchange scope about) ess \<and> w_files w' = w_files w"
  shows "asks scope about k m"
  unfolding asks_def using assms by (metis prod.collapse)

lemma asks_mono: "asks scope about k m \<Longrightarrow> k \<le> l \<Longrightarrow> asks scope about l m"
  unfolding asks_def by (meson le_trans)

lemma asks_pure [asks_intros]:
  "asks scope about 0 (return_ok a)" "asks scope about 0 (throw e)" "asks scope about 0 (lift r)"
  "asks scope about 0 (ok_or e v)" "asks scope about 0 (api_base env key dflt)"
  "asks scope about 0 (json_answer env hint body)"
  by (auto simp: asks_def return_ok_def throw_def lift_def ok_or_def api_base_def json_answer_def
      and_then_def split: option.split)

lemma asks_bind [asks_intros]:
  assumes "asks scope about k m" and "\<And>w w' a. m w = (w', Ok a) \<Longrightarrow> asks scope about l (f a)"
  shows "asks scope about (k + l) (and_then m f)"
proof (rule asksI)
  fix w w' r assume run: "and_then m f w = (w', r)"
  obtain v q where m: "m w = (v, q)" by (cases "m w")
  from assms(1) m obtain ess where ess: "effects v = effects w @ concat ess" "length ess \<le> k"
      "list_all (exchange scope about) ess" "w_files v = w_files w"
    by (rule asksE)
  show "\<exists>ess. effects w' = effects w @ concat ess \<and> length ess \<le> k + l
      \<and> list_all (exchange scope about) ess \<and> w_files w' = w_files w"
  proof (cases q)
    case (Ok a)
    with run m have "f a v = (w', r)" by simp
    moreover from assms(2) m Ok have "asks scope about l (f a)" by simp
    ultimately obtain fss where "effects w' = effects v @ concat fss" "length fss \<le> l"
        "list_all (exchange scope about) fss" "w_files w' = w_files v"
      using asksE by blast
    with ess show ?thesis by (intro exI [of _ "ess @ fss"]) simp
  qed (use run m ess in auto)
qed

lemma asks_catch [asks_intros]:
  assumes "asks scope about k m" and "\<And>a. asks scope about l (f a)"
  shows "asks scope about (k + l) (catch m f)"
proof (rule asksI)
  fix w w' r assume run: "catch m f w = (w', r)"
  obtain v q where m: "m w = (v, q)" by (cases "m w")
  from assms(1) m obtain ess where ess: "effects v = effects w @ concat ess" "length ess \<le> k"
      "list_all (exchange scope about) ess" "w_files v = w_files w"
    by (rule asksE)
  have more: "\<exists>ess. effects w' = effects w @ concat ess \<and> length ess \<le> k + l
      \<and> list_all (exchange scope about) ess \<and> w_files w' = w_files w" if step: "f x v = (w', r)" for x
  proof -
    from assms(2) step obtain fss where "effects w' = effects v @ concat fss" "length fss \<le> l"
        "list_all (exchange scope about) fss" "w_files w' = w_files v"
      by (rule asksE)
    with ess show ?thesis by (intro exI [of _ "ess @ fss"]) simp
  qed
  show "\<exists>ess. effects w' = effects w @ concat ess \<and> length ess \<le> k + l
      \<and> list_all (exchange scope about) ess \<and> w_files w' = w_files w"
    using run m ess more by (cases q) (auto simp: catch_def intro!: exI [of _ ess])
qed

lemma asks_option: "asks scope about k n \<Longrightarrow> (\<And>a. asks scope about k (s a)) \<Longrightarrow>
    asks scope about k (case v of None \<Rightarrow> n | Some a \<Rightarrow> s a)"
  by (simp split: option.split)

lemma asks_split:
  "(\<And>a b. asks scope about k (h a b)) \<Longrightarrow> asks scope about k (case p of (a, b) \<Rightarrow> h a b)"
  "asks scope about k m \<Longrightarrow> asks scope about k m' \<Longrightarrow> asks scope about k (if c then m else m')"
  by (simp_all split: prod.split)

text \<open>One exchange: a slot, a request, and a row written whatever the answer.\<close>

lemma asks_exchange:
  assumes "scope n u"
    and "\<And>r. \<exists>i g. k r = and_then (log_row_act fenv i) (\<lambda>_. g) \<and> i_source i = Some n \<and> i_ref i = about
           \<and> (\<forall>w. fst (g w) = w)"
  shows "asks scope about 1 (and_then (acquire n) (\<lambda>_. and_then (http_act fenv n u hs) k))"
proof (rule asksI)
  fix w w' r assume run: "and_then (acquire n) (\<lambda>_. and_then (http_act fenv n u hs) k) w = (w', r)"
  let ?w1 = "w\<lparr>effects := effects w @ [Acquire n]\<rparr>"
  obtain v ans where h: "http_act fenv n u hs ?w1 = (v, Ok ans)"
      "effects v = effects w @ [Acquire n, Request n u hs False]" "w_files v = w_files w"
    by (auto simp: http_act_def http_get_def Let_def)
  from assms(2) [of ans] obtain i g where k: "k ans = and_then (log_row_act fenv i) (\<lambda>_. g)"
      and i: "i_source i = Some n" "i_ref i = about" and g: "\<forall>w. fst (g w) = w"
    by blast
  have step: "and_then (log_row_act fenv i) (\<lambda>_. g) v = (w', r)"
    using run h(1) k by (simp add: acquire_def and_then_def)
  obtain x b where "log_append fenv i v = (x, b)" by (cases "log_append fenv i v")
  moreover from log_append_effects [OF this]
  have "effects x = effects v @ [Append i (is_ok b)]" "w_files x = w_files v" by simp_all
  ultimately have "effects w' = effects v @ [Append i (is_ok b)] \<and> w_files w' = w_files v"
    using step g by (cases b) (auto simp: and_then_def log_row_act_def, (metis fst_conv)+)
  with h(2,3) i assms(1) have "effects w' = effects w @ concat [[Acquire n, Request n u hs False, Append i (is_ok b)]]"
      "exchange scope about [Acquire n, Request n u hs False, Append i (is_ok b)]" "w_files w' = w_files w"
    by (auto simp: exchange_def)
  then show "\<exists>ess. effects w' = effects w @ concat ess \<and> length ess \<le> 1
      \<and> list_all (exchange scope about) ess \<and> w_files w' = w_files w"
    by (intro exI [of _ "[[Acquire n, Request n u hs False, Append i (is_ok b)]]"]) simp
qed

subsection \<open>How a lookup can end\<close>

text \<open>Never in a panic, and only in errors of a given kind.\<close>

definition fails_with :: "(fetch_error \<Rightarrow> bool) \<Rightarrow> 'a act \<Rightarrow> bool" where
  "fails_with E m \<longleftrightarrow> (\<forall>w. case snd (m w) of Ok _ \<Rightarrow> True | Err e \<Rightarrow> E e | Panic \<Rightarrow> False)"

definition log_failed :: "fetch_error \<Rightarrow> bool" where
  "log_failed e \<longleftrightarrow> (\<exists>l. e = FELog l)"

abbreviation any_error :: "fetch_error \<Rightarrow> bool" where
  "any_error \<equiv> \<lambda>_. True"

named_theorems fails_intros

lemma fails_withD: "fails_with E m \<Longrightarrow> m w = (w', r) \<Longrightarrow> case r of Ok _ \<Rightarrow> True | Err e \<Rightarrow> E e | Panic \<Rightarrow> False"
  unfolding fails_with_def by (metis snd_conv)

lemma fails_mono: "fails_with E m \<Longrightarrow> (\<And>e. E e \<Longrightarrow> F e) \<Longrightarrow> fails_with F m"
  unfolding fails_with_def by (fastforce split: res.splits)

lemma fails_with_pure [fails_intros, simp]:
  "fails_with E (return_ok a)" "fails_with any_error (throw e)" "fails_with any_error (ok_or e v)"
  "fails_with E (acquire n)" "fails_with E (http_act fenv n u hs)" "fails_with any_error (api_base env key dflt)"
  "fails_with any_error (log_row_act fenv i)" "fails_with log_failed (log_row_act fenv i)"
  "fails_with log_failed (throw (FELog l))"
  by (auto simp: fails_with_def return_ok_def throw_def ok_or_def acquire_def log_row_act_def http_act_def
      api_base_def log_failed_def split: option.split prod.split sum.split)

lemma fails_with_bind [fails_intros]:
  assumes "fails_with E m" and "\<And>a. fails_with E (f a)"
  shows "fails_with E (and_then m f)"
proof -
  have "case snd (and_then m f w) of Ok _ \<Rightarrow> True | Err e \<Rightarrow> E e | Panic \<Rightarrow> False" for w
  proof (cases "m w")
    case (Pair v r)
    with fails_withD [OF assms(1) Pair] assms(2) show ?thesis
      by (cases r) (simp_all add: fails_with_def and_then_def)
  qed
  then show ?thesis by (simp add: fails_with_def)
qed

lemma fails_with_catch [fails_intros]:
  assumes "fails_with F m" and "\<And>a. fails_with E (f (Inr a))" and "\<And>e. F e \<Longrightarrow> fails_with E (f (Inl e))"
  shows "fails_with E (catch m f)"
proof -
  have "case snd (catch m f w) of Ok _ \<Rightarrow> True | Err e \<Rightarrow> E e | Panic \<Rightarrow> False" for w
  proof (cases "m w")
    case (Pair v r)
    with fails_withD [OF assms(1) Pair] assms(2,3) show ?thesis
      by (cases r) (simp_all add: fails_with_def catch_def)
  qed
  then show ?thesis by (simp add: fails_with_def)
qed

end
