(* ===== verification/Software.thy ===== *)
theory Software
  imports Records Exchange
begin

text \<open>
  Software citations (\<^verbatim>\<open>crates/doiget-core/src/software.rs\<close>): GitHub references, the reader of
  \<^verbatim>\<open>CITATION.cff\<close>, the lookup of a release, and the versioning of a Zenodo record.  The URL crate is
  the one of \<open>fetch_env\<close>; the wording of notes for the user is left out, each note is its data.
\<close>

subsection \<open>Strings\<close>

definition str_trim_start :: "string \<Rightarrow> string" where
  "str_trim_start s = concat (dropWhile is_whitespace (utf8_chars s))"

definition strip_cr :: "string \<Rightarrow> string" where
  "strip_cr l = (if l \<noteq> [] \<and> last l = CHR 0x0D then butlast l else l)"

text \<open>\<^verbatim>\<open>str::lines\<close>: an unterminated last line keeps its carriage return.\<close>

definition str_lines :: "string \<Rightarrow> string list" where
  "str_lines s = (let ls = split_char CHR 0x0A s in
     map strip_cr (butlast ls) @ (if last ls = [] then [] else [last ls]))"

text \<open>\<^verbatim>\<open>char::is_control\<close>, the class Cc.\<close>

definition is_control :: "string \<Rightarrow> bool" where
  "is_control ch = (case map code ch of
     [a] \<Rightarrow> a < 32 \<or> a = 127 | [a, b] \<Rightarrow> a = 0xC2 \<and> b < 0xA0 | _ \<Rightarrow> False)"

subsection \<open>References to GitHub\<close>

definition GITHUB_API :: string where "GITHUB_API = ''github''"
definition GITHUB_RAW :: string where "GITHUB_RAW = ''github-raw''"
definition API_DEFAULT :: string where "API_DEFAULT = ''https://api.github.com''"
definition RAW_DEFAULT :: string where "RAW_DEFAULT = ''https://raw.githubusercontent.com''"

definition valid_tag :: "string \<Rightarrow> bool" where
  "valid_tag t \<longleftrightarrow> t \<noteq> [] \<and> \<not> contains_str t ''..''
     \<and> list_all (\<lambda>seg. seg \<noteq> [] \<and> seg \<noteq> ''.'') (split_char CHR ''/'' t)
     \<and> \<not> list_ex (\<lambda>ch. is_whitespace ch \<or> is_control ch
          \<or> ch \<in> {''~'', ''^'', '':'', ''?'', ''*'', ''['', [CHR 0x5C], ''#'', ''%''}) (utf8_chars t)"

record github_ref =
  gh_owner :: string
  gh_repo :: string
  gh_tag :: "string option"

definition repo_path :: "github_ref \<Rightarrow> string" where
  "repo_path g = ''repos/'' @ gh_owner g @ ''/'' @ gh_repo g"

definition path_segments :: "fetch_env \<Rightarrow> url \<Rightarrow> string list option" where
  "path_segments fenv u = (case url_path fenv u of
     c # p \<Rightarrow> if c = CHR ''/'' then Some (split_char CHR ''/'' p) else None | [] \<Rightarrow> None)"

function trim_git :: "string \<Rightarrow> string" where
  "trim_git s = (if ends_with s ''.git'' then trim_git (take (length s - 4) s) else s)"
  by pat_completeness auto
termination
  by (relation "measure length") (auto simp: ends_with_def)

declare trim_git.simps [simp del]

definition valid_name :: "string \<Rightarrow> bool" where
  "valid_name s \<longleftrightarrow> s \<noteq> [] \<and> list_all (\<lambda>c. is_ascii_alphanumeric c \<or> c \<in> set ''-_.'') s"

text \<open>The slice patterns for what follows the repository; the inner option is the tag.\<close>

definition tag_segments :: "string list \<Rightarrow> string option option" where
  "tag_segments rest =
     (let check = (\<lambda>tg. let t = join_with ''/'' tg in if valid_tag t then Some (Some t) else None) in
      case rest of
        [] \<Rightarrow> Some None
      | a # ms \<Rightarrow>
          if a = ''releases'' \<and> 2 \<le> length ms \<and> hd ms = ''tag'' then check (tl ms)
          else if a = ''tree'' \<and> ms \<noteq> [] then check ms
          else None)"

definition github_parse :: "fetch_env \<Rightarrow> string \<Rightarrow> github_ref option" where
  "github_parse fenv input = (case url_parse fenv (str_trim input) of
     None \<Rightarrow> None
   | Some u \<Rightarrow>
       if scheme u \<notin> {''https'', ''http''} \<or> host_str u \<notin> {Some ''github.com'', Some ''www.github.com''} then None
       else (case map_option (filter (\<lambda>s. s \<noteq> [])) (path_segments fenv u) of
           Some (owner # r # rest) \<Rightarrow>
             (let repo = trim_git r in
              if \<not> valid_name owner \<or> \<not> valid_name repo then None
              else map_option (\<lambda>t. \<lparr> gh_owner = owner, gh_repo = repo, gh_tag = t \<rparr>) (tag_segments rest))
         | _ \<Rightarrow> None))"

definition html_url :: "github_ref \<Rightarrow> string" where
  "html_url g = ''https://github.com/'' @ gh_owner g @ ''/'' @ gh_repo g
     @ (case gh_tag g of Some t \<Rightarrow> ''/releases/tag/'' @ t | None \<Rightarrow> [])"

definition default_key :: "github_ref \<Rightarrow> string" where
  "default_key g = concat (map (\<lambda>ch. if ascii_char is_ascii_alphanumeric ch then ch else ''_'')
     (utf8_chars (case gh_tag g of Some t \<Rightarrow> gh_repo g @ ''_'' @ t | None \<Rightarrow> gh_repo g)))"

subsection \<open>The citation file\<close>

record cff =
  cff_title :: "string option"
  cff_authors :: "string list"
  cff_version :: "string option"
  cff_doi :: "string option"
  cff_date_released :: "string option"

record author_parts =
  ap_given :: "string option"
  ap_family :: "string option"
  ap_particle :: "string option"
  ap_name :: "string option"

definition no_parts :: author_parts where
  "no_parts = \<lparr> ap_given = None, ap_family = None, ap_particle = None, ap_name = None \<rparr>"

definition author_render :: "author_parts \<Rightarrow> string option" where
  "author_render a =
     (let family = (case (ap_particle a, ap_family a) of
          (Some p, Some f) \<Rightarrow> Some (p @ '' '' @ f)
        | (None, f) \<Rightarrow> f
        | (Some _, None) \<Rightarrow> None) in
      case (ap_given a, family, ap_name a) of
        (Some g, Some f, _) \<Rightarrow> Some (g @ '' '' @ f)
      | (None, Some f, _) \<Rightarrow> Some f
      | (_, None, Some n) \<Rightarrow> Some n
      | _ \<Rightarrow> None)"

fun comment_free :: "string option \<Rightarrow> bool \<Rightarrow> string list \<Rightarrow> string list" where
  "comment_free quote prev_space [] = []"
| "comment_free quote prev_space (c # cs) =
     (if quote = None \<and> c \<in> {[CHR 0x22], [CHR 0x27]} then c # comment_free (Some c) (is_whitespace c) cs
      else if quote = Some c then c # comment_free None (is_whitespace c) cs
      else if quote = None \<and> c = ''#'' \<and> prev_space then []
      else c # comment_free quote (is_whitespace c) cs)"

definition strip_comment :: "string \<Rightarrow> string" where
  "strip_comment line = concat (comment_free None True (utf8_chars line))"

definition split_key :: "string \<Rightarrow> (string \<times> string) option" where
  "split_key line = (case split_once CHR '':'' (str_trim line) of
     None \<Rightarrow> None
   | Some (k, v) \<Rightarrow>
       (let key = str_trim k in
        if key \<noteq> [] \<and> CHR '' '' \<notin> set key then Some (key, str_trim v) else None))"

definition unquote :: "char \<Rightarrow> string \<Rightarrow> string option" where
  "unquote q v = (case v of
     c # r \<Rightarrow> if c = q \<and> r \<noteq> [] \<and> last r = q then Some (butlast r) else None | [] \<Rightarrow> None)"

definition scalar :: "string \<Rightarrow> string option" where
  "scalar value =
     (let v = str_trim value in
      if v = [] \<or> hd v \<in> set ''|>[{'' then None
      else nonempty (Some (case unquote CHR 0x22 v of
          Some s \<Rightarrow> s
        | None \<Rightarrow> (case unquote CHR 0x27 v of Some s \<Rightarrow> s | None \<Rightarrow> v))))"

text \<open>The variables of the line loop, and the end of an author item.\<close>

record cff_state =
  cs_cff :: cff
  cs_in_authors :: bool
  cs_current :: "author_parts option"

definition flush_author :: "cff_state \<Rightarrow> cff_state" where
  "flush_author st = (case cs_current st of
     None \<Rightarrow> st
   | Some a \<Rightarrow> st\<lparr>cs_current := None,
       cs_cff := (cs_cff st)\<lparr>cff_authors := cff_authors (cs_cff st)
         @ (case author_render a of Some n \<Rightarrow> [n] | None \<Rightarrow> [])\<rparr>\<rparr>)"

definition top_level_key :: "string \<times> string \<Rightarrow> cff_state \<Rightarrow> cff_state" where
  "top_level_key kv st = (case kv of (key, value) \<Rightarrow>
     (let c = cs_cff st in
      if key = ''authors'' then st\<lparr>cs_in_authors := (value = [])\<rparr>
      else if key = ''title'' then st\<lparr>cs_cff := c\<lparr>cff_title := scalar value\<rparr>\<rparr>
      else if key = ''version'' then st\<lparr>cs_cff := c\<lparr>cff_version := scalar value\<rparr>\<rparr>
      else if key = ''doi'' then st\<lparr>cs_cff := c\<lparr>cff_doi := scalar value\<rparr>\<rparr>
      else if key = ''date-released'' then st\<lparr>cs_cff := c\<lparr>cff_date_released := scalar value\<rparr>\<rparr>
      else st))"

definition author_key :: "string \<times> string \<Rightarrow> author_parts \<Rightarrow> author_parts" where
  "author_key kv a = (case kv of (key, value) \<Rightarrow>
     (let v = scalar value in
      if key = ''given-names'' then a\<lparr>ap_given := v\<rparr>
      else if key = ''family-names'' then a\<lparr>ap_family := v\<rparr>
      else if key = ''name-particle'' then a\<lparr>ap_particle := v\<rparr>
      else if key = ''name'' then a\<lparr>ap_name := v\<rparr>
      else a))"

definition cff_line :: "string \<Rightarrow> cff_state \<Rightarrow> cff_state" where
  "cff_line raw st =
     (let line = strip_comment raw in
      if str_trim line = [] then st
      else if str_trim_start line = line then
        (let st = (flush_author st)\<lparr>cs_in_authors := False\<rparr> in
         case split_key line of None \<Rightarrow> st | Some kv \<Rightarrow> top_level_key kv st)
      else if \<not> cs_in_authors st then st
      else
        (let (st, item) = (case strip_prefix ''- '' (str_trim_start line) of
             Some rest \<Rightarrow> ((flush_author st)\<lparr>cs_current := Some no_parts\<rparr>, str_trim_start rest)
           | None \<Rightarrow> (st, str_trim_start line)) in
         case (cs_current st, split_key item) of
           (Some a, Some kv) \<Rightarrow> st\<lparr>cs_current := Some (author_key kv a)\<rparr>
         | _ \<Rightarrow> st))"

definition parse_cff :: "string \<Rightarrow> cff" where
  "parse_cff text = cs_cff (flush_author (fold cff_line (str_lines text)
     \<lparr> cs_cff = \<lparr> cff_title = None, cff_authors = [], cff_version = None, cff_doi = None, cff_date_released = None \<rparr>,
        cs_in_authors = False, cs_current = None \<rparr>))"

subsection \<open>Asking GitHub\<close>

definition gh_row :: "github_ref \<Rightarrow> string \<Rightarrow> log_result \<Rightarrow> nat option \<Rightarrow> string option \<Rightarrow> row_input" where
  "gh_row g name res sz cd = \<lparr> i_event = Fetch, i_result = res, i_capability = log_capability.Metadata,
     i_ref = Some (html_url g), i_source = Some name, i_error_code = cd, i_size_bytes = sz, i_license = None,
     i_store_path = None, i_canonical_digest = None \<rparr>"

text \<open>A 429 without a wait is given one.\<close>

definition gh_error :: "http_error \<Rightarrow> http_error" where
  "gh_error e = (case e of
     HttpStatus st u ra \<Rightarrow>
       if st = 429 then HttpStatus 429 u (case ra of Some x \<Rightarrow> Some x | None \<Rightarrow> Some 60000) else e
   | _ \<Rightarrow> e)"

definition gh_get :: "orch_env \<Rightarrow> string \<Rightarrow> url \<Rightarrow> headers \<Rightarrow> github_ref \<Rightarrow> string option act" where
  "gh_get env name u hs g =
     and_then (acquire name) (\<lambda>_.
     and_then (http_act (fe env) name u hs) (\<lambda>r. case r of
         Inr (body, _) \<Rightarrow>
           and_then (log_row_act (fe env) (gh_row g name LogOk (Some (length body)) None)) (\<lambda>_. return_ok (Some body))
       | Inl e \<Rightarrow>
           if (case e of HttpStatus st _ _ \<Rightarrow> st = 404 | _ \<Rightarrow> False)
           then and_then (log_row_act (fe env) (gh_row g name LogErr None (Some ''NOT_FOUND''))) (\<lambda>_. return_ok None)
           else (let e = FEHttp (gh_error e) in
             and_then (log_row_act (fe env) (gh_row g name LogErr None (Some (code_as_wire (fetch_error_code e)))))
               (\<lambda>_. throw e))))"

definition gh_base :: "orch_env \<Rightarrow> string \<Rightarrow> string \<Rightarrow> url act" where
  "gh_base env key dflt = and_then (api_base env key dflt) (\<lambda>u.
     let p = url_path (fe env) u in
     return_ok (if ends_with p ''/'' then u else set_path_str env u (p @ ''/'')))"

definition gh_not_found :: "github_ref \<Rightarrow> fetch_error" where
  "gh_not_found g = FEHttp (HttpStatus 404 (html_url g) None)"

definition gh_api_json :: "orch_env \<Rightarrow> url \<Rightarrow> string \<Rightarrow> github_ref \<Rightarrow> json option act" where
  "gh_api_json env api path g =
     and_then (ok_or (SourceSchema (''building a GitHub API URL for '' @ path)) (url_join (fe env) api path)) (\<lambda>u.
     and_then (gh_get env GITHUB_API u
         [(''Accept'', ''application/vnd.github+json''), (''X-GitHub-Api-Version'', ''2022-11-28'')] g)
       (json_answer env (''GitHub returned non-JSON for '' @ path)))"

definition gh_raw_text :: "orch_env \<Rightarrow> url \<Rightarrow> string \<Rightarrow> github_ref \<Rightarrow> string option act" where
  "gh_raw_text env raw path g =
     and_then (ok_or (SourceSchema (''building a raw.githubusercontent.com URL for '' @ path))
        (url_join (fe env) raw path)) (\<lambda>u.
     and_then (gh_get env GITHUB_RAW u [] g) (\<lambda>b. return_ok (map_option from_utf8_lossy b)))"

datatype software_note =
    LatestRelease string
  | TagWithoutRelease string
  | NoCitationFile string string
  | CitationDoi string
  | CitationDoiInvalid string

record software_citation =
  sc_metadata :: metadata
  sc_from_cff :: bool
  sc_notes :: "software_note list"

text \<open>\<^verbatim>\<open>date.get(..4)?.parse::<i32>()\<close>: a cut inside a character is no slice; a sign is allowed.\<close>

definition parse_i32 :: "string \<Rightarrow> int option" where
  "parse_i32 s = (case s of
     c # ds \<Rightarrow>
       if c = CHR ''-'' then (if ds \<noteq> [] \<and> hd ds = CHR ''+'' then None
         else map_option (\<lambda>n. - int n) (parse_unsigned (2 ^ 31 + 1) ds))
       else map_option int (parse_unsigned (2 ^ 31) s)
   | [] \<Rightarrow> None)"

definition year_of :: "string \<Rightarrow> int option" where
  "year_of date = (if 4 \<le> length date \<and> is_char_boundary date 4 then parse_i32 (take 4 date) else None)"

text \<open>The release and the tag that is cited, with the notes so far.\<close>

definition release_and_tag :: "orch_env \<Rightarrow> url \<Rightarrow> github_ref \<Rightarrow>
    (json option \<times> string option \<times> software_note list) act" where
  "release_and_tag env api g = (case gh_tag g of
     Some t \<Rightarrow> and_then (gh_api_json env api (repo_path g @ ''/releases/tags/'' @ t) g)
       (\<lambda>rel. return_ok (rel, Some t, []))
   | None \<Rightarrow> and_then (gh_api_json env api (repo_path g @ ''/releases/latest'') g) (\<lambda>latest.
       let tag = (case Option.bind (Option.bind latest (\<lambda>r. jget r ''tag_name'')) as_str of
           Some t \<Rightarrow> if valid_tag t then Some t else None | None \<Rightarrow> None) in
       return_ok (latest, tag, case tag of Some t \<Rightarrow> [LatestRelease t] | None \<Rightarrow> [])))"

text \<open>The date of the release, or of the commit of a tag without one.\<close>

definition release_date :: "orch_env \<Rightarrow> url \<Rightarrow> github_ref \<Rightarrow> json option \<Rightarrow> string option \<Rightarrow> software_note list \<Rightarrow>
    (string option \<times> software_note list) act" where
  "release_date env api g rel tag notes = (case (rel, tag) of
     (None, Some t) \<Rightarrow> and_then (gh_api_json env api (repo_path g @ ''/commits/'' @ t) g) (\<lambda>commit.
       case commit of
         None \<Rightarrow> throw (gh_not_found g)
       | Some c \<Rightarrow> return_ok (jstr c [''commit'', ''committer'', ''date''], notes @ [TagWithoutRelease t]))
   | _ \<Rightarrow> return_ok (Option.bind (Option.bind rel (\<lambda>r. opt_else (jget r ''published_at'') (jget r ''created_at'')))
         as_str, notes))"

definition software_metadata :: "github_ref \<Rightarrow> json \<Rightarrow> json option \<Rightarrow> string option \<Rightarrow> string option \<Rightarrow> cff option \<Rightarrow>
    metadata" where
  "software_metadata g repo rel tag date c =
     (let owner = or_str (jstr repo [''owner'', ''login'']) (gh_owner g);
          nm = or_str (jstr repo [''name'']) (gh_repo g);
          version = opt_else tag (Option.bind c cff_version) in
      no_record\<lparr>
        title := or_str (Option.bind c cff_title) nm,
        authors := (case c of Some f \<Rightarrow> if cff_authors f \<noteq> [] then cff_authors f else [owner] | None \<Rightarrow> [owner]),
        year := Option.bind (opt_else date (Option.bind c cff_date_released)) year_of,
        m_url := Some (or_str (Option.bind rel (\<lambda>r. jstr r [''html_url''])) (html_url (g\<lparr>gh_tag := tag\<rparr>))),
        publisher := Some ''GitHub'',
        m_type := Some ''software'',
        other := (case version of Some v \<Rightarrow> [(''version'', TString v)] | None \<Rightarrow> []),
        m_doi := (case Option.bind c cff_doi of
           Some d \<Rightarrow> (case doi_parse d of Inr x \<Rightarrow> Some x | Inl _ \<Rightarrow> None) | None \<Rightarrow> None) \<rparr>)"

definition software_notes :: "github_ref \<Rightarrow> json \<Rightarrow> cff option \<Rightarrow> software_note list" where
  "software_notes g repo c =
     (if (case c of Some f \<Rightarrow> cff_authors f \<noteq> [] | None \<Rightarrow> False) then []
      else [NoCitationFile (or_str (jstr repo [''owner'', ''login'']) (gh_owner g))
              (or_str (jstr repo [''name'']) (gh_repo g))])
     @ (case Option.bind c cff_doi of
          None \<Rightarrow> []
        | Some d \<Rightarrow> (case doi_parse d of Inr _ \<Rightarrow> [CitationDoi d] | Inl _ \<Rightarrow> [CitationDoiInvalid d]))"

definition resolve_github :: "orch_env \<Rightarrow> github_ref \<Rightarrow> software_citation act" where
  "resolve_github env g =
     and_then (gh_base env ''DOIGET_GITHUB_API_BASE'' API_DEFAULT) (\<lambda>api.
     and_then (gh_base env ''DOIGET_GITHUB_RAW_BASE'' RAW_DEFAULT) (\<lambda>raw.
     and_then (gh_api_json env api (repo_path g) g) (\<lambda>repo.
     and_then (ok_or (gh_not_found g) repo) (\<lambda>repo.
     and_then (release_and_tag env api g) (\<lambda>(rel, tag, notes).
     and_then (release_date env api g rel tag notes) (\<lambda>(date, notes).
     and_then (gh_raw_text env raw
         (gh_owner g @ ''/'' @ gh_repo g @ ''/'' @ or_str tag ''HEAD'' @ ''/CITATION.cff'') g) (\<lambda>txt.
       let c = map_option parse_cff txt in
       return_ok \<lparr> sc_metadata = software_metadata g repo rel tag date c,
         sc_from_cff = (case c of Some f \<Rightarrow> cff_authors f \<noteq> [] | None \<Rightarrow> False),
         sc_notes = notes @ software_notes g repo c \<rparr>)))))))"

definition github_resolves :: "orch_env \<Rightarrow> github_ref \<Rightarrow> bool act" where
  "github_resolves env g =
     and_then (gh_base env ''DOIGET_GITHUB_API_BASE'' API_DEFAULT) (\<lambda>api.
     and_then (gh_api_json env api (repo_path g) g) (\<lambda>repo.
     if repo = None then return_ok False
     else (case gh_tag g of
         None \<Rightarrow> return_ok True
       | Some t \<Rightarrow>
           and_then (gh_api_json env api (repo_path g @ ''/releases/tags/'' @ t) g) (\<lambda>rel.
           if rel \<noteq> None then return_ok True
           else and_then (gh_api_json env api (repo_path g @ ''/commits/'' @ t) g)
             (\<lambda>commit. return_ok (commit \<noteq> None))))))"

definition explain :: "fetch_error \<Rightarrow> string option" where
  "explain e = (case e of
     FEHttp (HttpStatus st _ _) \<Rightarrow>
       if st = 403 then Some (''GitHub answers 403 both when the unauthenticated limit (60 requests an hour per ''
         @ ''address) is spent -- it resets within the hour -- and when the repository is not ''
         @ ''public; doiget sends no token'') else None
   | _ \<Rightarrow> None)"

subsection \<open>Zenodo versions\<close>

datatype zenodo_doi_t = ZenodoVersion string | ZenodoConcept

definition doi_rel :: "json list \<Rightarrow> string \<Rightarrow> json option" where
  "doi_rel related kind = find (\<lambda>r. jstr r [''relationType''] = Some kind
     \<and> (case jstr r [''relatedIdentifierType''] of Some t \<Rightarrow> eq_ignore_ascii_case t ''DOI'' | None \<Rightarrow> False)) related"

definition zenodo_doi :: "json \<Rightarrow> zenodo_doi_t option" where
  "zenodo_doi attributes = (case jarray attributes [''relatedIdentifiers''] of
     None \<Rightarrow> None
   | Some related \<Rightarrow>
       (case Option.bind (doi_rel related ''IsVersionOf'') (\<lambda>r. jstr r [''relatedIdentifier'']) of
          Some concept \<Rightarrow> Some (ZenodoVersion concept)
        | None \<Rightarrow> map_option (\<lambda>_. ZenodoConcept) (doi_rel related ''HasVersion'')))"

subsection \<open>What a reference can name\<close>

lemma github_parse_checked:
  "github_parse fenv s = Some g \<Longrightarrow> valid_name (gh_owner g) \<and> valid_name (gh_repo g)
     \<and> (case gh_tag g of Some t \<Rightarrow> valid_tag t | None \<Rightarrow> True)"
  by (auto simp: github_parse_def tag_segments_def Let_def split: option.splits list.splits if_splits)

lemma valid_tag_segments:
  "valid_tag t \<Longrightarrow> list_all (\<lambda>seg. seg \<noteq> [] \<and> seg \<noteq> ''.'' \<and> seg \<noteq> ''..'') (split_char CHR ''/'' t)"
proof -
  assume v: "valid_tag t"
  have "\<not> contains_str t ''..''" using v by (simp add: valid_tag_def)
  moreover have "contains_str t seg" if seg: "seg \<in> set (split_char CHR ''/'' t)" for seg
  proof -
    obtain xs bs where "split_char CHR ''/'' t = xs @ seg # bs" using split_list [OF seg] by blast
    then have "t = join_with ''/'' (xs @ seg # bs)" by (metis join_split_char)
    moreover have "\<exists>a b. join_with ''/'' (xs @ seg # bs) = a @ seg @ b"
    proof (induction xs)
      case Nil
      then show ?case by (cases bs) (auto intro: exI [of _ "[]"])
    next
      case (Cons x xs)
      then obtain a b where "join_with ''/'' (xs @ seg # bs) = a @ seg @ b" by blast
      then show ?case by (intro exI [of _ "x @ ''/'' @ a"] exI [of _ b]) (simp add: join_with_Cons)
    qed
    ultimately show ?thesis by (auto simp: contains_str_iff)
  qed
  ultimately show ?thesis using v by (auto simp: valid_tag_def list_all_iff)
qed

text \<open>
  The repository name is checked after its \<^verbatim>\<open>.git\<close> suffixes are gone, and only for its characters: what
  is left may be two dots, and then the path that every request starts from climbs out of
  \<^verbatim>\<open>repos/{owner}/{repo}\<close>, against the comments above the tag check and the type.
\<close>

definition climb_env :: fetch_env where
  "climb_env = demo_fetch_env\<lparr>
     url_parse := (\<lambda>s. Some ((demo_url ''https'' ''github.com'')\<lparr>url_rest := drop 18 s\<rparr>))\<rparr>"

theorem parsed_name_climbs:
  "map_option repo_path (github_parse climb_env ''https://github.com/o/...git'') = Some ''repos/o/..''"
  by code_simp

text \<open>A list of authors that is not indented, which YAML allows, is lost.\<close>

lemma unindented_authors_are_lost:
  "cff_authors (parse_cff (''authors:'' @ [CHR 0x0A] @ ''- family-names: Doe'' @ [CHR 0x0A])) = []
   \<and> cff_authors (parse_cff (''authors:'' @ [CHR 0x0A] @ ''  - family-names: Doe'' @ [CHR 0x0A])) = [''Doe'']"
  by code_simp

text \<open>An apostrophe inside an unquoted value is taken for a quote, and the comment behind it for text.\<close>

lemma apostrophe_keeps_the_comment:
  "cff_title (parse_cff (''title: Bob'' @ [CHR 0x27] @ ''s tool # beta'')) = Some (''Bob'' @ [CHR 0x27] @ ''s tool # beta'')"
  by code_simp

subsection \<open>What a lookup does\<close>

definition github_scope :: "orch_env \<Rightarrow> github_ref \<Rightarrow> string \<Rightarrow> url \<Rightarrow> bool" where
  "github_scope env g n u \<longleftrightarrow>
     (n = GITHUB_API \<and> (\<exists>b p. url_join (fe env) b (repo_path g @ p) = Some u))
     \<or> (n = GITHUB_RAW \<and> (\<exists>b p. url_join (fe env) b (gh_owner g @ ''/'' @ gh_repo g @ ''/'' @ p) = Some u))"

abbreviation (input) gh_asks :: "orch_env \<Rightarrow> github_ref \<Rightarrow> nat \<Rightarrow> 'a act \<Rightarrow> bool" where
  "gh_asks env g \<equiv> asks (github_scope env g) (Some (html_url g))"

lemma asks_gh_get: "github_scope env g n u \<Longrightarrow> gh_asks env g 1 (gh_get env n u hs g)"
  unfolding gh_get_def
proof (rule asks_exchange)
  fix r :: "http_error + string \<times> url"
  show "\<exists>i ga. (case r of
         Inr (body, _) \<Rightarrow>
           and_then (log_row_act (fe env) (gh_row g n LogOk (Some (length body)) None)) (\<lambda>_. return_ok (Some body))
       | Inl e \<Rightarrow>
           if (case e of HttpStatus st _ _ \<Rightarrow> st = 404 | _ \<Rightarrow> False)
           then and_then (log_row_act (fe env) (gh_row g n LogErr None (Some ''NOT_FOUND''))) (\<lambda>_. return_ok None)
           else (let e = FEHttp (gh_error e) in
             and_then (log_row_act (fe env) (gh_row g n LogErr None (Some (code_as_wire (fetch_error_code e)))))
               (\<lambda>_. throw e))) = and_then (log_row_act (fe env) i) (\<lambda>_. ga)
        \<and> i_source i = Some n \<and> i_ref i = Some (html_url g) \<and> (\<forall>w. fst (ga w) = w)"
    by (cases r)
      (fastforce simp: gh_row_def return_ok_def throw_def Let_def split: prod.split)+
qed

lemma asks_gh_base: "asks scope about 0 (gh_base env key dflt)"
  unfolding gh_base_def Let_def by (rule asks_bind [where k = 0 and l = 0, simplified]) (intro asks_intros)+

lemma asks_api_json: "gh_asks env g 1 (gh_api_json env b (repo_path g @ p) g)"
proof -
  have "gh_asks env g (1 + 0) (and_then (gh_get env GITHUB_API u hs g) (json_answer env h))"
    if "url_join (fe env) b (repo_path g @ p) = Some u" for u hs h
    by (rule asks_bind [OF asks_gh_get]) (use that in \<open>auto simp: github_scope_def intro: asks_intros\<close>)
  then have "gh_asks env g (0 + 1) (gh_api_json env b (repo_path g @ p) g)"
    unfolding gh_api_json_def by (intro asks_bind [OF asks_pure(4)]) (simp add: ok_or_Ok)
  then show ?thesis by simp
qed

lemma asks_api_json_repo: "gh_asks env g 1 (gh_api_json env b (repo_path g) g)"
  using asks_api_json [of env g b "[]"] by simp

lemma asks_raw_text:
  "gh_asks env g 1 (gh_raw_text env b (gh_owner g @ ''/'' @ gh_repo g @ ''/'' @ p) g)"
proof -
  have "gh_asks env g (1 + 0) (and_then (gh_get env GITHUB_RAW u [] g) (\<lambda>b. return_ok (map_option from_utf8_lossy b)))"
    if "url_join (fe env) b (gh_owner g @ ''/'' @ gh_repo g @ ''/'' @ p) = Some u" for u
    by (rule asks_bind [OF asks_gh_get]) (use that in \<open>auto simp: github_scope_def intro: asks_intros\<close>)
  then have "gh_asks env g (0 + 1) (gh_raw_text env b (gh_owner g @ ''/'' @ gh_repo g @ ''/'' @ p) g)"
    unfolding gh_raw_text_def by (intro asks_bind [OF asks_pure(4)]) (simp add: ok_or_Ok)
  then show ?thesis by simp
qed

lemma asks_release_and_tag: "gh_asks env g 1 (release_and_tag env b g)"
  unfolding release_and_tag_def Let_def
  by (cases "gh_tag g") (simp_all, (rule asks_bind [OF asks_api_json, where l = 0, simplified], rule asks_pure)+)

lemma asks_release_date: "gh_asks env g 1 (release_date env b g rel tag notes)"
proof -
  have "gh_asks env g (1 + 0) (and_then (gh_api_json env b (repo_path g @ ''/commits/'' @ t) g) (\<lambda>c.
      case c of None \<Rightarrow> throw e | Some a \<Rightarrow> return_ok (f a)))" for t e and f :: "json \<Rightarrow> string option \<times> software_note list"
    by (rule asks_bind [OF asks_api_json]) (intro asks_option asks_pure)
  then show ?thesis
    unfolding release_date_def
    by (cases rel; cases tag) (simp_all add: asks_mono [OF asks_pure(1)])
qed

text \<open>A software lookup stays on the repository it was given.  Whatever the servers answer, resolving a
  GitHub reference makes at most five requests and checking that it resolves at most three; each is a
  request to the GitHub API under the path of the repository or to GitHub's raw host under the
  repository's directory, made in a rate slot of its own and followed by a log row of the same source
  that names the reference; no stored file is touched.\<close>

theorem software_lookup_is_scoped:
  "asks (github_scope env g) (Some (html_url g)) 4 (resolve_github env g)
   \<and> asks (github_scope env g) (Some (html_url g)) 3 (github_resolves env g)"
proof
  note free = asks_bind [OF asks_gh_base, simplified] asks_bind [OF asks_pure(4), simplified]
  have raw: "gh_asks env g (1 + 0) (and_then (gh_raw_text env b (gh_owner g @ ''/'' @ gh_repo g @ ''/'' @ p) g) (\<lambda>x. return_ok (f x)))"
    for b p and f :: "string option \<Rightarrow> software_citation"
    by (rule asks_bind [OF asks_raw_text asks_pure(1)])
  have late: "gh_asks env g (1 + (1 + 0)) (and_then (release_date env api g rel tag ns) (\<lambda>(date, notes).
      and_then (gh_raw_text env b (gh_owner g @ ''/'' @ gh_repo g @ ''/'' @ p) g) (\<lambda>x. return_ok (f date notes x))))"
    for api rel tag ns b p and f :: "_ \<Rightarrow> _ \<Rightarrow> string option \<Rightarrow> software_citation"
    by (rule asks_bind [OF asks_release_date]) (simp add: raw [simplified] split: prod.split)
  have mid: "gh_asks env g (1 + (1 + (1 + 0))) (and_then (release_and_tag env api g) (\<lambda>(rel, tag, notes).
      and_then (release_date env api g rel tag notes) (\<lambda>(date, notes).
      and_then (gh_raw_text env b (gh_owner g @ ''/'' @ gh_repo g @ ''/'' @ q tag) g) (\<lambda>x. return_ok (f rel tag date notes x)))))"
    for api b q and f :: "_ \<Rightarrow> _ \<Rightarrow> _ \<Rightarrow> _ \<Rightarrow> string option \<Rightarrow> software_citation"
    by (rule asks_bind [OF asks_release_and_tag]) (use late in \<open>auto split: prod.split\<close>)
  show "gh_asks env g 4 (resolve_github env g)"
    unfolding resolve_github_def Let_def
    by (intro free(1) asks_bind [OF asks_api_json_repo, where l = 3, simplified] free(2))
      (use mid in \<open>simp add: numeral_3_eq_3\<close>)
  have rest: "gh_asks env g (1 + (1 + 0)) (and_then (gh_api_json env api (repo_path g @ p) g) (\<lambda>rel.
      if c rel then return_ok True
      else and_then (gh_api_json env api (repo_path g @ q) g) (\<lambda>commit. return_ok (f commit))))" for api p q c and f :: "_ \<Rightarrow> bool"
  proof (rule asks_bind [OF asks_api_json])
    fix rel
    have "gh_asks env g (1 + 0) (and_then (gh_api_json env api (repo_path g @ q) g) (\<lambda>commit. return_ok (f commit)))"
      by (rule asks_bind [OF asks_api_json asks_pure(1)])
    then show "gh_asks env g (1 + 0) (if c rel then return_ok True
      else and_then (gh_api_json env api (repo_path g @ q) g) (\<lambda>commit. return_ok (f commit)))"
      by (intro asks_split) (auto intro: asks_mono [OF asks_pure(1)])
  qed
  show "gh_asks env g 3 (github_resolves env g)"
    unfolding github_resolves_def
  proof (intro free(1), rule asks_mono [OF asks_bind [OF asks_api_json_repo, where l = 2]])
    fix api and repo :: "json option"
    have "gh_asks env g 2 (return_ok False)" by (rule asks_mono [OF asks_pure(1)]) simp
    moreover have "gh_asks env g 2 (case gh_tag g of None \<Rightarrow> return_ok True
       | Some t \<Rightarrow> and_then (gh_api_json env api (repo_path g @ ''/releases/tags/'' @ t) g) (\<lambda>rel.
           if rel \<noteq> None then return_ok True
           else and_then (gh_api_json env api (repo_path g @ ''/commits/'' @ t) g)
             (\<lambda>commit. return_ok (commit \<noteq> None))))"
      using rest [where c = "\<lambda>rel. rel \<noteq> None" and f = "\<lambda>commit. commit \<noteq> None"]
      by (cases "gh_tag g") (simp_all add: numeral_2_eq_2 asks_mono [OF asks_pure(1)])
    ultimately show "gh_asks env g 2 (if repo = None then return_ok False else (case gh_tag g of None \<Rightarrow> return_ok True
       | Some t \<Rightarrow> and_then (gh_api_json env api (repo_path g @ ''/releases/tags/'' @ t) g) (\<lambda>rel.
           if rel \<noteq> None then return_ok True
           else and_then (gh_api_json env api (repo_path g @ ''/commits/'' @ t) g)
             (\<lambda>commit. return_ok (commit \<noteq> None)))))"
      by (rule asks_split(2))
  qed simp
qed

end
