(* ===== verification/Bibliography.thy ===== *)
theory Bibliography
  imports Software
begin

text \<open>
  The bibliography adapters (\<^verbatim>\<open>crates/doiget-core/src/refs.rs\<close>): plain reference lists, CSL-JSON and
  BibTeX, each entry read into a reference or into the reason why it is none.  The crate \<^verbatim>\<open>biblatex\<close> is a
  parameter: a document as its entries, an entry as its key, its two typed fields (when the accessor
  succeeds) and its fields in verbatim form.  The JSON and URL crates are those of \<open>fetch_env\<close>.
\<close>

record bib_entry =
  be_key :: string
  be_doi :: "string option"
  be_eprint :: "string option"
  be_get :: "string \<Rightarrow> string option"

record bib_env =
  be_fetch :: fetch_env
  be_parse :: "string \<Rightarrow> bib_entry list option"

record parsed_entry =
  pe_ref :: paper_ref
  pe_key :: "string option"

datatype parse_error =
    NoIdentifier "string option"
  | UnsupportedIdentifier string string "string option"
  | SoftwareUrl string "string option"
  | UnparsedRef string "string option" ref_parse_error
  | Decode string
  | UnsupportedFormat string

type_synonym bib_result = "parse_error + parsed_entry"

subsection \<open>Formats\<close>

datatype bib_format = FormatAuto | FormatRefs | FormatCslJson | FormatBibtex

fun format_as_wire :: "bib_format \<Rightarrow> string" where
  "format_as_wire FormatAuto = ''auto''"
| "format_as_wire FormatRefs = ''refs''"
| "format_as_wire FormatCslJson = ''csl-json''"
| "format_as_wire FormatBibtex = ''bibtex''"

text \<open>\<^verbatim>\<open>Utf8Path::extension\<close>.\<close>

definition path_extension :: "string \<Rightarrow> string option" where
  "path_extension p =
     (let cs = filter (\<lambda>c. c \<noteq> [] \<and> c \<noteq> ''.'') (split_char CHR ''/'' p) in
      if cs = [] \<or> last cs = ''..'' then None
      else (case rsplit_once CHR ''.'' (last cs) of
          Some (stem, e) \<Rightarrow> if stem = [] then None else Some e | None \<Rightarrow> None))"

text \<open>The lines that count: trimmed, not blank, not a comment.\<close>

definition ref_lines :: "string \<Rightarrow> string list" where
  "ref_lines text = filter (\<lambda>l. l \<noteq> [] \<and> hd l \<noteq> CHR ''#'') (map str_trim (str_lines text))"

definition detect_format :: "string option \<Rightarrow> string \<Rightarrow> bib_format" where
  "detect_format path content =
     (let ext = (case path of None \<Rightarrow> [] | Some p \<Rightarrow> to_ascii_lowercase (or_str (path_extension p) [])) in
      if ext \<in> {''bib'', ''biblatex''} then FormatBibtex
      else if ext \<in> {''json'', ''csl''} then FormatCslJson
      else (case ref_lines content of
          [] \<Rightarrow> FormatRefs
        | l # _ \<Rightarrow> if hd l = CHR ''@'' then FormatBibtex
            else if hd l \<in> set ''[{'' then FormatCslJson else FormatRefs))"

subsection \<open>Entries\<close>

definition ref_result :: "string \<Rightarrow> string option \<Rightarrow> bib_result" where
  "ref_result raw key = (case ref_parse raw of
     Inr r \<Rightarrow> Inr \<lparr> pe_ref = r, pe_key = key \<rparr> | Inl e \<Rightarrow> Inl (UnparsedRef raw key e))"

definition with_arxiv_scheme :: "string \<Rightarrow> string" where
  "with_arxiv_scheme raw = (if starts_with (to_ascii_lowercase raw) ''arxiv:'' then raw else ''arxiv:'' @ raw)"

definition parse_plain_refs :: "string \<Rightarrow> bib_result list" where
  "parse_plain_refs text = map (\<lambda>line. ref_result line None) (ref_lines text)"

text \<open>\<^verbatim>\<open>Number::to_string\<close>; a float keeps the text it has in \<open>json\<close>.\<close>

fun nat_text :: "nat \<Rightarrow> string" where
  "nat_text n = (if n < 10 then [char_of (48 + n)] else nat_text (n div 10) @ [char_of (48 + n mod 10)])"

declare nat_text.simps [simp del]

definition number_text :: "json \<Rightarrow> string option" where
  "number_text j = (case j of
     JInt i \<Rightarrow> Some (if i < 0 then CHR ''-'' # nat_text (nat (- i)) else nat_text (nat i))
   | JFloat s \<Rightarrow> Some s
   | _ \<Rightarrow> None)"

definition csl_key :: "json \<Rightarrow> string option" where
  "csl_key entry = Option.bind (jget entry ''id'') (\<lambda>v. opt_else (as_str v) (number_text v))"

definition csl_direct :: "json \<Rightarrow> string \<Rightarrow> string option" where
  "csl_direct entry nm = nonempty (Option.bind (jget entry nm) (\<lambda>v.
     case v of JString s \<Rightarrow> Some (str_trim s) | _ \<Rightarrow> number_text v))"

text \<open>What follows a marker in a note, as far as the characters are of a kind.\<close>

definition after_marker :: "string \<Rightarrow> string \<Rightarrow> string option" where
  "after_marker needle note = map_option (\<lambda>(a, _). drop (length a + length needle) note)
     (find_sub needle (to_ascii_lowercase note))"

definition csl_unsupported_identifier :: "json \<Rightarrow> (string \<times> string) option" where
  "csl_unsupported_identifier entry =
     (case find_map (\<lambda>(field, kind). map_option (\<lambda>v. (kind, v)) (csl_direct entry field))
        [(''PMID'', ''PMID''), (''pmid'', ''PMID''), (''PMCID'', ''PMCID''), (''pmcid'', ''PMCID'')] of
        Some r \<Rightarrow> Some r
      | None \<Rightarrow> Option.bind (jstr entry [''note'']) (\<lambda>note.
          find_map (\<lambda>(needle, kind). map_option (\<lambda>v. (kind, v)) (nonempty
            (map_option (\<lambda>tail. takeWhile is_ascii_alphanumeric (str_trim_start tail)) (after_marker needle note))))
            [(''pmcid:'', ''PMCID''), (''pmid:'', ''PMID'')]))"

definition is_arxiv_id_byte :: "char \<Rightarrow> bool" where
  "is_arxiv_id_byte c \<longleftrightarrow> is_ascii_alphanumeric c \<or> c \<in> set ''./-''"

text \<open>One rung of the priority ladder: the first identifier that is present decides.\<close>

definition parse_csl_entry :: "fetch_env \<Rightarrow> json \<Rightarrow> string option \<Rightarrow> bib_result" where
  "parse_csl_entry fenv entry key =
     (case nonempty (map_option str_trim
          (Option.bind (opt_else (jget entry ''DOI'') (jget entry ''doi'')) as_str)) of
        Some raw \<Rightarrow> ref_result raw key
      | None \<Rightarrow>
     let is_arxiv = (case Option.bind (opt_else (jget entry ''archivePrefix'') (jget entry ''archive_prefix'')) as_str of
         Some s \<Rightarrow> eq_ignore_ascii_case s ''arxiv'' | None \<Rightarrow> False) in
     (case (if is_arxiv then nonempty (map_option str_trim (jstr entry [''eprint''])) else None) of
        Some raw \<Rightarrow> ref_result (with_arxiv_scheme raw) key
      | None \<Rightarrow>
     (case nonempty (map_option (takeWhile is_arxiv_id_byte)
          (Option.bind (jstr entry [''note'']) (after_marker ''arxiv:''))) of
        Some i \<Rightarrow> ref_result (''arxiv:'' @ i) key
      | None \<Rightarrow>
     (case csl_unsupported_identifier entry of
        Some (kind, v) \<Rightarrow> Inl (UnsupportedIdentifier kind v key)
      | None \<Rightarrow>
     (case jstr entry [''URL''] of
        Some u \<Rightarrow> if github_parse fenv u \<noteq> None then Inl (SoftwareUrl (str_trim u) key) else Inl (NoIdentifier key)
      | None \<Rightarrow> Inl (NoIdentifier key))))))"

definition parse_csl_json :: "fetch_env \<Rightarrow> string \<Rightarrow> bib_result list" where
  "parse_csl_json fenv text = (case from_json fenv text of
     Some (JArray es) \<Rightarrow> map (\<lambda>e. parse_csl_entry fenv e (csl_key e)) es
   | _ \<Rightarrow> [Inl (Decode ''csl-json'')])"

definition prefix_field :: "bib_entry \<Rightarrow> string option" where
  "prefix_field e = opt_else (be_get e ''archiveprefix'') (be_get e ''eprinttype'')"

definition arxiv_eligible :: "bib_entry \<Rightarrow> bool" where
  "arxiv_eligible e = (case prefix_field e of
     Some s \<Rightarrow> contains_str (to_ascii_lowercase s) ''arxiv'' | None \<Rightarrow> True)"

definition unsupported_identifier :: "bib_entry \<Rightarrow> (string \<times> string) option" where
  "unsupported_identifier e =
     (let field = (\<lambda>n. nonempty (map_option str_trim (be_get e n))) in
      case field ''pmid'' of
        Some v \<Rightarrow> Some (''PMID'', v)
      | None \<Rightarrow> (case field ''pmcid'' of
          Some v \<Rightarrow> Some (''PMCID'', v)
        | None \<Rightarrow>
            if (case prefix_field e of Some s \<Rightarrow> contains_str (to_ascii_lowercase s) ''pubmed'' | None \<Rightarrow> False)
            then map_option (\<lambda>v. (''PMID'', v)) (field ''eprint'') else None))"

definition parse_bibtex_entry :: "fetch_env \<Rightarrow> bib_entry \<Rightarrow> string option \<Rightarrow> bib_result" where
  "parse_bibtex_entry fenv e key =
     (case nonempty (map_option str_trim (be_doi e)) of
        Some raw \<Rightarrow> ref_result raw key
      | None \<Rightarrow>
     (case (if arxiv_eligible e then nonempty (map_option str_trim (be_eprint e)) else None) of
        Some raw \<Rightarrow> ref_result (with_arxiv_scheme raw) key
      | None \<Rightarrow>
     (case unsupported_identifier e of
        Some (kind, v) \<Rightarrow> Inl (UnsupportedIdentifier kind v key)
      | None \<Rightarrow>
     (case map_option str_trim (be_get e ''url'') of
        Some u \<Rightarrow> if github_parse fenv u \<noteq> None then Inl (SoftwareUrl u key) else Inl (NoIdentifier key)
      | None \<Rightarrow> Inl (NoIdentifier key)))))"

definition parse_bibtex :: "bib_env \<Rightarrow> string \<Rightarrow> bib_result list" where
  "parse_bibtex benv text = (case be_parse benv text of
     None \<Rightarrow> [Inl (Decode ''bibtex'')]
   | Some es \<Rightarrow> map (\<lambda>e. parse_bibtex_entry (be_fetch benv) e (Some (be_key e))) es)"

definition parse_input :: "bib_env \<Rightarrow> string \<Rightarrow> bib_format \<Rightarrow> string option \<Rightarrow> bib_result list" where
  "parse_input benv text fmt path =
     (case (if fmt = FormatAuto then detect_format path text else fmt) of
        FormatCslJson \<Rightarrow> parse_csl_json (be_fetch benv) text
      | FormatBibtex \<Rightarrow> parse_bibtex benv text
      | _ \<Rightarrow> parse_plain_refs text)"

text \<open>The full stop that ends a sentence is taken into the identifier of a note.\<close>

lemma note_identifier_keeps_the_full_stop:
  "parse_csl_entry fenv (JObject [(''note'', JString ''arXiv:2204.12345. Preprint.'')]) None
     = Inl (UnparsedRef ''arxiv:2204.12345.'' None InvalidArxivShape)"
  by code_simp

subsection \<open>Reference lists\<close>

definition plain_byte :: "char \<Rightarrow> bool" where
  "plain_byte c \<longleftrightarrow> is_doi_suffix_char c"

lemma plain_byte_trims: "plain_byte c \<Longrightarrow> code c < 128 \<and> \<not> is_whitespace [c] \<and> c \<noteq> CHR 0x0A \<and> c \<noteq> CHR 0x0D \<and> c \<noteq> CHR ''#''"
  by (auto simp: plain_byte_def is_doi_suffix_char_def is_whitespace_def ascii_class_defs)

lemma ref_text_plain: "ref_wf r \<Longrightarrow> as_input_str r \<noteq> [] \<and> list_all plain_byte (as_input_str r)"
proof (induction r rule: ref_wf.induct)
  case (1 s)
  then obtain a b where "doi_grammar s a b" by (auto simp: validate_doi_grammar)
  then show ?case
    by (auto simp: doi_grammar_def list_all_iff plain_byte_def is_doi_suffix_char_def ascii_class_defs)
next
  case (2 s)
  then have "s \<noteq> []" "list_all is_arxiv_char s" using validate_arxiv_chars by simp_all
  then show ?case by (auto simp: list_all_iff is_arxiv_char_def plain_byte_def is_doi_suffix_char_def)
qed

text \<open>A list of lines, each ended by a line feed.\<close>

definition unlines :: "string list \<Rightarrow> string" where
  "unlines ls = concat (map (\<lambda>l. l @ [CHR 0x0A]) ls)"

lemma split_unlines: "list_all (\<lambda>l. CHR 0x0A \<notin> set l) ls \<Longrightarrow> split_char CHR 0x0A (unlines ls) = ls @ [[]]"
proof (induction ls)
  case Nil
  then show ?case by (simp add: unlines_def split_char_def)
next
  case (Cons l ls)
  then show ?case
    using split_char_append [of "CHR 0x0A" l "unlines ls"] by (simp add: unlines_def)
qed

lemma lines_unlines:
  assumes "list_all (\<lambda>l. list_all plain_byte l) ls"
  shows "str_lines (unlines ls) = ls"
proof -
  have "CHR 0x0A \<notin> set l \<and> strip_cr l = l" if "l \<in> set ls" for l
    using assms that plain_byte_trims by (auto simp: list_all_iff strip_cr_def)
  then have "split_char CHR 0x0A (unlines ls) = ls @ [[]]" "map strip_cr ls = ls"
    using split_unlines [of ls] by (auto simp: list_all_iff intro: map_idI)
  then show ?thesis by (simp add: str_lines_def)
qed

text \<open>A list of references reads back.  Written one per line, every list of parsed references is read
  again as the same references in the same order, none lost, merged or refused, and its format is
  recognised whatever name without a known extension the file has.\<close>

theorem plain_refs_roundtrip:
  assumes "list_all (\<lambda>r. \<exists>s. ref_parse s = Inr r) rs"
    and "case path of None \<Rightarrow> True
      | Some p \<Rightarrow> to_ascii_lowercase (or_str (path_extension p) []) \<notin> {''bib'', ''biblatex'', ''json'', ''csl''}"
  shows "parse_input benv (unlines (map as_input_str rs)) FormatAuto path
     = map (\<lambda>r. Inr \<lparr> pe_ref = r, pe_key = None \<rparr>) rs"
proof -
  let ?ls = "map as_input_str rs"
  have wf: "ref_wf r" if "r \<in> set rs" for r
    using assms(1) that ref_parse_wf by (auto simp: list_all_iff)
  then have plain: "list_all (\<lambda>l. list_all plain_byte l) ?ls"
    using ref_text_plain by (auto simp: list_all_iff)
  have line: "str_trim l = l \<and> l \<noteq> [] \<and> hd l \<noteq> CHR ''#'' \<and> plain_byte (hd l)" if "l \<in> set ?ls" for l
  proof -
    have l: "l \<noteq> []" "list_all plain_byte l" using that wf ref_text_plain by auto
    then have "list_all (\<lambda>c. code c < 128 \<and> \<not> is_whitespace [c]) l" "plain_byte (hd l)"
      using plain_byte_trims by (auto simp: list_all_iff)
    with l(1) show ?thesis using trim_ascii_word plain_byte_trims by blast
  qed
  have lines: "ref_lines (unlines ?ls) = ?ls"
    unfolding ref_lines_def lines_unlines [OF plain] using line
    by (subst map_idI) (auto intro: filter_True)
  have "plain_byte (hd l) \<Longrightarrow> hd l \<noteq> CHR ''@'' \<and> hd l \<notin> set ''[{''" for l
    by (auto simp: plain_byte_def is_doi_suffix_char_def ascii_class_defs)
  then have "detect_format path (unlines ?ls) = FormatRefs"
    using assms(2) line unfolding detect_format_def lines
    by (cases path; cases rs) (auto simp: Let_def)
  moreover have "parse_plain_refs (unlines ?ls) = map (\<lambda>r. Inr \<lparr> pe_ref = r, pe_key = None \<rparr>) rs"
    unfolding parse_plain_refs_def lines using wf by (auto simp: ref_result_def wf_ref_parse)
  ultimately show ?thesis by (simp add: parse_input_def)
qed

theorem plain_refs_roundtrip_witness:
  "parse_input \<lparr> be_fetch = demo_fetch_env, be_parse = (\<lambda>_. None) \<rparr>
       (unlines [''10.1234/ab'', ''2401.12345'']) FormatAuto (Some ''refs.txt'')
     = [Inr \<lparr> pe_ref = RefDoi (Doi ''10.1234/ab''), pe_key = None \<rparr>,
        Inr \<lparr> pe_ref = RefArxiv (ArxivId ''2401.12345''), pe_key = None \<rparr>]"
proof -
  have "ref_parse ''10.1234/ab'' = Inr (RefDoi (Doi ''10.1234/ab''))"
    "ref_parse ''2401.12345'' = Inr (RefArxiv (ArxivId ''2401.12345''))"
    by code_simp+
  then have "list_all (\<lambda>r. \<exists>s. ref_parse s = Inr r) [RefDoi (Doi ''10.1234/ab''), RefArxiv (ArxivId ''2401.12345'')]"
    by auto
  moreover have "to_ascii_lowercase (or_str (path_extension ''refs.txt'') []) \<notin> {''bib'', ''biblatex'', ''json'', ''csl''}"
    by code_simp
  ultimately show ?thesis
    using plain_refs_roundtrip [of "[RefDoi (Doi ''10.1234/ab''), RefArxiv (ArxivId ''2401.12345'')]" "Some ''refs.txt''"]
    by simp
qed

subsection \<open>The two adapters\<close>

text \<open>The CSL-JSON form of a BibTeX entry, with the fields the adapters look at.\<close>

definition json_field :: "string \<Rightarrow> string option \<Rightarrow> (string \<times> json) list" where
  "json_field k v = (case v of Some s \<Rightarrow> [(k, JString s)] | None \<Rightarrow> [])"

definition csl_of :: "bib_entry \<Rightarrow> json" where
  "csl_of e = JObject ((''id'', JString (be_key e)) # json_field ''DOI'' (be_doi e)
     @ json_field ''archivePrefix'' (prefix_field e) @ json_field ''eprint'' (be_eprint e)
     @ json_field ''PMID'' (be_get e ''pmid'') @ json_field ''PMCID'' (be_get e ''pmcid'')
     @ json_field ''URL'' (be_get e ''url''))"

lemma map_of_json_field [simp]:
  "map_of (json_field k v @ t) k' = (if k' = k \<and> v \<noteq> None then map_option JString v else map_of t k')"
  "map_of (json_field k v) k' = (if k' = k then map_option JString v else None)"
  by (simp_all add: json_field_def split: option.split)

lemma jget_csl_of:
  "jget (csl_of e) ''DOI'' = map_option JString (be_doi e)" "jget (csl_of e) ''doi'' = None"
  "jget (csl_of e) ''archivePrefix'' = map_option JString (prefix_field e)" "jget (csl_of e) ''archive_prefix'' = None"
  "jget (csl_of e) ''eprint'' = map_option JString (be_eprint e)" "jget (csl_of e) ''note'' = None"
  "jget (csl_of e) ''PMID'' = map_option JString (be_get e ''pmid'')" "jget (csl_of e) ''pmid'' = None"
  "jget (csl_of e) ''PMCID'' = map_option JString (be_get e ''pmcid'')" "jget (csl_of e) ''pmcid'' = None"
  "jget (csl_of e) ''URL'' = map_option JString (be_get e ''url'')"
  by (auto simp: csl_of_def jget_def json_field_def split: option.split)

lemma map_option_JString: "Option.bind (map_option JString v) as_str = v"
  by (cases v) (simp_all add: as_str_def)

lemma jstr_single: "jstr j [k] = Option.bind (jget j k) as_str"
  by (simp add: jstr_def split: option.split)

lemma opt_else_None [simp]: "opt_else v None = v" "opt_else None v = v"
  by (simp_all add: opt_else_def split: option.split)

lemma csl_direct_csl_of:
  "csl_direct (csl_of e) ''PMID'' = nonempty (map_option str_trim (be_get e ''pmid''))"
  "csl_direct (csl_of e) ''PMCID'' = nonempty (map_option str_trim (be_get e ''pmcid''))"
  "csl_direct (csl_of e) ''pmid'' = None" "csl_direct (csl_of e) ''pmcid'' = None"
  by (simp_all add: csl_direct_def jget_csl_of nonempty_def split: option.split)

text \<open>Trimming twice is trimming once: the characters that are left are the characters of the result.\<close>

definition char_shaped :: "string list \<Rightarrow> bool" where
  "char_shaped xs \<longleftrightarrow> list_all (\<lambda>x. x \<noteq> [] \<and> list_all is_cont_byte (tl x)) xs
     \<and> list_all (\<lambda>x. \<not> is_cont_byte (hd x)) (tl xs)"

lemma utf8_chars_shape: "char_shaped (utf8_chars s)"
proof (induction s rule: utf8_chars.induct)
  case (2 b bs)
  have conts: "list_all is_cont_byte (takeWhile is_cont_byte bs)"
    by (auto simp: list_all_iff dest: set_takeWhileD)
  show ?case
  proof (cases "dropWhile is_cont_byte bs")
    case Nil
    from conts show ?thesis unfolding utf8_chars.simps Nil by (simp add: char_shaped_def)
  next
    case (Cons d ds)
    then have "\<not> is_cont_byte d" using hd_dropWhile [of is_cont_byte bs] by simp
    with conts 2 Cons show ?thesis by (simp add: char_shaped_def)
  qed
qed (simp add: char_shaped_def)

lemma utf8_chars_concat: "char_shaped xs \<Longrightarrow> utf8_chars (concat xs) = xs"
proof (induction xs)
  case (Cons x xs)
  then obtain b cs where x: "x = b # cs" "list_all is_cont_byte cs"
    by (cases x) (auto simp: char_shaped_def)
  have rest: "char_shaped xs"
    using Cons.prems by (cases xs) (auto simp: char_shaped_def)
  have all: "\<forall>c\<in>set cs. is_cont_byte c" using x(2) by (simp add: list_all_iff)
  have "takeWhile is_cont_byte (cs @ concat xs) = cs \<and> dropWhile is_cont_byte (cs @ concat xs) = concat xs"
  proof (cases "concat xs")
    case Nil
    from all show ?thesis
      unfolding Nil append_Nil2 by (simp add: takeWhile_eq_all_conv dropWhile_eq_Nil_conv)
  next
    case (Cons c r)
    then have "\<not> is_cont_byte c"
      using \<open>char_shaped (x # xs)\<close> by (cases xs) (auto simp: char_shaped_def neq_Nil_conv)
    then show ?thesis unfolding Cons using all by (simp add: takeWhile_append2 dropWhile_append2)
  qed
  with x Cons.IH [OF rest] show ?case by simp
qed simp

lemma tl_take_drop: "set (tl (take m (drop n xs))) \<subseteq> set (tl xs)"
proof -
  have "tl (take m (drop n xs)) = take (m - 1) (drop n (tl xs))"
    by (simp add: tl_take tl_drop)
  then show ?thesis by (metis order_trans set_drop_subset set_take_subset)
qed

lemma char_shaped_segment: "char_shaped xs \<Longrightarrow> char_shaped (take m (drop n xs))"
  using tl_take_drop [of m n xs] set_take_subset [of m "drop n xs"] set_drop_subset [of n xs]
  by (auto simp: char_shaped_def list_all_iff)

lemma str_trim_idem [simp]: "str_trim (str_trim s) = str_trim s"
proof -
  define seg where "seg = rev (dropWhile is_whitespace (rev (dropWhile is_whitespace (utf8_chars s))))"
  have prefix: "seg = take (length seg) (dropWhile is_whitespace (utf8_chars s))"
    by (metis append_eq_conv_conj rev_append rev_rev_ident seg_def takeWhile_dropWhile_id)
  from prefix obtain m n where "seg = take m (drop n (utf8_chars s))"
    by (metis dropWhile_eq_drop)
  then have chars: "utf8_chars (concat seg) = seg"
    using char_shaped_segment [OF utf8_chars_shape] utf8_chars_concat by metis
  have "seg = [] \<or> \<not> is_whitespace (last seg)"
    by (cases "dropWhile is_whitespace (rev (dropWhile is_whitespace (utf8_chars s)))")
      (auto simp: seg_def last_rev dest: dropWhile_eq_Cons_conv [THEN iffD1])
  moreover have "seg = [] \<or> \<not> is_whitespace (hd seg)"
  proof (cases "seg = []")
    case False
    then have "hd seg = hd (dropWhile is_whitespace (utf8_chars s))" "dropWhile is_whitespace (utf8_chars s) \<noteq> []"
      using prefix by (metis hd_take length_greater_0_conv, metis take_Nil)
    then show ?thesis using hd_dropWhile by metis
  qed simp
  ultimately have "rev (dropWhile is_whitespace (rev (dropWhile is_whitespace seg))) = seg"
    by (auto simp: dropWhile_eq_self_iff [THEN iffD2] hd_rev)
  with chars have "str_trim (concat seg) = concat seg" by (simp add: str_trim_def)
  then show ?thesis by (simp add: str_trim_def seg_def)
qed

lemma github_parse_trim [simp]: "github_parse fenv (str_trim u) = github_parse fenv u"
  by (simp add: github_parse_def)

text \<open>The two structured adapters agree.  For an entry whose \<^verbatim>\<open>eprint\<close>, if it has one, is marked as an arXiv
  identifier, the CSL-JSON form and the BibTeX form give the same answer: the same reference, the
  same unusable identifier, the same software URL, or the same parse error, under the same key.\<close>

theorem adapters_agree:
  assumes "be_eprint e \<noteq> None \<or> be_get e ''eprint'' \<noteq> None \<Longrightarrow>
      \<exists>s. prefix_field e = Some s \<and> eq_ignore_ascii_case s ''arxiv''"
  shows "parse_csl_entry fenv (csl_of e) key = parse_bibtex_entry fenv e key"
proof -
  let ?is_arxiv = "case Option.bind (opt_else (jget (csl_of e) ''archivePrefix'') (jget (csl_of e) ''archive_prefix'')) as_str of
      Some s \<Rightarrow> eq_ignore_ascii_case s ''arxiv'' | None \<Rightarrow> False"
  have "(if ?is_arxiv then nonempty (map_option str_trim (jstr (csl_of e) [''eprint''])) else None)
      = (if arxiv_eligible e then nonempty (map_option str_trim (be_eprint e)) else None)"
  proof (cases "be_eprint e")
    case None
    then show ?thesis by (simp add: jstr_single jget_csl_of map_option_JString nonempty_def)
  next
    case (Some x)
    then obtain s where s: "prefix_field e = Some s" "eq_ignore_ascii_case s ''arxiv''" using assms by blast
    then have "contains_str (to_ascii_lowercase s) ''arxiv''"
      by (simp add: eq_ignore_ascii_case_def) code_simp
    with s Some show ?thesis
      by (simp add: jstr_single jget_csl_of map_option_JString arxiv_eligible_def as_str_def)
  qed
  moreover have "csl_unsupported_identifier (csl_of e) = unsupported_identifier e"
  proof -
    have "(if (case prefix_field e of Some s \<Rightarrow> contains_str (to_ascii_lowercase s) ''pubmed'' | None \<Rightarrow> False)
        then map_option (\<lambda>v. (''PMID'', v)) (nonempty (map_option str_trim (be_get e ''eprint''))) else None) = None"
    proof (cases "be_get e ''eprint''")
      case (Some x)
      then obtain s where s: "prefix_field e = Some s" "to_ascii_lowercase s = to_ascii_lowercase ''arxiv''"
        using assms by (auto simp: eq_ignore_ascii_case_def)
      have "\<not> contains_str (to_ascii_lowercase ''arxiv'') ''pubmed''" by code_simp
      with s show ?thesis by simp
    qed (simp add: nonempty_def)
    then show ?thesis
      by (auto simp: csl_unsupported_identifier_def unsupported_identifier_def Let_def csl_direct_csl_of jstr_single
          jget_csl_of split: option.split)
  qed
  moreover have "Option.bind (opt_else (jget (csl_of e) ''DOI'') (jget (csl_of e) ''doi'')) as_str = be_doi e"
    "nonempty (map_option (takeWhile is_arxiv_id_byte)
       (Option.bind (jstr (csl_of e) [''note'']) (after_marker ''arxiv:''))) = None"
    "jstr (csl_of e) [''URL''] = be_get e ''url''"
    by (simp_all add: jstr_single jget_csl_of map_option_JString nonempty_def)
  ultimately show ?thesis
    unfolding parse_csl_entry_def parse_bibtex_entry_def Let_def
    by (cases "be_get e ''url''") (simp_all only: option.case option.map github_parse_trim)
qed

definition demo_bib :: bib_entry where
  "demo_bib = \<lparr> be_key = ''Doe2024'', be_doi = None, be_eprint = Some ''2401.12345'',
     be_get = [''archiveprefix'' \<mapsto> ''arXiv'', ''eprint'' \<mapsto> ''2401.12345''] \<rparr>"

theorem adapters_agree_witness:
  "parse_csl_entry demo_fetch_env (csl_of demo_bib) (Some ''Doe2024'')
     = Inr \<lparr> pe_ref = RefArxiv (ArxivId ''2401.12345''), pe_key = Some ''Doe2024'' \<rparr>"
proof -
  have "prefix_field demo_bib = Some ''arXiv''" "eq_ignore_ascii_case ''arXiv'' ''arxiv''" by code_simp+
  then have "parse_csl_entry demo_fetch_env (csl_of demo_bib) (Some ''Doe2024'')
      = parse_bibtex_entry demo_fetch_env demo_bib (Some ''Doe2024'')"
    by (intro adapters_agree) blast
  also have "\<dots> = Inr \<lparr> pe_ref = RefArxiv (ArxivId ''2401.12345''), pe_key = Some ''Doe2024'' \<rparr>"
    by code_simp
  finally show ?thesis .
qed

end
