(* ===== verification/Pubmed.thy ===== *)
theory Pubmed
  imports Bibliography
begin

text \<open>
  PubMed identifiers (\<^verbatim>\<open>crates/doiget-core/src/pubmed.rs\<close>): their spellings, the lookup of the DOI that
  PubMed lists for one, and the resolution of a parsed bibliography.
\<close>

definition NCBI :: string where "NCBI = ''ncbi''"
definition NCBI_DEFAULT :: string where
  "NCBI_DEFAULT = ''https://eutils.ncbi.nlm.nih.gov/entrez/eutils/''"

datatype digits = Digits string

fun digits_as_str :: "digits \<Rightarrow> string" where
  "digits_as_str (Digits s) = s"

datatype pubmed_id = Pmid digits | Pmcid digits

definition digits_of :: "string \<Rightarrow> digits option" where
  "digits_of s = (if s \<noteq> [] \<and> length s \<le> 12 \<and> list_all is_ascii_digit s then Some (Digits s) else None)"

text \<open>\<^verbatim>\<open>s.strip_prefix(p).unwrap_or(s)\<close>.\<close>

definition without_prefix :: "string \<Rightarrow> string \<Rightarrow> string" where
  "without_prefix p s = (case strip_prefix p s of Some r \<Rightarrow> r | None \<Rightarrow> s)"

definition pmc_segment :: "string \<Rightarrow> pubmed_id option" where
  "pmc_segment i = map_option Pmcid (Option.bind (strip_prefix ''pmc'' (to_ascii_lowercase i)) digits_of)"

definition pubmed_url :: "fetch_env \<Rightarrow> string \<Rightarrow> pubmed_id option" where
  "pubmed_url fenv s = (case url_parse fenv s of
     None \<Rightarrow> None
   | Some u \<Rightarrow> (case (path_segments fenv u, host_str u) of
       (Some segs, Some h) \<Rightarrow>
         (let segs = filter (\<lambda>p. p \<noteq> []) segs in
          if h = ''pubmed.ncbi.nlm.nih.gov'' then (case segs of [i] \<Rightarrow> map_option Pmid (digits_of i) | _ \<Rightarrow> None)
          else if h \<in> {''www.ncbi.nlm.nih.gov'', ''ncbi.nlm.nih.gov''} then
            (if length segs = 3 \<and> take 2 segs = [''pmc'', ''articles''] then pmc_segment (last segs) else None)
          else if h = ''pmc.ncbi.nlm.nih.gov'' then
            (if length segs = 2 \<and> hd segs = ''articles'' then pmc_segment (last segs) else None)
          else None)
     | _ \<Rightarrow> None))"

definition pubmed_parse :: "fetch_env \<Rightarrow> string \<Rightarrow> pubmed_id option" where
  "pubmed_parse fenv input =
     (let s = str_trim input; lower = to_ascii_lowercase s in
      case strip_prefix ''pmid:'' lower of
        Some rest \<Rightarrow> map_option Pmid (digits_of (str_trim rest))
      | None \<Rightarrow> (case strip_prefix ''pmcid:'' lower of
          Some rest \<Rightarrow> map_option Pmcid (digits_of (without_prefix ''pmc'' (str_trim rest)))
        | None \<Rightarrow> (case strip_prefix ''pmc'' lower of
            Some rest \<Rightarrow> map_option Pmcid (digits_of rest)
          | None \<Rightarrow> pubmed_url fenv s)))"

definition from_kind :: "string \<Rightarrow> string \<Rightarrow> pubmed_id option" where
  "from_kind kind v =
     (if kind = ''PMID'' then map_option Pmid (digits_of (str_trim v))
      else if kind = ''PMCID'' then map_option Pmcid (digits_of (without_prefix ''pmc'' (to_ascii_lowercase (str_trim v))))
      else None)"

fun pubmed_display :: "pubmed_id \<Rightarrow> string" where
  "pubmed_display (Pmid i) = ''PMID '' @ digits_as_str i"
| "pubmed_display (Pmcid i) = ''PMCID PMC'' @ digits_as_str i"

fun db_and_id :: "pubmed_id \<Rightarrow> string \<times> string" where
  "db_and_id (Pmid i) = (''pubmed'', digits_as_str i)"
| "db_and_id (Pmcid i) = (''pmc'', digits_as_str i)"

subsection \<open>The lookup\<close>

datatype lookup = FoundDoi doi | NoDoi | NoRecord

fun lookup_reason :: "lookup \<Rightarrow> pubmed_id \<Rightarrow> string option" where
  "lookup_reason (FoundDoi _) i = None"
| "lookup_reason NoDoi i = Some (''PubMed's record for '' @ pubmed_display i
     @ '' lists no DOI, and doiget reaches PubMed records through their DOI'')"
| "lookup_reason NoRecord i = Some (''PubMed has no record for '' @ pubmed_display i)"

definition classify :: "json \<Rightarrow> string \<Rightarrow> lookup" where
  "classify v uid = (case jpath v [''result'', uid] of
     None \<Rightarrow> NoRecord
   | Some r \<Rightarrow>
       if jget r ''error'' \<noteq> None then NoRecord
       else (case Option.bind (Option.bind (jarray r [''articleids''])
                (find (\<lambda>i. jstr i [''idtype''] = Some ''doi''))) (\<lambda>i. jstr i [''value'']) of
           Some d \<Rightarrow> (case doi_parse (str_trim d) of Inr x \<Rightarrow> FoundDoi x | Inl _ \<Rightarrow> NoDoi)
         | None \<Rightarrow> NoDoi))"

definition pubmed_row :: "log_event \<Rightarrow> log_result \<Rightarrow> string option \<Rightarrow> nat option \<Rightarrow> string option \<Rightarrow> row_input" where
  "pubmed_row ev res about sz cd = \<lparr> i_event = ev, i_result = res, i_capability = log_capability.Metadata,
     i_ref = about, i_source = Some NCBI, i_error_code = cd, i_size_bytes = sz, i_license = None,
     i_store_path = None, i_canonical_digest = None \<rparr>"

definition esummary_url :: "orch_env \<Rightarrow> pubmed_id \<Rightarrow> url \<Rightarrow> url" where
  "esummary_url env i u = append_pairs
     ([(''db'', fst (db_and_id i)), (''id'', snd (db_and_id i)), (''retmode'', ''json''), (''tool'', ''doiget'')]
      @ (case configured_contact_email env of Some m \<Rightarrow> [(''email'', m)] | None \<Rightarrow> [])) u"

definition pubmed_lookup :: "orch_env \<Rightarrow> pubmed_id \<Rightarrow> lookup act" where
  "pubmed_lookup env i =
     and_then (gh_base env ''DOIGET_NCBI_BASE'' NCBI_DEFAULT) (\<lambda>b.
     and_then (ok_or (SourceSchema ''building the E-utilities URL'') (url_join (fe env) b ''esummary.fcgi'')) (\<lambda>u.
     and_then (acquire NCBI) (\<lambda>_.
     and_then (http_act (fe env) NCBI (esummary_url env i u) []) (\<lambda>r. case r of
         Inl e \<Rightarrow> and_then (log_row_act (fe env) (pubmed_row Resolve LogErr (Some (pubmed_display i)) None
             (Some (code_as_wire (fetch_error_code (FEHttp e)))))) (\<lambda>_. throw (FEHttp e))
       | Inr (body, _) \<Rightarrow>
           and_then (ok_or (SourceSchema ''E-utilities returned non-JSON'') (from_json (fe env) body)) (\<lambda>v.
           let found = classify v (snd (db_and_id i)) in
           and_then (log_row_act (fe env) (pubmed_row Resolve LogOk (Some (pubmed_display i)) (Some (length body))
             (if found = NoRecord then Some ''NOT_FOUND'' else None))) (\<lambda>_. return_ok found))))))"

subsection \<open>Resolving a bibliography\<close>

record unresolved =
  un_id :: pubmed_id
  un_key :: "string option"
  un_reason :: string
  un_code :: error_code

datatype resolved = Entry bib_result | Unresolved unresolved

text \<open>The entries that are looked up: the identifier and the key.\<close>

definition pubmed_entry :: "bib_result \<Rightarrow> (pubmed_id \<times> string option) option" where
  "pubmed_entry e = (case e of
     Inl (UnsupportedIdentifier kind v key) \<Rightarrow> map_option (\<lambda>i. (i, key)) (from_kind kind v)
   | _ \<Rightarrow> None)"

text \<open>The answer of a lookup as an entry; a log failure is none.\<close>

definition resolved_as :: "orch_env \<Rightarrow> pubmed_id \<Rightarrow> string option \<Rightarrow> fetch_error + lookup \<Rightarrow> resolved act" where
  "resolved_as env i key r = (case r of
     Inr (FoundDoi d) \<Rightarrow> return_ok (Entry (Inr \<lparr> pe_ref = RefDoi d, pe_key = key \<rparr>))
   | Inr found \<Rightarrow> return_ok (Unresolved \<lparr> un_id = i, un_key = key, un_reason = or_str (lookup_reason found i) [],
       un_code = (if found = NoRecord then NotFound else NotImplemented) \<rparr>)
   | Inl e \<Rightarrow> (case e of
       FELog _ \<Rightarrow> throw e
     | _ \<Rightarrow> return_ok (Unresolved \<lparr> un_id = i, un_key = key,
         un_reason = ''looking up '' @ pubmed_display i @ '' at NCBI failed: '' @ error_text env e,
         un_code = fetch_error_code e \<rparr>)))"

fun resolve_entries :: "orch_env \<Rightarrow> bib_result list \<Rightarrow> resolved list act" where
  "resolve_entries env [] = return_ok []"
| "resolve_entries env (e # es) = (case pubmed_entry e of
     None \<Rightarrow> and_then (resolve_entries env es) (\<lambda>rs. return_ok (Entry e # rs))
   | Some (i, key) \<Rightarrow>
       and_then (catch (pubmed_lookup env i) (resolved_as env i key)) (\<lambda>x.
       and_then (resolve_entries env es) (\<lambda>rs. return_ok (x # rs))))"

definition bookend :: "orch_env \<Rightarrow> log_event \<Rightarrow> log_result \<Rightarrow> unit act" where
  "bookend env ev res = log_row_act (fe env) (pubmed_row ev res None None None)"

text \<open>A call between its two session rows; the closing row reports how it went.\<close>

definition in_session :: "orch_env \<Rightarrow> 'a act \<Rightarrow> 'a act" where
  "in_session env m =
     and_then (bookend env SessionStart LogOk) (\<lambda>_.
     catch m (\<lambda>r. and_then (bookend env SessionEnd (if is_ok r then LogOk else LogErr)) (\<lambda>_.
       case r of Inr a \<Rightarrow> return_ok a | Inl e \<Rightarrow> throw e)))"

definition lookup_in_session :: "orch_env \<Rightarrow> pubmed_id \<Rightarrow> lookup act" where
  "lookup_in_session env i = in_session env (pubmed_lookup env i)"

definition resolve_entries_in_session :: "orch_env \<Rightarrow> bib_result list \<Rightarrow> resolved list act" where
  "resolve_entries_in_session env es =
     (if \<not> list_ex (\<lambda>e. pubmed_entry e \<noteq> None) es then return_ok (map Entry es)
      else in_session env (resolve_entries env es))"

subsection \<open>What resolution promises\<close>

text \<open>The outside contact of a lookup.\<close>

definition ncbi_effect :: "effect \<Rightarrow> bool" where
  "ncbi_effect e = (case e of
     Acquire n \<Rightarrow> n = NCBI
   | Pace _ \<Rightarrow> False
   | Request n u hs pdf \<Rightarrow> n = NCBI \<and> \<not> pdf \<and> hs = []
   | Append i _ \<Rightarrow> i_source i = Some NCBI)"

lemma performs_gh_base [performs_intros]: "performs P (gh_base env key dflt)"
  unfolding gh_base_def Let_def by (intro performs_intros)

lemma performs_pubmed_lookup: "performs ncbi_effect (pubmed_lookup env i)"
  unfolding pubmed_lookup_def Let_def
  by (intro performs_intros) (simp_all add: ncbi_effect_def pubmed_row_def)

lemma performs_resolved_as: "performs P (resolved_as env i key r)"
  unfolding resolved_as_def by (auto split: sum.split lookup.split fetch_error.split)

lemma performs_resolve_entries: "performs ncbi_effect (resolve_entries env es)"
proof (induction es)
  case (Cons e es)
  then show ?case
    by (cases "pubmed_entry e")
      (auto intro!: performs_and_then performs_catch performs_pubmed_lookup performs_resolved_as split: prod.split)
qed simp

text \<open>What may stand for an entry in the answer.\<close>

definition answers :: "bib_result \<Rightarrow> resolved \<Rightarrow> bool" where
  "answers e x = (case pubmed_entry e of
     None \<Rightarrow> x = Entry e
   | Some (i, key) \<Rightarrow>
       (\<exists>d. x = Entry (Inr \<lparr> pe_ref = RefDoi d, pe_key = key \<rparr>))
       \<or> (\<exists>u. x = Unresolved u \<and> un_id u = i \<and> un_key u = key))"

lemma resolved_as_answers:
  "pubmed_entry e = Some (i, key) \<Longrightarrow> resolved_as env i key r w = (w', Ok x) \<Longrightarrow> answers e x"
  by (auto simp: resolved_as_def answers_def return_ok_def throw_def
      split: sum.splits lookup.splits fetch_error.splits)

lemma catch_Ok: "catch m f w = (w', Ok b) \<Longrightarrow> \<exists>v r. f r v = (w', Ok b)"
  by (auto simp: catch_def split: prod.splits res.splits)

lemma resolve_entries_answers: "resolve_entries env es w = (w', Ok out) \<Longrightarrow> list_all2 answers es out"
proof (induction es arbitrary: w w' out)
  case Nil
  then show ?case by (simp add: return_ok_Ok)
next
  case (Cons e es)
  show ?case
  proof (cases "pubmed_entry e")
    case None
    with Cons show ?thesis by (auto simp: act_Ok_simps answers_def)
  next
    case (Some ik)
    then obtain i key where ik: "pubmed_entry e = Some (i, key)" by (cases ik) simp
    with Cons show ?thesis
      by (auto simp: act_Ok_simps dest!: catch_Ok resolved_as_answers [OF ik])
  qed
qed

text \<open>How a resolution can end: never in a panic, and in an error only when the log fails.\<close>

lemma fails_lookup: "fails_with any_error (pubmed_lookup env i)"
  unfolding pubmed_lookup_def gh_base_def Let_def
  by (intro fails_with_bind) (auto intro!: fails_with_bind split: sum.split prod.split)

lemma fails_resolved_as: "fails_with log_failed (resolved_as env i key r)"
  unfolding resolved_as_def by (auto split: sum.split lookup.split fetch_error.split)

lemma fails_resolve_entries: "fails_with log_failed (resolve_entries env es)"
proof (induction es)
  case (Cons e es)
  have "fails_with log_failed (catch (pubmed_lookup env i) (resolved_as env i key))" for i key
    by (rule fails_with_catch [OF fails_lookup]) (rule fails_resolved_as)+
  with Cons show ?case
    by (cases "pubmed_entry e") (auto intro!: fails_with_bind split: prod.split)
qed simp

lemma bookend_facts:
  "performs ncbi_effect (bookend env ev res)" "fails_with log_failed (bookend env ev res)"
  by (auto simp: bookend_def ncbi_effect_def pubmed_row_def intro!: performs_intros)

lemma in_session_performs:
  "performs ncbi_effect m \<Longrightarrow> performs ncbi_effect (in_session env m)"
  unfolding in_session_def by (intro performs_intros bookend_facts)

lemma in_session_fails:
  assumes "fails_with log_failed m"
  shows "fails_with log_failed (in_session env m)"
  unfolding in_session_def
proof (intro fails_with_bind fails_with_catch [OF assms] bookend_facts)
  fix e assume "log_failed e"
  then show "fails_with log_failed (case Inl e of Inr a \<Rightarrow> return_ok a | Inl e \<Rightarrow> throw e)"
    by (auto simp: log_failed_def)
qed simp

lemma in_session_Ok: "in_session env m w = (w', Ok a) \<Longrightarrow> \<exists>v v'. m v = (v', Ok a)"
  by (auto simp: in_session_def and_then_def catch_def return_ok_def throw_def
      split: prod.splits res.splits)

text \<open>Resolving the PubMed identifiers of a bibliography changes nothing else.  Whatever NCBI answers, a
  successful resolution gives one answer per entry in order: an entry without a PubMed identifier
  comes back as it was, and one with an identifier comes back as a DOI under its own key, or as
  unresolved under its own identifier and key.  Nothing but NCBI is contacted, no file is touched, it
  fails only when the log does, and a bibliography without PubMed identifiers causes no effect at all.\<close>

theorem bibliography_is_resolved_in_place:
  "case resolve_entries_in_session env es w of (w', r) \<Rightarrow>
     adds ncbi_effect w w'
     \<and> (case r of Ok out \<Rightarrow> list_all2 answers es out | Err e \<Rightarrow> log_failed e | Panic \<Rightarrow> False)
     \<and> (list_ex (\<lambda>e. pubmed_entry e \<noteq> None) es \<or> (w' = w \<and> r = Ok (map Entry es)))"
proof (cases "list_ex (\<lambda>e. pubmed_entry e \<noteq> None) es")
  case True
  obtain w' r where run: "in_session env (resolve_entries env es) w = (w', r)"
    by (cases "in_session env (resolve_entries env es) w")
  have "adds ncbi_effect w w'"
    using performsD [OF in_session_performs [OF performs_resolve_entries] run] .
  moreover have "case r of Ok _ \<Rightarrow> True | Err e \<Rightarrow> log_failed e | Panic \<Rightarrow> False"
    using fails_withD [OF in_session_fails [OF fails_resolve_entries] run] .
  moreover have "list_all2 answers es out" if "r = Ok out" for out
    using in_session_Ok run that resolve_entries_answers by metis
  ultimately show ?thesis
    using True run by (cases r) (simp_all add: resolve_entries_in_session_def)
next
  case False
  then have "list_all2 answers es (map Entry es)"
    by (induction es) (auto simp: answers_def split: option.split)
  with False show ?thesis by (simp add: resolve_entries_in_session_def return_ok_def)
qed

end
