(* ===== verification/Resolver_Cache.thy ===== *)
theory Resolver_Cache
  imports Fetch_Safety User_Extension
begin

text \<open>
  The resolver cache (\<^verbatim>\<open>crates/doiget-core/src/resolver_cache.rs\<close>) and the resolve that consults it
  (\<^verbatim>\<open>metadata_only_with_options\<close> of \<^verbatim>\<open>orchestrator.rs\<close>): an entry per reference and per set of options, read
  back within its time to live and never a reason for a resolve to fail.

  The crates that turn an outcome into JSON, an entry into TOML and an instant into RFC 3339 are parameters,
  and so is the addition of a number of seconds to an instant, which panics (None) outside the range of
  \<^verbatim>\<open>chrono\<close>.  Instants are nanoseconds since the epoch.
\<close>

subsection \<open>Entries and their files\<close>

record cache_entry =
  ce_schema_version :: string
  ce_fetched_at :: string
  ce_ttl_seconds :: int
  ce_source :: string
  ce_response :: string

record cache_env =
  outcome_to_json :: "metadata_outcome \<Rightarrow> string option"
  outcome_from_json :: "string \<Rightarrow> metadata_outcome option"
  entry_to_toml :: "cache_entry \<Rightarrow> string option"
  entry_from_toml :: "string \<Rightarrow> cache_entry option"
  doc_text :: "doc_line list \<Rightarrow> string"
  to_rfc3339 :: "int \<Rightarrow> string"
  parse_rfc3339 :: "string \<Rightarrow> int option"
  plus_seconds :: "int \<Rightarrow> int \<Rightarrow> int option"
  utc_now :: "effect list \<Rightarrow> int"
  mkdir_fails :: "effect list \<Rightarrow> bool"
  cache_io :: "effect list \<Rightarrow> bool \<times> bool \<times> string option"

definition CACHE_SCHEMA_VERSION :: string where
  "CACHE_SCHEMA_VERSION = ''1.0''"

definition RESOLVER_CACHE_TTL_DAYS :: int where
  "RESOLVER_CACHE_TTL_DAYS = 7"

definition cache_file_with_options ::
  "(string \<Rightarrow> string) \<Rightarrow> (string \<Rightarrow> string) \<Rightarrow> string \<Rightarrow> paper_ref \<Rightarrow> bool \<Rightarrow> string" where
  "cache_file_with_options dg he root r include_oa =
     (let dir = path_join root ''resolver'';
          dir = (if include_oa then path_join dir ''oa'' else dir) in
      path_join dir (safekey_as_str (ref_safekey dg he r) @ ''.toml''))"

subsection \<open>Reading\<close>

text \<open>\<^verbatim>\<open>std::fs::read_to_string(..).ok()\<close>.\<close>

definition read_text :: "cache_env \<Rightarrow> fs \<Rightarrow> string \<Rightarrow> string option" where
  "read_text cenv files path = (case map_of files path of
     None \<Rightarrow> None
   | Some c \<Rightarrow> (let t = (case c of Bytes b \<Rightarrow> b | Doc d \<Rightarrow> doc_text cenv d) in if is_utf8 t then Some t else None))"

definition entry_answer :: "cache_env \<Rightarrow> int \<Rightarrow> cache_entry \<Rightarrow> metadata_outcome option res" where
  "entry_answer cenv now entry = (case parse_rfc3339 cenv (ce_fetched_at entry) of
     None \<Rightarrow> Ok None
   | Some fetched \<Rightarrow> (case plus_seconds cenv fetched (ce_ttl_seconds entry) of
       None \<Rightarrow> Panic
     | Some expiry \<Rightarrow> Ok (if expiry < now then None else outcome_from_json cenv (ce_response entry))))"

definition read_at_with_options ::
  "cache_env \<Rightarrow> (string \<Rightarrow> string) \<Rightarrow> (string \<Rightarrow> string) \<Rightarrow> string \<Rightarrow> paper_ref \<Rightarrow> int \<Rightarrow> bool \<Rightarrow> fs
     \<Rightarrow> metadata_outcome option res" where
  "read_at_with_options cenv dg he root r now include_oa files =
     (case Option.bind (read_text cenv files (cache_file_with_options dg he root r include_oa)) (entry_from_toml cenv) of
        None \<Rightarrow> Ok None
      | Some entry \<Rightarrow> entry_answer cenv now entry)"

subsection \<open>Writing\<close>

definition cache_entry_for :: "cache_env \<Rightarrow> metadata_outcome \<Rightarrow> int \<Rightarrow> string \<Rightarrow> cache_entry" where
  "cache_entry_for cenv outcome now response =
     \<lparr> ce_schema_version = CACHE_SCHEMA_VERSION, ce_fetched_at = to_rfc3339 cenv now,
       ce_ttl_seconds = RESOLVER_CACHE_TTL_DAYS * 86400, ce_source = mo_source outcome, ce_response = response \<rparr>"

definition write_at_with_options ::
  "cache_env \<Rightarrow> (string \<Rightarrow> string) \<Rightarrow> (string \<Rightarrow> string) \<Rightarrow> string \<Rightarrow> paper_ref \<Rightarrow> metadata_outcome \<Rightarrow> int \<Rightarrow> bool
     \<Rightarrow> bool \<Rightarrow> bool \<times> bool \<times> string option \<Rightarrow> fs \<Rightarrow> fs \<times> bool" where
  "write_at_with_options cenv dg he root r outcome now include_oa no_dir io files =
     (case outcome_to_json cenv outcome of
        None \<Rightarrow> (files, False)
      | Some response \<Rightarrow> (case entry_to_toml cenv (cache_entry_for cenv outcome now response) of
          None \<Rightarrow> (files, False)
        | Some toml_text \<Rightarrow>
            if no_dir then (files, False)
            else (case io of (write_fails, rename_fails, torn_bytes) \<Rightarrow>
              (case atomic_write write_fails rename_fails torn_bytes (cache_file_with_options dg he root r include_oa)
                  (Bytes toml_text) files of
                 (files, Inl _) \<Rightarrow> (files, False)
               | (files, Inr _) \<Rightarrow> (files, True)))))"

subsection \<open>The resolve\<close>

definition usable_cache :: "orch_env \<Rightarrow> string option \<Rightarrow> string option" where
  "usable_cache env cache_root = (if resolver_base_overridden env then None else cache_root)"

definition read_cache ::
  "cache_env \<Rightarrow> orch_env \<Rightarrow> string \<Rightarrow> paper_ref \<Rightarrow> bool \<Rightarrow> metadata_outcome option act" where
  "read_cache cenv env root r include_oa w =
     (w, read_at_with_options cenv (sha (fe env)) (hx (fe env)) root r (utc_now cenv (effects w)) include_oa (w_files w))"

definition write_cache ::
  "cache_env \<Rightarrow> orch_env \<Rightarrow> string \<Rightarrow> paper_ref \<Rightarrow> metadata_outcome \<Rightarrow> bool \<Rightarrow> unit act" where
  "write_cache cenv env root r outcome include_oa w =
     (w\<lparr>w_files := fst (write_at_with_options cenv (sha (fe env)) (hx (fe env)) root r outcome
          (utc_now cenv (effects w)) include_oa (mkdir_fails cenv (effects w)) (cache_io cenv (effects w)) (w_files w))\<rparr>, Ok ())"

definition resolve_with_cache ::
  "cache_env \<Rightarrow> orch_env \<Rightarrow> string option \<Rightarrow> paper_ref \<Rightarrow> capability_profile \<Rightarrow> bool \<Rightarrow> metadata_outcome act" where
  "resolve_with_cache cenv env cache_root r profile include_oa =
     (case usable_cache env cache_root of
        None \<Rightarrow> metadata_only_with_options env None r profile include_oa
      | Some root \<Rightarrow> and_then (read_cache cenv env root r include_oa) (\<lambda>cached. case cached of
          Some outcome \<Rightarrow> return_ok outcome
        | None \<Rightarrow> and_then (metadata_only_with_options env None r profile include_oa) (\<lambda>outcome.
            and_then (write_cache cenv env root r outcome include_oa) (\<lambda>_. return_ok outcome))))"

definition resolve_only ::
  "cache_env \<Rightarrow> orch_env \<Rightarrow> string option \<Rightarrow> paper_ref \<Rightarrow> capability_profile \<Rightarrow> metadata_outcome act" where
  "resolve_only cenv env cache_root r profile = resolve_with_cache cenv env cache_root r profile False"


subsection \<open>What a write leaves\<close>

text \<open>The crates give back what they were given, for this outcome at this instant.\<close>

definition gives_back :: "cache_env \<Rightarrow> metadata_outcome \<Rightarrow> int \<Rightarrow> bool" where
  "gives_back cenv outcome now \<longleftrightarrow> (\<exists>response toml_text.
     outcome_to_json cenv outcome = Some response \<and> outcome_from_json cenv response = Some outcome
   \<and> entry_to_toml cenv (cache_entry_for cenv outcome now response) = Some toml_text \<and> is_utf8 toml_text
   \<and> entry_from_toml cenv toml_text = Some (cache_entry_for cenv outcome now response)
   \<and> parse_rfc3339 cenv (to_rfc3339 cenv now) = Some now
   \<and> plus_seconds cenv now (RESOLVER_CACHE_TTL_DAYS * 86400) = Some (now + RESOLVER_CACHE_TTL_DAYS * 86400 * 10 ^ 9))"

lemma write_ok:
  assumes "write_at_with_options cenv dg he root r outcome now oa no_dir io files = (files', True)"
  shows "\<exists>response toml_text. outcome_to_json cenv outcome = Some response
    \<and> entry_to_toml cenv (cache_entry_for cenv outcome now response) = Some toml_text
    \<and> map_of files' (cache_file_with_options dg he root r oa) = Some (Bytes toml_text)"
  using assms unfolding write_at_with_options_def atomic_write_def
  by (auto simp: Let_def update_conv' split: option.splits if_splits prod.splits)

lemma write_elsewhere:
  assumes "write_at_with_options cenv dg he root r outcome now oa no_dir io files = (files', ok)"
    and "path \<noteq> cache_file_with_options dg he root r oa"
    and "path \<noteq> cache_file_with_options dg he root r oa @ ''.tmp''"
  shows "map_of files' path = map_of files path"
  using assms unfolding write_at_with_options_def atomic_write_def
  by (auto simp: Let_def update_conv' delete_conv' split: option.splits if_splits prod.splits)

lemma read_written:
  assumes "gives_back cenv outcome now"
    and "outcome_to_json cenv outcome = Some response"
    and "entry_to_toml cenv (cache_entry_for cenv outcome now response) = Some toml_text"
    and "map_of files (cache_file_with_options dg he root r oa) = Some (Bytes toml_text)"
  shows "read_at_with_options cenv dg he root r later oa files
     = Ok (if now + RESOLVER_CACHE_TTL_DAYS * 86400 * 10 ^ 9 < later then None else Some outcome)"
  using assms unfolding gives_back_def
  by (auto simp: read_at_with_options_def read_text_def entry_answer_def cache_entry_for_def)

lemma cache_file_shape:
  assumes "hash_format dg he"
  shows "cache_file_with_options dg he root r oa =
    path_join root ''resolver'' @ (if oa then ''/oa'' else []) @ ''/'' @ safekey_as_str (ref_safekey dg he r) @ ''.toml''"
proof -
  have key: "list_all is_safekey_char (safekey_as_str (ref_safekey dg he r))" by (rule safekey_chars [OF assms])
  have under: "path_join (d @ ''resolver'') p = d @ ''resolver/'' @ p"
      "path_join (d @ ''resolver/oa'') p = d @ ''resolver/oa/'' @ p" if "p = [] \<or> hd p \<noteq> CHR ''/''" for d p
    using that by (cases p; simp add: path_join_def starts_with_def ends_with_def)+
  have "\<exists>d. path_join root ''resolver'' = d @ ''resolver''"
    by (simp add: path_join_def starts_with_def exI [of _ "root @ ''/''"])
  then obtain d where d: "path_join root ''resolver'' = d @ ''resolver''" by blast
  from key have "hd (safekey_as_str (ref_safekey dg he r) @ ''.toml'') \<noteq> CHR ''/''"
    by (cases "safekey_as_str (ref_safekey dg he r)") (auto simp: is_safekey_char_def ascii_class_defs)
  then show ?thesis
    by (simp add: cache_file_with_options_def d under [where p = "''oa''", simplified] under [where p = "_ @ ''.toml''"])
qed

lemma cache_file_separate:
  assumes "hash_format dg he"
    and "cache_file_with_options dg he root r oa = cache_file_with_options dg he root r' oa'"
  shows "oa = oa' \<and> ref_safekey dg he r = ref_safekey dg he r'"
proof -
  note keys = safekey_chars [OF assms(1), of r] safekey_chars [OF assms(1), of r']
  have clean: "CHR ''/'' \<notin> set k" if "list_all is_safekey_char k" for k
    using that by (auto simp: list_all_iff is_safekey_char_def ascii_class_defs)
  have "k @ ''.toml'' \<noteq> ''oa/'' @ x" if "CHR ''/'' \<notin> set k" for k x
  proof
    assume eq: "k @ ''.toml'' = ''oa/'' @ x"
    have "CHR ''/'' \<in> set (''oa/'' @ x)" by simp
    with that eq [symmetric] show False by simp
  qed
  with assms(2) clean [OF keys(1)] clean [OF keys(2)] show ?thesis
    unfolding cache_file_shape [OF assms(1)]
    by (cases oa; cases oa'; cases "ref_safekey dg he r"; cases "ref_safekey dg he r'") (auto dest: sym)
qed

lemma cache_file_no_tmp:
  assumes "hash_format dg he"
  shows "cache_file_with_options dg he root r oa \<noteq> cache_file_with_options dg he root r' oa' @ ''.tmp''"
proof
  assume "cache_file_with_options dg he root r oa = cache_file_with_options dg he root r' oa' @ ''.tmp''"
  then have "last (cache_file_with_options dg he root r oa) = CHR ''p''" by simp
  then show False by (simp add: cache_file_shape [OF assms])
qed

subsection \<open>What the cache promises\<close>

text \<open>What the cache is given it gives back, for seven days.  After a write that succeeded, a read of the
  same reference under the same options answers with the outcome that was written as long as the reading
  instant is at most the writing instant plus the time to live, and is a miss at every later instant, wherever
  the cache is and however its crates encode, so long as they give back what they were given.\<close>

theorem cache_gives_back_until_expiry:
  assumes "write_at_with_options cenv dg he root r outcome now oa no_dir io files = (files', True)"
    and "gives_back cenv outcome now"
  shows "read_at_with_options cenv dg he root r later oa files'
     = Ok (if later \<le> now + 7 * 86400 * 10 ^ 9 then Some outcome else None)"
proof -
  from write_ok [OF assms(1)] obtain response toml_text
    where written: "outcome_to_json cenv outcome = Some response"
      "entry_to_toml cenv (cache_entry_for cenv outcome now response) = Some toml_text"
      "map_of files' (cache_file_with_options dg he root r oa) = Some (Bytes toml_text)"
    by blast
  show ?thesis
    by (simp add: read_written [OF assms(2) written] RESOLVER_CACHE_TTL_DAYS_def)
qed

text \<open>Entries do not answer for one another.  Whether a write succeeds or fails half-way, what is read for
  a reference with another safekey, or under the other options, is what it was before, at every instant.\<close>

theorem cache_entries_are_separate:
  assumes "hash_format dg he"
    and "ref_safekey dg he r \<noteq> ref_safekey dg he r' \<or> oa \<noteq> oa'"
    and "write_at_with_options cenv dg he root r outcome now oa no_dir io files = (files', ok)"
  shows "read_at_with_options cenv dg he root r' later oa' files' = read_at_with_options cenv dg he root r' later oa' files"
proof -
  from assms(1,2) have "cache_file_with_options dg he root r' oa' \<noteq> cache_file_with_options dg he root r oa"
    using cache_file_separate by metis
  from write_elsewhere [OF assms(3) this cache_file_no_tmp [OF assms(1)]]
  show ?thesis by (simp add: read_at_with_options_def read_text_def)
qed

text \<open>The steps of a resolve whose cache is usable and misses.\<close>

lemma resolve_missed:
  assumes "usable_cache env cache_root = Some root"
    and "read_cache cenv env root r oa w = (w, Ok None)"
    and "resolve_with_cache cenv env cache_root r profile oa w = (w', Ok outcome)"
  shows "\<exists>v. metadata_only_with_options env None r profile oa w = (v, Ok outcome)
    \<and> write_cache cenv env root r outcome oa v = (w', Ok ())"
  using assms(1,3) assms(2)
  by (auto simp: resolve_with_cache_def act_Ok_simps write_cache_def)

lemma resolve_hit:
  assumes "usable_cache env cache_root = Some root"
    and "read_cache cenv env root r oa w = (w, Ok (Some outcome))"
  shows "resolve_with_cache cenv env cache_root r profile oa w = (w, Ok outcome)"
  by (simp add: resolve_with_cache_def assms and_then_def return_ok_def)

text \<open>C39: A repeated resolve costs nothing.  Once a resolve that missed the cache has succeeded and its entry
  could be written, a resolve of the same reference under the same options within seven days of that write,
  in any state whose files still hold the entry, gives the same outcome and changes nothing: it makes no
  request, takes no token of a rate limiter and appends no row to the log.\<close>

theorem repeated_resolve_is_free:
  assumes "usable_cache env cache_root = Some root"
    and "read_cache cenv env root r oa w = (w, Ok None)"
    and "resolve_with_cache cenv env cache_root r profile oa w = (w1, Ok outcome)"
    and "gives_back cenv outcome (utc_now cenv (effects w1))"
    and "\<not> mkdir_fails cenv (effects w1)" "\<exists>t. cache_io cenv (effects w1) = (False, False, t)"
    and "\<forall>path. map_of (w_files w1) path \<noteq> None \<longrightarrow> map_of (w_files w2) path = map_of (w_files w1) path"
    and "utc_now cenv (effects w2) \<le> utc_now cenv (effects w1) + 7 * 86400 * 10 ^ 9"
  shows "resolve_with_cache cenv env cache_root r profile oa w2 = (w2, Ok outcome)"
proof (rule resolve_hit [OF assms(1)])
  let ?dg = "sha (fe env)" and ?he = "hx (fe env)"
  let ?path = "cache_file_with_options ?dg ?he root r oa"
  from resolve_missed [OF assms(1-3)] obtain v where stored: "write_cache cenv env root r outcome oa v = (w1, Ok ())"
    by blast
  then have same: "effects w1 = effects v" by (auto simp: write_cache_def)
  obtain files ok where step: "write_at_with_options cenv ?dg ?he root r outcome (utc_now cenv (effects v)) oa
      (mkdir_fails cenv (effects v)) (cache_io cenv (effects v)) (w_files v) = (files, ok)"
    by (metis surj_pair)
  from assms(4-6) have ok
    using step by (auto simp: write_at_with_options_def gives_back_def atomic_write_def Let_def same)
  with step stored have "write_at_with_options cenv ?dg ?he root r outcome (utc_now cenv (effects w1)) oa
      (mkdir_fails cenv (effects w1)) (cache_io cenv (effects w1)) (w_files v) = (w_files w1, True)"
    by (auto simp: write_cache_def same)
  from write_ok [OF this] obtain response toml_text
    where written: "outcome_to_json cenv outcome = Some response"
      "entry_to_toml cenv (cache_entry_for cenv outcome (utc_now cenv (effects w1)) response) = Some toml_text"
      and held: "map_of (w_files w1) ?path = Some (Bytes toml_text)"
    by blast
  from held assms(7) have "map_of (w_files w2) ?path = Some (Bytes toml_text)" by (metis option.distinct(1))
  from read_written [OF assms(4) written this] assms(8)
  show "read_cache cenv env root r oa w2 = (w2, Ok (Some outcome))"
    by (simp add: read_cache_def RESOLVER_CACHE_TTL_DAYS_def)
qed

subsection \<open>Runs\<close>

text \<open>
  Crates for the witnesses: an instant is that many letters, an outcome is its source, an entry is the two on
  lines of their own.  The addition has the bounds \<^verbatim>\<open>chrono\<close> documents: \<^verbatim>\<open>Duration::seconds\<close> takes at most
  \<^verbatim>\<open>i64::MAX / 1000\<close> seconds, and the last instant is the end of the year 262142.
\<close>

definition chrono_plus :: "int \<Rightarrow> int \<Rightarrow> int option" where
  "chrono_plus t s =
     (if abs s \<le> (2 ^ 63 - 1) div 1000 \<and> -8334601228800 * 10 ^ 9 \<le> t + s * 10 ^ 9
         \<and> t + s * 10 ^ 9 < 8210266876800 * 10 ^ 9 then Some (t + s * 10 ^ 9) else None)"

definition demo_cache :: cache_env where
  "demo_cache = \<lparr> outcome_to_json = (\<lambda>o'. Some (mo_source o')),
     outcome_from_json = (\<lambda>s. Some (mk_outcome s None None None (JObject []))),
     entry_to_toml = (\<lambda>e. Some (ce_fetched_at e @ CHR 0x0A # ce_response e)),
     entry_from_toml = (\<lambda>t. map_option (\<lambda>(a, b). \<lparr> ce_schema_version = ''1.0'', ce_fetched_at = a,
       ce_ttl_seconds = 604800, ce_source = b, ce_response = b \<rparr>) (split_once CHR 0x0A t)),
     doc_text = (\<lambda>_. []), to_rfc3339 = (\<lambda>t. replicate (nat t) CHR ''i''), parse_rfc3339 = (\<lambda>s. Some (int (length s))),
     plus_seconds = chrono_plus, utc_now = (\<lambda>es. int (length es)), mkdir_fails = (\<lambda>_. False),
     cache_io = (\<lambda>_. (False, False, None)) \<rparr>"

definition demo_outcome :: metadata_outcome where
  "demo_outcome = mk_outcome ''crossref'' None None None (JObject [])"

definition cached_orch :: orch_env where
  "cached_orch = demo_orch\<lparr>fe := demo_fetch_env\<lparr>
     send := (\<lambda>es al u hs n. Inr \<lparr> r_url = u, status = 200, retry_after_hdr = None, content_length = Some 2,
                chunks = [Inr ''{}''] \<rparr>),
     from_json := (\<lambda>_. Some (JObject [(''status'', JString ''ok''), (''message'', JObject [])]))\<rparr>\<rparr>"

abbreviation cached_ref :: paper_ref where
  "cached_ref \<equiv> RefDoi (Doi ''10.1234/a_b'')"

definition world_after :: world where
  "world_after = fst (resolve_with_cache demo_cache cached_orch (Some ''c'') cached_ref demo_profile False demo_world)"

lemma demo_gives_back: "gives_back demo_cache demo_outcome 3"
  unfolding gives_back_def
  by (intro exI [of _ "''crossref''"] exI [of _ "''iii'' @ CHR 0x0A # ''crossref''"]) code_simp

lemma demo_write:
  "write_at_with_options demo_cache toy_sha hex_lower ''c'' cached_ref demo_outcome 3 False False (False, False, None) []
     = ([(''c/resolver/doi_10.1234_a_b.toml'', Bytes (''iii'' @ CHR 0x0A # ''crossref''))], True)"
  by code_simp

theorem cache_gives_back_until_expiry_witness:
  "read_at_with_options demo_cache toy_sha hex_lower ''c'' cached_ref 4 False
      [(''c/resolver/doi_10.1234_a_b.toml'', Bytes (''iii'' @ CHR 0x0A # ''crossref''))] = Ok (Some demo_outcome)"
  using cache_gives_back_until_expiry [OF demo_write demo_gives_back, of 4] by simp

theorem cache_entries_are_separate_witness:
  "read_at_with_options demo_cache toy_sha hex_lower ''c'' cached_ref 4 True
      [(''c/resolver/doi_10.1234_a_b.toml'', Bytes (''iii'' @ CHR 0x0A # ''crossref''))]
     = read_at_with_options demo_cache toy_sha hex_lower ''c'' cached_ref 4 True []"
  by (rule cache_entries_are_separate [OF _ _ demo_write]) (simp_all add: hash_format_toy)

lemma demo_resolves:
  "read_cache demo_cache cached_orch ''c'' cached_ref False demo_world = (demo_world, Ok None)
   \<and> resolve_with_cache demo_cache cached_orch (Some ''c'') cached_ref demo_profile False demo_world
     = (world_after, Ok demo_outcome)
   \<and> length (effects world_after) = 3
   \<and> usable_cache cached_orch (Some ''c'') = Some ''c''
   \<and> resolve_with_cache demo_cache cached_orch (Some ''c'') (RefDoi (Doi ''10.1234/a(b'')) demo_profile False world_after
     = (world_after, Ok demo_outcome)"
  by code_simp

lemmas demo_resolve = demo_resolves [THEN conjunct1] demo_resolves [THEN conjunct2, THEN conjunct1]
  demo_resolves [THEN conjunct2, THEN conjunct2, THEN conjunct1]

theorem repeated_resolve_is_free_witness:
  "resolve_with_cache demo_cache cached_orch (Some ''c'') cached_ref demo_profile False world_after
     = (world_after, Ok demo_outcome) \<and> length (effects world_after) = 3"
proof -
  have "usable_cache cached_orch (Some ''c'') = Some ''c''" using demo_resolves by blast
  moreover have "utc_now demo_cache (effects world_after) = 3"
    by (simp add: demo_cache_def demo_resolve(3))
  ultimately show ?thesis
    using repeated_resolve_is_free [OF _ demo_resolve(1,2), of world_after] demo_gives_back demo_resolve(3)
    by (simp add: demo_cache_def)
qed

subsection \<open>Where the cache falls short\<close>

text \<open>
  An entry does not hold the reference it is for.  Two DOIs whose safekeys agree share an entry, so that a
  resolve of the second is answered with the metadata of the first, without asking anyone.
\<close>

theorem cache_answers_for_another_work:
  "resolve_with_cache demo_cache cached_orch (Some ''c'') (RefDoi (Doi ''10.1234/a(b'')) demo_profile False world_after
     = (world_after, Ok demo_outcome)"
  using demo_resolves by blast

text \<open>
  A file in the cache directory whose time to live is out of the range of \<^verbatim>\<open>chrono\<close> is not a miss: the addition
  panics, and with it the resolve.
\<close>

theorem damaged_ttl_panics:
  assumes "usable_cache env (Some root) = Some root"
    and "map_of (w_files w) (cache_file_with_options (sha (fe env)) (hx (fe env)) root r oa) = Some (Bytes toml_text)"
    and "is_utf8 toml_text" "entry_from_toml cenv toml_text = Some entry"
    and "parse_rfc3339 cenv (ce_fetched_at entry) = Some fetched"
    and "plus_seconds cenv fetched (ce_ttl_seconds entry) = None"
  shows "resolve_with_cache cenv env (Some root) r profile oa w = (w, Panic)"
  using assms
  by (simp add: resolve_with_cache_def read_cache_def read_at_with_options_def read_text_def entry_answer_def and_then_def)

lemma chrono_plus_overflow: "chrono_plus 0 (2 ^ 63 - 1) = None" "chrono_plus 0 604800 = Some (604800 * 10 ^ 9)"
  by code_simp+

end
