(* ===== verification/Citation_Render.thy ===== *)
theory Citation_Render
  imports Metadata Bibliography
begin

text \<open>
  Citations of stored records (\<^verbatim>\<open>crates/doiget-core/src/store/render.rs\<close> and \<^verbatim>\<open>citekey.rs\<close>): BibTeX entries, CSL
  items, and citation keys made from a template.  Unicode's character classes, its lower case and its
  decomposition \<^verbatim>\<open>NFD\<close> are parameters.
\<close>

subsection \<open>BibTeX\<close>

definition bibtex_entry_type :: "string option \<Rightarrow> string" where
  "bibtex_entry_type t =
     (if t = Some ''journal-article'' then ''article''
      else if t = Some ''software'' \<or> t = Some ''Software'' then ''software'' else ''misc'')"

definition strip_bibtex_unsafe :: "unicode \<Rightarrow> string \<Rightarrow> string" where
  "strip_bibtex_unsafe un value = filter (\<lambda>c. c \<notin> set ''{}'') (plain_title un value)"

definition pad10 :: "string \<Rightarrow> string" where
  "pad10 s = s @ replicate (10 - length (utf8_chars s)) CHR '' ''"

definition push_field :: "unicode \<Rightarrow> string \<Rightarrow> string \<Rightarrow> string" where
  "push_field un key value =
     ''  '' @ pad10 key @ '' = {'' @ strip_bibtex_unsafe un value @ ''},'' @ [CHR 0x0A]"

definition int_text :: "int \<Rightarrow> string" where
  "int_text i = (if i < 0 then CHR ''-'' # nat_text (nat (- i)) else nat_text (nat i))"

definition arxiv_primary_class :: "metadata \<Rightarrow> string option" where
  "arxiv_primary_class m = (case arxiv_categories m of
     c # _ \<Rightarrow> Some c
   | [] \<Rightarrow> Option.bind (m_arxiv_id m) (\<lambda>a. map_option fst (split_once CHR ''/'' (arxiv_as_str a))))"

text \<open>The fields in their order; \<^verbatim>\<open>if let Some(v) = .. && !v.is_empty()\<close> is \<open>opt_field\<close>.\<close>

definition opt_field :: "string \<Rightarrow> string option \<Rightarrow> (string \<times> string) list" where
  "opt_field name v = (case nonempty v of None \<Rightarrow> [] | Some s \<Rightarrow> [(name, s)])"

definition toml_str :: "toml_value option \<Rightarrow> string option" where
  "toml_str v = (case v of Some (TString s) \<Rightarrow> Some s | _ \<Rightarrow> None)"

definition bibtex_fields :: "metadata \<Rightarrow> (string \<times> string) list \<Rightarrow> (string \<times> string) list" where
  "bibtex_fields m extra =
     [(''title'', title m)]
   @ (if authors m = [] then [] else [(''author'', join_with '' and '' (authors m))])
   @ (case year m of None \<Rightarrow> [] | Some y \<Rightarrow> [(''year'', int_text y)])
   @ (case m_doi m of None \<Rightarrow> [] | Some d \<Rightarrow> [(''doi'', doi_as_str d)])
   @ opt_field ''journal'' (venue m) @ opt_field ''volume'' (volume m) @ opt_field ''number'' (issue m)
   @ opt_field ''pages'' (pages m) @ opt_field ''publisher'' (publisher m) @ opt_field ''issn'' (issn m)
   @ (if bibtex_entry_type (m_type m) = ''software''
      then (case toml_str (map_of (other m) ''version'') of None \<Rightarrow> [] | Some v \<Rightarrow> [(''version'', v)])
           @ opt_field ''url'' (m_url m)
      else [])
   @ (case m_arxiv_id m of None \<Rightarrow> []
      | Some a \<Rightarrow> [(''eprint'', arxiv_as_str a), (''archivePrefix'', ''arXiv'')]
           @ (case arxiv_primary_class m of None \<Rightarrow> [] | Some c \<Rightarrow> [(''primaryClass'', c)]))
   @ extra"

definition to_bibtex_with_fields :: "unicode \<Rightarrow> string \<Rightarrow> metadata \<Rightarrow> (string \<times> string) list \<Rightarrow> string" where
  "to_bibtex_with_fields un citation_key m extra =
     ''@'' @ bibtex_entry_type (m_type m) @ ''{'' @ citation_key @ '','' @ [CHR 0x0A]
     @ concat (map (\<lambda>(k, v). push_field un k v) (bibtex_fields m extra)) @ ''}'' @ [CHR 0x0A]"

definition to_bibtex :: "unicode \<Rightarrow> string \<Rightarrow> metadata \<Rightarrow> string" where
  "to_bibtex un citation_key m = to_bibtex_with_fields un citation_key m []"

subsection \<open>CSL JSON\<close>

record csl_name =
  csl_family :: string
  csl_given :: string

text \<open>\<^verbatim>\<open>trimmed.rfind(char::is_whitespace)\<close> splits before the last white character.\<close>

definition split_last_white :: "string \<Rightarrow> (string \<times> string) option" where
  "split_last_white s =
     (let cs = rev (utf8_chars s); tail = takeWhile (\<lambda>c. \<not> is_whitespace c) cs in
      if length tail = length cs then None
      else let k = length cs - length tail - 1 in
        Some (concat (take k (utf8_chars s)), concat (drop k (utf8_chars s))))"

definition parse_author :: "string \<Rightarrow> csl_name" where
  "parse_author name =
     (let trimmed = str_trim name in
      case split_once CHR '','' trimmed of
        Some (family, given) \<Rightarrow> \<lparr> csl_family = str_trim family, csl_given = str_trim given \<rparr>
      | None \<Rightarrow> (case split_last_white trimmed of
          Some (given, family) \<Rightarrow> \<lparr> csl_family = str_trim family, csl_given = str_trim given \<rparr>
        | None \<Rightarrow> \<lparr> csl_family = trimmed, csl_given = [] \<rparr>))"

record csl_item =
  ci_id :: string
  ci_type :: string
  ci_title :: string
  ci_author :: "csl_name list"
  ci_issued :: "int option"
  ci_doi :: "string option"
  ci_container :: "string option"
  ci_container_short :: "string option"
  ci_volume :: "string option"
  ci_issue :: "string option"
  ci_page :: "string option"
  ci_publisher :: "string option"
  ci_issn :: "string option"
  ci_version :: "string option"
  ci_url :: "string option"

definition build_csl_item :: "unicode \<Rightarrow> string \<Rightarrow> metadata \<Rightarrow> csl_item" where
  "build_csl_item un citation_key m =
     (let software = m_type m = Some ''software'' \<or> m_type m = Some ''Software'' in
      \<lparr> ci_id = citation_key,
        ci_type = (if m_type m = Some ''journal-article'' then ''article-journal''
                   else if software then ''software'' else ''manuscript''),
        ci_title = plain_title un (title m),
        ci_author = map parse_author (authors m),
        ci_issued = year m,
        ci_doi = map_option doi_as_str (m_doi m),
        ci_container = map_option (plain_title un) (venue m),
        ci_container_short = None,
        ci_volume = volume m, ci_issue = issue m, ci_page = pages m, ci_publisher = publisher m, ci_issn = issn m,
        ci_version = (if software then toml_str (map_of (other m) ''version'') else None),
        ci_url = (if software then m_url m else None) \<rparr>)"

text \<open>The derived serialisation; the keys of a \<^verbatim>\<open>serde_json\<close> object are in order.\<close>

definition json_opt :: "string \<Rightarrow> string option \<Rightarrow> (string \<times> json) list" where
  "json_opt k v = (case v of None \<Rightarrow> [] | Some s \<Rightarrow> [(k, JString s)])"

definition csl_name_json :: "csl_name \<Rightarrow> json" where
  "csl_name_json n = JObject
     ((if csl_family n = [] then [] else [(''family'', JString (csl_family n))])
      @ (if csl_given n = [] then [] else [(''given'', JString (csl_given n))]))"

definition csl_item_json :: "csl_item \<Rightarrow> json" where
  "csl_item_json i = JObject
     (json_opt ''DOI'' (ci_doi i) @ json_opt ''ISSN'' (ci_issn i) @ json_opt ''URL'' (ci_url i)
      @ (if ci_author i = [] then [] else [(''author'', JArray (map csl_name_json (ci_author i)))])
      @ json_opt ''container-title'' (ci_container i) @ json_opt ''container-title-short'' (ci_container_short i)
      @ [(''id'', JString (ci_id i))] @ json_opt ''issue'' (ci_issue i)
      @ (case ci_issued i of None \<Rightarrow> []
         | Some y \<Rightarrow> [(''issued'', JObject [(''date-parts'', JArray [JArray [JInt y]])])])
      @ json_opt ''page'' (ci_page i) @ json_opt ''publisher'' (ci_publisher i)
      @ [(''title'', JString (ci_title i)), (''type'', JString (ci_type i))]
      @ json_opt ''version'' (ci_version i) @ json_opt ''volume'' (ci_volume i))"

definition to_csl_array_with :: "unicode \<Rightarrow> string \<Rightarrow> metadata \<Rightarrow> bool \<Rightarrow> json list" where
  "to_csl_array_with un citation_key m short_container =
     (let item = build_csl_item un citation_key m in
      [csl_item_json (if short_container
         then item\<lparr>ci_container_short := Option.bind (m_doiget m) short_venue\<rparr> else item)])"

subsection \<open>Keys from a template\<close>

datatype key_template_error = UnknownPlaceholder string | Unclosed string

definition family_name :: "string \<Rightarrow> string" where
  "family_name author = (case split_once CHR '','' author of
     Some (family, _) \<Rightarrow> str_trim family
   | None \<Rightarrow> (case split_whitespace author of [] \<Rightarrow> [] | ws \<Rightarrow> last ws))"

definition STOP_WORDS :: "string list" where
  "STOP_WORDS =
     [''a'', ''an'', ''the'', ''of'', ''on'', ''in'', ''for'', ''to'', ''and'', ''with'', ''from'', ''at'', ''by'', ''via'',
      ''der'', ''die'', ''das'', ''des'', ''dem'', ''den'', ''ein'', ''eine'', ''einer'', ''eines'', ''zur'', ''zum'',
      ''und'', [CHR 0xC3, CHR 0xBC] @ ''ber'', ''uber'', ''von'', ''vom'', ''mit'', ''le'', ''la'', ''les'', ''un'', ''une'',
      ''du'', ''de'', ''sur'', ''et'']"

definition first_significant_word :: "unicode \<Rightarrow> (string \<Rightarrow> string) \<Rightarrow> string \<Rightarrow> string option" where
  "first_significant_word un lower s =
     find (\<lambda>w. lower w \<notin> set STOP_WORDS) (filter (\<lambda>w. w \<noteq> [])
       (map concat (split_where (\<lambda>c. \<not> is_alphanumeric un c \<and> c \<noteq> [CHR 0xEF, CHR 0xBF, CHR 0xBD]) (utf8_chars s))))"

definition fold_char :: "string \<Rightarrow> string" where
  "fold_char c =
     (if c = [CHR 0xC3, CHR 0x9F] then ''ss''
      else if c \<in> {[CHR 0xC3, CHR 0xA6], [CHR 0xC3, CHR 0x86]} then ''ae''
      else if c \<in> {[CHR 0xC5, CHR 0x93], [CHR 0xC5, CHR 0x92]} then ''oe''
      else if c \<in> {[CHR 0xC3, CHR 0xB8], [CHR 0xC3, CHR 0x98]} then ''o''
      else if c \<in> {[CHR 0xC5, CHR 0x82], [CHR 0xC5, CHR 0x81]} then ''l''
      else if c \<in> {[CHR 0xC4, CHR 0x91], [CHR 0xC4, CHR 0x90], [CHR 0xC3, CHR 0xB0], [CHR 0xC3, CHR 0x90]} then ''d''
      else if c \<in> {[CHR 0xC3, CHR 0xBE], [CHR 0xC3, CHR 0x9E]} then ''th''
      else if c = [CHR 0xC4, CHR 0xB1] then ''i''
      else if ascii_char is_ascii_alphanumeric c then to_ascii_lowercase c else [])"

definition fold_ascii :: "(string \<Rightarrow> string) \<Rightarrow> string \<Rightarrow> string" where
  "fold_ascii nfd s = concat (map fold_char (utf8_chars (nfd s)))"

definition is_key_char :: "char \<Rightarrow> bool" where
  "is_key_char c \<longleftrightarrow> is_ascii_alphanumeric c \<or> c \<in> set ''-_:.+/''"

definition sanitize :: "string \<Rightarrow> string" where
  "sanitize key = filter is_key_char key"

definition is_valid_key :: "string \<Rightarrow> bool" where
  "is_valid_key key \<longleftrightarrow> key \<noteq> [] \<and> sanitize key = key"

text \<open>What the code calls: lower case, decomposition and the character classes.\<close>

record text_env =
  te_uni :: unicode
  te_lower :: "string \<Rightarrow> string"
  te_nfd :: "string \<Rightarrow> string"

definition placeholder :: "text_env \<Rightarrow> metadata \<Rightarrow> string \<Rightarrow> string \<Rightarrow> key_template_error + string" where
  "placeholder te m key name =
     (if name = ''author'' then
        Inr (case authors m of [] \<Rightarrow> [] | a # _ \<Rightarrow> fold_ascii (te_nfd te) (family_name a))
      else if name = ''year'' then Inr (case year m of None \<Rightarrow> [] | Some y \<Rightarrow> int_text y)
      else if name = ''title_word'' then
        Inr (case first_significant_word (te_uni te) (te_lower te) (title m) of
               None \<Rightarrow> [] | Some w \<Rightarrow> fold_ascii (te_nfd te) w)
      else if name = ''safekey'' then Inr key
      else Inl (UnknownPlaceholder name))"

function template_loop :: "(string \<Rightarrow> key_template_error + string) \<Rightarrow> string \<Rightarrow> string \<Rightarrow> key_template_error + string" where
  "template_loop value template rest = (case split_once CHR ''{'' rest of
     None \<Rightarrow> Inr rest
   | Some (lead, after) \<Rightarrow> (case split_once CHR ''}'' after of
       None \<Rightarrow> Inl (Unclosed template)
     | Some (name, rest) \<Rightarrow> (case value name of
         Inl e \<Rightarrow> Inl e
       | Inr v \<Rightarrow> map_ok (\<lambda>out. lead @ v @ out) (template_loop value template rest))))"
  by pat_completeness auto
termination
  by (relation "measure (\<lambda>(_, _, rest). length rest)") (auto dest!: split_once_SomeD)

declare template_loop.simps [simp del]

definition render_key :: "text_env \<Rightarrow> string \<Rightarrow> metadata \<Rightarrow> string \<Rightarrow> key_template_error + string" where
  "render_key te template m key =
     map_ok (\<lambda>out. if sanitize out = [] then key else sanitize out)
       (template_loop (placeholder te m key) template template)"

text \<open>\<^verbatim>\<open>Metadata::default()\<close>, as far as a template reads it.\<close>

definition default_metadata :: metadata where
  "default_metadata = \<lparr> m_schema_version = [], title = [], authors = [], year = None, m_doi = None,
     m_arxiv_id = None, arxiv_categories = [], m_abstract = None, venue = None, volume = None, issue = None,
     pages = None, publisher = None, issn = None, isbn = None, m_type = None, m_keywords = [], m_url = None,
     pdf_path = None, m_doiget = None, other = [] \<rparr>"

definition validate_template :: "text_env \<Rightarrow> string \<Rightarrow> key_template_error + unit" where
  "validate_template te template = map_ok (\<lambda>_. ()) (render_key te template default_metadata ''x'')"

subsection \<open>Keys in one file\<close>

fun key_suffix :: "nat \<Rightarrow> string" where
  "key_suffix n = (if n < 26 then [char_of (97 + n)] else key_suffix (n div 26 - 1) @ [char_of (97 + n mod 26)])"

declare key_suffix.simps [simp del]

lemma code_letter: "m < 26 \<Longrightarrow> code (char_of (97 + m)) = 97 + m"
  by simp

lemma key_suffix_snoc:
  "key_suffix n = (if n < 26 then [] else key_suffix (n div 26 - 1)) @ [char_of (97 + n mod 26)]"
  by (subst key_suffix.simps) simp

lemma key_suffix_nonempty [simp]: "key_suffix n \<noteq> []"
  by (subst key_suffix_snoc) simp

lemma key_suffix_inj: "key_suffix m = key_suffix n \<Longrightarrow> m = n"
proof (induction m arbitrary: n rule: key_suffix.induct)
  case (1 m)
  from "1.prems" have eq: "(if m < 26 then [] else key_suffix (m div 26 - 1)) = (if n < 26 then [] else key_suffix (n div 26 - 1))"
    and letter: "(char_of (97 + m mod 26) :: char) = char_of (97 + n mod 26)"
    by (subst (asm) key_suffix_snoc [of m], subst (asm) key_suffix_snoc [of n], simp)+
  have "97 + m mod 26 = 97 + n mod 26"
    using arg_cong [OF letter, of code] by (simp only: code_letter mod_less_divisor zero_less_numeral)
  then have low: "m mod 26 = n mod 26" by simp
  show ?case
  proof (cases "m < 26")
    case True
    with eq have "n < 26" by (metis key_suffix_nonempty)
    with True low show ?thesis by simp
  next
    case False
    with eq have "\<not> n < 26" "key_suffix (m div 26 - 1) = key_suffix (n div 26 - 1)"
      by (metis key_suffix_nonempty)+
    with "1.IH" [OF False, of "n div 26 - 1"] have "m div 26 - 1 = n div 26 - 1" by blast
    moreover have "1 \<le> m div 26" "1 \<le> n div 26" using False \<open>\<not> n < 26\<close> by simp_all
    ultimately have "m div 26 = n div 26" by linarith
    with low show ?thesis by (metis div_mult_mod_eq)
  qed
qed

text \<open>
  The loop that looks for a free key ends: the keys it can still meet are the finitely many used ones that
  carry a suffix from here on.
\<close>

function free_key :: "string \<Rightarrow> string list \<Rightarrow> nat \<Rightarrow> string" where
  "free_key key used n =
     (let cand = key @ key_suffix n in if cand \<in> set used then free_key key used (n + 1) else cand)"
  by pat_completeness auto

definition ahead :: "string \<Rightarrow> string list \<Rightarrow> nat \<Rightarrow> string set" where
  "ahead key used n = {c \<in> set used. \<exists>i\<ge>n. c = key @ key_suffix i}"

lemma ahead_less:
  assumes "key @ key_suffix n \<in> set used"
  shows "card (ahead key used (n + 1)) < card (ahead key used n)"
proof (rule psubset_card_mono)
  show "finite (ahead key used n)" by (simp add: ahead_def)
  have "key @ key_suffix n \<in> ahead key used n" using assms by (auto simp: ahead_def)
  moreover have "key @ key_suffix n \<notin> ahead key used (n + 1)"
    by (auto simp: ahead_def dest: key_suffix_inj)
  moreover have "ahead key used (n + 1) \<subseteq> ahead key used n"
    by (fastforce simp: ahead_def dest: Suc_leD)
  ultimately show "ahead key used (n + 1) \<subset> ahead key used n" by blast
qed

termination free_key
  by (relation "measure (\<lambda>(key, used, n). card (ahead key used n))") (simp_all add: ahead_less [simplified])

declare free_key.simps [simp del]

definition disambiguate :: "string \<Rightarrow> string list \<Rightarrow> string \<times> string list" where
  "disambiguate key used =
     (if key \<notin> set used then (key, key # used)
      else let cand = free_key key used 0 in (cand, cand # used))"

subsection \<open>Facts about keys\<close>

lemma free_key_spec: "free_key key used n \<notin> set used \<and> (\<exists>i. free_key key used n = key @ key_suffix i)"
  by (induction key used n rule: free_key.induct) (subst (1 2) free_key.simps, auto simp: Let_def)

lemma disambiguate_fresh:
  "disambiguate key used = (k, used') \<Longrightarrow> k \<notin> set used \<and> used' = k # used \<and> (k = key \<or> (\<exists>i. k = key @ key_suffix i))"
  using free_key_spec [of key used 0] by (auto simp: disambiguate_def Let_def split: if_splits) metis

lemma sanitize_idem [simp]: "sanitize (sanitize s) = sanitize s"
  by (simp add: sanitize_def)

lemma sanitize_append [simp]: "sanitize (a @ b) = sanitize a @ sanitize b"
  by (simp add: sanitize_def)

lemma valid_key_chars: "is_valid_key k \<longleftrightarrow> k \<noteq> [] \<and> list_all is_key_char k"
  by (auto simp: is_valid_key_def sanitize_def filter_id_conv list_all_iff)

lemma key_suffix_chars: "list_all is_key_char (key_suffix n)"
proof (induction n rule: key_suffix.induct)
  case (1 n)
  have "is_key_char c" if "code c = 97 + m" "m < 26" for c m
    using that by (simp add: is_key_char_def ascii_class_defs)
  then have "is_key_char (char_of (97 + n mod 26))"
    by (metis code_letter mod_less_divisor zero_less_numeral)
  with 1 show ?case by (subst key_suffix_snoc) auto
qed

subsection \<open>Templates\<close>

text \<open>Whether a template is refused does not depend on what its placeholders stand for.\<close>

lemma template_loop_same_errors:
  assumes "\<And>name. map_ok (\<lambda>_. ()) (v name) = map_ok (\<lambda>_. ()) (v' name)"
  shows "map_ok (\<lambda>_. ()) (template_loop v template rest) = map_ok (\<lambda>_. ()) (template_loop v' template rest)"
proof (induction "length rest" arbitrary: rest rule: less_induct)
  case less
  show ?case
  proof (cases "split_once CHR ''{'' rest")
    case None
    then show ?thesis by (simp add: template_loop.simps [of _ template rest])
  next
    case (Some p)
    obtain lead after where p: "p = (lead, after)" by force
    show ?thesis
    proof (cases "split_once CHR ''}'' after")
      case None
      with Some p show ?thesis by (simp add: template_loop.simps [of _ template rest])
    next
      case (Some q)
      obtain name rest' where q: "q = (name, rest')" by force
      from split_once_SomeD [OF \<open>split_once CHR ''{'' rest = Some p\<close> [unfolded p]] split_once_SomeD [OF Some [unfolded q]]
      have "length rest' < length rest" by auto
      from less [OF this] assms [of name] \<open>split_once CHR ''{'' rest = Some p\<close> Some p q show ?thesis
        by (cases "v name"; cases "v' name"; cases "template_loop v template rest'"; cases "template_loop v' template rest'")
          (simp_all add: template_loop.simps [of _ template rest])
    qed
  qed
qed

text \<open>A template is checked once for all.  The check that runs before any network work gives the very result,
  acceptance or the same error, that rendering a key from the template gives for every record and every
  safekey.\<close>

theorem template_is_checked_once:
  "map_ok (\<lambda>_. ()) (render_key te template m key) = validate_template te template"
proof -
  have "map_ok (\<lambda>_. ()) (placeholder te m key name) = map_ok (\<lambda>_. ()) (placeholder te default_metadata ''x'' name)" for name
    by (simp add: placeholder_def)
  from template_loop_same_errors [of "placeholder te m key", OF this, of template template]
  show ?thesis
    by (cases "template_loop (placeholder te m key) template template";
        cases "template_loop (placeholder te default_metadata ''x'') template template")
      (simp_all add: render_key_def validate_template_def)
qed

lemma rendered_key_valid:
  assumes "render_key te template m key = Inr k" and "is_valid_key key"
  shows "is_valid_key k"
  using assms by (auto simp: render_key_def is_valid_key_def split: if_splits)

lemma safekey_valid:
  assumes "hash_format dg he" and "ref_wf r"
  shows "is_valid_key (safekey_as_str (ref_safekey dg he r))"
proof -
  have "is_key_char c" if "is_safekey_char c" for c
    using that by (auto simp: is_key_char_def is_safekey_char_def)
  with safekey_chars [OF assms(1), of r] have "list_all is_key_char (safekey_as_str (ref_safekey dg he r))"
    by (auto simp: list_all_iff)
  moreover have "safekey_as_str (ref_safekey dg he r) \<noteq> []"
    using safekey_prefix [OF assms(2), of dg he] by (cases r) (auto simp: kind_prefix_def)
  ultimately show ?thesis by (simp add: valid_key_chars)
qed

lemma disambiguate_valid:
  assumes "disambiguate key used = (k, used')" and "is_valid_key key"
  shows "is_valid_key k"
  using disambiguate_fresh [OF assms(1)] assms(2) key_suffix_chars
  by (auto simp: valid_key_chars)

subsection \<open>A rendered entry reads back\<close>

text \<open>
  What a reader of BibTeX makes of an entry: the type up to the brace, the key up to the comma, then fields
  whose values end at the first closing brace, up to the brace that closes the entry.
\<close>

function read_fields :: "string \<Rightarrow> (string \<times> string) list option" where
  "read_fields s = (if s = ''}'' @ [CHR 0x0A] then Some [] else
     Option.bind (strip_prefix ''  '' s) (\<lambda>s1. Option.bind (split_once CHR '' '' s1) (\<lambda>(name, s2).
     Option.bind (strip_prefix ''= {'' (dropWhile (\<lambda>c. c = CHR '' '') s2)) (\<lambda>s3.
     Option.bind (split_once CHR ''}'' s3) (\<lambda>(value, s4).
     Option.bind (strip_prefix ('','' @ [CHR 0x0A]) s4) (\<lambda>s5.
       if length s5 < length s then map_option (\<lambda>fs. (name, value) # fs) (read_fields s5) else None))))))"
  by pat_completeness auto
termination by (relation "measure length") auto

declare read_fields.simps [simp del]

definition read_entry :: "string \<Rightarrow> (string \<times> string \<times> (string \<times> string) list) option" where
  "read_entry s = Option.bind (strip_prefix ''@'' s) (\<lambda>s.
     Option.bind (split_once CHR ''{'' s) (\<lambda>(kind, s). Option.bind (split_once CHR '','' s) (\<lambda>(key, s).
     Option.bind (strip_prefix [CHR 0x0A] s) (\<lambda>s. map_option (\<lambda>fs. (kind, key, fs)) (read_fields s)))))"

definition plain_name :: "string \<Rightarrow> bool" where
  "plain_name n \<longleftrightarrow> n \<noteq> [] \<and> list_all is_ascii_alphanumeric n"
lemma strip_bibtex_unsafe_free [simp]:
  "CHR ''}'' \<notin> set (strip_bibtex_unsafe un v)" "CHR ''{'' \<notin> set (strip_bibtex_unsafe un v)"
  by (auto simp: strip_bibtex_unsafe_def)

lemma read_fields_end [simp]: "read_fields (''}'' @ [CHR 0x0A]) = Some []"
  by (simp add: read_fields.simps)

lemma read_push_field:
  assumes "plain_name k"
  shows "read_fields (push_field un k v @ rest) = map_option (\<lambda>fs. (k, strip_bibtex_unsafe un v) # fs) (read_fields rest)"
proof -
  obtain n where pad: "pad10 k = k @ replicate n CHR '' ''" by (auto simp: pad10_def)
  from assms have clean: "CHR '' '' \<notin> set k"
    by (auto simp: plain_name_def list_all_iff ascii_class_defs)
  let ?tail = "''= {'' @ strip_bibtex_unsafe un v @ CHR ''}'' # '','' @ CHR 0x0A # rest"
  have spaces: "replicate n CHR '' '' @ '' '' @ ?tail = CHR '' '' # replicate n CHR '' '' @ ?tail"
    by (simp add: replicate_app_Cons_same)
  have drop: "dropWhile (\<lambda>c. c = CHR '' '') (replicate n CHR '' '' @ ?tail) = ?tail"
    by (induction n) simp_all
  have shape: "push_field un k v @ rest = ''  '' @ k @ CHR '' '' # replicate n CHR '' '' @ ?tail"
    using spaces by (simp add: push_field_def pad)
  let ?s = "''  '' @ k @ CHR '' '' # replicate n CHR '' '' @ ?tail"
  have strip: "strip_prefix p (p @ x) = Some x" for p x by (simp add: strip_prefix_Some)
  have once: "split_once CHR '' '' (k @ CHR '' '' # x) = Some (k, x)"
      "split_once CHR ''}'' (strip_bibtex_unsafe un v @ CHR ''}'' # x) = Some (strip_bibtex_unsafe un v, x)" for x
    using clean by simp_all
  have comma: "strip_prefix ('','' @ [CHR 0x0A]) ('','' @ CHR 0x0A # rest) = Some rest"
    using strip [of "'','' @ [CHR 0x0A]" rest] by simp
  have more: "?s \<noteq> ''}'' @ [CHR 0x0A]" "length rest < length ?s" by simp_all
  show ?thesis
    unfolding shape
    by (subst read_fields.simps)
      (simp only: more if_True if_False strip once drop comma Option.bind.simps prod.case)
qed

lemma read_pushed_fields:
  assumes "list_all (\<lambda>(k, v). plain_name k) fs"
  shows "read_fields (concat (map (\<lambda>(k, v). push_field un k v) fs) @ ''}'' @ [CHR 0x0A])
     = Some (map (\<lambda>(k, v). (k, strip_bibtex_unsafe un v)) fs)"
  using assms
proof (induction fs)
  case Nil
  show ?case using read_fields_end by simp
next
  case (Cons f fs)
  obtain k v where "f = (k, v)" by force
  with Cons show ?case by (simp add: read_push_field)
qed

lemma opt_field_name: "plain_name name \<Longrightarrow> list_all (\<lambda>(k, v). plain_name k) (opt_field name v)"
  by (simp add: opt_field_def split: option.split)

lemma field_names:
  "list_all plain_name [''title'', ''author'', ''year'', ''doi'', ''journal'', ''volume'', ''number'', ''pages'',
     ''publisher'', ''issn'', ''version'', ''url'', ''eprint'', ''archivePrefix'', ''primaryClass'']"
  by code_simp

lemma bibtex_field_names:
  assumes "list_all (\<lambda>(k, v). plain_name k) extra"
  shows "list_all (\<lambda>(k, v). plain_name k) (bibtex_fields m extra)"
  using field_names unfolding bibtex_fields_def list_all_append
  by (intro conjI; (elim conjE)?)
    (auto simp: assms intro: opt_field_name split: option.split)

lemma bibtex_reads_back:
  assumes "is_valid_key key" and "list_all (\<lambda>(k, v). plain_name k) extra"
  shows "read_entry (to_bibtex_with_fields un key m extra)
     = Some (bibtex_entry_type (m_type m), key,
         map (\<lambda>(k, v). (k, strip_bibtex_unsafe un v)) (bibtex_fields m extra))"
proof -
  let ?fields = "concat (map (\<lambda>(k, v). push_field un k v) (bibtex_fields m extra)) @ ''}'' @ [CHR 0x0A]"
  have strip: "strip_prefix p (p @ x) = Some x" for p x by (simp add: strip_prefix_Some)
  have kind: "split_once CHR ''{'' (bibtex_entry_type t @ CHR ''{'' # x) = Some (bibtex_entry_type t, x)" for t x
    by (simp add: bibtex_entry_type_def)
  from assms(1) have "CHR '','' \<notin> set key"
    by (auto simp: valid_key_chars list_all_iff is_key_char_def ascii_class_defs)
  then have key: "split_once CHR '','' (key @ CHR '','' # x) = Some (key, x)" for x by simp
  have "to_bibtex_with_fields un key m extra
      = ''@'' @ (bibtex_entry_type (m_type m) @ CHR ''{'' # (key @ CHR '','' # ([CHR 0x0A] @ ?fields)))"
    by (simp add: to_bibtex_with_fields_def)
  then show ?thesis
    using read_pushed_fields [OF bibtex_field_names [OF assms(2)], of un m]
    by (simp only: read_entry_def strip kind key Option.bind.simps prod.case map_option_case option.case)
qed

text \<open>A rendered entry is one well-formed entry that reads back.  Under a valid citation key, whatever text
  the record holds, a reader of BibTeX finds exactly the entry type, the key and the record's fields in their
  order, each with its value less markup and braces: no value can close its field or the entry, or start
  another.\<close>

theorem bibtex_entry_reads_back:
  assumes "is_valid_key key" and "list_all (\<lambda>(k, v). plain_name k) extra"
  shows "read_entry (to_bibtex_with_fields un key m extra)
     = Some (bibtex_entry_type (m_type m), key,
         map (\<lambda>(k, v). (k, strip_bibtex_unsafe un v)) (bibtex_fields m extra))"
  using assms by (rule bibtex_reads_back)

theorem bibtex_entry_reads_back_witness:
  "read_entry (to_bibtex_with_fields ascii_unicode ''fock1930''
      (default_metadata\<lparr>title := ''A <i>b</i>},@misc{x'', year := Some 1930\<rparr>) [(''file'', ''a.pdf'')])
     = Some (''misc'', ''fock1930'',
         [(''title'', ''A b,@miscx''), (''year'', ''1930''), (''file'', ''a.pdf'')])"
proof -
  have "map (\<lambda>(k, v). (k, strip_bibtex_unsafe ascii_unicode v)) (bibtex_fields
      (default_metadata\<lparr>title := ''A <i>b</i>},@misc{x'', year := Some 1930\<rparr>) [(''file'', ''a.pdf'')])
      = [(''title'', ''A b,@miscx''), (''year'', ''1930''), (''file'', ''a.pdf'')]"
    "bibtex_entry_type (m_type (default_metadata\<lparr>title := ''A <i>b</i>},@misc{x'', year := Some 1930\<rparr>)) = ''misc''"
    "is_valid_key ''fock1930''" "list_all (\<lambda>(k, v). plain_name k) [(''file'', ''a.pdf'')]"
    by code_simp+
  then show ?thesis
    using bibtex_entry_reads_back by metis
qed

subsection \<open>Where the renderers fall short\<close>

text \<open>An empty title is printed as an empty field, and an empty optional value is a member of a CSL item.\<close>

theorem empty_fields_are_printed:
  "to_bibtex ascii_unicode ''k'' default_metadata
     = ''@misc{k,'' @ [CHR 0x0A] @ ''  title      = {},'' @ [CHR 0x0A] @ ''}'' @ [CHR 0x0A]
   \<and> ci_volume (build_csl_item ascii_unicode ''k'' (default_metadata\<lparr>volume := Some []\<rparr>)) = Some []"
  by code_simp

text \<open>An author whose name contains the word that separates authors becomes two of them.\<close>

theorem joint_author_is_split:
  "map_of (bibtex_fields (default_metadata\<lparr>authors := [''Rand and Co'']\<rparr>) []) ''author''
     = map_of (bibtex_fields (default_metadata\<lparr>authors := [''Rand'', ''Co'']\<rparr>) []) ''author''"
  by code_simp

end
