(* ===== verification/Cli_Env.thy ===== *)
theory Cli_Env
  imports Fetch_Safety User_Extension Citation_Render
begin

text \<open>
  What the commands of \<^verbatim>\<open>crates/doiget-cli\<close> share: how a command ends, where the log, the cache and the store
  are (\<^verbatim>\<open>commands/fetch.rs\<close>, \<^verbatim>\<open>commands/mod.rs\<close>), the exit code of an error code, and the link to a stored PDF
  that \<^verbatim>\<open>--link\<close> makes in a directory of the user's.
\<close>

subsection \<open>How a command ends\<close>

text \<open>
  A \<^verbatim>\<open>CliExit\<close> carries the status \<^verbatim>\<open>main\<close> exits with, after the command has printed its own message; any other
  error is printed by \<^verbatim>\<open>main\<close>, which exits with 1.
\<close>

datatype cli_stop = CliExit nat | Bail string

fun main_exit :: "cli_stop + 'a \<Rightarrow> nat" where
  "main_exit (Inr _) = 0"
| "main_exit (Inl (CliExit n)) = n"
| "main_exit (Inl (Bail _)) = 1"

definition cli_exit_code :: "error_code \<Rightarrow> nat" where
  "cli_exit_code c = (case c of
     CapabilityDenied \<Rightarrow> 3
   | StoreError \<Rightarrow> 4 | LogError \<Rightarrow> 4
   | FetchTimeout \<Rightarrow> 124
   | Ambiguous \<Rightarrow> 2
   | InvalidRef \<Rightarrow> 2
   | _ \<Rightarrow> 1)"

definition effective_blocked_code :: "error_code \<Rightarrow> denial_context option \<Rightarrow> error_code" where
  "effective_blocked_code cd denial = (case map_option reason denial of
     Some RedirectNotInAllowlist \<Rightarrow> CapabilityDenied
   | Some InsecureScheme \<Rightarrow> CapabilityDenied
   | Some HostInBlockList \<Rightarrow> CapabilityDenied
   | _ \<Rightarrow> cd)"

subsection \<open>Where things are\<close>

definition read_env_utf8 :: "(string \<Rightarrow> string option) \<Rightarrow> string \<Rightarrow> cli_stop + string option" where
  "read_env_utf8 env key = (case env key of
     None \<Rightarrow> Inr None
   | Some s \<Rightarrow> if is_utf8 s then Inr (Some s) else Inl (Bail (key @ '' is not valid UTF-8'')))"

text \<open>\<^verbatim>\<open>if let Some(s) = read_env_utf8(key)? { return Ok(f(s)); }\<close>\<close>

definition env_rung :: "(string \<Rightarrow> string option) \<Rightarrow> string \<Rightarrow> (string \<Rightarrow> string) \<Rightarrow> cli_stop + string \<Rightarrow> cli_stop + string" where
  "env_rung env key f next = (case read_env_utf8 env key of
     Inl e \<Rightarrow> Inl e | Inr (Some s) \<Rightarrow> Inr (f s) | Inr None \<Rightarrow> next)"

definition home_dir_utf8 :: "(string \<Rightarrow> string option) \<Rightarrow> cli_stop + string" where
  "home_dir_utf8 env = env_rung env ''HOME'' id (env_rung env ''USERPROFILE'' id
     (Inl (Bail ''neither HOME nor USERPROFILE is set'')))"

definition config_dir_utf8 :: "(string \<Rightarrow> string option) \<Rightarrow> cli_stop + string" where
  "config_dir_utf8 env = map_err (\<lambda>_. Bail ''config dir'') (config_dir env)"

definition resolve_log_path :: "(string \<Rightarrow> string option) \<Rightarrow> cli_stop + string" where
  "resolve_log_path env = env_rung env ''DOIGET_LOG_PATH'' id
     (map_ok (\<lambda>d. path_join (path_join d ''doiget'') ''access.jsonl'') (config_dir_utf8 env))"

definition cache_dir_utf8 :: "(string \<Rightarrow> string option) \<Rightarrow> cli_stop + string" where
  "cache_dir_utf8 env =
     env_rung env ''DOIGET_CACHE_ROOT'' id
     (env_rung env ''XDG_CACHE_HOME'' (\<lambda>s. path_join s ''doiget'')
     (env_rung env ''LOCALAPPDATA'' (\<lambda>s. path_join (path_join s ''doiget'') ''cache'')
     (map_ok (\<lambda>h. path_join (path_join h ''.cache'') ''doiget'') (home_dir_utf8 env))))"

definition user_config_path :: "(string \<Rightarrow> string option) \<Rightarrow> string option" where
  "user_config_path env = (case config_dir_utf8 env of
     Inl _ \<Rightarrow> None | Inr d \<Rightarrow> Some (path_join (path_join d ''doiget'') ''config.toml''))"

datatype store_root_source = FromEnv | FromConfigFile | CwdDefault

fun source_label :: "store_root_source \<Rightarrow> string" where
  "source_label FromEnv = ''DOIGET_STORE_ROOT''"
| "source_label FromConfigFile = ''[store] root in config.toml''"
| "source_label CwdDefault = ''default: ./papers under the cwd''"

definition usable_store_root_env :: "string \<Rightarrow> string option" where
  "usable_store_root_env raw =
     (let s = str_trim raw in if s \<noteq> [] \<and> \<not> contains_str s ''${'' then Some s else None)"

text \<open>\<^verbatim>\<open>std::env::var(..).ok()\<close>.\<close>

definition env_text :: "(string \<Rightarrow> string option) \<Rightarrow> string \<Rightarrow> string option" where
  "env_text env key = (case env key of None \<Rightarrow> None | Some s \<Rightarrow> if is_utf8 s then Some s else None)"

text \<open>What the commands read besides the environment: the file, its parser, and the working directory.\<close>

record cli_files =
  cf_parse :: "string \<Rightarrow> raw_config option"
  cf_read :: "string \<Rightarrow> file_answer"
  cf_cwd :: "string option"

definition store_root_from_config :: "(string \<Rightarrow> string option) \<Rightarrow> cli_files \<Rightarrow> string option" where
  "store_root_from_config env files = Option.bind (user_config_path env) (\<lambda>path.
     case load_config (cf_parse files) (cf_read files) path of
       Inl _ \<Rightarrow> None
     | Inr cfg \<Rightarrow> map_option (expand_store_root env) (cfg_store_root cfg))"

definition resolve_store_root_with_source ::
  "(string \<Rightarrow> string option) \<Rightarrow> cli_files \<Rightarrow> cli_stop + string \<times> store_root_source" where
  "resolve_store_root_with_source env files =
     (case Option.bind (env_text env ''DOIGET_STORE_ROOT'') usable_store_root_env of
        Some root \<Rightarrow> Inr (root, FromEnv)
      | None \<Rightarrow> (case store_root_from_config env files of
          Some root \<Rightarrow> Inr (root, FromConfigFile)
        | None \<Rightarrow> (case cf_cwd files of
            None \<Rightarrow> Inl (Bail ''could not determine the current working directory'')
          | Some d \<Rightarrow>
              if is_utf8 d then Inr (path_join d ''papers'', CwdDefault)
              else Inl (Bail ''current directory path is not UTF-8''))))"

definition resolve_store_root :: "(string \<Rightarrow> string option) \<Rightarrow> cli_files \<Rightarrow> cli_stop + string" where
  "resolve_store_root env files = map_ok fst (resolve_store_root_with_source env files)"

definition ignored_store_root_env :: "(string \<Rightarrow> string option) \<Rightarrow> string option" where
  "ignored_store_root_env env = (case env_text env ''DOIGET_STORE_ROOT'' of
     None \<Rightarrow> None | Some raw \<Rightarrow> if usable_store_root_env raw = None then Some raw else None)"

subsection \<open>Links\<close>

definition slugify :: "string \<Rightarrow> string" where
  "slugify s = join_with ''-'' (filter (\<lambda>p. p \<noteq> []) (split_char CHR ''-''
     (concat (map (\<lambda>c. if ascii_char is_ascii_alphanumeric c then to_ascii_lowercase c else ''-'') (utf8_chars s)))))"

definition fetch_link_filename :: "string \<Rightarrow> string list \<Rightarrow> int option \<Rightarrow> string \<Rightarrow> string" where
  "fetch_link_filename paper_title as y key =
     (let surname = (case as of [] \<Rightarrow> []
            | a # _ \<Rightarrow> slugify (case split_whitespace a of [] \<Rightarrow> a | ws \<Rightarrow> last ws));
          yr = (case y of None \<Rightarrow> [] | Some i \<Rightarrow> int_text i);
          title_slug = join_with ''-'' (take 6 (split_char CHR ''-'' (slugify paper_title)));
          stem = surname @ yr;
          stem = (if stem \<noteq> [] \<and> title_slug \<noteq> [] then stem @ ''-'' else stem) @ title_slug;
          stem = trim_matches CHR ''-'' (concat (take 80 (utf8_chars stem))) in
      (if stem = [] then key else stem) @ ''.pdf'')"

text \<open>The entries of the user's directories as \<^verbatim>\<open>symlink_metadata\<close> sees them.\<close>

datatype dir_entry = Regular string | SymlinkTo string | Directory

type_synonym tree = "(string \<times> dir_entry) list"

text \<open>What the file system refuses: the directory, the removal, the symlink; and what a copy reads.\<close>

record link_io =
  li_mkdir_fails :: bool
  li_remove_fails :: bool
  li_symlink_fails :: bool
  li_copy :: "string option"

definition link_artifact ::
  "link_io \<Rightarrow> string \<Rightarrow> string \<Rightarrow> string \<Rightarrow> tree \<Rightarrow> tree \<times> (string + string \<times> string)" where
  "link_artifact io dir src name t =
     (if li_mkdir_fails io then (t, Inl ''creating link dir'')
      else
        let dst = path_join dir name;
            place = (\<lambda>t. if \<not> li_symlink_fails io then (AList.update dst (SymlinkTo src) t, Inr (dst, ''symlink''))
                     else (case li_copy io of
                         None \<Rightarrow> (t, Inl ''copying'')
                       | Some bytes \<Rightarrow> (AList.update dst (Regular bytes) t, Inr (dst, ''copy'')))) in
        (case map_of t dst of
           None \<Rightarrow> place t
         | Some (SymlinkTo _) \<Rightarrow>
             if li_remove_fails io then (t, Inl ''replacing existing symlink'') else place (AList.delete dst t)
         | Some _ \<Rightarrow> (t, Inl ''refusing to overwrite existing file'')))"

subsection \<open>What a link does\<close>

definition slug_char :: "char \<Rightarrow> bool" where
  "slug_char c \<longleftrightarrow> is_ascii_lowercase c \<or> is_ascii_digit c \<or> c = CHR ''-''"

lemma join_with_chars: "list_all P sep \<Longrightarrow> list_all (list_all P) ws \<Longrightarrow> list_all P (join_with sep ws)"
  by (induction sep ws rule: join_with.induct) auto

lemma split_char_chars: "list_all P s \<Longrightarrow> list_all (list_all P) (split_char c s)"
proof -
  assume "list_all P s"
  then have "list_all P (join_with [c] (split_char c s))" by simp
  moreover have "list_all P w" if "list_all P (join_with sep ws)" "w \<in> set ws" for w sep ws
    using that by (induction sep ws rule: join_with.induct) auto
  ultimately show ?thesis unfolding list_all_iff [of "list_all P"] by blast
qed

lemma slugify_chars: "list_all slug_char (slugify s)"
proof -
  let ?f = "\<lambda>c. if ascii_char is_ascii_alphanumeric c then to_ascii_lowercase c else ''-''"
  have "list_all slug_char (?f c)" for c
    by (auto simp: ascii_char_def slug_char_def to_ascii_lowercase_def to_ascii_lower_def ascii_class_defs
        split: list.splits)
  then have "list_all slug_char (concat (map ?f cs))" for cs
    by (induction cs) (simp_all only: list.map concat.simps list_all_append list.pred_inject)
  then have "list_all (list_all slug_char) (split_char CHR ''-'' (concat (map ?f (utf8_chars s))))"
    by (rule split_char_chars)
  then have "list_all (list_all slug_char) (filter (\<lambda>p. p \<noteq> []) (split_char CHR ''-'' (concat (map ?f (utf8_chars s)))))"
    unfolding list_all_iff [of "list_all slug_char"] by (metis filter_is_subset subsetD)
  then show ?thesis
    unfolding slugify_def by (intro join_with_chars) (simp add: slug_char_def)
qed

lemma slug_char_ascii: "slug_char c \<Longrightarrow> code c < 128"
  by (auto simp: slug_char_def ascii_class_defs)

lemma int_text_chars: "list_all slug_char (int_text i)"
proof -
  have "list_all slug_char (nat_text n)" for n
  proof (induction n rule: nat_text.induct)
    case (1 n)
    have "slug_char (char_of (48 + m))" if "m < 10" for m :: nat
      using that by (simp add: slug_char_def ascii_class_defs)
    with 1 show ?case by (subst nat_text.simps) auto
  qed
  then show ?thesis by (simp add: int_text_def slug_char_def)
qed

lemma trim_matches_ends: "trim_matches c s \<noteq> [] \<Longrightarrow> hd (trim_matches c s) \<noteq> c \<and> last (trim_matches c s) \<noteq> c"
proof -
  define u where "u = dropWhile (\<lambda>x. x = c) s"
  assume "trim_matches c s \<noteq> []"
  moreover have tm: "trim_matches c s = rev (dropWhile (\<lambda>x. x = c) (rev u))"
    by (simp only: trim_matches_def u_def)
  ultimately have ne: "dropWhile (\<lambda>x. x = c) (rev u) \<noteq> []" by simp
  have "last (trim_matches c s) \<noteq> c"
    using hd_dropWhile [OF ne] by (simp only: tm last_rev not_False_eq_True)
  moreover from ne have "u \<noteq> []" by auto
  then have "hd u \<noteq> c" using hd_dropWhile [of "\<lambda>x. x = c" s] by (simp only: u_def not_False_eq_True)
  moreover have "hd (trim_matches c s) = hd u"
  proof -
    obtain k where k: "dropWhile (\<lambda>x. x = c) (rev u) = drop k (rev u)" by (metis dropWhile_eq_drop)
    then have "trim_matches c s = take (length u - k) u"
      by (simp add: tm rev_drop)
    moreover from ne k have "0 < length u - k" by simp
    ultimately show ?thesis by (simp add: hd_take)
  qed
  ultimately show ?thesis by simp
qed

text \<open>The name of a link is a plain file name.  Whatever the title, the authors and the year are, it is made
  of at most eighty lower-case letters, digits and inner hyphens and ends in \<^verbatim>\<open>.pdf\<close>, so that it names neither
  another directory nor a hidden file; a record that gives no such name is linked under its safekey.\<close>

theorem link_name_is_plain:
  "\<exists>stem. fetch_link_filename paper_title as y key = stem @ ''.pdf''
     \<and> (stem = key \<or> (0 < length stem \<and> length stem \<le> 80 \<and> list_all slug_char stem
          \<and> hd stem \<noteq> CHR ''-'' \<and> last stem \<noteq> CHR ''-''))"
proof -
  define surname where "surname = (case as of [] \<Rightarrow> []
      | a # _ \<Rightarrow> slugify (case split_whitespace a of [] \<Rightarrow> a | ws \<Rightarrow> last ws))"
  define yr where "yr = (case y of None \<Rightarrow> [] | Some i \<Rightarrow> int_text i)"
  define title_slug where "title_slug = join_with ''-'' (take 6 (split_char CHR ''-'' (slugify paper_title)))"
  define stem where "stem = (if surname @ yr \<noteq> [] \<and> title_slug \<noteq> [] then (surname @ yr) @ ''-'' else surname @ yr) @ title_slug"
  define out where "out = trim_matches CHR ''-'' (concat (take 80 (utf8_chars stem)))"
  have "list_all slug_char surname" by (auto simp: surname_def slugify_chars split: list.split)
  moreover have "list_all slug_char yr" by (simp add: yr_def int_text_chars split: option.split)
  moreover have "list_all slug_char title_slug"
    unfolding title_slug_def
  proof (rule join_with_chars)
    show "list_all (list_all slug_char) (take 6 (split_char CHR ''-'' (slugify paper_title)))"
      using split_char_chars [OF slugify_chars] by (metis append_take_drop_id list_all_append)
  qed (simp add: slug_char_def)
  ultimately have chars: "list_all slug_char stem" by (simp add: stem_def slug_char_def)
  then have "utf8_chars stem = map (\<lambda>c. [c]) stem"
    by (intro utf8_chars_single) (auto simp: list_all_iff dest: slug_char_ascii)
  then have cut: "concat (take 80 (utf8_chars stem)) = take 80 stem"
    by (simp add: take_map)
  have "set out \<subseteq> set stem"
    using set_trim_matches [of "CHR ''-''" "take 80 stem"] set_take_subset [of 80 stem] by (auto simp: out_def cut)
  with chars have "list_all slug_char out" by (auto simp: list_all_iff)
  moreover have "length out \<le> 80"
    unfolding out_def cut trim_matches_def
    by (simp add: order_trans [OF length_dropWhile_le] order_trans [OF length_dropWhile_le])
  moreover have "fetch_link_filename paper_title as y key = (if out = [] then key else out) @ ''.pdf''"
    by (simp add: fetch_link_filename_def Let_def out_def stem_def title_slug_def yr_def surname_def)
  ultimately show ?thesis
    using trim_matches_ends [of "CHR ''-''"] by (cases "out = []") (auto simp: out_def)
qed

text \<open>Linking destroys no file.  Whatever the file system refuses, every regular file and directory of the
  user's is as it was afterwards, nothing but the one name is touched, and a link that could not be made
  because a file is in the way leaves everything as it was.\<close>

theorem linking_spares_files:
  assumes "link_artifact io dir src name t = (t', outcome)"
  shows "(\<forall>p e. map_of t p = Some e \<longrightarrow> (\<forall>s. e \<noteq> SymlinkTo s) \<longrightarrow> map_of t' p = Some e)
    \<and> (\<forall>p. p \<noteq> path_join dir name \<longrightarrow> map_of t' p = map_of t p)"
  using assms
  by (auto simp: link_artifact_def Let_def update_conv' delete_conv' split: if_splits option.splits dir_entry.splits)

definition no_symlinks :: link_io where
  "no_symlinks = \<lparr> li_mkdir_fails = False, li_remove_fails = False, li_symlink_fails = True, li_copy = Some ''new'' \<rparr>"

theorem linking_spares_files_witness:
  "map_of (fst (link_artifact no_symlinks ''refs'' ''/s/k.pdf'' ''a.pdf''
      [(''refs/a.pdf'', Regular ''mine'')])) ''refs/a.pdf'' = Some (Regular ''mine'')"
  using linking_spares_files [of no_symlinks "''refs''" "''/s/k.pdf''" "''a.pdf''" "[(''refs/a.pdf'', Regular ''mine'')]",
      OF prod.collapse [symmetric]]
  by simp

subsection \<open>Where they fall short\<close>

text \<open>
  A blank \<^verbatim>\<open>XDG_CACHE_HOME\<close> is a cache below the working directory and a blank \<^verbatim>\<open>DOIGET_LOG_PATH\<close> an empty path,
  where the configuration directory treats a blank variable as unset.
\<close>

theorem blank_variables_are_paths:
  "cache_dir_utf8 [''XDG_CACHE_HOME'' \<mapsto> [], ''HOME'' \<mapsto> ''/home/u''] = Inr ''doiget''
   \<and> resolve_log_path [''DOIGET_LOG_PATH'' \<mapsto> [], ''HOME'' \<mapsto> ''/home/u''] = Inr []
   \<and> config_dir [''XDG_CONFIG_HOME'' \<mapsto> [], ''HOME'' \<mapsto> ''/home/u''] = Inr ''/home/u/.config''"
  by code_simp

text \<open>
  The target of a symlink is read from the directory the link is in.  With a relative store root the link
  names a path below that directory, where nothing is.
\<close>

definition link_target :: "string \<Rightarrow> string \<Rightarrow> string" where
  "link_target dir src = path_join dir src"

theorem relative_store_makes_a_dangling_link:
  "let t = [(''papers/k.pdf'', Regular ''%PDF''), (''refs'', Directory)];
       t' = fst (link_artifact \<lparr> li_mkdir_fails = False, li_remove_fails = False, li_symlink_fails = False, li_copy = None \<rparr>
              ''refs'' ''papers/k.pdf'' ''a.pdf'' t) in
   map_of t' ''refs/a.pdf'' = Some (SymlinkTo ''papers/k.pdf'')
   \<and> map_of t' (link_target ''refs'' ''papers/k.pdf'') = None"
  by code_simp

text \<open>A symlink that is not the program's own is replaced without a word.\<close>

theorem foreign_symlink_is_replaced:
  "map_of (fst (link_artifact \<lparr> li_mkdir_fails = False, li_remove_fails = False, li_symlink_fails = False, li_copy = None \<rparr>
     ''refs'' ''/s/k.pdf'' ''a.pdf'' [(''refs/a.pdf'', SymlinkTo ''/home/u/notes.pdf'')])) ''refs/a.pdf''
   = Some (SymlinkTo ''/s/k.pdf'')"
  by code_simp

end
