(* ===== verification/Fetch_Command.thy ===== *)
theory Fetch_Command
  imports Cli_Env Dry_Run Pubmed
begin

text \<open>
  \<^verbatim>\<open>doiget fetch\<close> (\<^verbatim>\<open>crates/doiget-cli/src/commands/fetch.rs\<close>, with the reference parsing of
  \<^verbatim>\<open>commands/mod.rs\<close>): the session rows around one fetch, what is printed, and the exit status.

  A run has the world and the user's directories it leaves, the objects it prints on standard output, the
  lines it prints on standard error, and its end.  The texts of parse errors are a parameter.
\<close>

datatype cli_end = Finished | Stopped cli_stop | Crashed

record cli_run =
  cr_world :: world
  cr_tree :: tree
  cr_out :: "json list"
  cr_err :: "string list"
  cr_end :: cli_end

fun exit_status :: "cli_end \<Rightarrow> nat option" where
  "exit_status Finished = Some 0"
| "exit_status (Stopped s) = Some (main_exit (Inl s :: cli_stop + unit))"
| "exit_status Crashed = None"

record cli_env =
  ce_orch :: orch_env
  ce_files :: cli_files
  ce_link :: "effect list \<Rightarrow> link_io"
  ref_error_text :: "ref_parse_error \<Rightarrow> string"
  float_text :: "nat \<Rightarrow> string"

abbreviation ce_vars :: "cli_env \<Rightarrow> string \<Rightarrow> string option" where
  "ce_vars ce \<equiv> vars (fe (ce_orch ce))"

subsection \<open>The reference\<close>

definition error_line :: "error_code \<Rightarrow> string \<Rightarrow> string" where
  "error_line c why = ''error['' @ code_as_wire c @ '']: '' @ why"

definition parse_ref_or_exit :: "cli_env \<Rightarrow> string \<Rightarrow> string list \<times> (cli_stop + paper_ref)" where
  "parse_ref_or_exit ce input = (case ref_parse input of
     Inr r \<Rightarrow> ([], Inr r)
   | Inl e \<Rightarrow>
       ([if pubmed_parse (fe (ce_orch ce)) input \<noteq> None
         then error_line InvalidRef (input @ '' is a PubMed id; `doiget fetch` and `doiget cite` resolve it to its DOI -- this command takes the DOI itself'')
         else error_line InvalidRef (''invalid ref: '' @ ref_error_text ce e)],
        Inl (CliExit (cli_exit_code InvalidRef))))"

definition parse_ref_or_pubmed ::
  "cli_env \<Rightarrow> string \<Rightarrow> bool \<Rightarrow> world \<Rightarrow> world \<times> string list \<times> (cli_stop + paper_ref) res" where
  "parse_ref_or_pubmed ce input network w =
     (let fail = (\<lambda>w c why. (w, [error_line c why], Ok (Inl (CliExit (cli_exit_code c))))) in
      case pubmed_parse (fe (ce_orch ce)) input of
        None \<Rightarrow> (case parse_ref_or_exit ce input of (ls, r) \<Rightarrow> (w, ls, Ok r))
      | Some i \<Rightarrow>
          if \<not> network then fail w InvalidRef (pubmed_display i @
            '' becomes a DOI through one NCBI lookup, and --dry-run makes no request; pass the DOI'')
          else (case lookup_in_session (ce_orch ce) i w of
              (w, Ok (FoundDoi d)) \<Rightarrow>
                (w, [''note: '' @ pubmed_display i @ '' is DOI '' @ doi_as_str d], Ok (Inr (RefDoi d)))
            | (w, Ok found) \<Rightarrow>
                fail w (if found = lookup.NoRecord then error_code.NotFound else NotImplemented) (or_str (lookup_reason found i) [])
            | (w, Err e) \<Rightarrow> fail w (fetch_error_code e)
                (''looking up '' @ pubmed_display i @ '' at NCBI failed: '' @ error_text (ce_orch ce) e)
            | (w, Panic) \<Rightarrow> (w, [], Panic)))"

subsection \<open>What is printed\<close>

definition ref_label :: "paper_ref \<Rightarrow> string" where
  "ref_label r = (case r of RefArxiv a \<Rightarrow> ''arxiv:'' @ arxiv_as_str a | RefDoi d \<Rightarrow> ''doi:'' @ doi_as_str d)"

fun denial_reason_wire :: "denial_reason \<Rightarrow> string" where
  "denial_reason_wire RedirectNotInAllowlist = ''redirect_not_in_allowlist''"
| "denial_reason_wire InsecureScheme = ''insecure_scheme''"
| "denial_reason_wire HostInBlockList = ''host_in_block_list''"
| "denial_reason_wire _ = ''policy_denied''"

definition SECTION_SIGN :: string where
  "SECTION_SIGN = [CHR 0xC2, CHR 0xA7]"

definition denial_note_lines :: "denial_context \<Rightarrow> string option \<Rightarrow> string list" where
  "denial_note_lines dc config_file =
     (let host = or_str (attempted dc) ''(unknown)'';
          note = (case expected dc of
              Some (e # es) \<Rightarrow> ''  = note: attempted '' @ host @ ''; allowed: '' @ join_with '', '' (e # es)
            | _ \<Rightarrow> ''  = note: attempted '' @ host) in
      if reason dc \<noteq> RedirectNotInAllowlist then [note]
      else
        [note, ''  = help: that host is not on the allowlist yet; widen it in '' @ or_str config_file ''your doiget config.toml'']
        @ (case attempted dc of
             Some h \<Rightarrow> (case trust_flag_for_host h of
                 Some (flag, pattern, why) \<Rightarrow>
                   [''          [network] '' @ flag @ '' = true   # covers '' @ pattern @ '' ('' @ why @ '')'']
               | None \<Rightarrow> [''          # neither trust_academic_repos nor trust_oa_registries covers this host''])
           | None \<Rightarrow>
               [''          [network] trust_academic_repos = true   # 15 curated academic suffixes'',
                ''          [network] trust_oa_registries  = true   # DOAJ, SciELO, Zenodo, OSF, HAL''])
        @ (if attempted dc \<noteq> None
           then map (\<lambda>(pattern, why). ''          [[network.additional_hosts]] host = \"'' @ pattern @ ''\"   # '' @ why)
                  (widening_suggestions host)
           else [])
        @ [''          see docs/CONFIG.md '' @ SECTION_SIGN @ ''3.1 for both''])"

definition render_fetch_error :: "cli_env \<Rightarrow> fetch_error \<Rightarrow> string list" where
  "render_fetch_error ce e = error_line (fetch_error_code e) (error_text (ce_orch ce) e)
     # (case fetch_denial e of None \<Rightarrow> [] | Some dc \<Rightarrow> denial_note_lines dc (user_config_path (ce_vars ce)))"

definition blocked_trace_lines :: "source_attempt list \<Rightarrow> string \<Rightarrow> string list" where
  "blocked_trace_lines as message =
     (if contains_str message ''429''
      then [''  = suggest: HTTP 429 is a rate limit, not a policy block '' @ EM_DASH @
            '' it is transient. Retry later, and set DOIGET_CONTACT_EMAIL for the polite pool.''] else [])
     @ (if as = [] then []
        else (''  = note: '' @ (if nothing_was_consulted as then ''no other source was consulted for this DOI''
                else ''the other sources were consulted and offered no alternative copy'') @ '':'')
             # map (\<lambda>l. ''  '' @ l) (str_lines (render_attempts as)))"

definition render_blocked_error ::
  "cli_env \<Rightarrow> paper_ref \<Rightarrow> paper_outcome \<Rightarrow> error_code \<Rightarrow> string \<Rightarrow> denial_context option \<Rightarrow> string option \<Rightarrow> string list" where
  "render_blocked_error ce r out c message denial suggested =
     [error_line c (ref_label r @
        (case map_option reason denial of
           Some rs \<Rightarrow> if rs \<in> {RedirectNotInAllowlist, InsecureScheme, HostInBlockList}
             then '': an OA PDF was found but its host is blocked by supply-chain policy ('' @ denial_reason_wire rs @ ''): '' @ message
             else '': an OA PDF was found but could not be retrieved: '' @ message
         | None \<Rightarrow> '': an OA PDF was found but could not be retrieved: '' @ message))]
     @ (case denial of None \<Rightarrow> [] | Some dc \<Rightarrow> denial_note_lines dc (user_config_path (ce_vars ce)))
     @ [''  = note: metadata-only record written to '' @ po_path out]
     @ (case suggested of None \<Rightarrow> []
        | Some a \<Rightarrow> [''  = suggest: Try fetching the arXiv version: doiget fetch arxiv:'' @ a])
     @ blocked_trace_lines (po_attempts out) message"

text \<open>The sources that were not consulted: those with a place in the order, before and after the others.\<close>

definition rank_unconsulted :: "source_attempt list \<Rightarrow> string list \<times> string list \<times> string list" where
  "rank_unconsulted as =
     (let names = map sa_source (filter (\<lambda>a. required_env (sa_outcome a) \<noteq> None) as) in
      (filter (\<lambda>s. s = ''openalex'') names,
       sort (filter (\<lambda>s. s \<noteq> ''openalex'' \<and> s \<noteq> ''core'') names),
       filter (\<lambda>s. s = ''core'') names))"

definition pad_to :: "nat \<Rightarrow> string \<Rightarrow> string" where
  "pad_to n s = s @ replicate (n - length (utf8_chars s)) CHR '' ''"

definition widening_assignment :: "string \<Rightarrow> string" where
  "widening_assignment v = (if starts_with v ''DOIGET_KEY_'' then v @ ''=<your-api-key>'' else v @ ''=1'')"

definition not_found_trace_lines :: "cli_env \<Rightarrow> paper_ref \<Rightarrow> source_attempt list \<Rightarrow> string list" where
  "not_found_trace_lines ce r as =
     (if as = [] then []
      else
        let wanted = widening_env as;
            unset = filter (\<lambda>v. ce_vars ce v = None) wanted;
            already = filter (\<lambda>v. ce_vars ce v \<noteq> None) wanted;
            (front, middle, rear) = rank_unconsulted as in
        [''  = note: no OA copy found. sources this run:''] @ map (\<lambda>l. ''  '' @ l) (str_lines (render_attempts as))
        @ (if unset = [] then [] else
            [''  = suggest: to widen the search:'',
             ''      '' @ join_with '' '' (map widening_assignment unset) @ '' doiget fetch '' @
               (case r of RefArxiv a \<Rightarrow> arxiv_as_str a | RefDoi d \<Rightarrow> doi_as_str d)])
        @ (if already = [] then [] else
            [''  = note: '' @ join_with '', '' already @ '' already set, but the source is still off -- this binary was built without the Cargo feature that provides it. Widening needs a differently-built binary, not another variable.''])
        @ (if front = [] \<and> middle = [] \<and> rear = [] then [] else
            [''  = note: of the sources not consulted:'']
            @ map (\<lambda>s. ''      1. '' @ pad_to 12 s @ '' lists every location a work has -- a lookup, not a guess'') front
            @ (if middle = [] then [] else [''      then, in NO particular order: '' @ join_with ''  '' middle])
            @ map (\<lambda>s. ''      last: '' @ pad_to 9 s @ '' the broadest index outside Unpaywall, so never the first try'') rear
            @ (if middle = [] then [] else
                [''  = note: the middle is unordered because nothing in this run distinguishes those sources -- venue, affiliation and funder would, and none of them reach here. An invented order would read as information.''])))"

definition metadata_quality_lines :: "(string \<times> string) list \<Rightarrow> string list \<Rightarrow> bool \<Rightarrow> string list" where
  "metadata_quality_lines rep flags repair_enabled =
     map (\<lambda>(field, source). ''note: repaired '' @ field @ '' from '' @ source @
        '': the Crossref record carries U+FFFD where the publisher's deposit lost a character'') rep
     @ (let damaged = filter_map (strip_prefix ''replacement_char:'') flags in
        if damaged = [] then []
        else [''warning: '' @ join_with '', '' damaged @ '' still carr'' @ (if length damaged = 1 then ''ies'' else ''y'') @
              '' U+FFFD where the publisher's deposit lost a character; '' @
              (if repair_enabled then ''no enabled source had a copy that matches it character for character''
               else ''set DOIGET_ENABLE_S2=1 to try a repair from Semantic Scholar'')])"

definition identity_line :: "paper_outcome \<Rightarrow> string" where
  "identity_line out = ''     \"'' @ po_title out @ ''\"'' @
     (case po_authors out of [] \<Rightarrow> [] | [a] \<Rightarrow> '' by '' @ a | a # _ \<Rightarrow> '' by '' @ a @ '' et al.'') @
     (case po_year out of None \<Rightarrow> [] | Some y \<Rightarrow> '' ('' @ int_text y @ '')'') @
     ''  ['' @ po_source out @ ''/'' @ or_str (po_oa_status out) ''?'' @ '']''"

definition fetched_line :: "paper_ref \<Rightarrow> paper_outcome \<Rightarrow> string \<Rightarrow> string" where
  "fetched_line r out via =
     ''fetched '' @ ref_label r @ '' ('' @ nat_text (po_size_bytes out) @ '' bytes)'' @ via @ '' -> '' @ po_path out"

definition found_by_words :: "found_by \<Rightarrow> string" where
  "found_by_words f = map (\<lambda>c. if c = CHR ''_'' then CHR '' '' else c) (found_by_as_str f)"

definition emit_success_line :: "cli_env \<Rightarrow> capability_profile option \<Rightarrow> paper_ref \<Rightarrow> paper_outcome \<Rightarrow> string list" where
  "emit_success_line ce env_profile r out =
     (case po_leg out of
        Fetched \<Rightarrow> [fetched_line r out []]
      | NoOaUrl \<Rightarrow> (''fetched '' @ ref_label r @ '' (metadata-only: no OA PDF available) -> '' @ po_path out)
          # not_found_trace_lines ce r (po_attempts out)
      | PreprintFallback arx _ by \<Rightarrow>
          [fetched_line r out ('' via arXiv preprint arxiv:'' @ arx @ '' (found by '' @ found_by_words by @ '')'')]
      | PreprintDoiFallback d platform _ by \<Rightarrow>
          [fetched_line r out ('' via '' @ or_str platform ''its'' @ '' preprint doi:'' @ doi_as_str d @
             '' (found by '' @ found_by_words by @ '')'')]
      | TdmFetched src _ \<Rightarrow>
          [fetched_line r out ('' via '' @ src @ '' under your TDM agreement (no open copy available)'')]
      | Blocked c message denial suggested \<Rightarrow>
          render_blocked_error ce r out (effective_blocked_code c denial) message denial suggested)
     @ (if is_clean_success out then [identity_line out] else [])
     @ map (\<lambda>l. ''     '' @ l) (metadata_quality_lines (po_repaired out) (po_quality out)
         (case env_profile of None \<Rightarrow> False
          | Some p \<Rightarrow> semantic_scholar (metadata p) \<or> openalex (metadata p)))"

subsection \<open>The command\<close>

definition session_row :: "log_event \<Rightarrow> bool \<Rightarrow> string option \<Rightarrow> string option \<Rightarrow> row_input" where
  "session_row ev ok about cd = \<lparr> i_event = ev, i_result = (if ok then LogOk else LogErr), i_capability = Oa,
     i_ref = about, i_source = None, i_error_code = cd, i_size_bytes = None, i_license = None,
     i_store_path = None, i_canonical_digest = None \<rparr>"

definition log_session_start :: "orch_env \<Rightarrow> string option \<Rightarrow> unit act" where
  "log_session_start env about = log_row_act (fe env) (session_row SessionStart True about None)"

definition log_session_end :: "orch_env \<Rightarrow> bool \<Rightarrow> string option \<Rightarrow> string option \<Rightarrow> world \<Rightarrow> world" where
  "log_session_end env ok about cd w = fst (log_append (fe env) (session_row SessionEnd ok about cd) w)"

definition emit_link_result :: "cli_env \<Rightarrow> paper_ref \<Rightarrow> paper_outcome \<Rightarrow> string \<Rightarrow> world \<Rightarrow> tree \<Rightarrow> tree \<times> string list" where
  "emit_link_result ce r out dir w t =
     (if (case po_leg out of NoOaUrl \<Rightarrow> True | Blocked _ _ _ _ \<Rightarrow> True | _ \<Rightarrow> False)
      then (t, [''note: --link skipped for '' @ ref_label r @ '' (no PDF '' @ EM_DASH @ '' metadata-only fetch)''])
      else (case link_artifact (ce_link ce (effects w)) dir (po_path out)
                (fetch_link_filename (po_title out) (po_authors out) (po_year out) (po_safekey out)) t of
          (t, Inr (path, kind)) \<Rightarrow> (t, [''linked '' @ ref_label r @ '' -> '' @ path @ '' ('' @ kind @ '')''])
        | (t, Inl e) \<Rightarrow> (t, [''warning: --link failed for '' @ ref_label r @ '': '' @ e])))"

text \<open>What the fetch answered, as the closing row and the exit status report it.\<close>

definition session_ok :: "fetch_error + paper_outcome \<Rightarrow> bool" where
  "session_ok x = (case x of Inl _ \<Rightarrow> False | Inr out \<Rightarrow> is_clean_success out)"

definition session_err :: "fetch_error + paper_outcome \<Rightarrow> error_code option" where
  "session_err x = (case x of Inl e \<Rightarrow> Some (fetch_error_code e) | Inr out \<Rightarrow> reported_error_code out)"

definition fetch_result_lines ::
  "cli_env \<Rightarrow> capability_profile option \<Rightarrow> paper_ref \<Rightarrow> string option \<Rightarrow> fetch_error + paper_outcome \<Rightarrow> world \<Rightarrow> tree
     \<Rightarrow> tree \<times> string list \<times> cli_end" where
  "fetch_result_lines ce env_profile r link x w t = (case x of
     Inr out \<Rightarrow> (case po_leg out of
         Blocked c message denial suggested \<Rightarrow>
           (let c = effective_blocked_code c denial in
            (t, render_blocked_error ce r out c message denial suggested, Stopped (CliExit (cli_exit_code c))))
       | _ \<Rightarrow> (case (case link of None \<Rightarrow> (t, []) | Some dir \<Rightarrow> emit_link_result ce r out dir w t) of
           (t, ls) \<Rightarrow> (t, emit_success_line ce env_profile r out @ ls, Finished)))
   | Inl e \<Rightarrow> (t, render_fetch_error ce e, Stopped (CliExit (cli_exit_code (fetch_error_code e)))))"

definition ends :: "cli_end \<Rightarrow> world \<Rightarrow> tree \<Rightarrow> string list \<Rightarrow> cli_run" where
  "ends e w t ls = \<lparr> cr_world = w, cr_tree = t, cr_out = [], cr_err = ls, cr_end = e \<rparr>"

definition fetch_command ::
  "cli_env \<Rightarrow> capability_profile \<Rightarrow> string \<Rightarrow> bool \<Rightarrow> bool \<Rightarrow> string option \<Rightarrow> world \<Rightarrow> tree \<Rightarrow> cli_run" where
  "fetch_command ce profile input dry force link w t =
     (let env = ce_orch ce; root = fs_root (the_store env) in
      case parse_ref_or_pubmed ce input (\<not> dry) w of
        (w, ls, Ok (Inr r)) \<Rightarrow>
          (case resolve_store_root (ce_vars ce) (ce_files ce) of
             Inl stop \<Rightarrow> ends (Stopped stop) w t ls
           | Inr planned_root \<Rightarrow>
               if dry
               then \<lparr> cr_world = w, cr_tree = t,
                      cr_out = [build_dry_run_envelope (float_text ce) r
                        (build_fetch_plan (sha (fe env)) (hx (fe env)) r planned_root)],
                      cr_err = ls, cr_end = Finished \<rparr>
               else (case log_session_start env (Some (as_input_str r)) w of
                   (w, Ok _) \<Rightarrow> (case attempt (fetch_paper_with env r profile root force) w of
                       (w, Ok x) \<Rightarrow>
                         (let w = log_session_end env (session_ok x) (Some (as_input_str r))
                                    (map_option code_as_wire (session_err x)) w in
                          case fetch_result_lines ce (Some profile) r link x w t of
                            (t, rs, e) \<Rightarrow> ends e w t (ls @ rs))
                     | (w, _) \<Rightarrow> ends Crashed w t ls)
                 | (w, Err _) \<Rightarrow> ends (Stopped (Bail ''appending SessionStart row'')) w t ls
                 | (w, Panic) \<Rightarrow> ends Crashed w t ls))
      | (w, ls, Ok (Inl stop)) \<Rightarrow> ends (Stopped stop) w t ls
      | (w, ls, _) \<Rightarrow> ends Crashed w t ls)"

subsection \<open>What the command promises\<close>

lemma log_session_start_steps:
  "log_session_start env about w = (w', r) \<Longrightarrow>
     \<exists>ok. effects w' = effects w @ [Append (session_row SessionStart True about None) ok]"
  by (auto simp: log_session_start_def log_row_act_def log_append_def split: prod.splits sum.splits)

lemma log_session_end_step:
  "\<exists>ok. effects (log_session_end env k about cd w) = effects w @ [Append (session_row SessionEnd k about cd) ok]"
  by (auto simp: log_session_end_def log_append_def split: prod.splits)

text \<open>A dry run asks nobody, whatever the reference is.\<close>

lemma dry_parse_is_silent: "parse_ref_or_pubmed ce input False w = (w', ls, x) \<Longrightarrow> w' = w"
  by (auto simp: parse_ref_or_pubmed_def Let_def split: option.splits prod.splits)

text \<open>A dry run changes nothing.  It leaves the log, the store, the files and the trace of effects as they
  were (it makes no request, takes no token and writes no row), and it prints one object, the plan of the fetch,
  exactly when the reference parses and the store has a place.\<close>

theorem dry_run_changes_nothing:
  "cr_world (fetch_command ce profile input True force link w t) = w
   \<and> cr_tree (fetch_command ce profile input True force link w t) = t
   \<and> cr_out (fetch_command ce profile input True force link w t)
     = (case (parse_ref_or_pubmed ce input False w, resolve_store_root (ce_vars ce) (ce_files ce)) of
          ((_, _, Ok (Inr r)), Inr root) \<Rightarrow>
            [build_dry_run_envelope (float_text ce) r
              (build_fetch_plan (sha (fe (ce_orch ce))) (hx (fe (ce_orch ce))) r root)]
        | _ \<Rightarrow> [])"
proof -
  obtain ls x where "parse_ref_or_pubmed ce input False w = (w, ls, x)"
    using dry_parse_is_silent by (metis prod.exhaust)
  then show ?thesis
    by (cases x) (auto simp: fetch_command_def Let_def ends_def split: sum.split)
qed

lemma blocked_code_is_reported:
  "reported_error_code out = (case po_leg out of Blocked c _ denial _ \<Rightarrow> Some (effective_blocked_code c denial) | _ \<Rightarrow> None)"
  by (simp add: reported_error_code_def effective_blocked_code_def split: pdf_leg_status.split)

lemma result_end:
  "snd (snd (fetch_result_lines ce p r link x w t)) = (case session_err x of
      None \<Rightarrow> Finished | Some c \<Rightarrow> Stopped (CliExit (cli_exit_code c)))"
  "session_ok x \<longleftrightarrow> session_err x = None"
  by (auto simp: fetch_result_lines_def session_err_def session_ok_def blocked_code_is_reported is_clean_success_def
      Let_def split: sum.split pdf_leg_status.split prod.split)

lemma cli_exit_code_positive: "0 < cli_exit_code c"
  by (cases c) (simp_all add: cli_exit_code_def)

lemma fetch_command_run:
  assumes "run = fetch_command ce profile input False force link w t"
    and "parse_ref_or_pubmed ce input True w = (w1, ls, Ok (Inr r))"
    and "is_ok (resolve_store_root (ce_vars ce) (ce_files ce))"
    and "log_session_start (ce_orch ce) (Some (as_input_str r)) w1 = (w2, Ok ())"
    and "attempt (fetch_paper_with (ce_orch ce) r profile (fs_root (the_store (ce_orch ce))) force) w2 = (w3, Ok x)"
  shows "cr_world run = log_session_end (ce_orch ce) (session_ok x) (Some (as_input_str r))
           (map_option code_as_wire (session_err x)) w3
    \<and> cr_end run = (case session_err x of None \<Rightarrow> Finished | Some c \<Rightarrow> Stopped (CliExit (cli_exit_code c)))"
proof -
  obtain root where root: "resolve_store_root (ce_vars ce) (ce_files ce) = Inr root"
    using assms(3) by (auto simp: is_ok_iff)
  let ?w = "log_session_end (ce_orch ce) (session_ok x) (Some (as_input_str r)) (map_option code_as_wire (session_err x)) w3"
  obtain t' rs e where res: "fetch_result_lines ce (Some profile) r link x ?w t = (t', rs, e)"
    by (metis surj_pair)
  then have "e = (case session_err x of None \<Rightarrow> Finished | Some c \<Rightarrow> Stopped (CliExit (cli_exit_code c)))"
    using result_end(1) [of ce "Some profile" r link x ?w t] by simp
  with assms(2,4,5) res root show ?thesis
    unfolding assms(1) by (simp add: fetch_command_def Let_def ends_def)
qed

text \<open>C40: The exit status says what the log says.  When a fetch has run, the last thing it does to the log is to
  append the row that ends the session; that row names the reference, and reports success exactly when the
  command exits with 0, and otherwise the error code whose exit status the command exits with.\<close>

theorem exit_status_agrees_with_the_log:
  assumes "run = fetch_command ce profile input False force link w t"
    and "parse_ref_or_pubmed ce input True w = (w1, ls, Ok (Inr r))"
    and "is_ok (resolve_store_root (ce_vars ce) (ce_files ce))"
    and "log_session_start (ce_orch ce) (Some (as_input_str r)) w1 = (w2, Ok ())"
    and "attempt (fetch_paper_with (ce_orch ce) r profile (fs_root (the_store (ce_orch ce))) force) w2 = (w3, Ok x)"
  shows "\<exists>row ok. last (effects (cr_world run)) = Append row ok
    \<and> i_event row = SessionEnd \<and> i_ref row = Some (as_input_str r)
    \<and> (i_result row = LogOk \<longleftrightarrow> exit_status (cr_end run) = Some 0)
    \<and> i_error_code row = map_option code_as_wire (session_err x)
    \<and> exit_status (cr_end run) = Some (case session_err x of None \<Rightarrow> 0 | Some c \<Rightarrow> cli_exit_code c)"
proof -
  note run = fetch_command_run [OF assms]
  let ?row = "session_row SessionEnd (session_ok x) (Some (as_input_str r)) (map_option code_as_wire (session_err x))"
  obtain ok where "last (effects (cr_world run)) = Append ?row ok"
    using run log_session_end_step [of "ce_orch ce" "session_ok x" "Some (as_input_str r)"
        "map_option code_as_wire (session_err x)" w3] by auto
  moreover have "exit_status (cr_end run) = Some (case session_err x of None \<Rightarrow> 0 | Some c \<Rightarrow> cli_exit_code c)"
    using run by (simp split: option.split)
  moreover have "i_result ?row = LogOk \<longleftrightarrow> session_err x = None"
    using result_end(2) [of x] by (simp add: session_row_def)
  ultimately show ?thesis
    using cli_exit_code_positive
    by (intro exI [of _ ?row] exI [of _ ok]) (auto simp: session_row_def split: option.splits)
qed

subsection \<open>A run\<close>

definition demo_cli :: cli_env where
  "demo_cli = \<lparr> ce_orch = demo_orch, ce_files = \<lparr> cf_parse = (\<lambda>_. None), cf_read = (\<lambda>_. file_answer.NotFound), cf_cwd = Some ''/w'' \<rparr>,
     ce_link = (\<lambda>_. no_symlinks), ref_error_text = (\<lambda>_. ''bad''), float_text = nat_text \<rparr>"

definition demo_started :: world where
  "demo_started = fst (log_session_start demo_orch (Some ''10.1234/x'') demo_world)"

lemma demo_command:
  "parse_ref_or_pubmed demo_cli ''10.1234/x'' True demo_world = (demo_world, [], Ok (Inr (RefDoi (Doi ''10.1234/x''))))
   \<and> is_ok (resolve_store_root (ce_vars demo_cli) (ce_files demo_cli))
   \<and> log_session_start demo_orch (Some ''10.1234/x'') demo_world = (demo_started, Ok ())
   \<and> (case attempt (fetch_paper_with demo_orch (RefDoi (Doi ''10.1234/x'')) demo_profile (fs_root (the_store demo_orch)) False)
       demo_started of (_, Ok (Inl e)) \<Rightarrow> fetch_error_code e = error_code.NotFound | _ \<Rightarrow> False)"
  by code_simp

lemmas demo_fetch_steps = demo_command [THEN conjunct1] demo_command [THEN conjunct2, THEN conjunct1]
  demo_command [THEN conjunct2, THEN conjunct2, THEN conjunct1]
lemmas demo_fetched = demo_command [THEN conjunct2, THEN conjunct2, THEN conjunct2]

theorem exit_status_agrees_with_the_log_witness:
  "exit_status (cr_end (fetch_command demo_cli demo_profile ''10.1234/x'' False False None demo_world [])) = Some 1"
proof -
  let ?fetch = "attempt (fetch_paper_with demo_orch (RefDoi (Doi ''10.1234/x'')) demo_profile (fs_root (the_store demo_orch)) False)
       demo_started"
  obtain w3 e where fetched: "?fetch = (w3, Ok (Inl e))" and code: "fetch_error_code e = error_code.NotFound"
    using demo_fetched by (cases ?fetch; cases "snd ?fetch") (auto split: sum.splits)
  have start: "log_session_start (ce_orch demo_cli) (Some (as_input_str (RefDoi (Doi ''10.1234/x'')))) demo_world
      = (demo_started, Ok ())"
    using demo_fetch_steps(3) by (simp add: demo_cli_def)
  have fetch: "attempt (fetch_paper_with (ce_orch demo_cli) (RefDoi (Doi ''10.1234/x'')) demo_profile
      (fs_root (the_store (ce_orch demo_cli))) False) demo_started = (w3, Ok (Inl e))"
    using fetched by (simp add: demo_cli_def)
  from exit_status_agrees_with_the_log [OF refl demo_fetch_steps(1,2) start fetch, of None "[]"] code
  show ?thesis by (auto simp: session_err_def cli_exit_code_def)
qed

subsection \<open>Where it falls short\<close>

text \<open>
  Any message that contains the digits 429 is explained as a rate limit, as the address of a refused connection
  may.
\<close>

theorem digits_read_as_rate_limit:
  "blocked_trace_lines [] ''error sending request for url (https://aip.org/10.1429/1.5)'' \<noteq> []"
  by code_simp

text \<open>
  A log that cannot be written when the session starts ends the command with 1, though \<^verbatim>\<open>docs/ERRORS.md\<close>
  reserves 4 for it.
\<close>

theorem unwritable_log_exits_with_1:
  assumes "parse_ref_or_pubmed ce input True w = (w1, ls, Ok (Inr r))"
    and "is_ok (resolve_store_root (ce_vars ce) (ce_files ce))"
    and "log_session_start (ce_orch ce) (Some (as_input_str r)) w1 = (w2, Err e)"
  shows "exit_status (cr_end (fetch_command ce profile input False force link w t)) = Some 1"
  using assms by (auto simp: fetch_command_def ends_def is_ok_iff)

end
