(* ===== verification/Export.thy ===== *)
theory Export
  imports Fetch_Command
begin

text \<open>
  Exporting the store as a bibliography: the key options of \<^verbatim>\<open>crates/doiget-cli/src/commands/mod.rs\<close> and the
  commands \<^verbatim>\<open>bib\<close> and \<^verbatim>\<open>csl\<close>.  Notes and warnings on standard error are not modelled, but for the entries
  without an abbreviation.  \<open>exists\<close> is \<^verbatim>\<open>Path::exists\<close>.
\<close>

subsection \<open>Key options\<close>

record key_options =
  ko_key :: "string option"
  ko_template :: "string option"
  ko_file_field :: "string option"
  ko_file_always :: bool
  ko_journal_abbrev :: bool

definition with_config_defaults ::
  "text_env \<Rightarrow> (string \<Rightarrow> string option) \<Rightarrow> cli_files \<Rightarrow> key_options \<Rightarrow> cli_stop + key_options" where
  "with_config_defaults te env files ko =
     (if (case ko_key ko of None \<Rightarrow> False | Some k \<Rightarrow> \<not> is_valid_key k) then Inl (Bail ''--key cannot be a BibTeX key'')
      else
        let ko = (if ko_template ko = None \<or> ko_file_field ko = None
              then (case user_config_path env of
                  None \<Rightarrow> ko
                | Some path \<Rightarrow> (case load_config (cf_parse files) (cf_read files) path of
                    Inl _ \<Rightarrow> ko
                  | Inr cfg \<Rightarrow>
                      ko\<lparr>ko_template := (if ko_template ko = None \<and> ko_key ko = None then cite_key_template cfg else ko_template ko),
                         ko_file_field := (if ko_file_field ko = None then cite_file_field cfg else ko_file_field ko)\<rparr>))
              else ko) in
        (case ko_template ko of
           None \<Rightarrow> Inr ko
         | Some t \<Rightarrow> (case validate_template te t of Inl _ \<Rightarrow> Inl (Bail ''key template'') | Inr _ \<Rightarrow> Inr ko)))"

text \<open>The abbreviation on record, and the entry it is missing from.\<close>

definition short_journal :: "metadata \<Rightarrow> string \<Rightarrow> string option \<times> (string \<times> string \<times> string) list" where
  "short_journal m key = (case Option.bind (m_doiget m) short_venue of
     Some s \<Rightarrow> (Some s, [])
   | None \<Rightarrow> (None, case nonempty (venue m) of
         None \<Rightarrow> []
       | Some v \<Rightarrow> [(key, v, case m_doiget m of None \<Rightarrow> ''its'' | Some d \<Rightarrow> d_source d)]))"

definition chosen_key :: "text_env \<Rightarrow> key_options \<Rightarrow> metadata \<Rightarrow> string \<Rightarrow> key_template_error + string" where
  "chosen_key te ko m key = (case (ko_key ko, ko_template ko) of
     (Some k, _) \<Rightarrow> Inr k
   | (None, Some t) \<Rightarrow> render_key te t m key
   | (None, None) \<Rightarrow> Inr key)"

definition extra_fields :: "(string \<Rightarrow> bool) \<Rightarrow> key_options \<Rightarrow> metadata \<Rightarrow> string \<Rightarrow> string \<Rightarrow> (string \<times> string) list" where
  "extra_fields exists ko m citekey key =
     (case (if ko_journal_abbrev ko then fst (short_journal m citekey) else None) of
        None \<Rightarrow> [] | Some s \<Rightarrow> [(''shortjournal'', s)])
     @ (case ko_file_field ko of
          None \<Rightarrow> []
        | Some pattern \<Rightarrow>
            let path = replace_all ''{safekey}'' key (replace_all ''{key}'' citekey pattern) in
            if ko_file_always ko \<or> exists path then [(''file'', path)] else [])"

definition keys_bibtex ::
  "text_env \<Rightarrow> (string \<Rightarrow> bool) \<Rightarrow> key_options \<Rightarrow> metadata \<Rightarrow> string \<Rightarrow> string list
     \<Rightarrow> key_template_error + string \<times> string list \<times> (string \<times> string \<times> string) list" where
  "keys_bibtex te exists ko m key used =
     map_ok (\<lambda>k. let (citekey, used) = disambiguate k used in
         (to_bibtex_with_fields (te_uni te) citekey m (extra_fields exists ko m citekey key), used,
          if ko_journal_abbrev ko then snd (short_journal m citekey) else []))
       (chosen_key te ko m key)"

subsection \<open>One file of many entries\<close>

definition read_stored :: "orch_env \<Rightarrow> safekey \<Rightarrow> world \<Rightarrow> world \<times> (store_error + metadata option)" where
  "read_stored env key w =
     (case store_read (utc_text env) (other_toml env) (the_store env) (store_io env (effects w)) key (w_files w) of
        (fs, r) \<Rightarrow> (w\<lparr>w_files := fs\<rparr>, r))"

record export_state =
  ex_out :: string
  ex_seen :: "string list"
  ex_used :: "string list"
  ex_rendered :: nat
  ex_missing :: nat
  ex_no_abbrev :: "(string \<times> string \<times> string) list"

definition no_export :: export_state where
  "no_export = \<lparr> ex_out = [], ex_seen = [], ex_used = [], ex_rendered = 0, ex_missing = 0, ex_no_abbrev = [] \<rparr>"

definition push_entry ::
  "text_env \<Rightarrow> (string \<Rightarrow> bool) \<Rightarrow> key_options \<Rightarrow> safekey \<Rightarrow> metadata \<Rightarrow> export_state \<Rightarrow> key_template_error + export_state" where
  "push_entry te exists ko key m st =
     (let k = safekey_as_str key in
      if k \<in> set (ex_seen st) then Inr st
      else map_ok (\<lambda>(text, used, no_abbrev). st\<lparr>
             ex_out := (if ex_out st = [] then [] else ex_out st @ [CHR 0x0A]) @ text,
             ex_seen := ex_seen st @ [k], ex_used := used, ex_rendered := ex_rendered st + 1,
             ex_no_abbrev := ex_no_abbrev st @ no_abbrev\<rparr>)
           (keys_bibtex te exists ko m k (ex_used st)))"

text \<open>\<^verbatim>\<open>bib --all\<close>: the listed entries that can be read.\<close>

fun export_listed ::
  "text_env \<Rightarrow> (string \<Rightarrow> bool) \<Rightarrow> key_options \<Rightarrow> orch_env \<Rightarrow> entry_info list \<Rightarrow> export_state \<Rightarrow> world
     \<Rightarrow> world \<times> (key_template_error + export_state)" where
  "export_listed te exists ko env [] st w = (w, Inr st)"
| "export_listed te exists ko env (e # es) st w = (case read_stored env (ei_safekey e) w of
     (w, Inr (Some m)) \<Rightarrow> (case push_entry te exists ko (ei_safekey e) m st of
         Inl err \<Rightarrow> (w, Inl err)
       | Inr st \<Rightarrow> export_listed te exists ko env es st w)
   | (w, _) \<Rightarrow> export_listed te exists ko env es st w)"

text \<open>\<^verbatim>\<open>bib --from-file\<close>: the listed references, those that cannot be rendered counted.\<close>

fun export_refs ::
  "text_env \<Rightarrow> (string \<Rightarrow> bool) \<Rightarrow> key_options \<Rightarrow> orch_env \<Rightarrow> bib_result list \<Rightarrow> export_state \<Rightarrow> world
     \<Rightarrow> world \<times> (key_template_error + export_state)" where
  "export_refs te exists ko env [] st w = (w, Inr st)"
| "export_refs te exists ko env (Inl _ # es) st w =
     export_refs te exists ko env es (st\<lparr>ex_missing := ex_missing st + 1\<rparr>) w"
| "export_refs te exists ko env (Inr p # es) st w =
     (let key = ref_safekey (sha (fe env)) (hx (fe env)) (pe_ref p) in
      case read_stored env key w of
        (w, Inr (Some m)) \<Rightarrow> (case push_entry te exists ko key m st of
            Inl err \<Rightarrow> (w, Inl err)
          | Inr st \<Rightarrow> export_refs te exists ko env es st w)
      | (w, _) \<Rightarrow> export_refs te exists ko env es (st\<lparr>ex_missing := ex_missing st + 1\<rparr>) w)"

record bib_env_cli =
  bx_cli :: cli_env
  bx_text :: text_env
  bx_exists :: "string \<Rightarrow> bool"
  bx_instant :: "string \<Rightarrow> int"
  bx_bib :: bib_env
  bx_read :: "string \<Rightarrow> string option"

definition bib_run_all :: "bib_env_cli \<Rightarrow> key_options \<Rightarrow> world \<Rightarrow> world \<times> string \<times> cli_end" where
  "bib_run_all bx ko w =
     (let env = ce_orch (bx_cli bx) in
      case list_recent (utc_text env) (other_toml env) (bx_instant bx) (the_store env) U64_MAX (w_files w) of
        Inl _ \<Rightarrow> (w, [], Stopped (Bail ''failed to enumerate the store''))
      | Inr es \<Rightarrow>
          if es = [] then (w, [], Finished)
          else (case export_listed (bx_text bx) (bx_exists bx) ko env es no_export w of
              (w, Inl _) \<Rightarrow> (w, [], Stopped (Bail ''key template''))
            | (w, Inr st) \<Rightarrow> (w, ex_out st, Finished)))"

definition bib_run_from_file :: "bib_env_cli \<Rightarrow> key_options \<Rightarrow> string \<Rightarrow> world \<Rightarrow> world \<times> string \<times> cli_end" where
  "bib_run_from_file bx ko path w =
     (case bx_read bx path of
        None \<Rightarrow> (w, [], Stopped (Bail ''reading --from-file list''))
      | Some raw \<Rightarrow>
          (case export_refs (bx_text bx) (bx_exists bx) ko (ce_orch (bx_cli bx))
                  (parse_input (bx_bib bx) raw FormatAuto (Some path)) no_export w of
             (w, Inl _) \<Rightarrow> (w, [], Stopped (Bail ''key template''))
           | (w, Inr st) \<Rightarrow> (w, ex_out st,
               if 0 < ex_missing st then Stopped (CliExit (min (ex_missing st) 255)) else Finished)))"

definition bib_command ::
  "bib_env_cli \<Rightarrow> key_options \<Rightarrow> string option \<Rightarrow> bool \<Rightarrow> string option \<Rightarrow> world \<Rightarrow> world \<times> string \<times> cli_end" where
  "bib_command bx ko input every from_file w =
     (let selectors = (if input = None then 0 else 1) + (if every then 1 else 0) + (if from_file = None then 0 else (1 :: nat));
          ce = bx_cli bx; env = ce_orch ce in
      if selectors = 0 then (w, [], Stopped (Bail ''specify a ref, `--all`, or `--from-file <FILE>`''))
      else if 1 < selectors
      then (w, [], Stopped (Bail ''`--all`, `--from-file`, and a positional ref are mutually exclusive''))
      else (case resolve_store_root (ce_vars ce) (ce_files ce) of
          Inl stop \<Rightarrow> (w, [], Stopped stop)
        | Inr _ \<Rightarrow>
            if ko_key ko \<noteq> None \<and> input = None
            then (w, [], Stopped (Bail ''`--key` names one entry; use `--key-template` with `--all` / `--from-file`''))
            else (case with_config_defaults (bx_text bx) (ce_vars ce) (ce_files ce) ko of
                Inl stop \<Rightarrow> (w, [], Stopped stop)
              | Inr ko \<Rightarrow>
                  if every then bib_run_all bx ko w
                  else (case from_file of
                      Some path \<Rightarrow> bib_run_from_file bx ko path w
                    | None \<Rightarrow> (case snd (parse_ref_or_exit ce (or_str input [])) of
                        Inl stop \<Rightarrow> (w, [], Stopped stop)
                      | Inr r \<Rightarrow>
                          let key = ref_safekey (sha (fe env)) (hx (fe env)) r in
                          (case read_stored env key w of
                             (w, Inl _) \<Rightarrow> (w, [], Stopped (Bail ''store''))
                           | (w, Inr None) \<Rightarrow> (w, [], Stopped (Bail ''no entry''))
                           | (w, Inr (Some m)) \<Rightarrow>
                               (case keys_bibtex (bx_text bx) (bx_exists bx) ko m (safekey_as_str key) [] of
                                  Inl _ \<Rightarrow> (w, [], Stopped (Bail ''key template''))
                                | Inr (text, _) \<Rightarrow> (w, text, Finished))))))))"

subsection \<open>What an exported file is\<close>

text \<open>
  The file is the entries one after the other with a blank line between them: \<open>items\<close> gives the citation key,
  the record and the further fields of each.
\<close>

definition item_text :: "unicode \<Rightarrow> string \<times> metadata \<times> (string \<times> string) list \<Rightarrow> string" where
  "item_text un i = to_bibtex_with_fields un (fst i) (fst (snd i)) (snd (snd i))"

definition is_export :: "text_env \<Rightarrow> export_state \<Rightarrow> (string \<times> metadata \<times> (string \<times> string) list) list \<Rightarrow> bool" where
  "is_export te st items \<longleftrightarrow>
     ex_out st = join_with [CHR 0x0A] (map (item_text (te_uni te)) items)
   \<and> ex_used st = rev (map fst items) \<and> distinct (map fst items)
   \<and> list_all (\<lambda>(k, _, fs). is_valid_key k \<and> list_all (\<lambda>(n, _). plain_name n) fs) items
   \<and> distinct (ex_seen st) \<and> length (ex_seen st) = length items \<and> ex_rendered st = length items"

lemma item_text_nonempty [simp]: "item_text un i \<noteq> []"
  by (simp add: item_text_def to_bibtex_with_fields_def)

lemma join_snoc: "ws \<noteq> [] \<Longrightarrow> join_with sep (ws @ [w]) = join_with sep ws @ sep @ w"
  by (induction sep ws rule: join_with.induct) (simp_all add: join_with_Cons)

lemma join_nonempty: "ws \<noteq> [] \<Longrightarrow> list_all (\<lambda>w. w \<noteq> []) ws \<Longrightarrow> join_with sep ws \<noteq> []"
  by (induction sep ws rule: join_with.induct) auto

lemma extra_fields_plain: "list_all (\<lambda>(n, _). plain_name n) (extra_fields exists ko m citekey key)"
  by (auto simp: extra_fields_def plain_name_def ascii_class_defs Let_def split: option.split)

text \<open>Every key a command offers for an entry is one that BibTeX can carry.\<close>

definition good_keys :: "key_options \<Rightarrow> bool" where
  "good_keys ko \<longleftrightarrow> (case ko_key ko of None \<Rightarrow> True | Some k \<Rightarrow> is_valid_key k)"

lemma with_config_defaults_good: "with_config_defaults te env files ko = Inr ko' \<Longrightarrow> good_keys ko'"
  by (auto simp: with_config_defaults_def good_keys_def Let_def split: if_splits option.splits sum.splits)

lemma keys_bibtex_item:
  assumes "keys_bibtex te exists ko m key used = Inr (text, used', no_abbrev)"
    and "good_keys ko" and "is_valid_key key"
  shows "\<exists>k. k \<notin> set used \<and> used' = k # used \<and> is_valid_key k
    \<and> text = item_text (te_uni te) (k, m, extra_fields exists ko m k key)"
proof -
  from assms(1) obtain k0 where k0: "chosen_key te ko m key = Inr k0"
      and out: "(text, used', no_abbrev) = (let (citekey, used) = disambiguate k0 used in
         (to_bibtex_with_fields (te_uni te) citekey m (extra_fields exists ko m citekey key), used,
          if ko_journal_abbrev ko then snd (short_journal m citekey) else []))"
    by (auto simp: keys_bibtex_def)
  have "is_valid_key k0"
    using k0 assms(2,3) by (auto simp: chosen_key_def good_keys_def intro: rendered_key_valid split: option.splits)
  moreover obtain k u where d: "disambiguate k0 used = (k, u)" by force
  ultimately show ?thesis
    using disambiguate_fresh [OF d] disambiguate_valid [OF d] out
    by (auto simp: item_text_def)
qed

lemma push_entry_export:
  assumes "is_export te st items" and "push_entry te exists ko key m st = Inr st'"
    and "good_keys ko" and "is_valid_key (safekey_as_str key)"
  shows "\<exists>items'. is_export te st' items'"
proof (cases "safekey_as_str key \<in> set (ex_seen st)")
  case True
  with assms show ?thesis by (auto simp: push_entry_def)
next
  case False
  with assms(2) obtain entry used' no_abbrev where
      item: "keys_bibtex te exists ko m (safekey_as_str key) (ex_used st) = Inr (entry, used', no_abbrev)"
      and st': "st' = st\<lparr>ex_out := (if ex_out st = [] then [] else ex_out st @ [CHR 0x0A]) @ entry,
             ex_seen := ex_seen st @ [safekey_as_str key], ex_used := used', ex_rendered := ex_rendered st + 1,
             ex_no_abbrev := ex_no_abbrev st @ no_abbrev\<rparr>"
    by (auto simp: push_entry_def Let_def)
  from keys_bibtex_item [OF item assms(3,4)] obtain k where k: "k \<notin> set (ex_used st)" "used' = k # ex_used st"
      "is_valid_key k" "entry = item_text (te_uni te) (k, m, extra_fields exists ko m k (safekey_as_str key))" by blast
  let ?i = "(k, m, extra_fields exists ko m k (safekey_as_str key))"
  have "ex_out st' = join_with [CHR 0x0A] (map (item_text (te_uni te)) (items @ [?i]))"
  proof (cases "items = []")
    case True
    with assms(1) k st' show ?thesis by (simp add: is_export_def)
  next
    case nonempty: False
    then have "ex_out st \<noteq> []"
      using assms(1) by (simp add: is_export_def join_nonempty list_all_iff)
    with assms(1) k st' nonempty show ?thesis by (simp add: is_export_def join_snoc)
  qed
  with assms(1) k st' False have "is_export te st' (items @ [?i])"
    by (auto simp: is_export_def extra_fields_plain)
  then show ?thesis by blast
qed

lemma no_export_is_export: "is_export te no_export []"
  by (simp add: is_export_def no_export_def)

lemma is_export_missing [simp]: "is_export te (st\<lparr>ex_missing := n\<rparr>) items = is_export te st items"
  by (simp add: is_export_def)

definition wf_entry :: "bib_result \<Rightarrow> bool" where
  "wf_entry e = (case e of Inl _ \<Rightarrow> True | Inr p \<Rightarrow> ref_wf (pe_ref p))"

lemma wf_entry_simps [simp]: "wf_entry (Inl e)" "wf_entry (ref_result raw key)"
  by (auto simp: wf_entry_def ref_result_def dest: ref_parse_wf split: sum.split)

lemma export_refs_is_export:
  assumes "hash_format (sha (fe env)) (hx (fe env))" and "good_keys ko"
    and "list_all wf_entry es"
    and "is_export te st items" and "export_refs te exists ko env es st w = (w', Inr st')"
  shows "\<exists>items'. is_export te st' items'"
  using assms(3-5)
proof (induction es arbitrary: st items w)
  case Nil
  then show ?case by auto
next
  case (Cons e es)
  show ?case
  proof (cases e)
    case (Inl err)
    then have "export_refs te exists ko env es (st\<lparr>ex_missing := ex_missing st + 1\<rparr>) w = (w', Inr st')"
      using Cons.prems(3) by simp
    moreover have "is_export te (st\<lparr>ex_missing := ex_missing st + 1\<rparr>) items" using Cons.prems(2) by simp
    ultimately show ?thesis using Cons.IH [rotated 1] Cons.prems(1) by (metis list.pred_inject(2))
  next
    case (Inr p)
    let ?key = "ref_safekey (sha (fe env)) (hx (fe env)) (pe_ref p)"
    obtain v r where step: "read_stored env ?key w = (v, r)" by force
    show ?thesis
    proof (cases "\<exists>m. r = Inr (Some m)")
      case True
      then obtain m where r: "r = Inr (Some m)" by blast
      with Cons.prems(3) Inr step obtain st1 where st1: "push_entry te exists ko ?key m st = Inr st1"
          and rest: "export_refs te exists ko env es st1 v = (w', Inr st')"
        by (auto simp: Let_def split: sum.splits)
      have "ref_wf (pe_ref p)" using Cons.prems(1) Inr by (simp add: wf_entry_def)
      from push_entry_export [OF Cons.prems(2) st1 assms(2) safekey_valid [OF assms(1) this]]
      obtain items1 where "is_export te st1 items1" by blast
      from Cons.IH [OF _ this rest] Cons.prems(1) show ?thesis by simp
    next
      case False
      then have "export_refs te exists ko env es (st\<lparr>ex_missing := ex_missing st + 1\<rparr>) v = (w', Inr st')"
        using Cons.prems(3) Inr step by (auto simp: Let_def split: sum.splits option.splits)
      moreover have "is_export te (st\<lparr>ex_missing := ex_missing st + 1\<rparr>) items" using Cons.prems(2) by simp
      ultimately show ?thesis using Cons.IH [rotated 1] Cons.prems(1) by (metis list.pred_inject(2))
    qed
  qed
qed

lemma push_entry_missing: "push_entry te exists ko key m st = Inr st' \<Longrightarrow> ex_missing st' = ex_missing st"
  by (auto simp: push_entry_def Let_def split: if_splits)

lemma export_refs_counts:
  "export_refs te exists ko env es st w = (w', Inr st')
     \<Longrightarrow> ex_missing st + length (filter (\<lambda>e. \<not> is_ok e) es) \<le> ex_missing st'"
proof (induction es arbitrary: st w)
  case (Cons e es)
  then show ?case
    by (cases e) (fastforce simp: Let_def dest: push_entry_missing split: prod.splits sum.splits option.splits)+
qed simp

lemma parsed_entries_wf: "list_all wf_entry (parse_input benv raw fmt path)"
proof -
  have "wf_entry (parse_csl_entry fenv e key)" for fenv e key
    by (simp add: parse_csl_entry_def Let_def split: option.split prod.split)
  moreover have "wf_entry (parse_bibtex_entry fenv e key)" for fenv e key
    by (simp add: parse_bibtex_entry_def split: option.split prod.split)
  ultimately show ?thesis
    by (auto simp: parse_input_def parse_csl_json_def parse_bibtex_def parse_plain_refs_def list_all_iff
        split: bib_format.split option.split json.split)
qed

text \<open>C36: An exported bibliography is well keyed.  What \<^verbatim>\<open>bib --from-file\<close> prints, for any list of references and
  any key template, is a sequence of BibTeX entries under keys that BibTeX accepts and that are all different,
  each of which reads back with its own type, key and fields; and the command exits with 0 only if every entry
  of the list was a reference.\<close>

theorem exported_file_is_well_keyed:
  assumes "hash_format (sha (fe (ce_orch (bx_cli bx)))) (hx (fe (ce_orch (bx_cli bx))))"
    and "with_config_defaults (bx_text bx) (ce_vars (bx_cli bx)) (ce_files (bx_cli bx)) ko0 = Inr ko"
    and "bx_read bx path = Some raw"
    and "bib_run_from_file bx ko path w = (w', out, e)"
  shows "(\<exists>items. out = join_with [CHR 0x0A] (map (item_text (te_uni (bx_text bx))) items)
      \<and> distinct (map fst items)
      \<and> list_all (\<lambda>(k, m, fs). is_valid_key k \<and> read_entry (item_text (te_uni (bx_text bx)) (k, m, fs))
          = Some (bibtex_entry_type (m_type m), k,
              map (\<lambda>(n, v). (n, strip_bibtex_unsafe (te_uni (bx_text bx)) v)) (bibtex_fields m fs))) items)
    \<and> (exit_status e = Some 0 \<longrightarrow> list_all is_ok (parse_input (bx_bib bx) raw FormatAuto (Some path)))"
proof -
  let ?es = "parse_input (bx_bib bx) raw FormatAuto (Some path)"
  let ?un = "te_uni (bx_text bx)"
  obtain v x where run: "export_refs (bx_text bx) (bx_exists bx) ko (ce_orch (bx_cli bx)) ?es no_export w = (v, x)"
    by force
  show ?thesis
  proof (cases x)
    case (Inl err)
    with assms(3,4) run have "out = []" "exit_status e = Some 1" by (auto simp: bib_run_from_file_def)
    then show ?thesis by (auto intro!: exI [of _ "[]"])
  next
    case (Inr st)
    with assms(3,4) run have out: "out = ex_out st"
        "e = (if 0 < ex_missing st then Stopped (CliExit (min (ex_missing st) 255)) else Finished)"
      by (auto simp: bib_run_from_file_def)
    from export_refs_is_export [OF assms(1) with_config_defaults_good [OF assms(2)] parsed_entries_wf no_export_is_export run [unfolded Inr]]
    obtain items where items: "is_export (bx_text bx) st items" by blast
    have "list_all (\<lambda>(k, m, fs). is_valid_key k \<and> read_entry (item_text ?un (k, m, fs))
          = Some (bibtex_entry_type (m_type m), k,
              map (\<lambda>(n, v). (n, strip_bibtex_unsafe ?un v)) (bibtex_fields m fs))) items"
      using items by (auto simp: is_export_def list_all_iff item_text_def intro!: bibtex_reads_back)
    moreover have "exit_status e = Some 0 \<longrightarrow> list_all is_ok ?es"
    proof
      assume "exit_status e = Some 0"
      then have "ex_missing st = 0" using out(2) by (auto split: if_splits)
      with export_refs_counts [OF run [unfolded Inr]] have "filter (\<lambda>e. \<not> is_ok e) ?es = []" by simp
      then show "list_all is_ok ?es" by (simp add: filter_empty_conv list_all_iff)
    qed
    ultimately show ?thesis using items out(1) by (auto simp: is_export_def)
  qed
qed

subsection \<open>A run\<close>

definition demo_bib :: bib_env_cli where
  "demo_bib = \<lparr> bx_cli = demo_cli, bx_text = \<lparr> te_uni = ascii_unicode, te_lower = id, te_nfd = id \<rparr>,
     bx_exists = (\<lambda>_. False), bx_instant = (\<lambda>_. 0),
     bx_bib = \<lparr> be_fetch = demo_fetch_env, be_parse = (\<lambda>_. None) \<rparr>, bx_read = (\<lambda>_. Some (''10.1234/x'' @ CHR 0x0A # ''oops'')) \<rparr>"

definition by_author :: key_options where
  "by_author = \<lparr> ko_key = None, ko_template = Some ''{author}{year}'', ko_file_field = None, ko_file_always = False,
     ko_journal_abbrev = False \<rparr>"

definition stored_world :: world where
  "stored_world = demo_world\<lparr>w_files := [(''r/.metadata/doi_10.1234_x.toml'',
     Doc (case normalize_toml (no_record\<lparr>title := ''A title'', authors := [''Fock, V.''], year := Some 1930,
       m_doi := Some (Doi ''10.1234/x'')\<rparr>) of Inr ls \<Rightarrow> ls | Inl _ \<Rightarrow> []))]\<rparr>"

definition demo_file :: string where
  "demo_file = ''@misc{fock1930,'' @ [CHR 0x0A] @ ''  title      = {A title},'' @ [CHR 0x0A]
     @ ''  author     = {Fock, V.},'' @ [CHR 0x0A] @ ''  year       = {1930},'' @ [CHR 0x0A]
     @ ''  doi        = {10.1234/x},'' @ [CHR 0x0A] @ ''}'' @ [CHR 0x0A]"

lemma demo_exports:
  "snd (bib_run_from_file demo_bib by_author ''l.txt'' stored_world) = (demo_file, Stopped (CliExit 1))
   \<and> with_config_defaults (bx_text demo_bib) (ce_vars (bx_cli demo_bib)) (ce_files (bx_cli demo_bib)) by_author = Inr by_author"
  by code_simp

lemmas demo_export = demo_exports [THEN conjunct1] demo_exports [THEN conjunct2]

theorem exported_file_is_well_keyed_witness:
  "\<exists>items. demo_file = join_with [CHR 0x0A] (map (item_text ascii_unicode) items) \<and> distinct (map fst items)"
proof -
  have format: "hash_format (sha (fe (ce_orch (bx_cli demo_bib)))) (hx (fe (ce_orch (bx_cli demo_bib))))"
    by (simp add: demo_bib_def demo_cli_def demo_orch_def demo_fetch_env_def hash_format_toy)
  have listed: "bx_read demo_bib ''l.txt'' = Some (''10.1234/x'' @ CHR 0x0A # ''oops'')"
    by (simp add: demo_bib_def)
  have uni: "te_uni (bx_text demo_bib) = ascii_unicode" by (simp add: demo_bib_def)
  have run: "bib_run_from_file demo_bib by_author ''l.txt'' stored_world
      = (fst (bib_run_from_file demo_bib by_author ''l.txt'' stored_world), demo_file, Stopped (CliExit 1))"
    by (simp only: demo_export(1) [symmetric] prod.collapse)
  from conjunct1 [OF exported_file_is_well_keyed [OF format demo_export(2) listed run]]
  show ?thesis unfolding uni by blast
qed

subsection \<open>Where it falls short\<close>

text \<open>
  A reference whose safekey is that of one already exported is passed over in silence: it is not rendered, not
  counted as missing, and the command exits with 0.
\<close>

theorem colliding_reference_is_dropped:
  assumes "safekey_as_str (ref_safekey (sha (fe env)) (hx (fe env)) r) \<in> set (ex_seen st)"
    and "read_stored env (ref_safekey (sha (fe env)) (hx (fe env)) r) w = (w', Inr (Some m))"
  shows "export_refs te exists ko env [Inr \<lparr> pe_ref = r, pe_key = key \<rparr>] st w = (w', Inr st)"
  using assms by (simp add: push_entry_def)

subsection \<open>CSL\<close>

record csl_state =
  cs_items :: "json list"
  cs_seen :: "string list"
  cs_missing :: nat

definition no_items :: csl_state where
  "no_items = \<lparr> cs_items = [], cs_seen = [], cs_missing = 0 \<rparr>"

definition push_item :: "unicode \<Rightarrow> safekey \<Rightarrow> metadata \<Rightarrow> bool \<Rightarrow> csl_state \<Rightarrow> csl_state" where
  "push_item un key m short_container st =
     (let k = safekey_as_str key in
      if k \<in> set (cs_seen st) then st
      else st\<lparr>cs_seen := cs_seen st @ [k], cs_items := cs_items st @ to_csl_array_with un k m short_container\<rparr>)"

fun csl_listed :: "unicode \<Rightarrow> bool \<Rightarrow> orch_env \<Rightarrow> entry_info list \<Rightarrow> csl_state \<Rightarrow> world \<Rightarrow> world \<times> csl_state" where
  "csl_listed un short_container env [] st w = (w, st)"
| "csl_listed un short_container env (e # es) st w = (case read_stored env (ei_safekey e) w of
     (w, Inr (Some m)) \<Rightarrow> csl_listed un short_container env es (push_item un (ei_safekey e) m short_container st) w
   | (w, _) \<Rightarrow> csl_listed un short_container env es st w)"

fun csl_refs :: "unicode \<Rightarrow> bool \<Rightarrow> orch_env \<Rightarrow> bib_result list \<Rightarrow> csl_state \<Rightarrow> world \<Rightarrow> world \<times> csl_state" where
  "csl_refs un short_container env [] st w = (w, st)"
| "csl_refs un short_container env (Inl _ # es) st w =
     csl_refs un short_container env es (st\<lparr>cs_missing := cs_missing st + 1\<rparr>) w"
| "csl_refs un short_container env (Inr p # es) st w =
     (let key = ref_safekey (sha (fe env)) (hx (fe env)) (pe_ref p) in
      case read_stored env key w of
        (w, Inr (Some m)) \<Rightarrow> csl_refs un short_container env es (push_item un key m short_container st) w
      | (w, _) \<Rightarrow> csl_refs un short_container env es (st\<lparr>cs_missing := cs_missing st + 1\<rparr>) w)"

definition csl_run_all :: "bib_env_cli \<Rightarrow> bool \<Rightarrow> world \<Rightarrow> world \<times> json option \<times> cli_end" where
  "csl_run_all bx short_container w =
     (let env = ce_orch (bx_cli bx) in
      case list_recent (utc_text env) (other_toml env) (bx_instant bx) (the_store env) U64_MAX (w_files w) of
        Inl _ \<Rightarrow> (w, None, Stopped (Bail ''failed to enumerate the store''))
      | Inr es \<Rightarrow> (case csl_listed (te_uni (bx_text bx)) short_container env es no_items w of
          (w, st) \<Rightarrow> (w, Some (JArray (cs_items st)), Finished)))"

definition csl_run_from_file :: "bib_env_cli \<Rightarrow> bool \<Rightarrow> string \<Rightarrow> world \<Rightarrow> world \<times> json option \<times> cli_end" where
  "csl_run_from_file bx short_container path w = (case bx_read bx path of
     None \<Rightarrow> (w, None, Stopped (Bail ''reading --from-file list''))
   | Some raw \<Rightarrow> (case csl_refs (te_uni (bx_text bx)) short_container (ce_orch (bx_cli bx))
           (parse_input (bx_bib bx) raw FormatAuto (Some path)) no_items w of
        (w, st) \<Rightarrow> (w, Some (JArray (cs_items st)),
          if 0 < cs_missing st then Stopped (CliExit (min (cs_missing st) 255)) else Finished)))"

definition csl_command ::
  "bib_env_cli \<Rightarrow> string option \<Rightarrow> bool \<Rightarrow> string option \<Rightarrow> bool \<Rightarrow> world \<Rightarrow> world \<times> json option \<times> cli_end" where
  "csl_command bx input every from_file short_container w =
     (let selectors = (if input = None then 0 else 1) + (if every then 1 else 0) + (if from_file = None then 0 else (1 :: nat));
          ce = bx_cli bx; env = ce_orch ce in
      if 1 < selectors
      then (w, None, Stopped (Bail ''`--all`, `--from-file`, and a positional ref are mutually exclusive''))
      else if selectors = 0 then (w, None, Stopped (Bail ''specify a ref, `--all`, or `--from-file <FILE>`''))
      else (case resolve_store_root (ce_vars ce) (ce_files ce) of
          Inl stop \<Rightarrow> (w, None, Stopped stop)
        | Inr _ \<Rightarrow>
            if every then csl_run_all bx short_container w
            else (case from_file of
                Some path \<Rightarrow> csl_run_from_file bx short_container path w
              | None \<Rightarrow> (case snd (parse_ref_or_exit ce (or_str input [])) of
                  Inl stop \<Rightarrow> (w, None, Stopped stop)
                | Inr r \<Rightarrow>
                    let key = ref_safekey (sha (fe env)) (hx (fe env)) r in
                    (case read_stored env key w of
                       (w, Inl _) \<Rightarrow> (w, None, Stopped (Bail ''store''))
                     | (w, Inr None) \<Rightarrow> (w, None, Stopped (Bail ''no entry''))
                     | (w, Inr (Some m)) \<Rightarrow>
                         (w, Some (JArray (to_csl_array_with (te_uni (bx_text bx)) (safekey_as_str key) m short_container)),
                          Finished))))))"

text \<open>Every item of a CSL export has its own identifier, the safekey it was read under.\<close>

definition csl_ids_ok :: "csl_state \<Rightarrow> bool" where
  "csl_ids_ok st \<longleftrightarrow> map (\<lambda>i. jstr i [''id'']) (cs_items st) = map Some (cs_seen st) \<and> distinct (cs_seen st)"

lemma csl_item_id: "jstr (csl_item_json i) [''id''] = Some (ci_id i)"
  by (simp add: csl_item_json_def jstr_def jget_def json_opt_def as_str_def map_add_def split: option.split)

lemma push_item_ids: "csl_ids_ok st \<Longrightarrow> csl_ids_ok (push_item un key m short_container st)"
  by (simp add: csl_ids_ok_def push_item_def Let_def to_csl_array_with_def csl_item_id build_csl_item_def)

lemma csl_missing_ids: "csl_ids_ok st \<Longrightarrow> csl_ids_ok (st\<lparr>cs_missing := n\<rparr>)"
  by (simp add: csl_ids_ok_def)

lemma csl_refs_ids: "csl_ids_ok st \<Longrightarrow> csl_refs un short_container env es st w = (w', st') \<Longrightarrow> csl_ids_ok st'"
proof (induction es arbitrary: st w)
  case (Cons e es)
  show ?case
  proof (cases e)
    case (Inl err)
    with Cons.prems(2)
    have rest: "csl_refs un short_container env es (st\<lparr>cs_missing := cs_missing st + 1\<rparr>) w = (w', st')" by simp
    show ?thesis by (rule Cons.IH [OF csl_missing_ids [OF Cons.prems(1)] rest])
  next
    case (Inr p)
    let ?key = "ref_safekey (sha (fe env)) (hx (fe env)) (pe_ref p)"
    obtain v r where step: "read_stored env ?key w = (v, r)" by force
    show ?thesis
    proof (cases "\<exists>m. r = Inr (Some m)")
      case True
      then obtain m where r: "r = Inr (Some m)" by blast
      with Cons.prems(2) Inr step
      have rest: "csl_refs un short_container env es (push_item un ?key m short_container st) v = (w', st')"
        by (simp add: Let_def)
      show ?thesis by (rule Cons.IH [OF push_item_ids [OF Cons.prems(1)] rest])
    next
      case False
      with Cons.prems(2) Inr step
      have rest: "csl_refs un short_container env es (st\<lparr>cs_missing := cs_missing st + 1\<rparr>) v = (w', st')"
        by (auto simp: Let_def split: sum.splits option.splits)
      show ?thesis by (rule Cons.IH [OF csl_missing_ids [OF Cons.prems(1)] rest])
    qed
  qed
qed simp

end
