(* ===== verification/Resolve_Safety.thy ===== *)
theory Resolve_Safety
  imports Resolver_Cache Pubmed
begin

text \<open>
  What every resolve of a reference leaves alone, whoever answers: no document is downloaded, and no file changes
  but those of the resolver cache.
\<close>

definition reading_effect :: "effect \<Rightarrow> bool" where
  "reading_effect e = (case e of Request _ _ _ pdf \<Rightarrow> \<not> pdf | _ \<Rightarrow> True)"

lemma reading_effect_simps [simp]:
  "reading_effect (Acquire n)" "reading_effect (Pace n)" "reading_effect (Append i b)"
  "reading_effect (Request n u hs pdf) \<longleftrightarrow> \<not> pdf"
  by (simp_all add: reading_effect_def)

definition only_reads :: "(string \<Rightarrow> bool) \<Rightarrow> 'a act \<Rightarrow> bool" where
  "only_reads spared m \<longleftrightarrow> (\<forall>w.
     (\<exists>es. effects (fst (m w)) = effects w @ es \<and> list_all reading_effect es)
   \<and> (\<forall>path. spared path \<longrightarrow> map_of (w_files (fst (m w))) path = map_of (w_files w) path))"

named_theorems only_reads_intros

lemma only_readsD:
  assumes "only_reads spared m" and "m w = (w', r)"
  shows "\<exists>es. effects w' = effects w @ es \<and> list_all reading_effect es"
    and "spared path \<Longrightarrow> map_of (w_files w') path = map_of (w_files w) path"
  using assms unfolding only_reads_def by (metis fst_conv)+

lemma only_reads_performs: "performs reading_effect m \<Longrightarrow> only_reads spared m"
  by (simp add: performs_def adds_def only_reads_def)

lemma only_reads_seq:
  assumes "only_reads spared m" and "m w = (v, r)" and "only_reads spared n" and "n v = (u, r')"
  shows "(\<exists>es. effects u = effects w @ es \<and> list_all reading_effect es)
    \<and> (\<forall>path. spared path \<longrightarrow> map_of (w_files u) path = map_of (w_files w) path)"
proof -
  from only_readsD(1) [OF assms(1,2)] only_readsD(1) [OF assms(3,4)] obtain es es' where
      "effects v = effects w @ es" "effects u = effects v @ es'" "list_all reading_effect (es @ es')"
    by auto
  then have "\<exists>es. effects u = effects w @ es \<and> list_all reading_effect es" by (intro exI [of _ "es @ es'"]) simp
  with only_readsD(2) [OF assms(1,2)] only_readsD(2) [OF assms(3,4)] show ?thesis by simp
qed

lemma only_reads_and_then [only_reads_intros]:
  assumes "only_reads spared m" and "\<And>a. only_reads spared (f a)"
  shows "only_reads spared (and_then m f)"
  unfolding only_reads_def
proof
  fix w
  obtain v r where m: "m w = (v, r)" by force
  show "(\<exists>es. effects (fst (and_then m f w)) = effects w @ es \<and> list_all reading_effect es)
    \<and> (\<forall>path. spared path \<longrightarrow> map_of (w_files (fst (and_then m f w))) path = map_of (w_files w) path)"
  proof (cases r)
    case (Ok a)
    obtain u r' where n: "f a v = (u, r')" by force
    from only_reads_seq [OF assms(1) m assms(2) n] show ?thesis using m Ok n by simp
  qed (use only_readsD [OF assms(1) m] m in simp_all)
qed

lemma only_reads_catch [only_reads_intros]:
  assumes "only_reads spared m" and "\<And>x. only_reads spared (f x)"
  shows "only_reads spared (catch m f)"
  unfolding only_reads_def
proof
  fix w
  obtain v r where m: "m w = (v, r)" by force
  have seq: "(\<exists>es. effects (fst (f x v)) = effects w @ es \<and> list_all reading_effect es)
    \<and> (\<forall>path. spared path \<longrightarrow> map_of (w_files (fst (f x v))) path = map_of (w_files w) path)" for x
    by (rule only_reads_seq [OF assms(1) m assms(2)]) (rule prod.collapse [symmetric])
  show "(\<exists>es. effects (fst (catch m f w)) = effects w @ es \<and> list_all reading_effect es)
    \<and> (\<forall>path. spared path \<longrightarrow> map_of (w_files (fst (catch m f w))) path = map_of (w_files w) path)"
    using m only_readsD [OF assms(1) m] seq by (cases r) simp_all
qed

lemma only_reads_pure [only_reads_intros, simp]:
  "only_reads spared (return_ok a)" "only_reads spared (throw e)" "only_reads spared (ok_or e v)"
  by (auto intro: only_reads_performs)

subsection \<open>The sources of metadata\<close>

lemma metadata_attempt_reads: "performs reading_effect (metadata_attempt env name cp r u hs redact dec)"
  unfolding metadata_attempt_def by (intro performs_intros, simp_all)

lemma doi_fetch_reads: "(\<And>d p. performs reading_effect (k d p)) \<Longrightarrow> performs reading_effect (doi_fetch name g k r p)"
  by (simp add: doi_fetch_cases)

lemma metadata_sources_read:
  "performs reading_effect (src_fetch (crossref_source env base) r p)"
  "performs reading_effect (src_fetch (unpaywall_source env base email) r p)"
  "performs reading_effect (src_fetch (datacite_source env base) r p)"
  by (simp_all add: crossref_source_def unpaywall_source_def datacite_source_def doi_fetch_reads metadata_attempt_reads)

lemma datacite_metadata_only_reads: "performs reading_effect (datacite_metadata_only env r p)"
  unfolding datacite_metadata_only_def Let_def
  by (auto intro!: performs_catch metadata_sources_read split: sum.split fetch_error.split)

lemma arxiv_metadata_only_reads: "performs reading_effect (arxiv_fetch_metadata_only env xml base i)"
  unfolding arxiv_fetch_metadata_only_def
  by (intro performs_intros) (auto split: sum.split)

lemma metadata_only_doi_reads: "performs reading_effect (metadata_only_doi env r p oa)"
  unfolding metadata_only_doi_def Let_def crossref_source_from_env_def unpaywall_source_from_env_def
  by (intro performs_catch metadata_sources_read)
    (auto intro!: performs_and_then performs_catch metadata_sources_read datacite_metadata_only_reads
      split: sum.split option.split)

lemma metadata_only_reads: "performs reading_effect (metadata_only_with_options env cached r p oa)"
  unfolding metadata_only_with_options_def
  by (auto intro!: performs_and_then metadata_only_doi_reads arxiv_metadata_only_reads split: option.split paper_ref.split)

subsection \<open>The cache\<close>

text \<open>Paths that are not below the cache's own directory.\<close>

definition outside_cache :: "string option \<Rightarrow> string \<Rightarrow> bool" where
  "outside_cache cache_root path \<longleftrightarrow> (case cache_root of
     None \<Rightarrow> True | Some root \<Rightarrow> \<not> starts_with path (path_join root ''resolver''))"


lemma write_cache_reads:
  assumes "hash_format (sha (fe env)) (hx (fe env))"
  shows "only_reads (\<lambda>path. \<not> starts_with path (path_join root ''resolver'')) (write_cache cenv env root r outcome oa)"
proof -
  let ?file = "cache_file_with_options (sha (fe env)) (hx (fe env)) root r oa"
  have "path \<noteq> ?file" "path \<noteq> ?file @ ''.tmp''" if "\<not> starts_with path (path_join root ''resolver'')" for path
    using that by (auto simp: cache_file_shape [OF assms])
  then show ?thesis
    unfolding only_reads_def write_cache_def
    by (auto intro: write_elsewhere [OF prod.collapse [symmetric]])
qed

lemma only_reads_weaken: "only_reads P m \<Longrightarrow> (\<And>path. Q path \<Longrightarrow> P path) \<Longrightarrow> only_reads Q m"
  unfolding only_reads_def by blast

lemma resolve_reads:
  assumes "hash_format (sha (fe env)) (hx (fe env))"
  shows "only_reads (outside_cache cache_root) (resolve_with_cache cenv env cache_root r profile oa)"
proof (cases "usable_cache env cache_root")
  case None
  then show ?thesis by (simp add: resolve_with_cache_def only_reads_performs metadata_only_reads)
next
  case (Some root)
  then have root: "cache_root = Some root" by (simp add: usable_cache_def split: if_splits)
  have "only_reads (outside_cache cache_root) (read_cache cenv env root r oa)"
    by (simp add: only_reads_def read_cache_def)
  moreover have "only_reads (outside_cache cache_root) (write_cache cenv env root r outcome oa)" for outcome
    by (rule only_reads_weaken [OF write_cache_reads [OF assms]]) (simp add: root outside_cache_def)
  ultimately show ?thesis
    using Some only_reads_performs [OF metadata_only_reads]
    by (auto simp: resolve_with_cache_def intro!: only_reads_and_then split: option.split)
qed

subsection \<open>Software and PubMed\<close>

lemma gh_get_reads: "performs reading_effect (gh_get env key u hs about)"
  unfolding gh_get_def Let_def by (auto intro!: performs_intros split: sum.split)

lemma json_answer_reads: "performs P (json_answer env hint b)"
  unfolding json_answer_def by (auto intro!: performs_intros split: option.split)

lemma gh_api_json_reads: "performs reading_effect (gh_api_json env api path g)"
  unfolding gh_api_json_def by (auto intro!: performs_and_then gh_get_reads json_answer_reads)

lemma github_resolves_reads: "performs reading_effect (github_resolves env g)"
  unfolding github_resolves_def
  by (auto intro!: performs_and_then performs_gh_base gh_api_json_reads split: option.split)

lemma ncbi_reads: "performs ncbi_effect m \<Longrightarrow> performs reading_effect m"
  by (erule performs_mono) (auto simp: ncbi_effect_def reading_effect_def split: effect.splits)

lemma resolve_entries_reads: "performs reading_effect (resolve_entries env es)"
  by (rule ncbi_reads [OF performs_resolve_entries])

end
