(* ===== verification/Cite.thy ===== *)
theory Cite
  imports Export Resolve_Safety
begin

text \<open>
  \<^verbatim>\<open>doiget cite\<close> (\<^verbatim>\<open>crates/doiget-cli/src/commands/cite.rs\<close>): a reference resolved to a BibTeX entry, live and
  through the resolver cache, or from the store.  Notes on standard error are not modelled.
\<close>

subsection \<open>The record that is cited\<close>

definition published_doi_ref :: "paper_ref \<Rightarrow> metadata_outcome \<Rightarrow> paper_ref option" where
  "published_doi_ref r outcome = (case r of
     RefDoi _ \<Rightarrow> None
   | RefArxiv _ \<Rightarrow> Option.bind (jstr (mo_metadata outcome) [''doi'']) (\<lambda>d.
       case ref_parse d of Inr (RefDoi x) \<Rightarrow> Some (RefDoi x) | _ \<Rightarrow> None))"

definition merge_published :: "metadata \<Rightarrow> metadata \<Rightarrow> metadata" where
  "merge_published article preprint =
     article\<lparr>m_arxiv_id := m_arxiv_id preprint, arxiv_categories := arxiv_categories preprint\<rparr>"

definition choose_zenodo_doi :: "metadata \<Rightarrow> metadata_outcome \<Rightarrow> bool \<Rightarrow> metadata" where
  "choose_zenodo_doi m outcome keep_version = (case zenodo_doi (mo_metadata outcome) of
     Some (ZenodoVersion concept) \<Rightarrow>
       if keep_version then m
       else (case doi_parse concept of
           Inr d \<Rightarrow> m\<lparr>m_doi := Some d, other := AList.delete ''version'' (other m), m_url := None\<rparr>
         | Inl _ \<Rightarrow> m)
   | _ \<Rightarrow> m)"

record cite_env =
  ct_bib :: bib_env_cli
  ct_cache :: cache_env

definition ct_orch :: "cite_env \<Rightarrow> orch_env" where
  "ct_orch ct = ce_orch (bx_cli (ct_bib ct))"

definition ct_resolve :: "cite_env \<Rightarrow> paper_ref \<Rightarrow> capability_profile \<Rightarrow> metadata_outcome act" where
  "ct_resolve ct r profile = resolve_only (ct_cache ct) (ct_orch ct)
     (case cache_dir_utf8 (ce_vars (bx_cli (ct_bib ct))) of Inl _ \<Rightarrow> None | Inr d \<Rightarrow> Some d) r profile"

definition cited_record :: "cite_env \<Rightarrow> paper_ref \<Rightarrow> metadata_outcome \<Rightarrow> metadata act" where
  "cited_record ct r outcome w = (w, Ok (cite_metadata (ct_orch ct) (now_text (ct_orch ct) (effects w)) r outcome))"

definition with_published ::
  "cite_env \<Rightarrow> capability_profile \<Rightarrow> paper_ref \<Rightarrow> metadata_outcome \<Rightarrow> metadata \<Rightarrow> metadata act" where
  "with_published ct profile r outcome m = (case published_doi_ref r outcome of
     None \<Rightarrow> return_ok m
   | Some doi_ref \<Rightarrow> catch (ct_resolve ct doi_ref profile) (\<lambda>x. case x of
       Inr published \<Rightarrow> and_then (cited_record ct doi_ref published) (\<lambda>article. return_ok (merge_published article m))
     | Inl _ \<Rightarrow> return_ok m))"

definition cite_live ::
  "cite_env \<Rightarrow> capability_profile \<Rightarrow> paper_ref \<Rightarrow> bool \<Rightarrow> metadata_outcome \<Rightarrow> metadata act" where
  "cite_live ct profile r zenodo_version outcome =
     and_then (cited_record ct r outcome) (\<lambda>m.
     and_then (with_published ct profile r outcome m) (\<lambda>m.
     and_then (repair_act (ct_orch ct)
         (if mo_source outcome = ''datacite'' then choose_zenodo_doi m outcome zenodo_version else m) profile)
       (\<lambda>(m, quality). return_ok m)))"

subsection \<open>The command\<close>

definition print_bibtex ::
  "cite_env \<Rightarrow> key_options \<Rightarrow> metadata \<Rightarrow> string \<Rightarrow> world \<Rightarrow> world \<times> string \<times> cli_end" where
  "print_bibtex ct ko m key w =
     (case keys_bibtex (bx_text (ct_bib ct)) (bx_exists (ct_bib ct)) ko m key [] of
        Inl _ \<Rightarrow> (w, [], Stopped (Bail ''key template''))
      | Inr (bib, _) \<Rightarrow> (w, bib, Finished))"

definition cite_from_store ::
  "cite_env \<Rightarrow> key_options \<Rightarrow> paper_ref \<Rightarrow> cli_stop \<Rightarrow> world \<Rightarrow> world \<times> string \<times> cli_end" where
  "cite_from_store ct ko r none w =
     (case resolve_store_root (ce_vars (bx_cli (ct_bib ct))) (ce_files (bx_cli (ct_bib ct))) of
        Inl stop \<Rightarrow> (w, [], Stopped stop)
      | Inr _ \<Rightarrow>
          let key = ref_safekey (sha (fe (ct_orch ct))) (hx (fe (ct_orch ct))) r in
          (case read_stored (ct_orch ct) key w of
             (w, Inl _) \<Rightarrow> (w, [], Stopped (Bail ''store''))
           | (w, Inr None) \<Rightarrow> (w, [], Stopped none)
           | (w, Inr (Some m)) \<Rightarrow> print_bibtex ct ko m (safekey_as_str key) w))"

definition cite_github ::
  "cite_env \<Rightarrow> github_ref \<Rightarrow> bool \<Rightarrow> key_options \<Rightarrow> world \<Rightarrow> world \<times> string \<times> cli_end" where
  "cite_github ct g offline ko w =
     (if offline then (w, [], Stopped (Bail ''--offline: a GitHub URL is cited from GitHub itself''))
      else (case with_config_defaults (bx_text (ct_bib ct)) (ce_vars (bx_cli (ct_bib ct))) (ce_files (bx_cli (ct_bib ct))) ko of
          Inl stop \<Rightarrow> (w, [], Stopped stop)
        | Inr ko \<Rightarrow> (case resolve_log_path (ce_vars (bx_cli (ct_bib ct))) of
            Inl stop \<Rightarrow> (w, [], Stopped stop)
          | Inr _ \<Rightarrow> (case resolve_github (ct_orch ct) g w of
              (w, Ok c) \<Rightarrow> print_bibtex ct ko (sc_metadata c) (default_key g) w
            | (w, Err _) \<Rightarrow> (w, [], Stopped (Bail ''failed to cite''))
            | (w, Panic) \<Rightarrow> (w, [], Crashed)))))"

definition cite_command ::
  "cite_env \<Rightarrow> capability_profile \<Rightarrow> string \<Rightarrow> bool \<Rightarrow> bool \<Rightarrow> key_options \<Rightarrow> world \<Rightarrow> world \<times> string \<times> cli_end" where
  "cite_command ct profile input offline zenodo_version ko w =
     (let ce = bx_cli (ct_bib ct) in
      case github_parse (fe (ct_orch ct)) input of
        Some g \<Rightarrow> cite_github ct g offline ko w
      | None \<Rightarrow> (case parse_ref_or_pubmed ce input (\<not> offline) w of
          (w, _, Ok (Inr r)) \<Rightarrow>
            (case with_config_defaults (bx_text (ct_bib ct)) (ce_vars ce) (ce_files ce) ko of
               Inl stop \<Rightarrow> (w, [], Stopped stop)
             | Inr ko \<Rightarrow>
                 if offline then cite_from_store ct ko r (Bail ''--offline: no local store entry'') w
                 else (case resolve_log_path (ce_vars ce) of
                     Inl stop \<Rightarrow> (w, [], Stopped stop)
                   | Inr _ \<Rightarrow> (case attempt (ct_resolve ct r profile) w of
                       (w, Ok (Inr outcome)) \<Rightarrow> (case cite_live ct profile r zenodo_version outcome w of
                           (w, Ok m) \<Rightarrow> print_bibtex ct ko m
                             (safekey_as_str (ref_safekey (sha (fe (ct_orch ct))) (hx (fe (ct_orch ct))) r)) w
                         | (w, _) \<Rightarrow> (w, [], Crashed))
                     | (w, Ok (Inl _)) \<Rightarrow> cite_from_store ct ko r (Bail ''failed to resolve'') w
                     | (w, _) \<Rightarrow> (w, [], Crashed))))
        | (w, _, Ok (Inl stop)) \<Rightarrow> (w, [], Stopped stop)
        | (w, _, _) \<Rightarrow> (w, [], Crashed)))"

subsection \<open>What the steps leave alone\<close>

text \<open>Where the cache of a run is.\<close>

definition cache_of :: "cli_env \<Rightarrow> string option" where
  "cache_of ce = (case cache_dir_utf8 (ce_vars ce) of Inl _ \<Rightarrow> None | Inr d \<Rightarrow> Some d)"

lemma ct_resolve_reads:
  assumes "hash_format (sha (fe (ct_orch ct))) (hx (fe (ct_orch ct)))"
  shows "only_reads (outside_cache (cache_of (bx_cli (ct_bib ct)))) (ct_resolve ct r profile)"
  using resolve_reads [OF assms] by (simp add: ct_resolve_def resolve_only_def cache_of_def)

lemma cited_record_reads: "only_reads P (cited_record ct r outcome)"
  by (simp add: only_reads_def cited_record_def)

subsection \<open>What is printed\<close>

text \<open>A command that prints one entry: the entry reads back, or nothing is printed.\<close>

definition one_entry :: "unicode \<Rightarrow> string \<Rightarrow> cli_end \<Rightarrow> bool" where
  "one_entry un out e \<longleftrightarrow>
     (if e = Finished
      then \<exists>k m fs. out = to_bibtex_with_fields un k m fs \<and> is_valid_key k
        \<and> read_entry out = Some (bibtex_entry_type (m_type m), k, map (\<lambda>(n, v). (n, strip_bibtex_unsafe un v)) (bibtex_fields m fs))
      else out = [])"

lemma one_entry_nothing [simp]: "e \<noteq> Finished \<Longrightarrow> one_entry un [] e"
  by (simp add: one_entry_def)

lemma print_bibtex_world: "fst (print_bibtex ct ko m key w) = w"
  by (simp add: print_bibtex_def split: sum.split prod.split)

lemma print_bibtex_entry:
  assumes "print_bibtex ct ko m key w = (w', out, e)" and "good_keys ko" and "is_valid_key key"
  shows "one_entry (te_uni (bx_text (ct_bib ct))) out e"
proof (cases "keys_bibtex (bx_text (ct_bib ct)) (bx_exists (ct_bib ct)) ko m key []")
  case (Inl err)
  with assms(1) show ?thesis by (auto simp: print_bibtex_def)
next
  case (Inr x)
  obtain t us na where x: "x = (t, us, na)" by (cases x)
  from keys_bibtex_item [OF Inr [unfolded x] assms(2,3)] obtain k where
      k: "is_valid_key k" "t = item_text (te_uni (bx_text (ct_bib ct)))
        (k, m, extra_fields (bx_exists (ct_bib ct)) ko m k key)" by blast
  from assms(1) Inr x have "out = t" "e = Finished" by (auto simp: print_bibtex_def)
  with k show ?thesis
    using bibtex_reads_back [OF k(1) extra_fields_plain] by (auto simp: one_entry_def item_text_def)
qed

lemma utf8_chars_nonempty: "s \<noteq> [] \<Longrightarrow> utf8_chars s \<noteq> []"
  by (cases s) simp_all

lemma default_key_valid:
  assumes "github_parse fenv input = Some g"
  shows "is_valid_key (default_key g)"
proof -
  let ?f = "\<lambda>ch. if ascii_char is_ascii_alphanumeric ch then ch else ''_''"
  have chars: "list_all is_key_char (?f c)" for c
    by (auto simp: is_key_char_def ascii_char_def ascii_class_defs list_all_iff split: list.splits)
  have "list_all is_key_char (concat (map ?f cs))" for cs
    using chars by (induction cs) simp_all
  moreover have "concat (map ?f cs) \<noteq> []" if "cs \<noteq> []" for cs
    using that by (cases cs) (auto simp: ascii_char_def split: list.splits)
  moreover have "gh_repo g \<noteq> []" using github_parse_checked [OF assms] by (simp add: valid_name_def)
  ultimately show ?thesis
    by (simp add: valid_key_chars default_key_def utf8_chars_nonempty split: option.split)
qed

lemma cite_from_store_entry:
  assumes "hash_format (sha (fe (ct_orch ct))) (hx (fe (ct_orch ct)))" "ref_wf r" "good_keys ko"
    and "cite_from_store ct ko r stop w = (w', out, e)"
  shows "one_entry (te_uni (bx_text (ct_bib ct))) out e \<and> effects w' = effects w"
proof -
  let ?key = "ref_safekey (sha (fe (ct_orch ct))) (hx (fe (ct_orch ct))) r"
  obtain v x where step: "read_stored (ct_orch ct) ?key w = (v, x)" by force
  then have same: "effects v = effects w" by (auto simp: read_stored_def split: prod.splits)
  show ?thesis
  proof (cases "\<exists>m. x = Inr (Some m)")
    case True
    then obtain m where m: "x = Inr (Some m)" by blast
    show ?thesis
    proof (cases "resolve_store_root (ce_vars (bx_cli (ct_bib ct))) (ce_files (bx_cli (ct_bib ct)))")
      case (Inl err)
      with assms(4) show ?thesis by (auto simp: cite_from_store_def)
    next
      case (Inr root)
      with assms(4) step m have run: "print_bibtex ct ko m (safekey_as_str ?key) v = (w', out, e)"
        by (simp add: cite_from_store_def Let_def)
      from print_bibtex_entry [OF run assms(3) safekey_valid [OF assms(1,2)]] print_bibtex_world [of ct ko m _ v] run same
      show ?thesis by (metis fst_conv)
    qed
  next
    case False
    with assms(4) step same show ?thesis
      by (auto simp: cite_from_store_def Let_def split: sum.splits option.splits)
  qed
qed

text \<open>\<^verbatim>\<open>parse_ref_or_pubmed\<close> gives a well-formed reference, and makes no request when the network is closed.\<close>

lemma found_doi_wf: "pubmed_lookup env i w = (w', Ok (FoundDoi d)) \<Longrightarrow> ref_wf (RefDoi d)"
proof -
  have "classify v u = FoundDoi d \<Longrightarrow> ref_wf (RefDoi d)" for v u
    by (auto simp: classify_def doi_parse_wf split: option.splits if_splits sum.splits)
  then show "pubmed_lookup env i w = (w', Ok (FoundDoi d)) \<Longrightarrow> ref_wf (RefDoi d)"
    by (auto simp: pubmed_lookup_def Let_def act_Ok_simps throw_def split: sum.splits prod.splits)
      (metis sum.exhaust surj_pair)
qed

lemma found_in_session_wf: "lookup_in_session env i w = (w', Ok (FoundDoi d)) \<Longrightarrow> ref_wf (RefDoi d)"
  by (auto simp: lookup_in_session_def in_session_def and_then_Ok performs_catch_Ok return_ok_Ok throw_def dest: found_doi_wf)

lemma ref_or_pubmed_wf:
  assumes "parse_ref_or_pubmed ce input network w = (w', ls, Ok (Inr r))"
  shows "ref_wf r"
proof (cases "pubmed_parse (fe (ce_orch ce)) input")
  case None
  with assms show ?thesis
    by (auto simp: parse_ref_or_pubmed_def parse_ref_or_exit_def Let_def ref_parse_wf split: prod.splits sum.splits)
next
  case (Some i)
  with assms show ?thesis
    by (auto simp: parse_ref_or_pubmed_def Let_def dest: found_in_session_wf
        split: if_splits prod.splits res.splits lookup.splits)
qed

lemma ref_or_pubmed_offline: "fst (parse_ref_or_pubmed ce input False w) = w"
  by (simp add: parse_ref_or_pubmed_def Let_def split: option.split prod.split)

lemma cite_github_entry:
  assumes "cite_github ct g offline ko w = (w', out, e)" and "github_parse fenv input = Some g"
  shows "one_entry (te_uni (bx_text (ct_bib ct))) out e \<and> (offline \<longrightarrow> w' = w)"
  using assms(1)
  by (auto simp: cite_github_def split: if_splits sum.splits prod.splits res.splits
      intro: print_bibtex_entry [OF _ with_config_defaults_good default_key_valid [OF assms(2)]])

lemma cite_command_entry:
  assumes format: "hash_format (sha (fe (ct_orch ct))) (hx (fe (ct_orch ct)))"
    and run: "cite_command ct profile input offline zenodo_version ko w = (w', out, e)"
  shows "one_entry (te_uni (bx_text (ct_bib ct))) out e \<and> (offline \<longrightarrow> effects w' = effects w)"
proof (cases "github_parse (fe (ct_orch ct)) input")
  case (Some g)
  with run have "cite_github ct g offline ko w = (w', out, e)" by (simp add: cite_command_def)
  from cite_github_entry [OF this Some] show ?thesis by blast
next
  case None
  obtain v ls x where step: "parse_ref_or_pubmed (bx_cli (ct_bib ct)) input (\<not> offline) w = (v, ls, x)"
    by (metis prod_cases3)
  then have same: "offline \<longrightarrow> v = w" using ref_or_pubmed_offline by (metis fst_conv)
  show ?thesis
  proof (cases "\<exists>r. x = Ok (Inr r)")
    case False
    with run None step same show ?thesis
      by (auto simp: cite_command_def Let_def split: res.splits sum.splits)
  next
    case True
    then obtain r where r: "x = Ok (Inr r)" by blast
    with step have wf: "ref_wf r" using ref_or_pubmed_wf by blast
    show ?thesis
    proof (cases "with_config_defaults (bx_text (ct_bib ct)) (ce_vars (bx_cli (ct_bib ct)))
        (ce_files (bx_cli (ct_bib ct))) ko")
      case (Inl stop)
      with run None step r same show ?thesis by (auto simp: cite_command_def Let_def)
    next
      case (Inr ko')
      note good = with_config_defaults_good [OF Inr]
      note stored = cite_from_store_entry [OF format wf good]
      note printed = print_bibtex_entry [OF _ good safekey_valid [OF format wf]]
      from run None step r Inr same stored show ?thesis
        by (cases offline)
          (auto simp: cite_command_def Let_def split: prod.splits res.splits sum.splits dest: printed)
    qed
  qed
qed

text \<open>C35: A citation is one entry or an error.  Whatever is cited, however it is reached (GitHub, PubMed, a live
  resolve, the cache or the store) and whatever the records hold, \<^verbatim>\<open>doiget cite\<close> that exits with 0 has printed
  exactly one BibTeX entry, which reads back under a key BibTeX accepts, and with any other end it has printed
  nothing; with \<^verbatim>\<open>--offline\<close> it has made no request and written no log row.\<close>

theorem citation_is_one_entry:
  assumes "hash_format (sha (fe (ct_orch ct))) (hx (fe (ct_orch ct)))"
    and "cite_command ct profile input offline zenodo_version ko w = (w', out, e)"
  shows "(if e = Finished
      then \<exists>k m fs. out = to_bibtex_with_fields (te_uni (bx_text (ct_bib ct))) k m fs \<and> is_valid_key k
        \<and> read_entry out = Some (bibtex_entry_type (m_type m), k,
            map (\<lambda>(n, v). (n, strip_bibtex_unsafe (te_uni (bx_text (ct_bib ct))) v)) (bibtex_fields m fs))
      else out = [])
    \<and> (offline \<longrightarrow> effects w' = effects w)"
  using cite_command_entry [OF assms] by (simp add: one_entry_def)

lemma cite_metadata_arxiv: "m_arxiv_id (cite_metadata env at (RefArxiv a) outcome) = Some a"
  by (simp add: cite_metadata_def build_metadata_only_metadata_def cite_datacite_def Let_def split: option.split)

lemma choose_zenodo_arxiv: "m_arxiv_id (choose_zenodo_doi m outcome keep) = m_arxiv_id m"
  by (simp add: choose_zenodo_doi_def split: option.split zenodo_doi_t.split sum.split)

text \<open>A cited preprint keeps its identity.  When an arXiv identifier has been resolved live, the record that is
  rendered still carries that identifier, so that the entry has the fields \<^verbatim>\<open>eprint\<close> and \<^verbatim>\<open>archivePrefix\<close>, even
  when a published version was found and its record replaced the preprint's.\<close>

theorem cited_preprint_keeps_its_identity:
  assumes "cite_live ct profile (RefArxiv a) zenodo_version outcome w = (w', Ok m)"
  shows "m_arxiv_id m = Some a
    \<and> (''eprint'', arxiv_as_str a) \<in> set (bibtex_fields m fs) \<and> (''archivePrefix'', ''arXiv'') \<in> set (bibtex_fields m fs)"
proof -
  from assms obtain u m1 v m2 q where
      "m1 = cite_metadata (ct_orch ct) (now_text (ct_orch ct) (effects w)) (RefArxiv a) outcome"
      and merged: "with_published ct profile (RefArxiv a) outcome m1 u = (v, Ok m2)"
      and fixed: "repair_act (ct_orch ct)
        (if mo_source outcome = ''datacite'' then choose_zenodo_doi m2 outcome zenodo_version else m2) profile v = (w', Ok (m, q))"
    by (auto simp: cite_live_def cited_record_def act_Ok_simps)
  then have "m_arxiv_id m1 = Some a"
    by (simp add: cite_metadata_arxiv)
  with merged have "m_arxiv_id m2 = Some a"
    by (auto simp: with_published_def performs_catch_Ok and_then_Ok return_ok_Ok merge_published_def split: option.splits)
  then have "m_arxiv_id m = Some a"
    using repair_act_identity [OF fixed] by (simp add: identity_of_def choose_zenodo_arxiv)
  then show ?thesis by (simp add: bibtex_fields_def)
qed

subsection \<open>Runs\<close>

definition demo_cite :: cite_env where
  "demo_cite = \<lparr> ct_bib = demo_bib, ct_cache = demo_cache \<rparr>"

definition atom_outcome :: metadata_outcome where
  "atom_outcome = mk_outcome ''arxiv'' None None None (JObject [(''title'', JString ''A''), (''doi'', JString ''10.1234/x'')])"

lemma demo_cites:
  "snd (cite_command demo_cite demo_profile ''10.1234/x'' True False by_author stored_world) = (demo_file, Finished)
   \<and> (case snd (cite_live demo_cite demo_profile (RefArxiv (ArxivId ''2401.12345'')) False atom_outcome demo_world) of
     Ok _ \<Rightarrow> True | _ \<Rightarrow> False)"
  by code_simp

lemmas demo_cite_run = demo_cites [THEN conjunct1]
lemmas demo_live = demo_cites [THEN conjunct2]

theorem citation_is_one_entry_witness:
  "\<exists>k m fs. demo_file = to_bibtex_with_fields ascii_unicode k m fs \<and> is_valid_key k"
proof -
  have format: "hash_format (sha (fe (ct_orch demo_cite))) (hx (fe (ct_orch demo_cite)))"
    by (simp add: ct_orch_def demo_cite_def demo_bib_def demo_cli_def demo_orch_def demo_fetch_env_def hash_format_toy)
  have uni: "te_uni (bx_text (ct_bib demo_cite)) = ascii_unicode" by (simp add: demo_cite_def demo_bib_def)
  have "cite_command demo_cite demo_profile ''10.1234/x'' True False by_author stored_world
      = (fst (cite_command demo_cite demo_profile ''10.1234/x'' True False by_author stored_world), demo_file, Finished)"
    by (simp only: demo_cite_run [symmetric] prod.collapse)
  from conjunct1 [OF citation_is_one_entry [OF format this]]
  show ?thesis unfolding uni by auto
qed

theorem cited_preprint_keeps_its_identity_witness:
  "\<exists>m. snd (cite_live demo_cite demo_profile (RefArxiv (ArxivId ''2401.12345'')) False atom_outcome demo_world) = Ok m
     \<and> (''eprint'', ''2401.12345'') \<in> set (bibtex_fields m [])"
proof -
  obtain v m where run: "cite_live demo_cite demo_profile (RefArxiv (ArxivId ''2401.12345'')) False atom_outcome demo_world
      = (v, Ok m)"
    using demo_live by (auto split: res.splits) (metis prod.collapse)
  from cited_preprint_keeps_its_identity [OF run, of "[]"] run show ?thesis by auto
qed

end
