(* ===== verification/Verify.thy ===== *)
theory Verify
  imports Cite
begin

text \<open>
  \<^verbatim>\<open>doiget verify\<close> (\<^verbatim>\<open>crates/doiget-cli/src/commands/verify.rs\<close>): every entry of a bibliography classified by
  whether its reference resolves, one record per entry, and an exit status that counts the failing ones.  The
  summary on standard error is not modelled.
\<close>

subsection \<open>Verdicts and policy\<close>

datatype verify_status = Valid | Illegal | Absent | Unreachable | Unverifiable

fun status_as_wire :: "verify_status \<Rightarrow> string" where
  "status_as_wire Valid = ''valid''"
| "status_as_wire Illegal = ''illegal''"
| "status_as_wire Absent = ''absent''"
| "status_as_wire Unreachable = ''unreachable''"
| "status_as_wire Unverifiable = ''unverifiable''"

fun is_failing :: "bool \<Rightarrow> on_missing_id_t \<Rightarrow> verify_status \<Rightarrow> bool" where
  "is_failing strict on_missing Valid = False"
| "is_failing strict on_missing Illegal = True"
| "is_failing strict on_missing Absent = True"
| "is_failing strict on_missing Unreachable = strict"
| "is_failing strict on_missing Unverifiable = (on_missing = MissingError)"

text \<open>What the command reads besides what \<^verbatim>\<open>cite\<close> does: the \<^verbatim>\<open>[verify]\<close> table.\<close>

record verify_env =
  ve_cite :: cite_env
  ve_parse :: "string \<Rightarrow> (bool \<times> on_missing_id_t) option option"

definition ve_cli :: "verify_env \<Rightarrow> cli_env" where
  "ve_cli ve = bx_cli (ct_bib (ve_cite ve))"

definition load_verify_config :: "verify_env \<Rightarrow> verify_config" where
  "load_verify_config ve = (case config_dir_utf8 (ce_vars (ve_cli ve)) of
     Inl _ \<Rightarrow> default_verify
   | Inr dir \<Rightarrow> (case load_verify (ve_parse ve) (cf_read (ce_files (ve_cli ve)))
         (path_join (path_join dir ''doiget'') ''config.toml'') of
       Inr cfg \<Rightarrow> cfg | Inl _ \<Rightarrow> default_verify))"

definition parse_format :: "string \<Rightarrow> bib_format option" where
  "parse_format s = (if s = ''auto'' then Some FormatAuto else if s = ''refs'' then Some FormatRefs
     else if s = ''csl-json'' then Some FormatCslJson else if s = ''bibtex'' then Some FormatBibtex else None)"

definition effective_policy :: "bool \<Rightarrow> verify_config \<Rightarrow> bool \<times> on_missing_id_t" where
  "effective_policy cli_strict cfg =
     (let strict = cli_strict \<or> vc_strict cfg in
      (strict,
       if cli_strict then MissingError
       else if strict then (case vc_on_missing_id cfg of MissingSkip \<Rightarrow> MissingWarn | p \<Rightarrow> p)
       else vc_on_missing_id cfg))"

subsection \<open>One entry\<close>

definition error_json :: "error_code \<Rightarrow> string \<Rightarrow> json" where
  "error_json c why = JObject [(''code'', JString (code_as_wire c)), (''message'', JString why)]"

text \<open>The record of an entry that was read: its reference (or \<^verbatim>\<open>null\<close>), verdict, key and error.\<close>

definition entry_verdict :: "string option \<Rightarrow> verify_status \<Rightarrow> string option \<Rightarrow> (error_code \<times> string) option \<Rightarrow> verify_status \<times> json" where
  "entry_verdict r s key err = (s, JObject ([(''ok'', JBool (s = Valid)), (''ref'', opt_json r),
     (''status'', JString (status_as_wire s)), (''entry_key'', opt_json key)]
     @ (case err of None \<Rightarrow> [] | Some (c, why) \<Rightarrow> [(''error'', error_json c why)])))"

definition add_member :: "string \<Rightarrow> json \<Rightarrow> json \<Rightarrow> json" where
  "add_member k v j = (case j of JObject ms \<Rightarrow> JObject (ms @ [(k, v)]) | _ \<Rightarrow> j)"

type_synonym verified = "cli_stop + (verify_status \<times> json) option"

definition verify_software ::
  "verify_env \<Rightarrow> string \<Rightarrow> string option \<Rightarrow> verified act" where
  "verify_software ve url key =
     (let env = ct_orch (ve_cite ve);
          answer = (\<lambda>s err. return_ok (Inr (Some (map_prod id (add_member ''kind'' (JString ''software'')) (entry_verdict (Some url) s key err))))) in
      case github_parse (fe env) url of
        None \<Rightarrow> return_ok (Inl (Bail ''internal error''))
      | Some g \<Rightarrow> catch (github_resolves env g) (\<lambda>x. case x of
          Inr True \<Rightarrow> answer Valid None
        | Inr False \<Rightarrow> answer Absent (Some (error_code.NotFound, ''GitHub has no '' @ url))
        | Inl e \<Rightarrow>
            if fetch_error_code e = LogError then return_ok (Inl (Bail ''provenance log error during verify''))
            else answer Unreachable (Some (fetch_error_code e,
              (case explain e of Some why \<Rightarrow> error_text env e @ '': '' @ why | None \<Rightarrow> error_text env e)))))"

text \<open>A reference is resolved, and a record it resolves to that lost characters says so.\<close>

definition resolved_verdict :: "paper_ref \<Rightarrow> string option \<Rightarrow> metadata \<Rightarrow> verify_status \<times> json" where
  "resolved_verdict r key m =
     (let quality = map (\<lambda>f. JString (''replacement_char:'' @ f)) (replacement_char_fields m);
          v = entry_verdict (Some (as_input_str r)) Valid key None in
      if quality = [] then v else map_prod id (add_member ''metadata_quality'' (JArray quality)) v)"

definition unresolved_verdict ::
  "paper_ref \<Rightarrow> string option \<Rightarrow> error_code \<Rightarrow> string \<Rightarrow> cli_stop + (verify_status \<times> json) option" where
  "unresolved_verdict r key c why =
     (if c = LogError then Inl (Bail ''provenance log error during verify'')
      else if c = InternalError then Inl (Bail ''internal error during verify'')
      else Inr (Some (entry_verdict (Some (as_input_str r))
        (if c = error_code.NotFound then Absent else Unreachable) key (Some (c, why)))))"

definition verify_ref ::
  "verify_env \<Rightarrow> capability_profile \<Rightarrow> paper_ref \<Rightarrow> string option \<Rightarrow> verified act" where
  "verify_ref ve profile r key =
     (let ct = ve_cite ve; env = ct_orch ct in
      catch (ct_resolve ct r profile) (\<lambda>x. case x of
        Inr outcome \<Rightarrow> and_then (cited_record ct r outcome) (\<lambda>m. return_ok (Inr (Some (resolved_verdict r key m))))
      | Inl e \<Rightarrow> return_ok (unresolved_verdict r key (fetch_error_code e) (error_text env e))))"

text \<open>\<^verbatim>\<open>unsupported_identifier_claim\<close>.\<close>

definition unsupported_identifier_claim :: "string \<Rightarrow> string \<Rightarrow> string" where
  "unsupported_identifier_claim kind v = ''entry is identified only by '' @ kind @ '' '' @ CHR 0x22 # v @ CHR 0x22 #
     '', which doiget resolves through the DOI PubMed lists for it (#500) -- a request this run did not make (--dry-run / --offline); it is NOT missing an identifier''"

definition verify_entry ::
  "verify_env \<Rightarrow> capability_profile \<Rightarrow> on_missing_id_t \<Rightarrow> resolved \<Rightarrow> verified act" where
  "verify_entry ve profile on_missing item = (case item of
     Unresolved u \<Rightarrow> return_ok (Inr (Some (entry_verdict (Some (pubmed_display (un_id u)))
       (if un_code u = error_code.NotFound then Absent else if un_code u = NotImplemented then Unverifiable else Unreachable)
       (un_key u) (Some (un_code u, un_reason u)))))
   | Entry (Inr p) \<Rightarrow> verify_ref ve profile (pe_ref p) (pe_key p)
   | Entry (Inl (UnparsedRef raw key why)) \<Rightarrow> return_ok (Inr (Some
       (entry_verdict (Some raw) Illegal key (Some (InvalidRef, ref_error_text (ve_cli ve) why)))))
   | Entry (Inl (UnsupportedIdentifier kind v key)) \<Rightarrow> return_ok (Inr (Some
       (entry_verdict None Unverifiable key (Some (NotImplemented, unsupported_identifier_claim kind v)))))
   | Entry (Inl (NoIdentifier key)) \<Rightarrow>
       if on_missing = MissingSkip then return_ok (Inr None)
       else return_ok (Inr (Some (entry_verdict None Unverifiable key (Some (InvalidRef, ''entry has no DOI / arXiv id'')))))
   | Entry (Inl (SoftwareUrl url key)) \<Rightarrow> verify_software ve url key
   | Entry (Inl (Decode why)) \<Rightarrow> return_ok (Inr (Some (Illegal, JObject [(''ok'', JBool False),
       (''status'', JString (status_as_wire Illegal)), (''error'', error_json InvalidRef (''input did not parse as '' @ why))])))
   | Entry (Inl (UnsupportedFormat fmt)) \<Rightarrow> return_ok (Inl (Bail (fmt @ '' parsing is not supported for verification''))))"

subsection \<open>The command\<close>

text \<open>The records printed so far stay printed when the run is aborted.\<close>

fun verify_items ::
  "verify_env \<Rightarrow> capability_profile \<Rightarrow> on_missing_id_t \<Rightarrow> resolved list \<Rightarrow> world
     \<Rightarrow> world \<times> (verify_status \<times> json) list \<times> cli_end" where
  "verify_items ve profile om [] w = (w, [], Finished)"
| "verify_items ve profile om (x # xs) w = (case attempt (verify_entry ve profile om x) w of
     (w, Ok (Inr (Inr None))) \<Rightarrow> verify_items ve profile om xs w
   | (w, Ok (Inr (Inr (Some r)))) \<Rightarrow> (case verify_items ve profile om xs w of (w, rs, e) \<Rightarrow> (w, r # rs, e))
   | (w, Ok (Inr (Inl stop))) \<Rightarrow> (w, [], Stopped stop)
   | (w, _) \<Rightarrow> (w, [], Crashed))"

definition verify_command ::
  "verify_env \<Rightarrow> capability_profile \<Rightarrow> string \<Rightarrow> string \<Rightarrow> bool \<Rightarrow> world
     \<Rightarrow> world \<times> (verify_status \<times> json) list \<times> cli_end" where
  "verify_command ve profile path format cli_strict w =
     (let ct = ve_cite ve; ce = ve_cli ve in
      case parse_format format of
        None \<Rightarrow> (w, [], Stopped (Bail ''unknown --format''))
      | Some fmt \<Rightarrow> (case bx_read (ct_bib ct) path of
          None \<Rightarrow> (w, [], Stopped (CliExit 2))
        | Some text \<Rightarrow>
            let es = parse_input (bx_bib (ct_bib ct)) text fmt (Some path);
                (strict, om) = effective_policy cli_strict (load_verify_config ve) in
            (case resolve_log_path (ce_vars ce) of
               Inl stop \<Rightarrow> (w, [], Stopped stop)
             | Inr _ \<Rightarrow> (case attempt (resolve_entries (ct_orch ct) es) w of
                 (w, Ok (Inr items)) \<Rightarrow> (case verify_items ve profile om items w of
                     (w, rs, Finished) \<Rightarrow>
                       let failing = length (filter (\<lambda>(s, _). is_failing strict om s) rs) in
                       (w, rs, if failing = 0 then Finished else Stopped (CliExit (min failing 255)))
                   | stopped \<Rightarrow> stopped)
               | (w, Ok (Inl _)) \<Rightarrow> (w, [], Stopped (Bail ''provenance log error during verify''))
               | (w, _) \<Rightarrow> (w, [], Crashed)))))"

subsection \<open>Every entry is accounted for\<close>

definition entry_key :: "bib_result \<Rightarrow> string option" where
  "entry_key e = (case e of
     Inr p \<Rightarrow> pe_key p
   | Inl (NoIdentifier k) \<Rightarrow> k | Inl (UnsupportedIdentifier _ _ k) \<Rightarrow> k | Inl (SoftwareUrl _ k) \<Rightarrow> k
   | Inl (UnparsedRef _ k _) \<Rightarrow> k | Inl _ \<Rightarrow> None)"

definition skipped :: "on_missing_id_t \<Rightarrow> bib_result \<Rightarrow> bool" where
  "skipped om e \<longleftrightarrow> om = MissingSkip \<and> (case e of Inl (NoIdentifier _) \<Rightarrow> True | _ \<Rightarrow> False)"

text \<open>What the record of an entry has to say, whatever the network answers.\<close>

definition judged :: "bib_result \<Rightarrow> verify_status \<times> json \<Rightarrow> bool" where
  "judged e v \<longleftrightarrow>
     jget (snd v) ''status'' = Some (JString (status_as_wire (fst v)))
   \<and> jget (snd v) ''ok'' = Some (JBool (fst v = Valid))
   \<and> (case e of Inl (Decode _) \<Rightarrow> True | _ \<Rightarrow> jget (snd v) ''entry_key'' = Some (opt_json (entry_key e)))
   \<and> (fst v = Illegal \<longleftrightarrow> (case e of Inl (UnparsedRef _ _ _) \<Rightarrow> True | Inl (Decode _) \<Rightarrow> True | _ \<Rightarrow> False))
   \<and> (case e of Inl (NoIdentifier _) \<Rightarrow> fst v = Unverifiable | _ \<Rightarrow> True)"

lemma entry_verdict_members:
  "fst (entry_verdict r s key err) = s"
  "jget (snd (entry_verdict r s key err)) ''status'' = Some (JString (status_as_wire s))"
  "jget (snd (entry_verdict r s key err)) ''ok'' = Some (JBool (s = Valid))"
  "jget (snd (entry_verdict r s key err)) ''entry_key'' = Some (opt_json key)"
  by (simp_all add: entry_verdict_def jget_def map_add_def split: option.split)

lemma jget_add_member: "jget j k = Some v \<Longrightarrow> jget (add_member k' v' j) k = Some v"
  by (cases j) (auto simp: add_member_def jget_def map_add_def)

lemma judged_verdict:
  assumes "case e of Inl (Decode _) \<Rightarrow> False | _ \<Rightarrow> key = entry_key e"
    and "s = Illegal \<longleftrightarrow> (case e of Inl (UnparsedRef _ _ _) \<Rightarrow> True | Inl (Decode _) \<Rightarrow> True | _ \<Rightarrow> False)"
    and "case e of Inl (NoIdentifier _) \<Rightarrow> s = Unverifiable | _ \<Rightarrow> True"
  shows "judged e (entry_verdict r s key err)"
    and "judged e (map_prod id (add_member k v) (entry_verdict r s key err))"
  using assms
  by (auto simp: judged_def entry_verdict_members jget_add_member split: sum.splits parse_error.splits)

lemma verify_software_judged:
  assumes "verify_software ve url key w = (w', Ok (Inr (Some v)))"
  shows "judged (Inl (SoftwareUrl url key)) v"
proof -
  have "judged (Inl (SoftwareUrl url key)) (map_prod id (add_member k j) (entry_verdict r s key err))"
    if "s \<noteq> Illegal" for k j r s err
    using that by (intro judged_verdict(2)) (auto simp: entry_key_def)
  with assms show ?thesis
    by (auto simp: verify_software_def Let_def return_ok_Ok performs_catch_Ok
        split: option.splits if_splits bool.splits)
qed

lemma verify_ref_judged:
  assumes "verify_ref ve profile (pe_ref p) (pe_key p) w = (w', Ok (Inr (Some v)))"
  shows "judged (Inr p) v"
proof -
  have "judged (Inr p) (resolved_verdict (pe_ref p) (pe_key p) m)" for m
    unfolding resolved_verdict_def Let_def
    by (auto intro!: judged_verdict simp: entry_key_def)
  moreover have "judged (Inr p) v" if "unresolved_verdict (pe_ref p) (pe_key p) c why = Inr (Some v)" for c why
    using that unfolding unresolved_verdict_def
    by (auto intro!: judged_verdict(1) simp: entry_key_def split: if_splits)
  ultimately show ?thesis
    using assms by (auto simp: verify_ref_def Let_def performs_catch_Ok and_then_Ok return_ok_Ok)
qed

text \<open>An entry of the bibliography and what it was resolved to.\<close>

lemma judged_same_key:
  assumes "judged (Inr p) v" and "e = Inl (UnsupportedIdentifier kind i k)" and "pe_key p = k"
  shows "judged e v"
  using assms by (auto simp: judged_def entry_key_def)

lemma verify_entry_judged:
  assumes "answers e item" and "verify_entry ve profile om item w = (w', Ok (Inr (Some v)))"
  shows "judged e v \<and> \<not> skipped om e"
proof (cases "pubmed_entry e")
  case None
  with assms(1) have item: "item = Entry e" by (simp add: answers_def)
  show ?thesis
  proof (cases e)
    case (Inr p)
    with assms(2) item show ?thesis by (auto simp: verify_entry_def skipped_def intro: verify_ref_judged)
  next
    case (Inl err)
    with assms(2) item show ?thesis
      by (cases err)
        (auto simp: verify_entry_def skipped_def return_ok_Ok entry_key_def verify_software_judged
          intro!: judged_verdict(1) split: if_splits,
         auto simp: judged_def jget_def map_add_def)
  qed
next
  case (Some ik)
  then obtain i k kind where e: "e = Inl (UnsupportedIdentifier kind i k)" and ik: "ik = (fst ik, k)"
    by (auto simp: pubmed_entry_def split: sum.splits parse_error.splits)
  from assms(1) Some ik consider (doi) d where "item = Entry (Inr \<lparr> pe_ref = RefDoi d, pe_key = k \<rparr>)"
    | (none) u where "item = Unresolved u" "un_key u = k"
    by (auto simp: answers_def split: prod.splits)
  then show ?thesis
  proof cases
    case doi
    with assms(2) have "verify_ref ve profile (RefDoi d) k w = (w', Ok (Inr (Some v)))" by (simp add: verify_entry_def)
    with verify_ref_judged [of ve profile "\<lparr> pe_ref = RefDoi d, pe_key = k \<rparr>"] have "judged (Inr \<lparr> pe_ref = RefDoi d, pe_key = k \<rparr>) v"
      by simp
    from judged_same_key [OF this e] show ?thesis by (simp add: e skipped_def)
  next
    case none
    with assms(2) e show ?thesis
      by (auto simp: verify_entry_def return_ok_Ok entry_key_def skipped_def intro!: judged_verdict(1))
  qed
qed

lemma verify_entry_skips:
  assumes "answers e item" and "verify_entry ve profile om item w = (w', Ok (Inr None))"
  shows "skipped om e"
proof -
  have "verify_ref ve profile r k w \<noteq> (w', Ok (Inr None))" for r k
    by (auto simp: verify_ref_def Let_def performs_catch_Ok and_then_Ok return_ok_Ok unresolved_verdict_def)
  moreover have "verify_software ve u k w \<noteq> (w', Ok (Inr None))" for u k
    by (auto simp: verify_software_def Let_def performs_catch_Ok return_ok_Ok split: option.splits if_splits bool.splits)
  ultimately obtain k where "item = Entry (Inl (NoIdentifier k))" "om = MissingSkip"
    using assms(2) by (auto simp: verify_entry_def return_ok_Ok split: resolved.splits sum.splits parse_error.splits if_splits)
  with assms(1) show ?thesis
    by (auto simp: answers_def skipped_def pubmed_entry_def split: option.splits sum.splits parse_error.splits)
qed

lemma attempt_Inr: "attempt m w = (w', Ok (Inr a)) \<longleftrightarrow> m w = (w', Ok a)"
  by (auto simp: attempt_def performs_catch_Ok return_ok_Ok)

lemma verify_items_judged:
  assumes "list_all2 answers es items" and "verify_items ve profile om items w = (w', rs, Finished)"
  shows "list_all2 judged (filter (\<lambda>e. \<not> skipped om e) es) rs"
  using assms
proof (induction es items arbitrary: w rs rule: list_all2_induct)
  case (Cons e es x xs)
  obtain v r where step: "attempt (verify_entry ve profile om x) w = (v, r)" by force
  from Cons.prems step consider (skip) "r = Ok (Inr (Inr None))" | (out) y where "r = Ok (Inr (Inr (Some y)))"
    by (auto split: res.splits sum.splits option.splits)
  then show ?case
  proof cases
    case skip
    with step have "verify_entry ve profile om x w = (v, Ok (Inr None))" by (simp add: attempt_Inr)
    from verify_entry_skips [OF Cons.hyps(1) this] Cons.IH Cons.prems step skip show ?thesis by simp
  next
    case out
    with step have "verify_entry ve profile om x w = (v, Ok (Inr (Some y)))" by (simp add: attempt_Inr)
    from verify_entry_judged [OF Cons.hyps(1) this] Cons.IH Cons.prems step out show ?thesis
      by (auto split: prod.splits)
  qed
qed simp

lemma verify_entry_bails:
  "verify_entry ve profile om item w = (w', Ok (Inl stop)) \<Longrightarrow> \<exists>why. stop = Bail why"
  by (auto simp: verify_entry_def verify_ref_def verify_software_def Let_def performs_catch_Ok and_then_Ok return_ok_Ok
      unresolved_verdict_def split: resolved.splits sum.splits parse_error.splits if_splits option.splits bool.splits)

lemma verify_items_end: "verify_items ve profile om items w = (w', rs, e) \<Longrightarrow> e \<noteq> Stopped (CliExit n)"
proof (induction items arbitrary: w rs)
  case (Cons x xs)
  then show ?case
    by (auto simp: attempt_Inr dest: verify_entry_bails split: prod.splits res.splits sum.splits option.splits)
qed simp

text \<open>C27: Verification accounts for every entry.  A run that is not aborted prints, in the order of the file, one
  record for every entry that is not skipped by the policy: under the entry's own key, with a status that agrees
  with its \<^verbatim>\<open>ok\<close>, and \<^verbatim>\<open>illegal\<close> exactly for a malformed identifier or an unreadable input, whatever the
  network answers; and its exit status is the number of the records that the effective policy fails, at most 255.\<close>

theorem verification_accounts_for_every_entry:
  assumes "verify_command ve profile path format cli_strict w = (w', rs, e)"
    and "parse_format format = Some fmt" and "bx_read (ct_bib (ve_cite ve)) path = Some text"
    and "effective_policy cli_strict (load_verify_config ve) = (strict, om)"
    and "e = Finished \<or> e = Stopped (CliExit n)"
  shows "list_all2 judged
      (filter (\<lambda>x. \<not> skipped om x) (parse_input (bx_bib (ct_bib (ve_cite ve))) text fmt (Some path))) rs
    \<and> exit_status e = Some (min (length (filter (\<lambda>v. is_failing strict om (fst v)) rs)) 255)"
proof -
  let ?es = "parse_input (bx_bib (ct_bib (ve_cite ve))) text fmt (Some path)"
  let ?failing = "length (filter (\<lambda>(s, _). is_failing strict om s) rs)"
  obtain v x where res: "attempt (resolve_entries (ct_orch (ve_cite ve)) ?es) w = (v, x)" by force
  have bail: "resolve_log_path env = Inl stop \<Longrightarrow> \<exists>why. stop = Bail why" for env stop
    by (cases "config_dir env") (auto simp: resolve_log_path_def env_rung_def read_env_utf8_def config_dir_utf8_def map_ok_def map_err_def
        split: option.splits if_splits sum.splits)
  from assms res bail obtain items where items: "x = Ok (Inr items)"
    and rest: "(case verify_items ve profile om items v of (w, rs, Finished) \<Rightarrow>
        let failing = length (filter (\<lambda>(s, _). is_failing strict om s) rs) in
        (w, rs, if failing = 0 then Finished else Stopped (CliExit (min failing 255)))
      | stopped \<Rightarrow> stopped) = (w', rs, e)"
    by (fastforce simp: verify_command_def Let_def split: sum.splits res.splits)
  obtain u rs' e' where loop: "verify_items ve profile om items v = (u, rs', e')" by (metis prod_cases3)
  with rest assms(5) verify_items_end [OF loop] have fin: "e' = Finished" "rs' = rs"
    by (auto split: cli_end.splits simp: Let_def split: if_splits)
  have "list_all2 answers ?es items"
    using res items by (auto simp: attempt_Inr intro: resolve_entries_answers)
  moreover have "(\<lambda>(s, _ :: json). is_failing strict om s) = (\<lambda>v. is_failing strict om (fst v))" by auto
  ultimately show ?thesis
    using verify_items_judged [OF _ loop [unfolded fin]] rest loop fin by (auto simp: Let_def split: if_splits)
qed

text \<open>The strict lane fails whatever the default lane fails.\<close>

lemma strict_is_stricter:
  "is_failing (fst (effective_policy False cfg)) (snd (effective_policy False cfg)) s
     \<Longrightarrow> is_failing (fst (effective_policy True cfg)) (snd (effective_policy True cfg)) s"
  by (cases s) (auto simp: effective_policy_def split: on_missing_id_t.splits if_splits)

subsection \<open>Verification only reads\<close>

lemma verify_entry_reads:
  assumes "hash_format (sha (fe (ct_orch (ve_cite ve)))) (hx (fe (ct_orch (ve_cite ve))))"
  shows "only_reads (outside_cache (cache_of (ve_cli ve))) (verify_entry ve profile om item)"
proof -
  let ?P = "outside_cache (cache_of (ve_cli ve))"
  have resolve: "only_reads ?P (ct_resolve (ve_cite ve) r profile)" for r
    using ct_resolve_reads [OF assms] by (simp add: ve_cli_def)
  have ref: "only_reads ?P (verify_ref ve profile r k)" for r k
    unfolding verify_ref_def Let_def
    by (intro only_reads_catch resolve) (auto intro!: only_reads_and_then cited_record_reads split: sum.split)
  have software: "only_reads ?P (verify_software ve u k)" for u k
    unfolding verify_software_def Let_def
    by (auto intro!: only_reads_catch only_reads_performs [OF github_resolves_reads] split: option.split sum.split bool.split)
  show ?thesis
    by (auto simp: verify_entry_def ref software split: resolved.split sum.split parse_error.split)
qed

lemma attempt_reads: "only_reads P m \<Longrightarrow> only_reads P (attempt m)"
  unfolding attempt_def by (intro only_reads_catch) simp_all

lemma verify_items_reads:
  assumes "hash_format (sha (fe (ct_orch (ve_cite ve)))) (hx (fe (ct_orch (ve_cite ve))))"
  shows "only_reads (outside_cache (cache_of (ve_cli ve))) (\<lambda>w. (fst (verify_items ve profile om items w), Ok ()))"
proof (induction items)
  case Nil
  show ?case by (simp add: only_reads_def)
next
  case (Cons x xs)
  let ?P = "outside_cache (cache_of (ve_cli ve))"
  let ?m = "attempt (verify_entry ve profile om x)"
  note step = attempt_reads [OF verify_entry_reads [OF assms]]
  have "(\<exists>es. effects u = effects w @ es \<and> list_all reading_effect es)
      \<and> (\<forall>path. ?P path \<longrightarrow> map_of (w_files u) path = map_of (w_files w) path)"
    if u: "u = fst (verify_items ve profile om (x # xs) w)" for w u
  proof -
    obtain v r where m: "?m w = (v, r)" by force
    then consider "u = v" | "u = fst (verify_items ve profile om xs v)"
      using u by (auto split: res.splits sum.splits option.splits prod.splits)
    then show ?thesis
    proof cases
      case 1
      with only_readsD [OF step m] show ?thesis by blast
    next
      case 2
      from only_reads_seq [OF step m Cons.IH] 2 show ?thesis by simp
    qed
  qed
  then show ?case by (simp add: only_reads_def del: verify_items.simps)
qed

text \<open>C28: Verification only reads.  However a run ends and whatever the servers answer, every request it made asked
  for metadata and none for a document, and every file that is not in the resolver cache, the store and its
  records among them, is as it was.\<close>

theorem verification_only_reads:
  assumes "hash_format (sha (fe (ct_orch (ve_cite ve)))) (hx (fe (ct_orch (ve_cite ve))))"
    and "verify_command ve profile path format cli_strict w = (w', rs, e)"
  shows "(\<exists>es. effects w' = effects w @ es \<and> list_all reading_effect es)
    \<and> (\<forall>p. outside_cache (cache_of (ve_cli ve)) p \<longrightarrow> map_of (w_files w') p = map_of (w_files w) p)"
proof -
  let ?es = "\<lambda>fmt text. parse_input (bx_bib (ct_bib (ve_cite ve))) text fmt (Some path)"
  have step: "only_reads (outside_cache (cache_of (ve_cli ve))) (attempt (resolve_entries (ct_orch (ve_cite ve)) es))" for es
    by (intro attempt_reads only_reads_performs resolve_entries_reads)
  have "w' = w \<or> (\<exists>fmt text v r. attempt (resolve_entries (ct_orch (ve_cite ve)) (?es fmt text)) w = (v, r)
      \<and> (w' = v \<or> (\<exists>om items. w' = fst (verify_items ve profile om items v))))"
    using assms(2) unfolding verify_command_def Let_def
    by (auto split: option.splits sum.splits prod.splits res.splits cli_end.splits) (metis fst_conv)+
  then consider "w' = w" | es v r where "attempt (resolve_entries (ct_orch (ve_cite ve)) es) w = (v, r)" "w' = v"
    | es v r om items where "attempt (resolve_entries (ct_orch (ve_cite ve)) es) w = (v, r)"
        "w' = fst (verify_items ve profile om items v)"
    by blast
  then show ?thesis
  proof cases
    case 1
    then show ?thesis by simp
  next
    case 2
    with only_readsD [OF step 2(1)] show ?thesis by blast
  next
    case 3
    from only_reads_seq [OF step 3(1) verify_items_reads [OF assms(1)]] 3(2) show ?thesis by simp
  qed
qed

subsection \<open>A run\<close>

definition logged_orch :: orch_env where
  "logged_orch = demo_orch\<lparr>fe := demo_fetch_env\<lparr>vars := [''DOIGET_LOG_PATH'' \<mapsto> ''/l'']\<rparr>\<rparr>"

definition demo_verify :: verify_env where
  "demo_verify = \<lparr> ve_cite = demo_cite\<lparr>ct_bib := demo_bib\<lparr>bx_cli := demo_cli\<lparr>ce_orch := logged_orch\<rparr>\<rparr>\<rparr>, ve_parse = (\<lambda>_. None) \<rparr>"

definition verified :: "world \<times> (verify_status \<times> json) list \<times> cli_end" where
  "verified = verify_command demo_verify demo_profile ''l.txt'' ''auto'' False demo_world"

lemma demo_verifies:
  "(case verified of (w', rs, e) \<Rightarrow> map fst rs = [Absent, Illegal] \<and> e = Stopped (CliExit 2) \<and> effects w' \<noteq> [])
   \<and> parse_format ''auto'' = Some FormatAuto
   \<and> effective_policy False (load_verify_config demo_verify) = (False, MissingWarn)"
  by code_simp

lemma demo_verified:
  obtains w' rs where "verify_command demo_verify demo_profile ''l.txt'' ''auto'' False demo_world = (w', rs, Stopped (CliExit 2))"
    and "map fst rs = [Absent, Illegal]" and "effects w' \<noteq> []"
  using demo_verifies unfolding verified_def by (auto split: prod.splits)

theorem verification_accounts_for_every_entry_witness:
  "\<exists>w' rs. verify_command demo_verify demo_profile ''l.txt'' ''auto'' False demo_world = (w', rs, Stopped (CliExit 2))
     \<and> list_all2 judged (filter (\<lambda>x. \<not> skipped MissingWarn x)
         (parse_input (bx_bib demo_bib) (''10.1234/x'' @ CHR 0x0A # ''oops'') FormatAuto (Some ''l.txt''))) rs"
proof (rule demo_verified)
  fix w' rs
  assume run: "verify_command demo_verify demo_profile ''l.txt'' ''auto'' False demo_world = (w', rs, Stopped (CliExit 2))"
  have listed: "bx_read (ct_bib (ve_cite demo_verify)) ''l.txt'' = Some (''10.1234/x'' @ CHR 0x0A # ''oops'')"
    by (simp add: demo_verify_def demo_cite_def demo_bib_def)
  have bib: "bx_bib (ct_bib (ve_cite demo_verify)) = bx_bib demo_bib" by (simp add: demo_verify_def demo_cite_def)
  from verification_accounts_for_every_entry
    [OF run _ listed, of FormatAuto False MissingWarn 2] demo_verifies run
  show ?thesis unfolding bib by blast
qed

theorem verification_only_reads_witness:
  "\<exists>w' rs e. verify_command demo_verify demo_profile ''l.txt'' ''auto'' False demo_world = (w', rs, e)
     \<and> effects w' \<noteq> [] \<and> list_all reading_effect (effects w')"
proof (rule demo_verified)
  fix w' rs
  assume run: "verify_command demo_verify demo_profile ''l.txt'' ''auto'' False demo_world = (w', rs, Stopped (CliExit 2))"
    and ne: "effects w' \<noteq> []"
  have format: "hash_format (sha (fe (ct_orch (ve_cite demo_verify)))) (hx (fe (ct_orch (ve_cite demo_verify))))"
    by (simp add: demo_verify_def ct_orch_def logged_orch_def demo_fetch_env_def hash_format_toy)
  have "effects demo_world = []" by (simp add: demo_world_def)
  with verification_only_reads [OF format run] run ne show ?thesis by auto
qed

subsection \<open>Where it falls short\<close>

text \<open>
  An internal error of a resolve aborts the run, so that it is not taken for a tolerable \<^verbatim>\<open>unreachable\<close>; the same error
  of a software lookup is taken for one.
\<close>

theorem software_internal_error_is_tolerated:
  assumes "github_parse (fe (ct_orch (ve_cite ve))) url = Some g"
    and "github_resolves (ct_orch (ve_cite ve)) g w = (w', Err e)" and "fetch_error_code e = InternalError"
  shows "\<exists>rec. verify_software ve url key w = (w', Ok (Inr (Some (Unreachable, rec))))
    \<and> unresolved_verdict r key (fetch_error_code e) why = Inl (Bail ''internal error during verify'')
    \<and> \<not> is_failing False MissingWarn Unreachable"
  using assms by (auto simp: verify_software_def Let_def return_ok_def entry_verdict_def unresolved_verdict_def)

end
