(* ===== verification/User_Pdf.thy ===== *)
theory User_Pdf
  imports Cite "HOL-Library.Multiset"
begin

text \<open>
  A PDF the user downloaded: the checks and the write of \<^verbatim>\<open>crates/doiget-core/src/user_pdf.rs\<close> and the command
  \<^verbatim>\<open>doiget add\<close> (\<^verbatim>\<open>crates/doiget-cli/src/commands/add.rs\<close>).  What the file system answers about a file of the
  user's is a parameter; the two answers for its metadata are that of its path and that of the opened handle.
  Lower case is that of the Unicode tables.
\<close>

subsection \<open>The file and its name\<close>

datatype file_kind = RegularFile | SymbolicLink | OtherKind

record file_meta =
  fm_kind :: file_kind
  fm_len :: nat
  fm_ident :: "nat \<times> nat"

record user_file =
  uf_path :: string
  uf_meta :: "file_meta option"
  uf_opened :: "file_meta option"
  uf_bytes :: "string option"

datatype add_error =
    NotAFile | SymlinkFile | FileIo | FileNotPdf
  | FileTooLarge nat nat
  | AlreadyStored string
  | NamesAnotherWork string
  | ResolveFailed fetch_error
  | StoreFailed fetch_error
  | UnreadableEntry store_error

definition same_file :: "file_meta \<Rightarrow> file_meta \<Rightarrow> bool" where
  "same_file a b \<longleftrightarrow> fm_ident a = fm_ident b"

definition check_file :: "user_file \<Rightarrow> add_error + string" where
  "check_file uf = (case uf_meta uf of
     None \<Rightarrow> Inl FileIo
   | Some m \<Rightarrow>
       if fm_kind m = SymbolicLink then Inl SymlinkFile
       else if fm_kind m \<noteq> RegularFile then Inl NotAFile
       else if PDF_MAX_BYTES < fm_len m then Inl (FileTooLarge (fm_len m) PDF_MAX_BYTES)
       else (case uf_opened uf of
           None \<Rightarrow> Inl FileIo
         | Some opened \<Rightarrow>
             if fm_kind opened \<noteq> RegularFile \<or> \<not> same_file m opened then Inl SymlinkFile
             else (case uf_bytes uf of
                 None \<Rightarrow> Inl FileIo
               | Some content \<Rightarrow>
                   let bytes = take (PDF_MAX_BYTES + 1) content in
                   if PDF_MAX_BYTES < length bytes then Inl (FileTooLarge (length bytes) PDF_MAX_BYTES)
                   else if \<not> starts_with bytes PDF_MAGIC then Inl FileNotPdf
                   else Inr bytes)))"

text \<open>\<^verbatim>\<open>Utf8Path::file_name\<close>.\<close>

definition file_name :: "string \<Rightarrow> string option" where
  "file_name p =
     (let cs = filter (\<lambda>c. c \<noteq> [] \<and> c \<noteq> ''.'') (split_char CHR ''/'' p) in
      if cs = [] \<or> last cs = ''..'' then None else Some (last cs))"

text \<open>\<^verbatim>\<open>str::rfind\<close> as the two sides of the last occurrence of a pattern.\<close>

fun rsplit_at :: "string \<Rightarrow> string \<Rightarrow> (string \<times> string) option" where
  "rsplit_at p [] = (if p = [] then Some ([], []) else None)"
| "rsplit_at p (c # s) = (case rsplit_at p s of
     Some (a, b) \<Rightarrow> Some (c # a, b)
   | None \<Rightarrow> if starts_with (c # s) p then Some ([], drop (length p) (c # s)) else None)"

definition file_stem :: "string \<Rightarrow> string" where
  "file_stem p =
     (let name = or_str (file_name p) [];
          n = length name - 4;
          stem = (if 4 \<le> length name \<and> to_ascii_lowercase (drop n name) = ''.pdf'' then take n name else name);
          stem = (case rsplit_at '' ('' stem of
              Some (a, b) \<Rightarrow>
                if ends_with stem '')'' \<and> list_all is_ascii_digit (butlast b) then a else stem
            | None \<Rightarrow> stem) in
      str_trim stem)"

definition replace_slash :: "char \<Rightarrow> string \<Rightarrow> string" where
  "replace_slash c s = map (\<lambda>x. if x = CHR ''/'' then c else x) s"

definition stem_names :: "(string \<Rightarrow> string) \<Rightarrow> string \<Rightarrow> paper_ref \<Rightarrow> bool" where
  "stem_names lower stem r =
     (let s = lower stem in
      case r of
        RefDoi d \<Rightarrow>
          let doi = lower (doi_as_str d);
              tail = (case split_once CHR ''/'' doi of Some (_, x) \<Rightarrow> x | None \<Rightarrow> doi) in
          s = tail \<or> s = replace_slash CHR ''_'' doi \<or> s = replace_slash CHR ''-'' doi
      | RefArxiv a \<Rightarrow>
          let i = replace_slash CHR ''_'' (lower (arxiv_as_str a));
              unversioned = (case rsplit_at ''v'' s of
                  Some (x, y) \<Rightarrow> if x \<noteq> [] \<and> y \<noteq> [] \<and> list_all is_ascii_digit y then x else s
                | None \<Rightarrow> s) in
          unversioned = i \<or> unversioned = ''arxiv_'' @ i \<or> unversioned = ''arxiv-'' @ i)"

definition looks_like_an_id :: "string \<Rightarrow> bool" where
  "looks_like_an_id stem \<longleftrightarrow> 6 \<le> length stem
     \<and> list_all (\<lambda>c. is_ascii_alphanumeric c \<or> c \<in> set ''.-_'') stem \<and> list_ex is_ascii_digit stem"

definition match_file :: "(string \<Rightarrow> string) \<Rightarrow> string \<Rightarrow> paper_ref list \<Rightarrow> paper_ref option" where
  "match_file lower stem candidates = (case filter (stem_names lower stem) candidates of
     [r] \<Rightarrow> Some r | _ \<Rightarrow> None)"

subsection \<open>The write\<close>

record add_outcome =
  ao_safekey :: string
  ao_path :: string
  ao_size_bytes :: nat
  ao_title :: string
  ao_replaced :: bool

definition user_record :: "string \<Rightarrow> safekey \<Rightarrow> nat \<Rightarrow> metadata \<Rightarrow> metadata" where
  "user_record at key sz m =
     (let prior = m_doiget m in
      m\<lparr>pdf_path := Some (safekey_as_str key @ ''.pdf''),
        m_doiget := Some \<lparr> fetched_at = at, d_source = ''user'', d_license = ''unknown'',
          oa_status = Option.bind prior oa_status, d_size_bytes = sz, mcp_call_id = None,
          tags = (case prior of None \<Rightarrow> [] | Some d \<Rightarrow> tags d),
          collections = (case prior of None \<Rightarrow> [] | Some d \<Rightarrow> collections d),
          annotation = Option.bind prior annotation,
          repaired_fields = (case prior of None \<Rightarrow> [] | Some d \<Rightarrow> repaired_fields d),
          short_venue = Option.bind prior short_venue, origin = Some ''user-supplied'' \<rparr>\<rparr>)"

text \<open>The record that is completed: the stored one, or what the reference resolves to.\<close>

definition base_record ::
  "cite_env \<Rightarrow> paper_ref \<Rightarrow> capability_profile \<Rightarrow> metadata option \<Rightarrow> (add_error + metadata) act" where
  "base_record ct r profile known = (case known of
     Some m \<Rightarrow> return_ok (Inr m)
   | None \<Rightarrow> catch (ct_resolve ct r profile) (\<lambda>x. case x of
       Inl e \<Rightarrow> return_ok (Inl (ResolveFailed e))
     | Inr outcome \<Rightarrow> and_then (cited_record ct r outcome) (\<lambda>m. return_ok (Inr m))))"

definition store_user_pdf :: "orch_env \<Rightarrow> safekey \<Rightarrow> metadata \<Rightarrow> string \<Rightarrow> (add_error + metadata) act" where
  "store_user_pdf env key m bytes =
     and_then (reading (\<lambda>es. user_record (now_text env es) key (length bytes) m)) (\<lambda>m.
     catch (with_staged env bytes (\<lambda>p. case p of
         None \<Rightarrow> throw (SourceSchema ''staging tempfile path is not UTF-8'')
       | Some q \<Rightarrow> write_metadata_and_pdf env key m (Some q)))
       (\<lambda>x. return_ok (case x of Inl e \<Rightarrow> Inl (StoreFailed e) | Inr _ \<Rightarrow> Inr m)))"

definition add_user_pdf ::
  "cite_env \<Rightarrow> paper_ref \<Rightarrow> user_file \<Rightarrow> bool \<Rightarrow> capability_profile \<Rightarrow> (add_error + add_outcome) act" where
  "add_user_pdf ct r uf force profile w =
     (let env = ct_orch ct; key = ref_safekey (sha (fe env)) (hx (fe env)) r;
          path = path_join (fs_root (the_store env)) (safekey_as_str key @ ''.pdf'');
          stem = file_stem (uf_path uf) in
      case check_file uf of
        Inl e \<Rightarrow> (w, Ok (Inl e))
      | Inr bytes \<Rightarrow>
          if \<not> force \<and> looks_like_an_id stem \<and> \<not> stem_names (str_lower env) stem r
          then (w, Ok (Inl (NamesAnotherWork stem)))
          else
            let replaced = map_of (w_files w) path \<noteq> None in
            if replaced \<and> \<not> force then (w, Ok (Inl (AlreadyStored path)))
            else (case read_stored env key w of
                (w, Inl e) \<Rightarrow> (w, Ok (Inl (UnreadableEntry e)))
              | (w, Inr known) \<Rightarrow> and_then (base_record ct r profile known) (\<lambda>x. case x of
                    Inl e \<Rightarrow> return_ok (Inl e)
                  | Inr m \<Rightarrow> and_then (store_user_pdf env key m bytes) (\<lambda>y. return_ok (map_ok (\<lambda>m.
                      \<lparr> ao_safekey = safekey_as_str key, ao_path = path, ao_size_bytes = length bytes,
                        ao_title = title m, ao_replaced = replaced \<rparr>) y))) w))"

subsection \<open>The command\<close>

definition key_has_pdf :: "orch_env \<Rightarrow> safekey \<Rightarrow> world \<Rightarrow> bool" where
  "key_has_pdf env key w \<longleftrightarrow> map_of (w_files w) (path_join (fs_root (the_store env)) (safekey_as_str key @ ''.pdf'')) \<noteq> None"

definition ref_of_record :: "metadata \<Rightarrow> paper_ref option" where
  "ref_of_record m = (case m_doi m of Some d \<Rightarrow> Some (RefDoi d) | None \<Rightarrow> map_option RefArxiv (m_arxiv_id m))"

text \<open>The listed entries without a PDF, as references.\<close>

fun missing_refs :: "orch_env \<Rightarrow> entry_info list \<Rightarrow> world \<Rightarrow> world \<times> paper_ref list" where
  "missing_refs env [] w = (w, [])"
| "missing_refs env (e # es) w =
     (if key_has_pdf env (ei_safekey e) w then missing_refs env es w
      else (case read_stored env (ei_safekey e) w of
          (w, Inr (Some m)) \<Rightarrow> (case missing_refs env es w of (w, rs) \<Rightarrow>
            (w, case ref_of_record m of None \<Rightarrow> rs | Some r \<Rightarrow> r # rs))
        | (w, _) \<Rightarrow> missing_refs env es w))"

definition missing_in_store :: "bib_env_cli \<Rightarrow> world \<Rightarrow> world \<times> (cli_stop + paper_ref list)" where
  "missing_in_store bx w =
     (let env = ce_orch (bx_cli bx) in
      case list_recent (utc_text env) (other_toml env) (bx_instant bx) (the_store env) U64_MAX (w_files w) of
        Inl _ \<Rightarrow> (w, Inl (Bail ''failed to enumerate the store''))
      | Inr es \<Rightarrow> (case missing_refs env es w of (w, rs) \<Rightarrow> (w, Inr rs)))"

definition listed_candidates :: "bib_env_cli \<Rightarrow> string \<Rightarrow> world \<Rightarrow> cli_stop + paper_ref list" where
  "listed_candidates bx path w = (case bx_read bx path of
     None \<Rightarrow> Inl (Bail ''reading the list'')
   | Some text \<Rightarrow>
       let env = ce_orch (bx_cli bx) in
       Inr (filter (\<lambda>r. \<not> key_has_pdf env (ref_safekey (sha (fe env)) (hx (fe env)) r) w)
         (filter_map (\<lambda>e. case e of Inr p \<Rightarrow> Some (pe_ref p) | Inl _ \<Rightarrow> None) (parse_input (bx_bib bx) text FormatAuto (Some path)))))"

text \<open>One file at a time: a reference that already has a file takes no second one.\<close>

fun make_plan ::
  "(string \<Rightarrow> string) \<Rightarrow> paper_ref list \<Rightarrow> user_file list \<Rightarrow> (user_file \<times> paper_ref) list
     \<Rightarrow> (user_file \<times> paper_ref) list \<times> user_file list" where
  "make_plan lower candidates [] plan = (plan, [])"
| "make_plan lower candidates (f # fs) plan = (case match_file lower (file_stem (uf_path f)) candidates of
     Some r \<Rightarrow>
       if r \<notin> snd ` set plan then make_plan lower candidates fs (plan @ [(f, r)])
       else (case make_plan lower candidates fs plan of (p, u) \<Rightarrow> (p, f # u))
   | None \<Rightarrow> (case make_plan lower candidates fs plan of (p, u) \<Rightarrow> (p, f # u)))"

text \<open>The planned files added in turn; a failure is counted.\<close>

fun apply_plan ::
  "cite_env \<Rightarrow> bool \<Rightarrow> capability_profile \<Rightarrow> (user_file \<times> paper_ref) list \<Rightarrow> nat act" where
  "apply_plan ct force profile [] = return_ok 0"
| "apply_plan ct force profile ((f, r) # ps) =
     and_then (add_user_pdf ct r f force profile) (\<lambda>x.
     and_then (apply_plan ct force profile ps) (\<lambda>n. return_ok (if is_ok x then n else n + 1)))"

definition pdf_files :: "user_file list \<Rightarrow> user_file list" where
  "pdf_files fs = sort_key uf_path (filter (\<lambda>f. case path_extension (uf_path f) of
     None \<Rightarrow> False | Some x \<Rightarrow> to_ascii_lowercase x = ''pdf'') fs)"

definition add_from_dir ::
  "cite_env \<Rightarrow> user_file list option \<Rightarrow> string option \<Rightarrow> bool \<Rightarrow> bool \<Rightarrow> capability_profile \<Rightarrow> world \<Rightarrow> world \<times> cli_end" where
  "add_from_dir ct dir refs force apply profile w =
     (case (case refs of Some path \<Rightarrow> (w, listed_candidates (ct_bib ct) path w) | None \<Rightarrow> missing_in_store (ct_bib ct) w) of
        (w, Inl stop) \<Rightarrow> (w, Stopped stop)
      | (w, Inr candidates) \<Rightarrow> (case dir of
          None \<Rightarrow> (w, Stopped (Bail ''reading the directory''))
        | Some fs \<Rightarrow>
            if pdf_files fs = [] then (w, Stopped (Bail ''no .pdf files''))
            else let plan = fst (make_plan (str_lower (ct_orch ct)) candidates (pdf_files fs) []) in
            if \<not> apply then (w, Finished)
            else (case apply_plan ct force profile plan w of
                (w, Ok n) \<Rightarrow> (w, if 0 < n then Stopped (CliExit (min n 255)) else Finished)
              | (w, _) \<Rightarrow> (w, Crashed))))"

definition add_exit :: "add_error \<Rightarrow> nat" where
  "add_exit e = (case e of ResolveFailed x \<Rightarrow> cli_exit_code (fetch_error_code x) | StoreFailed _ \<Rightarrow> 4 | UnreadableEntry _ \<Rightarrow> 4 | _ \<Rightarrow> 2)"

definition add_command ::
  "cite_env \<Rightarrow> capability_profile \<Rightarrow> string option \<Rightarrow> user_file option \<Rightarrow> user_file list option option \<Rightarrow> string option
     \<Rightarrow> bool \<Rightarrow> bool \<Rightarrow> world \<Rightarrow> world \<times> cli_end" where
  "add_command ct profile input f from_dir refs force apply w =
     (let ce = bx_cli (ct_bib ct) in
      case (case input of None \<Rightarrow> Inr None | Some i \<Rightarrow> map_ok Some (snd (parse_ref_or_exit ce i))) of
        Inl stop \<Rightarrow> (w, Stopped stop)
      | Inr parsed \<Rightarrow> (case resolve_store_root (ce_vars ce) (ce_files ce) of
          Inl stop \<Rightarrow> (w, Stopped stop)
        | Inr _ \<Rightarrow> (case resolve_log_path (ce_vars ce) of
            Inl stop \<Rightarrow> (w, Stopped stop)
          | Inr _ \<Rightarrow> (case (parsed, f, from_dir) of
              (Some r, Some uf, None) \<Rightarrow> (case add_user_pdf ct r uf force profile w of
                  (w, Ok (Inr _)) \<Rightarrow> (w, Finished)
                | (w, Ok (Inl e)) \<Rightarrow> (w, Stopped (CliExit (add_exit e)))
                | (w, _) \<Rightarrow> (w, Crashed))
            | (None, None, Some dir) \<Rightarrow> add_from_dir ct dir refs force apply profile w
            | _ \<Rightarrow> (w, Stopped (CliExit 2))))))"

subsection \<open>What is stored\<close>

lemma case_return_Ok:
  "(case x of Inl e \<Rightarrow> return_ok (Inl e) | Inr m \<Rightarrow> f m) w = (w', Ok (Inr b)) \<longleftrightarrow> (\<exists>m. x = Inr m \<and> f m w = (w', Ok (Inr b)))"
  "(case x of Inl e \<Rightarrow> return_ok (Inl e) | Inr m \<Rightarrow> f m) w = (w', Ok (Inl d))
     \<longleftrightarrow> x = Inl d \<and> w' = w \<or> (\<exists>m. x = Inr m \<and> f m w = (w', Ok (Inl d)))"
  by (cases x; auto simp: return_ok_Ok)+

lemma map_ok_is:
  "Inl d = map_ok f x \<longleftrightarrow> x = Inl d"
  "Inr b = map_ok g y \<longleftrightarrow> (\<exists>a. y = Inr a \<and> b = g a)"
  by (cases x; auto simp: map_ok_def) (cases y; auto simp: map_ok_def)

lemma checked_is_pdf: "check_file uf = Inr bytes \<Longrightarrow> is_pdf bytes"
  by (auto simp: check_file_def is_pdf_def starts_with_def PDF_MAGIC_def Let_def numeral_eq_Suc split: option.splits if_splits)

lemma store_user_pdf_Ok:
  assumes "store_user_pdf env key m bytes w = (w', Ok (Inr m'))" and "stages_elsewhere env key"
  shows "recorded env key m' (Some bytes) w w'
    \<and> m' = user_record (now_text env (effects w)) key (length bytes) m"
proof -
  from assms(1) have m': "m' = user_record (now_text env (effects w)) key (length bytes) m"
    and staged: "with_staged env bytes (\<lambda>p. case p of
         None \<Rightarrow> throw (SourceSchema ''staging tempfile path is not UTF-8'')
       | Some q \<Rightarrow> write_metadata_and_pdf env key m' (Some q)) w = (w', Ok ())"
    by (auto simp: store_user_pdf_def reading_def and_then_Ok performs_catch_Ok return_ok_Ok)
  from with_staged_Ok [OF staged assms(2)] obtain q v where q: "q \<notin> touched (the_store env) key"
      and wr: "write_metadata_and_pdf env key m' (Some q) (w\<lparr>w_files := AList.update q (Bytes bytes) (w_files w)\<rparr>) = (v, Ok ())"
      and w': "w' = v\<lparr>w_files := AList.delete q (w_files v)\<rparr>"
    by auto
  from stages_elsewhere_write [OF q wr, of bytes w] w' m' show ?thesis by simp
qed

lemma user_record_says:
  "map_option (\<lambda>d. (d_source d, d_license d, origin d, d_size_bytes d)) (m_doiget (user_record at key n m))
     = Some (''user'', ''unknown'', Some ''user-supplied'', n)"
  "pdf_path (user_record at key n m) = Some (safekey_as_str key @ ''.pdf'')"
  by (simp_all add: user_record_def Let_def)


text \<open>A file that is refused changes nothing.  Whenever a file is refused for what it is, for its name, or because
  the store already holds a PDF, nothing has been asked of anyone and the log, the store and every file are as
  they were; and when the reference cannot be resolved, no document was downloaded.\<close>

theorem refused_file_changes_nothing:
  assumes "add_user_pdf ct r uf force profile w = (w', Ok (Inl e))"
    and "hash_format (sha (fe (ct_orch ct))) (hx (fe (ct_orch ct)))"
  shows "case e of
      StoreFailed _ \<Rightarrow> is_ok (check_file uf)
    | ResolveFailed _ \<Rightarrow> is_ok (check_file uf) \<and> (\<exists>es. effects w' = effects w @ es \<and> list_all reading_effect es)
    | UnreadableEntry _ \<Rightarrow> is_ok (check_file uf) \<and> effects w' = effects w
    | _ \<Rightarrow> w' = w"
proof -
  let ?env = "ct_orch ct" and ?key = "ref_safekey (sha (fe (ct_orch ct))) (hx (fe (ct_orch ct))) r"
  obtain v x where known: "read_stored ?env ?key w = (v, x)" by force
  then have same: "effects v = effects w" by (auto simp: read_stored_def split: prod.splits)
  have resolved: "(\<exists>x. e = ResolveFailed x) \<and> (\<exists>es. effects u = effects v @ es \<and> list_all reading_effect es)"
    if "base_record ct r profile known v = (u, Ok (Inl e))" for known u e
  proof -
    have "only_reads (\<lambda>_. False) (ct_resolve ct r profile)"
      by (rule only_reads_weaken [OF ct_resolve_reads [OF assms(2)]]) simp
    then have "only_reads (\<lambda>_. False) (base_record ct r profile known)"
      unfolding base_record_def
      by (auto intro!: only_reads_catch only_reads_and_then cited_record_reads split: option.split sum.split)
    from only_readsD(1) [OF this that] that show ?thesis
      by (auto simp: base_record_def performs_catch_Ok and_then_Ok return_ok_Ok split: option.splits)
  qed
  have puts: "store_user_pdf ?env ?key m b u = (u', Ok (Inl e)) \<Longrightarrow> \<exists>x. e = StoreFailed x" for m b u u' e
    by (auto simp: store_user_pdf_def reading_def performs_catch_Ok and_then_Ok return_ok_Ok)
  show ?thesis
  proof (cases "check_file uf")
    case (Inl err)
    moreover from Inl have "(case err of StoreFailed _ \<Rightarrow> False | ResolveFailed _ \<Rightarrow> False | UnreadableEntry _ \<Rightarrow> False | _ \<Rightarrow> True)"
      by (auto simp: check_file_def Let_def split: option.splits if_splits)
    ultimately show ?thesis using assms(1) by (auto simp: add_user_pdf_def Let_def split: add_error.splits)
  next
    case (Inr bytes)
    with assms(1) known same show ?thesis
      by (cases x) (auto simp: add_user_pdf_def Let_def and_then_Ok return_ok_Ok case_return_Ok map_ok_is dest!: resolved puts
          split: if_splits)
  qed
qed

subsection \<open>The plan for a directory\<close>

lemma match_file_Some:
  "match_file lower stem candidates = Some r \<Longrightarrow> r \<in> set candidates \<and> (\<forall>c \<in> set candidates. stem_names lower stem c \<longleftrightarrow> c = r)"
proof -
  assume "match_file lower stem candidates = Some r"
  then have "filter (stem_names lower stem) candidates = [r]" by (auto simp: match_file_def split: list.splits)
  then have "{c \<in> set candidates. stem_names lower stem c} = {r}" by (metis list.set(1) list.simps(15) set_filter)
  then show ?thesis by blast
qed

lemma make_plan_extends:
  assumes "distinct (map snd plan)"
  shows "(case make_plan lower candidates fs plan of (p, u) \<Rightarrow>
    distinct (map snd p) \<and> mset (map fst p) + mset u = mset (map fst plan) + mset fs
    \<and> set plan \<subseteq> set p
    \<and> (\<forall>(f, r) \<in> set p - set plan. match_file lower (file_stem (uf_path f)) candidates = Some r)
    \<and> (\<forall>f \<in> set u. \<forall>r. match_file lower (file_stem (uf_path f)) candidates = Some r \<longrightarrow> r \<in> snd ` set p))"
  using assms
proof (induction fs arbitrary: plan)
  case Nil
  then show ?case by simp
next
  case (Cons f fs)
  show ?case
  proof (cases "\<exists>r. match_file lower (file_stem (uf_path f)) candidates = Some r \<and> r \<notin> snd ` set plan")
    case True
    then obtain r where r: "match_file lower (file_stem (uf_path f)) candidates = Some r" "r \<notin> snd ` set plan" by blast
    then have "distinct (map snd (plan @ [(f, r)]))" using Cons.prems by auto
    from Cons.IH [OF this] r show ?thesis by (auto split: prod.splits) blast+
  next
    case False
    with Cons.IH [OF Cons.prems] show ?thesis by (auto split: prod.splits option.splits)
  qed
qed

text \<open>The plan for a directory adds each file at most once, and nothing to two files.  No reference is planned twice; a
  planned file names exactly one of the candidates, the one it is planned for; every file of the directory is either
  planned or reported, once; and a file is reported only when its name is not that of exactly one candidate or another
  file has been planned for it.\<close>

theorem plan_is_a_matching:
  assumes "make_plan lower candidates fs [] = (plan, unmatched)"
  shows "distinct (map snd plan) \<and> mset (map fst plan) + mset unmatched = mset fs
    \<and> (\<forall>(f, r) \<in> set plan. r \<in> set candidates \<and> (\<forall>c \<in> set candidates. stem_names lower (file_stem (uf_path f)) c \<longleftrightarrow> c = r))
    \<and> (\<forall>f \<in> set unmatched. \<forall>r. match_file lower (file_stem (uf_path f)) candidates = Some r \<longrightarrow> r \<in> snd ` set plan)"
  using make_plan_extends [where plan = "[]" and lower = lower and candidates = candidates and fs = fs] assms by (fastforce dest: match_file_Some)

subsection \<open>Runs\<close>

definition regular :: file_meta where
  "regular = \<lparr> fm_kind = RegularFile, fm_len = 9, fm_ident = (1, 2) \<rparr>"

definition download :: "string \<Rightarrow> user_file" where
  "download name = \<lparr> uf_path = ''/d/'' @ name, uf_meta = Some regular, uf_opened = Some regular, uf_bytes = Some ''%PDF-1.4 '' \<rparr>"

definition works :: "paper_ref list" where
  "works = [RefDoi (Doi ''10.1234/x''), RefDoi (Doi ''10.1007/BF01340294'')]"

lemma demo_adds:
  "(case snd (add_user_pdf demo_cite (RefDoi (Doi ''10.1234/x'')) (download ''x.pdf'') False demo_profile stored_world) of
     Ok (Inr out) \<Rightarrow> ao_path out = ''r/doi_10.1234_x.pdf'' | _ \<Rightarrow> False)
   \<and> (case snd (add_user_pdf demo_cite (RefDoi (Doi ''10.1234/x'')) (download ''BF01397394.pdf'') False demo_profile stored_world) of
     Ok (Inl e) \<Rightarrow> e = NamesAnotherWork ''BF01397394'' | _ \<Rightarrow> False)
   \<and> make_plan id works [download ''x.pdf'', download ''x (1).pdf'', download ''notes.pdf''] []
       = ([(download ''x.pdf'', RefDoi (Doi ''10.1234/x''))], [download ''x (1).pdf'', download ''notes.pdf''])"
  by code_simp


theorem refused_file_changes_nothing_witness:
  "add_user_pdf demo_cite (RefDoi (Doi ''10.1234/x'')) (download ''BF01397394.pdf'') False demo_profile stored_world
     = (stored_world, Ok (Inl (NamesAnotherWork ''BF01397394'')))"
proof -
  obtain w' where run: "add_user_pdf demo_cite (RefDoi (Doi ''10.1234/x'')) (download ''BF01397394.pdf'') False demo_profile stored_world
      = (w', Ok (Inl (NamesAnotherWork ''BF01397394'')))"
    using demo_adds [THEN conjunct2, THEN conjunct1] by (auto split: res.splits sum.splits) (metis prod.collapse)
  have "hash_format (sha (fe (ct_orch demo_cite))) (hx (fe (ct_orch demo_cite)))"
    by (simp add: ct_orch_def demo_cite_def demo_bib_def demo_cli_def demo_orch_def demo_fetch_env_def hash_format_toy)
  from refused_file_changes_nothing [OF run this] run show ?thesis by simp
qed

theorem plan_is_a_matching_witness:
  "distinct (map snd (fst (make_plan id works [download ''x.pdf'', download ''x (1).pdf'', download ''notes.pdf''] [])))
   \<and> length (fst (make_plan id works [download ''x.pdf'', download ''x (1).pdf'', download ''notes.pdf''] [])) = 1"
  using plan_is_a_matching [OF demo_adds [THEN conjunct2, THEN conjunct2]] demo_adds by simp

subsection \<open>Where it falls short\<close>

text \<open>
  Only the version of the file's name is put aside, not that of the identifier: under a versioned reference, the file
  that is named exactly like it is refused as another work's.
\<close>

theorem versioned_file_is_refused:
  "snd (add_user_pdf demo_cite (RefArxiv (ArxivId ''2401.12345v2'')) (download ''2401.12345v2.pdf'') False demo_profile w)
     = Ok (Inl (NamesAnotherWork ''2401.12345v2''))
   \<and> ref_parse ''2401.12345v2'' = Inr (RefArxiv (ArxivId ''2401.12345v2''))"
proof -
  have orch: "ct_orch demo_cite = demo_orch" by (simp add: ct_orch_def demo_cite_def demo_bib_def demo_cli_def)
  have "check_file (download ''2401.12345v2.pdf'') = Inr ''%PDF-1.4 ''
      \<and> file_stem (uf_path (download ''2401.12345v2.pdf'')) = ''2401.12345v2'' \<and> looks_like_an_id ''2401.12345v2''
      \<and> \<not> stem_names (str_lower demo_orch) ''2401.12345v2'' (RefArxiv (ArxivId ''2401.12345v2''))
      \<and> ref_parse ''2401.12345v2'' = Inr (RefArxiv (ArxivId ''2401.12345v2''))"
    by code_simp
  then show ?thesis by (simp add: add_user_pdf_def orch Let_def)
qed

end
