(* ===== verification/Discovery.thy ===== *)
theory Discovery
  imports Preprint Citation_Render Resolve_Safety Complex_Main "HOL-Library.Multiset"
begin

text \<open>
  Searching the literature at OpenAlex (\<^verbatim>\<open>crates/doiget-core/src/discovery.rs\<close>): the query and its checks, the
  resolution of names to identifiers, the reader of a work, the links of a DOI and the works that cite it.  A
  double of an answer is the rational it is (\<open>f64_of\<close>): JSON has no infinities and the doubling of the code is
  exact.  How a double is displayed and a value is printed are parameters.
\<close>

subsection \<open>The query\<close>

datatype f64 = Finite rat | MinusZero | Infinite bool | NaN

datatype search_sort = Relevance

fun as_openalex :: "search_sort \<Rightarrow> string" where
  "as_openalex Relevance = ''relevance_score:desc''"

record search_env =
  se_orch :: orch_env
  f64_of :: "json \<Rightarrow> rat option"
  f64_text :: "f64 \<Rightarrow> string"
  json_text :: "json \<Rightarrow> string"

record paper_search_query =
  pq_query :: string
  pq_limit :: nat
  pq_from_year :: "int option"
  pq_to_year :: "int option"
  pq_oa_only :: bool
  pq_min_citations :: "nat option"
  pq_min_fwci :: "f64 option"
  pq_min_percentile :: "nat option"
  pq_author :: "string option"
  pq_venue :: "string option"
  pq_publisher :: "string option"
  pq_sort :: search_sort

definition MAX_PER_PAGE :: nat where "MAX_PER_PAGE = 200"
definition DEFAULT_LIMIT :: nat where "DEFAULT_LIMIT = 25"

definition paper_search_query_new :: "string \<Rightarrow> paper_search_query" where
  "paper_search_query_new query = \<lparr> pq_query = query, pq_limit = DEFAULT_LIMIT, pq_from_year = None, pq_to_year = None,
     pq_oa_only = False, pq_min_citations = None, pq_min_fwci = None, pq_min_percentile = None, pq_author = None,
     pq_venue = None, pq_publisher = None, pq_sort = Relevance \<rparr>"

definition f64_acceptable :: "f64 \<Rightarrow> bool" where
  "f64_acceptable f = (case f of Finite r \<Rightarrow> 0 \<le> r | MinusZero \<Rightarrow> True | _ \<Rightarrow> False)"

definition validate_query :: "search_env \<Rightarrow> paper_search_query \<Rightarrow> string + unit" where
  "validate_query se q =
     (if str_trim (pq_query q) = [] then Inl ''search query is empty''
      else if \<not> (1 \<le> pq_limit q \<and> pq_limit q \<le> MAX_PER_PAGE)
      then Inl (''limit must be between 1 and '' @ nat_text MAX_PER_PAGE @ '' (got '' @ nat_text (pq_limit q) @ '')'')
      else case (case (pq_from_year q, pq_to_year q) of
          (Some a, Some b) \<Rightarrow> if b < a
            then Some (''from_year ('' @ int_text a @ '') is after to_year ('' @ int_text b @ '')'') else None
        | _ \<Rightarrow> None) of
        Some why \<Rightarrow> Inl why
      | None \<Rightarrow> (case (case pq_min_fwci q of
            Some f \<Rightarrow> if \<not> f64_acceptable f
              then Some (''min_fwci must be a finite, non-negative number (got '' @ f64_text se f @ '')'') else None
          | None \<Rightarrow> None) of
          Some why \<Rightarrow> Inl why
        | None \<Rightarrow> (case pq_min_percentile q of
            Some p \<Rightarrow> if 100 < p
              then Inl (''min_percentile must be between 0 and 100 (got '' @ nat_text p @ '')'') else Inr ()
          | None \<Rightarrow> Inr ())))"

subsection \<open>Reading a work\<close>

definition as_u64 :: "json \<Rightarrow> nat option" where
  "as_u64 j = (case j of JInt i \<Rightarrow> if 0 \<le> i \<and> i < 2 ^ 64 then Some (nat i) else None | _ \<Rightarrow> None)"

datatype discovery_source = DiscoveryOpenAlex

record paper_hit =
  ph_doi :: "string option"
  ph_openalex_id :: string
  ph_arxiv :: "string option"
  ph_title :: string
  ph_authors :: "string list"
  ph_year :: "int option"
  ph_venue :: "string option"
  ph_abstract :: "string option"
  ph_cited_by_count :: nat
  ph_oa_status :: "string option"
  ph_fwci :: "rat option"
  ph_percentile_min :: "nat option"
  ph_source :: discovery_source

definition strip_openalex_prefix :: "string \<Rightarrow> string" where
  "strip_openalex_prefix i = rsplit_first ''/'' i"

definition strip_doi_prefix :: "string \<Rightarrow> string" where
  "strip_doi_prefix u =
     (let lower = to_ascii_lowercase u in
      case strip_prefix ''https://doi.org/'' lower of
        Some s \<Rightarrow> s
      | None \<Rightarrow> or_str (strip_prefix ''http://doi.org/'' lower) lower)"

definition extract_arxiv_from_location :: "json \<Rightarrow> string option" where
  "extract_arxiv_from_location loc = find_map (\<lambda>key.
     case jstr loc [key] of
       None \<Rightarrow> None
     | Some u \<Rightarrow> (case find_sub ''arxiv.org/abs/'' u of
         None \<Rightarrow> None
       | Some (_, rest) \<Rightarrow>
           let raw = takeWhile (\<lambda>c. c \<notin> set [CHR ''?'', CHR ''#'', CHR '' '', CHR 0x09, CHR 0x0A, CHR 0x0D]) rest in
           (case arxiv_parse (rev (dropWhile (\<lambda>c. c = CHR ''/'') (rev raw))) of
              Inr a \<Rightarrow> Some (arxiv_as_str a) | Inl _ \<Rightarrow> None)))
     [''landing_page_url'', ''pdf_url'']"

text \<open>The positions of an inverted index, in the order of its entries.\<close>

definition positioned :: "(string \<times> json) list \<Rightarrow> (nat \<times> string) list" where
  "positioned es = concat (map (\<lambda>(word, positions). case as_array positions of
     None \<Rightarrow> [] | Some ps \<Rightarrow> map (\<lambda>p. (p, word)) (filter_map as_u64 ps)) es)"

definition reconstruct_abstract :: "json \<Rightarrow> string option" where
  "reconstruct_abstract index = (case index of
     JObject es \<Rightarrow>
       if es = [] then None
       else let ps = positioned es in
         if ps = [] then None else Some (join_with '' '' (map snd (sort_key fst ps)))
   | _ \<Rightarrow> None)"

definition work_title :: "json \<Rightarrow> string option" where
  "work_title work = opt_else (jstr work [''title'']) (jstr work [''display_name''])"

definition work_to_hit :: "search_env \<Rightarrow> json \<Rightarrow> paper_hit" where
  "work_to_hit se work = \<lparr>
     ph_doi = map_option strip_doi_prefix (jstr work [''doi'']),
     ph_openalex_id = or_str (map_option strip_openalex_prefix (jstr work [''id''])) [],
     ph_arxiv = Option.bind (jarray work [''locations'']) (find_map extract_arxiv_from_location),
     ph_title = or_str (work_title work) [],
     ph_authors = (case jarray work [''authorships''] of
       None \<Rightarrow> [] | Some as \<Rightarrow> filter_map (\<lambda>a. jstr a [''author'', ''display_name'']) as),
     ph_year = Option.bind (jget work ''publication_year'') as_i32,
     ph_venue = jstr work [''primary_location'', ''source'', ''display_name''],
     ph_abstract = Option.bind (jget work ''abstract_inverted_index'') reconstruct_abstract,
     ph_cited_by_count = (case Option.bind (jget work ''cited_by_count'') as_u64 of Some n \<Rightarrow> n | None \<Rightarrow> 0),
     ph_oa_status = jstr work [''open_access'', ''oa_status''],
     ph_fwci = Option.bind (jget work ''fwci'') (f64_of se),
     ph_percentile_min = Option.bind (Option.bind (jpath work [''cited_by_percentile_year'', ''min'']) as_u64)
       (\<lambda>v. if v < 2 ^ 8 then Some v else None),
     ph_source = DiscoveryOpenAlex \<rparr>"

subsection \<open>Asking OpenAlex\<close>

definition hint_text :: "string \<Rightarrow> string" where
  "hint_text body =
     (let s = utf8_chars (from_utf8_lossy body) in
      if length s \<le> 200 then concat s else concat (take 200 s) @ map char_of [0xE2, 0x80, 0xA6 :: nat])"

definition missing_results_array :: "search_env \<Rightarrow> string \<Rightarrow> json \<Rightarrow> fetch_error" where
  "missing_results_array se place v = SourceSchema (''openalex '' @ place @ '' response missing `results` array''
     @ map char_of [0x20, 0xE2, 0x80, 0x94, 0x20 :: nat] @ ''likely an error payload (got: ''
     @ hint_text (json_text se v) @ '')'')"

definition search_row :: "nat \<Rightarrow> row_input" where
  "search_row sz = \<lparr> i_event = Fetch, i_result = LogOk, i_capability = log_capability.Metadata, i_ref = None,
     i_source = Some ''openalex'', i_error_code = None, i_size_bytes = Some sz, i_license = None,
     i_store_path = None, i_canonical_digest = None \<rparr>"

definition openalex_get :: "search_env \<Rightarrow> url \<Rightarrow> (json \<times> nat) act" where
  "openalex_get se u =
     (let env = fe (se_orch se) in
      and_then (acquire ''openalex'') (\<lambda>_.
      and_then (fetch_bytes env ''openalex'' u) (\<lambda>(body, _).
      and_then (ok_or (SourceSchema ''openalex returned non-JSON'') (from_json env body)) (\<lambda>v.
      and_then (log_row_act env (search_row (length body))) (\<lambda>_. return_ok (v, length body))))))"

text \<open>The results of an answer, or the error that it has none.\<close>

definition results_of :: "search_env \<Rightarrow> string \<Rightarrow> json \<Rightarrow> json list act" where
  "results_of se place v = ok_or (missing_results_array se place v) (jarray v [''results''])"

subsection \<open>Names to identifiers\<close>

record candidate_entity =
  cand_id :: string
  cand_name :: string
  cand_works :: nat
  cand_relevance :: rat

definition candidate_from_value :: "search_env \<Rightarrow> json \<Rightarrow> candidate_entity option" where
  "candidate_from_value se v = (case jstr v [''id''] of
     None \<Rightarrow> None
   | Some i \<Rightarrow> Some \<lparr> cand_id = strip_openalex_prefix i, cand_name = or_str (jstr v [''display_name'']) [],
       cand_works = (case Option.bind (jget v ''works_count'') as_u64 of Some n \<Rightarrow> n | None \<Rightarrow> 0),
       cand_relevance = (case Option.bind (jget v ''relevance_score'') (f64_of se) of Some r \<Rightarrow> r | None \<Rightarrow> 0) \<rparr>)"

definition DOMINANCE_RATIO :: rat where "DOMINANCE_RATIO = 2"

definition entity_label :: "string \<Rightarrow> string" where
  "entity_label path = (if path = ''authors'' then ''author'' else if path = ''sources'' then ''venue''
     else if path = ''publishers'' then ''publisher'' else path)"

definition format_ambiguous :: "string \<Rightarrow> string \<Rightarrow> candidate_entity list \<Rightarrow> string" where
  "format_ambiguous label name cs =
     ''ambiguous '' @ label @ '' '' @ CHR 0x27 # name @ CHR 0x27 # map char_of [0x20, 0xE2, 0x80, 0x94, 0x20 :: nat]
     @ nat_text (length cs) @ '' candidates; narrow the name (add a first name / fuller title) and retry:''
     @ concat (map (\<lambda>c. CHR 0x0A # ''  '' @ cand_name c @ '' ('' @ cand_id c @ '', '' @ nat_text (cand_works c) @ '' works)'')
         (take 5 cs))"

definition exact_name :: "string \<Rightarrow> candidate_entity \<Rightarrow> bool" where
  "exact_name name c \<longleftrightarrow> to_ascii_lowercase (str_trim (cand_name c)) = to_ascii_lowercase (str_trim name)"

definition dominates :: "candidate_entity \<Rightarrow> candidate_entity \<Rightarrow> bool" where
  "dominates a b \<longleftrightarrow> 0 < cand_relevance a \<and> 0 < cand_relevance b \<and> DOMINANCE_RATIO * cand_relevance b \<le> cand_relevance a"

definition select_entity :: "string \<Rightarrow> string \<Rightarrow> candidate_entity list \<Rightarrow> fetch_error + string" where
  "select_entity path name cs =
     (let label = entity_label path; exact = filter (exact_name name) cs in
      case cs of
        [] \<Rightarrow> Inl (FENotFound (''no OpenAlex '' @ label @ '' matched '' @ CHR 0x27 # name @ [CHR 0x27]))
      | [c] \<Rightarrow> Inr (cand_id c)
      | best # second # _ \<Rightarrow> (case exact of
            [c] \<Rightarrow> Inr (cand_id c)
          | _ \<Rightarrow> if exact = [] \<and> dominates best second then Inr (cand_id best)
              else Inl (FEAmbiguous (format_ambiguous label name cs))))"

text \<open>\<^verbatim>\<open>mailto\<close> is appended only when an address is configured.\<close>

definition mailto_pair :: "string \<Rightarrow> (string \<times> string) list" where
  "mailto_pair mail = (if mail = [] then [] else [(''mailto'', mail)])"

definition by_relevance :: "candidate_entity list \<Rightarrow> candidate_entity list" where
  "by_relevance cs = sort_key (\<lambda>c. - cand_relevance c) cs"

definition resolve_entity_id :: "search_env \<Rightarrow> url \<Rightarrow> string \<Rightarrow> string \<Rightarrow> string \<Rightarrow> string act" where
  "resolve_entity_id se base mail path name =
     and_then (ok_or (SourceSchema (''openalex '' @ path @ '' URL construction failed''))
       (url_join (fe (se_orch se)) base (CHR ''/'' # path))) (\<lambda>u.
     and_then (openalex_get se (append_pairs ([(''search'', name), (''per-page'', ''5'')] @ mailto_pair mail) u)) (\<lambda>(v, _).
     and_then (results_of se (CHR ''/'' # path) v) (\<lambda>rs.
     lift (case select_entity path name (by_relevance (filter_map (candidate_from_value se) rs)) of
       Inl e \<Rightarrow> Err e | Inr i \<Rightarrow> Ok i))))"

definition is_named :: "string option \<Rightarrow> bool" where
  "is_named v \<longleftrightarrow> (case v of Some n \<Rightarrow> str_trim n \<noteq> [] | None \<Rightarrow> False)"

definition resolve_optional :: "search_env \<Rightarrow> url \<Rightarrow> string \<Rightarrow> string \<Rightarrow> string option \<Rightarrow> string option act" where
  "resolve_optional se base mail path v = (case v of
     Some n \<Rightarrow> if str_trim n \<noteq> [] then and_then (resolve_entity_id se base mail path n) (\<lambda>i. return_ok (Some i))
       else return_ok None
   | None \<Rightarrow> return_ok None)"

subsection \<open>The search\<close>

record resolved_ids =
  ri_author :: "string option"
  ri_source :: "string option"
  ri_publisher :: "string option"

definition clause :: "string \<Rightarrow> ('a \<Rightarrow> string) \<Rightarrow> 'a option \<Rightarrow> string list" where
  "clause key f v = (case v of None \<Rightarrow> [] | Some x \<Rightarrow> [key @ f x])"

definition search_filters :: "search_env \<Rightarrow> paper_search_query \<Rightarrow> resolved_ids \<Rightarrow> string list" where
  "search_filters se q ids =
     [''title_and_abstract.search:'' @ map (\<lambda>c. if c = CHR '','' then CHR '' '' else c) (pq_query q)]
     @ clause ''from_publication_date:'' (\<lambda>y. int_text y @ ''-01-01'') (pq_from_year q)
     @ clause ''to_publication_date:'' (\<lambda>y. int_text y @ ''-12-31'') (pq_to_year q)
     @ (if pq_oa_only q then [''is_oa:true''] else [])
     @ clause ''cited_by_count:>'' nat_text (pq_min_citations q)
     @ clause ''fwci:>'' (f64_text se) (pq_min_fwci q)
     @ clause ''cited_by_percentile_year.min:'' nat_text (pq_min_percentile q)
     @ clause ''authorships.author.id:'' id (ri_author ids)
     @ clause ''primary_location.source.id:'' id (ri_source ids)
     @ clause ''primary_location.source.publisher_lineage:'' id (ri_publisher ids)"

definition SELECT_FIELDS :: string where
  "SELECT_FIELDS = ''id,doi,title,display_name,publication_year,cited_by_count,fwci,cited_by_percentile_year,abstract_inverted_index,authorships,primary_location,open_access,locations''"

definition clamp :: "nat \<Rightarrow> nat" where
  "clamp n = max 1 (min n MAX_PER_PAGE)"

definition search_pairs :: "search_env \<Rightarrow> string \<Rightarrow> paper_search_query \<Rightarrow> resolved_ids \<Rightarrow> (string \<times> string) list" where
  "search_pairs se mail q ids =
     [(''per-page'', nat_text (clamp (pq_limit q))), (''sort'', as_openalex (pq_sort q)), (''select'', SELECT_FIELDS),
      (''filter'', join_with '','' (search_filters se q ids))] @ mailto_pair mail"

definition build_search_url :: "search_env \<Rightarrow> url \<Rightarrow> string \<Rightarrow> paper_search_query \<Rightarrow> resolved_ids \<Rightarrow> url act" where
  "build_search_url se base mail q ids =
     and_then (ok_or (SourceSchema ''openalex search URL construction failed'')
       (url_join (fe (se_orch se)) base ''/works'')) (\<lambda>u. return_ok (append_pairs (search_pairs se mail q ids) u))"

record paper_search_results =
  ps_results :: "paper_hit list"
  ps_total :: "nat option"

definition total_of :: "json \<Rightarrow> nat option" where
  "total_of v = Option.bind (jpath v [''meta'', ''count'']) as_u64"

definition paper_search :: "search_env \<Rightarrow> url \<Rightarrow> string \<Rightarrow> paper_search_query \<Rightarrow> paper_search_results act" where
  "paper_search se base mail q =
     and_then (resolve_optional se base mail ''authors'' (pq_author q)) (\<lambda>author.
     and_then (resolve_optional se base mail ''sources'' (pq_venue q)) (\<lambda>venue.
     and_then (resolve_optional se base mail ''publishers'' (pq_publisher q)) (\<lambda>publisher.
     and_then (build_search_url se base mail q \<lparr> ri_author = author, ri_source = venue, ri_publisher = publisher \<rparr>) (\<lambda>u.
     and_then (openalex_get se u) (\<lambda>(v, _).
     and_then (results_of se ''search'' v) (\<lambda>rs.
     return_ok \<lparr> ps_results = map (work_to_hit se) rs, ps_total = total_of v \<rparr>))))))"

text \<open>The advice for a long query that found nothing; its sentence is shortened to the number of terms.\<close>

definition zero_result_hint :: "string \<Rightarrow> nat option" where
  "zero_result_hint query = (let terms = length (split_whitespace query) in if terms \<le> 8 then None else Some terms)"

subsection \<open>The links of a DOI\<close>

record paper_links =
  pl_doi :: "string option"
  pl_arxiv :: "string option"
  pl_openalex_id :: string
  pl_title :: string

definition work_to_links :: "json \<Rightarrow> paper_links" where
  "work_to_links work = \<lparr>
     pl_doi = map_option strip_doi_prefix (jstr work [''doi'']),
     pl_arxiv = opt_else (opt_else (Option.bind (jarray work [''locations'']) (find_map extract_arxiv_from_location))
         (Option.bind (jget work ''primary_location'') extract_arxiv_from_location))
         (Option.bind (jget work ''best_oa_location'') extract_arxiv_from_location),
     pl_openalex_id = or_str (map_option strip_openalex_prefix (jstr work [''id''])) [],
     pl_title = or_str (work_title work) [] \<rparr>"

definition build_doi_lookup_url :: "search_env \<Rightarrow> url \<Rightarrow> string \<Rightarrow> string \<Rightarrow> url act" where
  "build_doi_lookup_url se base mail doi =
     and_then (ok_or (SourceSchema ''openalex doi-lookup URL construction failed'')
       (url_join (fe (se_orch se)) base ''/works'')) (\<lambda>u.
     return_ok (append_pairs ([(''filter'', ''doi:'' @ doi), (''per-page'', ''1''),
       (''select'', ''id,doi,title,display_name,locations,primary_location,best_oa_location'')] @ mailto_pair mail) u))"

definition resolve_links_for_doi :: "search_env \<Rightarrow> url \<Rightarrow> string \<Rightarrow> string \<Rightarrow> paper_links act" where
  "resolve_links_for_doi se base mail doi =
     and_then (build_doi_lookup_url se base mail doi) (\<lambda>u.
     and_then (openalex_get se u) (\<lambda>(v, _).
     and_then (results_of se ''doi-lookup'' v) (\<lambda>rs.
     and_then (ok_or (FENotFound (''no OpenAlex work matched doi '' @ CHR 0x27 # doi @ [CHR 0x27])) (first_of rs)) (\<lambda>work.
     let links = work_to_links work in
     if pl_openalex_id links = [] then throw (SourceSchema (''openalex work for doi '' @ CHR 0x27 # doi @ CHR 0x27 # '' has no id''))
     else return_ok links))))"

subsection \<open>The works that cite a work\<close>

record frontier_query =
  fq_seed_doi :: doi
  fq_limit :: nat
  fq_min_year :: "int option"

record frontier_results =
  fr_hits :: "paper_hit list"
  fr_seed_openalex_id :: string
  fr_seed_title :: "string option"
  fr_total_citing :: "nat option"

text \<open>The comparison of two hits: the impact, then the year, then the citations, each descending, absent last.\<close>

fun descending :: "'a::linorder option \<Rightarrow> 'a option \<Rightarrow> bool option" where
  "descending (Some a) (Some b) = (if a = b then None else Some (b < a))"
| "descending (Some _) None = Some True"
| "descending None (Some _) = Some False"
| "descending None None = None"

definition hit_before :: "paper_hit \<Rightarrow> paper_hit \<Rightarrow> bool" where
  "hit_before a b = (case descending (ph_fwci a) (ph_fwci b) of
     Some x \<Rightarrow> x
   | None \<Rightarrow> (case descending (ph_year a) (ph_year b) of
       Some x \<Rightarrow> x
     | None \<Rightarrow> ph_cited_by_count b < ph_cited_by_count a))"

text \<open>A stable sort by a comparison.\<close>

fun insert_hit :: "paper_hit \<Rightarrow> paper_hit list \<Rightarrow> paper_hit list" where
  "insert_hit a [] = [a]"
| "insert_hit a (b # bs) = (if hit_before b a then b # insert_hit a bs else a # b # bs)"

definition sort_hits :: "paper_hit list \<Rightarrow> paper_hit list" where
  "sort_hits hs = foldr insert_hit hs []"

definition recent_enough :: "int option \<Rightarrow> paper_hit \<Rightarrow> bool" where
  "recent_enough min_year h \<longleftrightarrow> (case min_year of None \<Rightarrow> True
     | Some y \<Rightarrow> (case ph_year h of Some hy \<Rightarrow> y \<le> hy | None \<Rightarrow> False))"

definition frontier_view :: "search_env \<Rightarrow> frontier_query \<Rightarrow> url \<Rightarrow> string \<Rightarrow> frontier_results act" where
  "frontier_view se q base mail =
     (let d = doi_as_str (fq_seed_doi q); env = se_orch se in
      and_then (ok_or (SourceSchema ''frontier seed URL construction failed'') (url_join (fe env) base ''/works'')) (\<lambda>u.
      and_then (openalex_get se (append_pairs ([(''filter'', ''doi:'' @ d), (''per-page'', ''1''),
          (''select'', ''id,title,display_name'')] @ mailto_pair mail) u)) (\<lambda>(seed, _).
      and_then (results_of se ''frontier/seed'' seed) (\<lambda>ss.
      and_then (ok_or (FENotFound (''no OpenAlex work matched seed doi '' @ CHR 0x27 # d @ [CHR 0x27])) (first_of ss)) (\<lambda>work.
      and_then (ok_or (SourceSchema (''seed OpenAlex record for '' @ CHR 0x27 # d @ CHR 0x27 # '' has no id''))
          (map_option strip_openalex_prefix (jstr work [''id'']))) (\<lambda>i.
      and_then (openalex_get se (append_pairs ([(''filter'', ''cites:'' @ i), (''select'', SELECT_FIELDS),
          (''sort'', ''fwci:desc''), (''per-page'', nat_text (clamp (fq_limit q)))] @ mailto_pair mail)
          (set_path_str env base ''/works''))) (\<lambda>(v, _).
      and_then (results_of se ''frontier/cites'' v) (\<lambda>rs.
      return_ok \<lparr> fr_hits = sort_hits (filter (recent_enough (fq_min_year q)) (map (work_to_hit se) rs)),
        fr_seed_openalex_id = i, fr_seed_title = work_title work, fr_total_citing = total_of v \<rparr>))))))))"

subsection \<open>Only reading, only OpenAlex\<close>

text \<open>What may happen: slots, requests and rows of OpenAlex, and never a download.\<close>

definition discovery_effect :: "effect \<Rightarrow> bool" where
  "discovery_effect e \<longleftrightarrow> own_effect ''openalex'' e \<and> reading_effect e"

lemma discovery_effect_simps [simp]:
  "discovery_effect (Acquire ''openalex'')" "discovery_effect (Request ''openalex'' u hs False)"
  "discovery_effect (Append (search_row n) b)"
  by (simp_all add: discovery_effect_def own_effect_def search_row_def)

lemma performs_openalex_get [performs_intros]: "performs discovery_effect (openalex_get se u)"
  unfolding openalex_get_def Let_def by (intro performs_intros) simp_all

lemma performs_results_of [performs_intros]: "performs P (results_of se place v)"
  by (simp add: results_of_def)

lemma performs_resolve_entity [performs_intros]: "performs discovery_effect (resolve_entity_id se base mail path name)"
  unfolding resolve_entity_id_def by (intro performs_intros)

lemma performs_resolve_optional [performs_intros]: "performs discovery_effect (resolve_optional se base mail path v)"
  unfolding resolve_optional_def by (intro performs_intros)


lemma fetch_bytes_Ok:
  "fetch_bytes env n u w = (w', Ok r) \<Longrightarrow> effects w' = effects w @ [Request n u [] False]"
  by (auto simp: fetch_bytes_def fetch_bytes_with_headers_def http_get_def Let_def split: sum.splits)

lemma openalex_get_Ok:
  assumes "openalex_get se u w = (w', Ok (v, n))"
  shows "effects w' = effects w @ [Acquire ''openalex'', Request ''openalex'' u [] False, Append (search_row n) True]"
  using assms
  by (auto simp: openalex_get_def Let_def and_then_Ok ok_or_Ok return_ok_Ok acquire_def
      dest!: fetch_bytes_Ok log_row_act_Ok)

subsection \<open>An unambiguous name\<close>

definition unambiguous :: "string \<Rightarrow> candidate_entity list \<Rightarrow> string \<Rightarrow> bool" where
  "unambiguous name cs i \<longleftrightarrow> (\<exists>c \<in> set cs. cand_id c = i \<and>
     (cs = [c] \<or> filter (exact_name name) cs = [c]
      \<or> filter (exact_name name) cs = [] \<and> 0 < cand_relevance c
        \<and> (\<forall>b \<in> set (remove1 c cs). 2 * cand_relevance b \<le> cand_relevance c)))"

lemma select_entity_unambiguous:
  assumes "select_entity path name cs = Inr i" and "sorted (map (\<lambda>c. - cand_relevance c) cs)"
  shows "unambiguous name cs i"
proof (cases cs rule: remdups_adj.cases)
  case (3 best second rest)
  show ?thesis
  proof (cases "\<exists>c. filter (exact_name name) cs = [c]")
    case True
    then obtain c where c: "filter (exact_name name) cs = [c]" by blast
    then have "c \<in> set cs" by (metis filter_is_subset list.set_intros(1) subsetD)
    with c assms(1) 3 show ?thesis unfolding unambiguous_def by (auto simp: select_entity_def Let_def split: if_splits)
  next
    case False
    with assms(1) 3 have *: "filter (exact_name name) cs = []" "dominates best second" "i = cand_id best"
      by (auto simp: select_entity_def Let_def split: if_splits list.splits)
    have "cand_relevance b \<le> cand_relevance second" if "b \<in> set (second # rest)" for b
      using assms(2) 3 that by auto
    with * have "2 * cand_relevance b \<le> cand_relevance best" if "b \<in> set (second # rest)" for b
      using that unfolding dominates_def DOMINANCE_RATIO_def by fastforce
    with * 3 show ?thesis unfolding unambiguous_def dominates_def by (intro bexI [of _ best]) auto
  qed
qed (use assms(1) in \<open>auto simp: select_entity_def unambiguous_def\<close>)

lemma sum_res_Ok: "(case x of Inl e \<Rightarrow> Err e | Inr a \<Rightarrow> Ok a) = Ok b \<longleftrightarrow> x = Inr b"
  by (cases x) simp_all

lemma resolve_entity_Ok:
  assumes "resolve_entity_id se base mail path name w = (w', Ok i)"
  shows "\<exists>cs es. unambiguous name cs i \<and> effects w' = effects w @ es"
proof -
  from assms obtain u v n rs where get: "openalex_get se u w = (w', Ok (v, n))"
      and pick: "select_entity path name (by_relevance (filter_map (candidate_from_value se) rs)) = Inr i"
    by (auto simp: resolve_entity_id_def results_of_def act_Ok_simps sum_res_Ok)
  have "sorted (map (\<lambda>c. - cand_relevance c) (by_relevance cs))" for cs by (simp add: by_relevance_def)
  from select_entity_unambiguous [OF pick this] openalex_get_Ok [OF get] show ?thesis by blast
qed

text \<open>What a name of the query was resolved to: nothing when it is not given, else the one entity it names.\<close>

definition chosen :: "string option \<Rightarrow> string option \<Rightarrow> bool" where
  "chosen v r \<longleftrightarrow> (if is_named v then (\<exists>n i cs. v = Some n \<and> r = Some i \<and> unambiguous n cs i) else r = None)"

lemma resolve_optional_Ok:
  assumes "resolve_optional se base mail path v w = (w', Ok r)"
  shows "chosen v r \<and> (\<exists>es. effects w' = effects w @ es)"
proof (cases "is_named v")
  case True
  with assms obtain n i where "v = Some n" "r = Some i" "resolve_entity_id se base mail path n w = (w', Ok i)"
    by (auto simp: resolve_optional_def is_named_def act_Ok_simps split: option.splits)
  with True resolve_entity_Ok show ?thesis unfolding chosen_def by (metis (no_types))
next
  case False
  with assms have "r = None \<and> w' = w" by (auto simp: resolve_optional_def is_named_def act_Ok_simps split: option.splits)
  with False show ?thesis by (simp add: chosen_def)
qed

lemma search_filters_commas:
  assumes "\<And>f. CHR '','' \<notin> set (f64_text se f)"
    and "list_all (\<lambda>v. case v of None \<Rightarrow> True | Some i \<Rightarrow> CHR '','' \<notin> set i) [ri_author ids, ri_source ids, ri_publisher ids]"
  shows "split_char CHR '','' (join_with '','' (search_filters se q ids)) = search_filters se q ids"
proof -
  have num: "CHR '','' \<notin> set (nat_text n)" for n
  proof (induction n rule: nat_text.induct)
    case (1 n)
    have "CHR '','' \<noteq> char_of (48 + n mod 10)" using mod_less_divisor [of 10 n] by (auto dest: arg_cong [of _ _ "of_char :: _ \<Rightarrow> nat"])
    moreover have "n < 10 \<Longrightarrow> CHR '','' \<noteq> char_of (48 + n)" by (auto dest: arg_cong [of _ _ "of_char :: _ \<Rightarrow> nat"])
    ultimately show ?case using 1 by (subst nat_text.simps) auto
  qed
  then have int: "CHR '','' \<notin> set (int_text i)" for i by (simp add: int_text_def)
  have clauses: "(\<forall>l \<in> set (clause key f v). CHR '','' \<notin> set l)
      \<longleftrightarrow> (case v of None \<Rightarrow> True | Some x \<Rightarrow> CHR '','' \<notin> set key \<and> CHR '','' \<notin> set (f x))"
    for key v and f :: "'a \<Rightarrow> string"
    by (simp add: clause_def split: option.split)
  have "\<forall>l \<in> set (search_filters se q ids). CHR '','' \<notin> set l"
    unfolding search_filters_def set_append ball_Un clauses using assms num int
    by (intro conjI) (auto simp: option.case_eq_if)
  then have "list_all (\<lambda>l. CHR '','' \<notin> set l) (search_filters se q ids)" by (simp add: list_all_iff)
  then show ?thesis by (intro split_join_char) (simp_all add: search_filters_def)
qed


subsection \<open>The abstract\<close>

definition index_entry :: "string list \<Rightarrow> string \<Rightarrow> string \<times> json" where
  "index_entry ws w = (w, JArray (map (\<lambda>i. JInt (int i)) (filter (\<lambda>i. ws ! i = w) [0..<length ws])))"

lemma as_u64_int: "filter_map as_u64 (map (\<lambda>i. JInt (int i)) is) = is" if "\<forall>i \<in> set is. i < 2 ^ 64"
proof -
  have "as_u64 (JInt (int i)) = Some i" if "i < 2 ^ 64" for i
  proof -
    from that have "int i < 2 ^ 64" by (metis of_nat_less_iff of_nat_numeral of_nat_power)
    then show ?thesis by (simp add: as_u64_def)
  qed
  with that show ?thesis by (induction "is") (simp_all add: filter_map_def)
qed

text \<open>The abstract is read back.  From an inverted index of a text, its words in any order, each with its
  positions, the reader gets the text.\<close>

theorem abstract_is_read_back:
  assumes "ws \<noteq> []" and "length ws < 2 ^ 64" and "distinct vs" and "set vs = set ws"
  shows "reconstruct_abstract (JObject (map (index_entry ws) vs)) = Some (join_with '' '' ws)"
proof -
  let ?all = "map (\<lambda>i. (i, ws ! i)) [0..<length ws]"
  let ?here = "\<lambda>v. map (\<lambda>i. (i, v)) (filter (\<lambda>i. ws ! i = v) [0..<length ws])"
  have "filter_map as_u64 (map (\<lambda>i. JInt (int i)) (filter (\<lambda>i. ws ! i = v) [0..<length ws]))
      = filter (\<lambda>i. ws ! i = v) [0..<length ws]" for v
    by (rule as_u64_int) (use assms(2) in auto)
  then have ps: "positioned (map (index_entry ws) vs) = concat (map ?here vs)"
    by (simp add: positioned_def index_entry_def as_array_def comp_def)
  have "distinct (concat (map ?here vs))"
    using assms(3) by (induction vs) (auto simp: distinct_map inj_on_def)
  moreover have "distinct ?all" by (simp add: distinct_map inj_on_def)
  moreover have "set (concat (map ?here vs)) = set ?all" using assms(4) by (auto simp: image_iff)
  ultimately have "mset (positioned (map (index_entry ws) vs)) = mset ?all"
    unfolding ps by (simp only: set_eq_iff_mset_eq_distinct)
  moreover from this have "set (positioned (map (index_entry ws) vs)) = set ?all" by (rule mset_eq_setD)
  moreover have "sorted (map fst ?all)" by (simp add: comp_def)
  ultimately have sort: "sort_key fst (positioned (map (index_entry ws) vs)) = ?all"
    by (intro sort_key_inj_key_eq) (auto simp: inj_on_def)
  have "map snd ?all = ws" by (simp add: comp_def map_nth)
  moreover from sort assms(1) have "positioned (map (index_entry ws) vs) \<noteq> []" by (cases ws) auto
  moreover from assms(1,4) have "vs \<noteq> []" by auto
  ultimately show ?thesis by (simp add: reconstruct_abstract_def sort Let_def)
qed

subsection \<open>The order of the citing works\<close>

lemma descending_trans:
  assumes "descending b a \<noteq> Some True" and "descending c b \<noteq> Some True"
  shows "descending c a \<noteq> Some True"
    and "descending c a = None \<Longrightarrow> descending b a = None \<and> descending c b = None"
  using assms by (cases a; cases b; cases c; auto split: if_splits)+

lemma descending_flip: "descending a b = Some x \<Longrightarrow> descending b a = Some (\<not> x)"
  by (cases a; cases b) (auto split: if_splits)

lemma not_before:
  "\<not> hit_before b a \<longleftrightarrow> descending (ph_fwci b) (ph_fwci a) = Some False
    \<or> descending (ph_fwci b) (ph_fwci a) = None \<and> (descending (ph_year b) (ph_year a) = Some False
      \<or> descending (ph_year b) (ph_year a) = None \<and> ph_cited_by_count b \<le> ph_cited_by_count a)"
  by (auto simp: hit_before_def split: option.splits)

lemma descending_cases:
  assumes "descending b a = Some False \<or> descending b a = None" and "descending c b = Some False \<or> descending c b = None"
  shows "descending c a = Some False \<or> descending c a = None \<and> descending b a = None \<and> descending c b = None"
  using assms by (cases a; cases b; cases c) (auto split: if_splits)

lemma not_before_trans: "\<not> hit_before b a \<Longrightarrow> \<not> hit_before c b \<Longrightarrow> \<not> hit_before c a"
  unfolding not_before
  using descending_cases [of "ph_fwci b" "ph_fwci a" "ph_fwci c"] descending_cases [of "ph_year b" "ph_year a" "ph_year c"]
  by auto

lemma before_asym: "hit_before a b \<Longrightarrow> \<not> hit_before b a"
  by (auto simp: hit_before_def split: option.splits dest: descending_flip)

lemma insert_hit_set: "set (insert_hit a hs) = insert a (set hs)"
  by (induction hs) auto

lemma insert_hit_sorted:
  "sorted_wrt (\<lambda>a b. \<not> hit_before b a) hs \<Longrightarrow> sorted_wrt (\<lambda>a b. \<not> hit_before b a) (insert_hit a hs)"
  by (induction hs) (auto simp: insert_hit_set dest: before_asym, use not_before_trans in blast)

lemma sort_hits_facts:
  "sorted_wrt (\<lambda>a b. \<not> hit_before b a) (sort_hits hs)" "mset (sort_hits hs) = mset hs"
proof -
  have "mset (insert_hit a bs) = add_mset a (mset bs)" for a bs by (induction bs) auto
  then show "mset (sort_hits hs) = mset hs" unfolding sort_hits_def by (induction hs) simp_all
  show "sorted_wrt (\<lambda>a b. \<not> hit_before b a) (sort_hits hs)"
    unfolding sort_hits_def by (induction hs) (simp_all add: insert_hit_sorted)
qed


subsection \<open>A search and a walk\<close>

text \<open>A server with two authors of a name and one work.\<close>

definition demo_work :: json where
  "demo_work = JObject [(''abstract_inverted_index'', JObject [(''spins'', JArray [JInt 1]), (''glassy'', JArray [JInt 0])]),
     (''display_name'', JString ''Spin glasses''), (''doi'', JString ''https://doi.org/10.1234/X''), (''id'', JString ''https://openalex.org/W1'')]"

definition demo_authors :: json where
  "demo_authors = JObject [(''results'', JArray [
     JObject [(''display_name'', JString ''A. Fock''), (''id'', JString ''https://openalex.org/A2''), (''relevance_score'', JInt 9)],
     JObject [(''display_name'', JString ''V. Fock''), (''id'', JString ''https://openalex.org/A1''), (''relevance_score'', JInt 5)]])]"

definition demo_search :: search_env where
  "demo_search = \<lparr>
     se_orch = demo_orch\<lparr>fe := demo_fetch_env\<lparr>
       send := (\<lambda>es al u hs n. Inr \<lparr> r_url = u, status = 200, retry_after_hdr = None, content_length = None,
          chunks = [Inr (url_rest u)] \<rparr>),
       from_json := (\<lambda>b. Some (if ends_with b ''/authors'' then demo_authors
          else JObject [(''results'', JArray [demo_work])]))\<rparr>\<rparr>,
     f64_of = (\<lambda>j. case j of JInt i \<Rightarrow> Some (of_int i) | _ \<Rightarrow> None), f64_text = (\<lambda>_. ''0''), json_text = (\<lambda>_. []) \<rparr>"

definition demo_base :: url where
  "demo_base = demo_url ''https'' ''api.openalex.org''"

definition by_fock :: paper_search_query where
  "by_fock = (paper_search_query_new ''spin, glass'')\<lparr>pq_author := Some ''v. fock''\<rparr>"

lemma demo_searches:
  "(case snd (paper_search demo_search demo_base [] by_fock demo_world) of
     Ok out \<Rightarrow> map ph_doi (ps_results out) = [Some ''10.1234/x''] \<and> map ph_abstract (ps_results out) = [Some ''glassy spins'']
   | _ \<Rightarrow> False)
   \<and> (case snd (frontier_view demo_search \<lparr> fq_seed_doi = Doi ''10.1234/y'', fq_limit = 5, fq_min_year = None \<rparr> demo_base [] demo_world) of
     Ok out \<Rightarrow> fr_seed_openalex_id out = ''W1'' \<and> length (fr_hits out) = 1
   | _ \<Rightarrow> False)"
  by code_simp


theorem abstract_is_read_back_witness:
  "reconstruct_abstract (JObject (map (index_entry [''a'', ''b'', ''a'']) [''b'', ''a''])) = Some ''a b a''"
  using abstract_is_read_back [of "[''a'', ''b'', ''a'']" "[''b'', ''a'']"] by (simp add: insert_commute)


subsection \<open>Where it falls short\<close>

text \<open>An answer that is not JSON is an exchange with no row of the log.\<close>

theorem unread_answer_leaves_no_row:
  assumes "fetch_bytes (fe (se_orch se)) ''openalex'' u (fst (acquire ''openalex'' w)) = (v, Ok (body, f))"
    and "from_json (fe (se_orch se)) body = None"
  shows "effects (fst (openalex_get se u w)) = effects w @ [Acquire ''openalex'', Request ''openalex'' u [] False]"
  using assms fetch_bytes_Ok [OF assms(1)]
  by (simp add: openalex_get_def Let_def and_then_def acquire_def ok_or_def throw_def)

text \<open>A search has no \<^verbatim>\<open>search\<close> parameter, and a limit of none asks for one work.\<close>

theorem search_is_a_filter:
  "''search'' \<notin> fst ` set (search_pairs se mail q ids)
   \<and> (pq_limit q = 0 \<longrightarrow> (''per-page'', ''1'') \<in> set (search_pairs se mail q ids))"
proof -
  have "nat_text 1 = ''1''" by code_simp
  then show ?thesis by (auto simp: search_pairs_def mailto_pair_def clamp_def MAX_PER_PAGE_def)
qed

text \<open>With two namesakes the best candidate is not taken, however far it is ahead.\<close>

definition candidate_named :: "string \<Rightarrow> string \<Rightarrow> rat \<Rightarrow> candidate_entity" where
  "candidate_named i name r = \<lparr> cand_id = i, cand_name = name, cand_works = 1, cand_relevance = r \<rparr>"

theorem namesake_hides_the_best:
  "\<exists>why. select_entity ''authors'' ''Wei Wang'' [candidate_named ''A1'' ''Wei Wang'' 100, candidate_named ''A2'' ''Wei Wang'' 1]
     = Inl (FEAmbiguous why)
   \<and> dominates (candidate_named ''A1'' ''Wei Wang'' 100) (candidate_named ''A2'' ''Wei Wang'' 1)"
  by (simp add: select_entity_def candidate_named_def exact_name_def dominates_def DOMINANCE_RATIO_def)

end
