(* ===== verification/Document_Cache.thy ===== *)
theory Document_Cache
  imports Resolver_Cache
begin

text \<open>
  The caches of extracted texts (\<^verbatim>\<open>paper_text.rs\<close>, \<^verbatim>\<open>paper_tex_source.rs\<close>): a document per identifier, with the
  instant it was fetched and a time to live, written best-effort with one \<^verbatim>\<open>std::fs::write\<close>.  The encoding of an
  entry is a parameter.  What both caches promise their clients is the locale \<open>document_cache\<close>.
\<close>

record 'a doc_entry =
  de_schema_version :: string
  de_fetched_at :: string
  de_ttl_seconds :: int
  de_inner :: 'a

record 'a doc_codec =
  entry_json :: "'a doc_entry \<Rightarrow> string option"
  json_entry :: "string \<Rightarrow> 'a doc_entry option"

text \<open>\<^verbatim>\<open>std::fs::write\<close> may fail, and leave a part of the bytes.\<close>

definition fs_write :: "string option option \<Rightarrow> string \<Rightarrow> string \<Rightarrow> fs \<Rightarrow> fs" where
  "fs_write failure path bytes files = (case failure of
     None \<Rightarrow> AList.update path (Bytes bytes) files
   | Some None \<Rightarrow> files
   | Some (Some part) \<Rightarrow> AList.update path (Bytes part) files)"

definition file_bytes :: "cache_env \<Rightarrow> fs \<Rightarrow> string \<Rightarrow> string option" where
  "file_bytes cenv files path = (case map_of files path of
     None \<Rightarrow> None | Some (Bytes b) \<Rightarrow> Some b | Some (Doc d) \<Rightarrow> Some (doc_text cenv d))"

definition document_entry :: "cache_env \<Rightarrow> string \<Rightarrow> int \<Rightarrow> int \<Rightarrow> 'a \<Rightarrow> 'a doc_entry" where
  "document_entry cenv schema days now a =
     \<lparr> de_schema_version = schema, de_fetched_at = to_rfc3339 cenv now, de_ttl_seconds = days * 86400, de_inner = a \<rparr>"

definition write_document ::
  "cache_env \<Rightarrow> 'a doc_codec \<Rightarrow> (effect list \<Rightarrow> string option option) \<Rightarrow> string \<Rightarrow> int \<Rightarrow> string \<Rightarrow> 'a \<Rightarrow> unit act" where
  "write_document cenv cd io schema days path a w =
     (case entry_json cd (document_entry cenv schema days (utc_now cenv (effects w)) a) of
        None \<Rightarrow> (w, Ok ())
      | Some bytes \<Rightarrow>
          if mkdir_fails cenv (effects w) then (w, Ok ())
          else (w\<lparr>w_files := fs_write (io (effects w)) path bytes (w_files w)\<rparr>, Ok ()))"

subsection \<open>Reading through a cache\<close>

definition cached :: "'a option act \<Rightarrow> ('a \<Rightarrow> unit act) \<Rightarrow> 'a act \<Rightarrow> 'a act" where
  "cached rd wr m = and_then rd (\<lambda>hit. case hit of
     Some a \<Rightarrow> return_ok a
   | None \<Rightarrow> and_then m (\<lambda>a. and_then (wr a) (\<lambda>_. return_ok a)))"

text \<open>
  A read changes nothing, a write causes no effect and never fails its client, and what was written is read back
  in any later world that has the same file and in which it is \<open>fresh\<close>.
\<close>

locale document_cache =
  fixes rd :: "'a option act" and wr :: "'a \<Rightarrow> unit act" and path :: string
    and fresh :: "'a \<Rightarrow> world \<Rightarrow> world \<Rightarrow> bool"
  assumes read_only: "rd w = (w', r) \<Longrightarrow> w' = w"
    and write_silent: "wr a w = (w', q) \<Longrightarrow> q = Ok () \<and> effects w' = effects w"
    and read_back: "wr a w = (w1, Ok ()) \<Longrightarrow> fresh a w w2 \<Longrightarrow> map_of (w_files w2) path = map_of (w_files w1) path
      \<Longrightarrow> rd w2 = (w2, Ok (Some a))"
begin

lemma cached_miss:
  assumes "cached rd wr m w = (w1, Ok a)" and "rd w = (w, Ok None)"
  obtains v where "m w = (v, Ok a)" and "wr a v = (w1, Ok ())" and "effects w1 = effects v"
proof -
  from assms obtain v where v: "m w = (v, Ok a)" "wr a v = (w1, Ok ())"
    by (auto simp: cached_def and_then_Ok return_ok_Ok)
  with write_silent that show thesis by blast
qed

lemma answered_again:
  assumes "cached rd wr m w = (w1, Ok a)" and "rd w = (w, Ok None)"
    and "\<And>v. m w = (v, Ok a) \<Longrightarrow> fresh a v w2" and "map_of (w_files w2) path = map_of (w_files w1) path"
  shows "cached rd wr m' w2 = (w2, Ok a)"
proof -
  from assms(1,2) obtain v where v: "m w = (v, Ok a)" "wr a v = (w1, Ok ())" by (rule cached_miss)
  from read_back [OF v(2) assms(3) [OF v(1)] assms(4)] show ?thesis
    by (simp add: cached_def and_then_def return_ok_def)
qed

end

text \<open>A read answers as long as the crates give back what they were given and the time to live has not passed.\<close>

definition document_fresh ::
  "cache_env \<Rightarrow> 'a doc_codec \<Rightarrow> (effect list \<Rightarrow> string option option) \<Rightarrow> string \<Rightarrow> int \<Rightarrow> 'a \<Rightarrow> world \<Rightarrow> world \<Rightarrow> bool" where
  "document_fresh cenv cd io schema days a w w2 \<longleftrightarrow>
     (let now = utc_now cenv (effects w); entry = document_entry cenv schema days now a in
      \<not> mkdir_fails cenv (effects w) \<and> io (effects w) = None
      \<and> (\<exists>t. entry_json cd entry = Some t \<and> is_utf8 t \<and> json_entry cd t = Some entry)
      \<and> parse_rfc3339 cenv (to_rfc3339 cenv now) = Some now
      \<and> utc_now cenv (effects w2) \<le> now + days * 86400 * 10 ^ 9)"

lemma write_document_silent:
  "write_document cenv cd io schema days path a w = (w', r) \<Longrightarrow> r = Ok () \<and> effects w' = effects w"
  by (auto simp: write_document_def split: option.splits if_splits)

lemma written_document:
  assumes "write_document cenv cd io schema days path a w = (w1, Ok ())"
    and "document_fresh cenv cd io schema days a w w2" and "map_of (w_files w2) path = map_of (w_files w1) path"
  shows "\<exists>t. read_text cenv (w_files w2) path = Some t \<and> file_bytes cenv (w_files w2) path = Some t
    \<and> json_entry cd t = Some (document_entry cenv schema days (utc_now cenv (effects w)) a)"
  using assms
  by (auto simp: write_document_def document_fresh_def Let_def fs_write_def read_text_def file_bytes_def update_conv')

end
