(* ===== verification/Paper_Text.thy ===== *)
theory Paper_Text
  imports Document_Cache Bibliography Resolve_Safety
begin

text \<open>
  The text of a paper from ar5iv (\<^verbatim>\<open>crates/doiget-core/src/paper_text.rs\<close>): the reader of its XHTML, the cap on
  the characters returned, the cache, and the fetch.  The XML reader is a parameter (\<open>tx_html\<close>): it yields the
  events of a body, with the text of a \<open>HText\<close> unescaped (None when that fails) and its margins trimmed.
\<close>

subsection \<open>Texts\<close>

datatype text_source = Ar5iv

record text_section =
  ts_heading :: "string option"
  ts_text :: string

record paper_text_t =
  pt_arxiv_id :: string
  pt_source :: text_source
  pt_title :: "string option"
  pt_sections :: "text_section list"
  pt_char_count :: nat
  pt_truncated :: bool
  pt_retrieved_from :: string

definition char_count :: "string \<Rightarrow> nat" where
  "char_count s = length (utf8_chars s)"

definition cut_chars :: "nat \<Rightarrow> string \<Rightarrow> string" where
  "cut_chars n s = concat (take n (utf8_chars s))"

text \<open>The sections within a cap, the characters they use, and whether something was left out.\<close>

fun cap_sections :: "nat \<Rightarrow> nat \<Rightarrow> text_section list \<Rightarrow> text_section list \<times> nat \<times> bool" where
  "cap_sections most used [] = ([], used, False)"
| "cap_sections most used (sec # ss) =
     (if most \<le> used then ([], used, True)
      else let remaining = most - used; len = char_count (ts_text sec) in
        if len \<le> remaining
        then (case cap_sections most (used + len) ss of (out, n, short) \<Rightarrow> (sec # out, n, short))
        else ([sec\<lparr>ts_text := cut_chars remaining (ts_text sec)\<rparr>], used + remaining, True))"

definition apply_max_chars :: "paper_text_t \<Rightarrow> nat option \<Rightarrow> paper_text_t" where
  "apply_max_chars full max_chars = (case max_chars of
     None \<Rightarrow> full
   | Some most \<Rightarrow> (case cap_sections most 0 (pt_sections full) of (out, used, short) \<Rightarrow>
       full\<lparr>pt_sections := out, pt_char_count := used, pt_truncated := short\<rparr>))"

subsection \<open>The reader\<close>

datatype html_event =
    HStart string "(string \<times> string option) list"
  | HEmpty string "(string \<times> string option) list"
  | HText "string option"
  | HEnd string
  | HEof
  | HError
  | HOther

definition html_local_name :: "string \<Rightarrow> string" where
  "html_local_name qname = (case rsplit_once CHR '':'' qname of Some (_, x) \<Rightarrow> x | None \<Rightarrow> qname)"

definition is_skip_element :: "string \<Rightarrow> bool" where
  "is_skip_element n \<longleftrightarrow> n \<in> {''script'', ''style'', ''math''}"

definition heading_level :: "string \<Rightarrow> nat option" where
  "heading_level n = (if n = ''h1'' then Some 1 else if n = ''h2'' then Some 2 else if n = ''h3'' then Some 3
     else if n = ''h4'' then Some 4 else if n = ''h5'' then Some 5 else if n = ''h6'' then Some 6 else None)"

definition extract_alttext :: "(string \<times> string option) list \<Rightarrow> string option" where
  "extract_alttext attrs = find_map (\<lambda>(k, v). if k = ''alttext''
     then (case v of Some s \<Rightarrow> if str_trim s \<noteq> [] then Some s else None | None \<Rightarrow> None) else None) attrs"

definition normalize_text :: "string \<Rightarrow> string" where
  "normalize_text s = join_with '' '' (split_whitespace s)"

record html_state =
  hs_sections :: "text_section list"
  hs_cur_heading :: "string option"
  hs_cur_text :: string
  hs_title :: "string option"
  hs_title_buf :: string
  hs_in_title :: bool
  hs_skip :: nat
  hs_in_heading :: nat
  hs_heading_buf :: string

definition html_init :: html_state where
  "html_init = \<lparr> hs_sections = [], hs_cur_heading = None, hs_cur_text = [], hs_title = None, hs_title_buf = [],
     hs_in_title = False, hs_skip = 0, hs_in_heading = 0, hs_heading_buf = [] \<rparr>"

definition push_target :: "string \<Rightarrow> html_state \<Rightarrow> html_state" where
  "push_target frag st =
     (if hs_in_title st then st\<lparr>hs_title_buf := hs_title_buf st @ frag\<rparr>
      else if 0 < hs_in_heading st then st\<lparr>hs_heading_buf := hs_heading_buf st @ frag\<rparr>
      else st\<lparr>hs_cur_text := hs_cur_text st @ frag\<rparr>)"

definition flush_section :: "html_state \<Rightarrow> html_state" where
  "flush_section st =
     (let body = normalize_text (hs_cur_text st) in
      st\<lparr>hs_sections := hs_sections st @ (if body \<noteq> [] \<or> hs_cur_heading st \<noteq> None
           then [\<lparr> ts_heading = hs_cur_heading st, ts_text = body \<rparr>] else []),
         hs_cur_text := []\<rparr>)"

definition push_math :: "(string \<times> string option) list \<Rightarrow> html_state \<Rightarrow> html_state" where
  "push_math attrs st = (case extract_alttext attrs of
     Some alt \<Rightarrow> push_target (CHR 0x5C # ''('' @ alt @ CHR 0x5C # '') '') st | None \<Rightarrow> st)"

text \<open>One event; None ends the walk.\<close>

fun html_step :: "html_state \<Rightarrow> html_event \<Rightarrow> html_state option" where
  "html_step st (HStart qname attrs) =
     (let n = html_local_name qname in Some (
      if is_skip_element n then
        (let st = (if hs_skip st = 0 \<and> n = ''math'' then push_math attrs st else st) in st\<lparr>hs_skip := hs_skip st + 1\<rparr>)
      else case heading_level n of
        Some level \<Rightarrow> (flush_section st)\<lparr>hs_in_heading := level, hs_heading_buf := []\<rparr>
      | None \<Rightarrow> if n = ''title'' \<and> hs_title st = None then st\<lparr>hs_in_title := True, hs_title_buf := []\<rparr> else st))"
| "html_step st (HEmpty qname attrs) =
     Some (if hs_skip st = 0 \<and> html_local_name qname = ''math'' then push_math attrs st else st)"
| "html_step st (HText t) = Some (case t of
     Some s \<Rightarrow> if s \<noteq> [] \<and> hs_skip st = 0 then push_target (s @ '' '') st else st
   | None \<Rightarrow> st)"
| "html_step st (HEnd qname) =
     (let n = html_local_name qname in Some (
      if is_skip_element n then st\<lparr>hs_skip := hs_skip st - 1\<rparr>
      else if heading_level n \<noteq> None \<and> 0 < hs_in_heading st then
        st\<lparr>hs_cur_heading := nonempty (Some (normalize_text (hs_heading_buf st))), hs_in_heading := 0, hs_cur_text := []\<rparr>
      else if n = ''title'' \<and> hs_in_title st then
        st\<lparr>hs_in_title := False, hs_title := opt_else (nonempty (Some (normalize_text (hs_title_buf st)))) (hs_title st)\<rparr>
      else st))"
| "html_step st HEof = None"
| "html_step st HError = None"
| "html_step st HOther = Some st"

fun html_walk :: "html_state \<Rightarrow> html_event list \<Rightarrow> html_state" where
  "html_walk st [] = st"
| "html_walk st (e # es) = (case html_step st e of None \<Rightarrow> st | Some st \<Rightarrow> html_walk st es)"

definition parse_ar5iv :: "html_event list \<Rightarrow> string option \<times> text_section list" where
  "parse_ar5iv es = (let st = flush_section (html_walk html_init es) in (hs_title st, hs_sections st))"

subsection \<open>The fetch\<close>

record text_env =
  tx_fetch :: fetch_env
  tx_cache :: cache_env
  tx_codec :: "paper_text_t doc_codec"
  tx_write :: "effect list \<Rightarrow> string option option"
  tx_html :: "string \<Rightarrow> html_event list"

definition TEXT_CACHE_TTL_DAYS :: int where "TEXT_CACHE_TTL_DAYS = 30"
definition TEXT_CACHE_SCHEMA_VERSION :: string where "TEXT_CACHE_SCHEMA_VERSION = ''1.0''"

definition text_cache_file :: "fetch_env \<Rightarrow> string \<Rightarrow> arxiv_id \<Rightarrow> string" where
  "text_cache_file env root i =
     path_join (path_join root ''text'') (safekey_as_str (ref_safekey (sha env) (hx env) (RefArxiv i)) @ ''.json'')"

definition text_cache_read_at :: "text_env \<Rightarrow> string \<Rightarrow> arxiv_id \<Rightarrow> int \<Rightarrow> fs \<Rightarrow> paper_text_t option res" where
  "text_cache_read_at tx root i now files =
     (case Option.bind (read_text (tx_cache tx) files (text_cache_file (tx_fetch tx) root i)) (json_entry (tx_codec tx)) of
        None \<Rightarrow> Ok None
      | Some entry \<Rightarrow> (case parse_rfc3339 (tx_cache tx) (de_fetched_at entry) of
          None \<Rightarrow> Ok None
        | Some fetched \<Rightarrow> (case plus_seconds (tx_cache tx) fetched (de_ttl_seconds entry) of
            None \<Rightarrow> Panic
          | Some expiry \<Rightarrow> Ok (if expiry < now then None else Some (de_inner entry)))))"

definition text_cache_read :: "text_env \<Rightarrow> string \<Rightarrow> arxiv_id \<Rightarrow> paper_text_t option act" where
  "text_cache_read tx root i w = (w, text_cache_read_at tx root i (utc_now (tx_cache tx) (effects w)) (w_files w))"

definition text_cache_write :: "text_env \<Rightarrow> string \<Rightarrow> arxiv_id \<Rightarrow> paper_text_t \<Rightarrow> unit act" where
  "text_cache_write tx root i = write_document (tx_cache tx) (tx_codec tx) (tx_write tx) TEXT_CACHE_SCHEMA_VERSION
     TEXT_CACHE_TTL_DAYS (text_cache_file (tx_fetch tx) root i)"

definition ar5iv_url :: "fetch_env \<Rightarrow> url \<Rightarrow> arxiv_id \<Rightarrow> url option" where
  "ar5iv_url env base i = url_join env base (''/html/'' @ arxiv_as_str i)"

definition fetch_and_parse :: "text_env \<Rightarrow> url \<Rightarrow> arxiv_id \<Rightarrow> paper_text_t act" where
  "fetch_and_parse tx base i =
     (let env = tx_fetch tx in
      and_then (acquire ''ar5iv'') (\<lambda>_.
      and_then (ok_or (SourceSchema ''ar5iv URL construction failed'') (ar5iv_url env base i)) (\<lambda>u.
      and_then (fetch_bytes env ''ar5iv'' u) (\<lambda>(body, final).
      case parse_ar5iv (tx_html tx body) of (heading, sections) \<Rightarrow>
        let n = sum_list (map (\<lambda>sec. char_count (ts_text sec)) sections) in
        if n = 0 then throw (FETextUnavailable i)
        else and_then (log_row_act env (fetch_row env ''ar5iv'' Oa (RefArxiv i) (length body) (Some ''arxiv-default''))) (\<lambda>_.
          return_ok \<lparr> pt_arxiv_id = arxiv_as_str i, pt_source = Ar5iv, pt_title = heading, pt_sections = sections,
            pt_char_count = n, pt_truncated = False, pt_retrieved_from = render env final \<rparr>)))))"

definition paper_text :: "text_env \<Rightarrow> string option \<Rightarrow> url \<Rightarrow> arxiv_id \<Rightarrow> nat option \<Rightarrow> paper_text_t act" where
  "paper_text tx cache_root base i max_chars =
     and_then (case cache_root of
         None \<Rightarrow> fetch_and_parse tx base i
       | Some root \<Rightarrow> cached (text_cache_read tx root i) (text_cache_write tx root i) (fetch_and_parse tx base i))
       (\<lambda>full. return_ok (apply_max_chars full max_chars))"

subsection \<open>The cap\<close>

lemma utf8_chars_cut: "utf8_chars (cut_chars n s) = take n (utf8_chars s)"
  unfolding cut_chars_def using char_shaped_segment [OF utf8_chars_shape, of n 0 s]
  by (simp add: utf8_chars_concat)

definition chars_of :: "text_section list \<Rightarrow> string list" where
  "chars_of ss = concat (map (\<lambda>sec. utf8_chars (ts_text sec)) ss)"

lemma chars_of_simps [simp]:
  "chars_of [] = []" "chars_of (sec # ss) = utf8_chars (ts_text sec) @ chars_of ss"
  by (simp_all add: chars_of_def)

lemma cap_sections_facts:
  assumes "cap_sections most used ss = (out, n, short)" and "used \<le> most"
  shows "chars_of out = take (most - used) (chars_of ss) \<and> n = used + length (chars_of out)
    \<and> (\<exists>k. map ts_heading out = take k (map ts_heading ss)) \<and> (short \<longleftrightarrow> out \<noteq> ss)"
  using assms
proof (induction most used ss arbitrary: out n short rule: cap_sections.induct)
  case (1 most used)
  then show ?case by simp
next
  case (2 most used sec ss)
  show ?case
  proof (cases "used < most \<and> char_count (ts_text sec) \<le> most - used")
    case True
    then obtain out' where rec: "cap_sections most (used + char_count (ts_text sec)) ss = (out', n, short)" "out = sec # out'"
      using 2(2) by (auto simp: Let_def split: prod.splits)
    from True have "used + char_count (ts_text sec) \<le> most" by linarith
    with 2(1) [OF _ refl refl _ rec(1)] True obtain k where
        "chars_of out' = take (most - (used + char_count (ts_text sec))) (chars_of ss)"
        "n = used + char_count (ts_text sec) + length (chars_of out')"
        "map ts_heading out' = take k (map ts_heading ss)" "short \<longleftrightarrow> out' \<noteq> ss"
      by fastforce
    with rec(2) True show ?thesis
      by (auto simp: char_count_def intro!: exI [of _ "Suc k"])
  next
    case False
    show ?thesis
    proof (cases "most \<le> used")
      case True
      with 2(2,3) show ?thesis by (auto intro: exI [of _ 0])
    next
      case within: False
      let ?sec = "sec\<lparr>ts_text := cut_chars (most - used) (ts_text sec)\<rparr>"
      from False within have over: "most - used < length (utf8_chars (ts_text sec))" by (simp add: char_count_def)
      with 2(2) within have out: "out = [?sec]" "n = most" "short"
        by (auto simp: Let_def char_count_def)
      from over have "length (utf8_chars (ts_text ?sec)) < length (utf8_chars (ts_text sec))" by (simp add: utf8_chars_cut)
      then have "?sec \<noteq> sec" by (metis less_irrefl)
      moreover have "map ts_heading out = take 1 (map ts_heading (sec # ss))" by (simp add: out)
      ultimately show ?thesis using over out within 2(3) by (intro conjI exI [of _ 1]) (auto simp: utf8_chars_cut)
    qed
  qed
qed

text \<open>A cap returns the beginning of the text.  The characters of the sections returned are exactly the first ones of
  the whole text, as many as the cap allows, under the headings of the first sections; their count is the one
  reported; and the text is flagged as truncated exactly when a section is missing or shortened.\<close>

theorem max_chars_is_a_prefix:
  "let out = apply_max_chars full (Some most) in
     chars_of (pt_sections out) = take most (chars_of (pt_sections full))
   \<and> pt_char_count out = length (chars_of (pt_sections out)) \<and> pt_char_count out \<le> most
   \<and> (\<exists>k. map ts_heading (pt_sections out) = take k (map ts_heading (pt_sections full)))
   \<and> pt_truncated out = (pt_sections out \<noteq> pt_sections full)"
  using cap_sections_facts [of most 0 "pt_sections full"]
  by (auto simp: apply_max_chars_def Let_def split: prod.splits)

subsection \<open>A page and its events\<close>

text \<open>
  A page as LaTeXML writes it: words, formulas (with their source and the text of their subtree), scripts, and tags
  that carry no text of their own, under headings.
\<close>

datatype page_item =
    Words string
  | Formula string "string list"
  | Script "string list"
  | OpenTag string "(string \<times> string option) list"
  | CloseTag string

definition plain_tag :: "string \<Rightarrow> bool" where
  "plain_tag q \<longleftrightarrow> \<not> is_skip_element (html_local_name q) \<and> heading_level (html_local_name q) = None \<and> html_local_name q \<noteq> ''title''"

fun wf_item :: "page_item \<Rightarrow> bool" where
  "wf_item (OpenTag q attrs) = plain_tag q"
| "wf_item (CloseTag q) = plain_tag q"
| "wf_item _ = True"

fun item_events :: "page_item \<Rightarrow> html_event list" where
  "item_events (Words s) = [HText (Some s)]"
| "item_events (Formula alt ws) = HStart ''math'' [(''alttext'', Some alt)] # map (\<lambda>t. HText (Some t)) ws @ [HEnd ''math'']"
| "item_events (Script ws) = HStart ''script'' [] # map (\<lambda>t. HText (Some t)) ws @ [HEnd ''script'']"
| "item_events (OpenTag q attrs) = [HStart q attrs]"
| "item_events (CloseTag q) = [HEnd q]"

fun item_text :: "page_item \<Rightarrow> string" where
  "item_text (Words s) = (if s = [] then [] else s @ '' '')"
| "item_text (Formula alt ws) = (if str_trim alt = [] then [] else CHR 0x5C # ''('' @ alt @ CHR 0x5C # '') '')"
| "item_text _ = []"

definition items_text :: "page_item list \<Rightarrow> string" where
  "items_text xs = normalize_text (concat (map item_text xs))"

record page_section =
  pg_level :: string
  pg_heading :: "page_item list"
  pg_body :: "page_item list"

record page =
  pg_title :: "page_item list"
  pg_lead :: "page_item list"
  pg_sections :: "page_section list"

definition items_events :: "page_item list \<Rightarrow> html_event list" where
  "items_events xs = concat (map item_events xs)"

definition section_events :: "page_section \<Rightarrow> html_event list" where
  "section_events sec = HStart (pg_level sec) [] # items_events (pg_heading sec) @ HEnd (pg_level sec) # items_events (pg_body sec)"

definition page_events :: "page \<Rightarrow> html_event list" where
  "page_events pg = HStart ''title'' [] # items_events (pg_title pg) @ HEnd ''title'' # items_events (pg_lead pg)
     @ concat (map section_events (pg_sections pg)) @ [HEof]"

definition section_of :: "string option \<Rightarrow> string \<Rightarrow> text_section list" where
  "section_of heading body =
     (if body \<noteq> [] \<or> heading \<noteq> None then [\<lparr> ts_heading = heading, ts_text = body \<rparr>] else [])"

definition page_text :: "page \<Rightarrow> string option \<times> text_section list" where
  "page_text pg = (nonempty (Some (items_text (pg_title pg))),
     section_of None (items_text (pg_lead pg))
     @ concat (map (\<lambda>sec. section_of (nonempty (Some (items_text (pg_heading sec)))) (items_text (pg_body sec))) (pg_sections pg)))"

definition wf_page :: "page \<Rightarrow> bool" where
  "wf_page pg \<longleftrightarrow> list_all wf_item (pg_title pg) \<and> list_all wf_item (pg_lead pg)
     \<and> list_all (\<lambda>sec. pg_level sec \<in> {''h1'', ''h2'', ''h3'', ''h4'', ''h5'', ''h6''}
         \<and> list_all wf_item (pg_heading sec) \<and> list_all wf_item (pg_body sec)) (pg_sections pg)"

lemma push_target_simps [simp]:
  "hs_skip (push_target f st) = hs_skip st" "push_target [] st = st"
  "push_target g (push_target f st) = push_target (f @ g) st"
  "hs_skip_update k (push_target f st) = push_target f (hs_skip_update k st)"
  by (auto simp: push_target_def)

lemma walk_skipped:
  "0 < hs_skip st \<Longrightarrow> html_walk st (map (\<lambda>t. HText (Some t)) ws @ es) = html_walk st es"
  by (induction ws) auto

lemma local_names [simp]:
  "html_local_name ''math'' = ''math''" "html_local_name ''script'' = ''script''" "html_local_name ''title'' = ''title''"
  "q \<in> {''h1'', ''h2'', ''h3'', ''h4'', ''h5'', ''h6''} \<Longrightarrow> html_local_name q = q"
  by (auto simp: html_local_name_def rsplit_once_def)

lemma walk_item:
  assumes "wf_item x" and "hs_skip st = 0"
  shows "html_walk st (item_events x @ es) = html_walk (push_target (item_text x) st) es"
proof (cases x)
  have same: "hs_skip_update (\<lambda>_. 0) st = st" using assms(2) by simp
  case (Formula alt ws)
  show ?thesis using Formula assms(2)
    by (simp add: same walk_skipped is_skip_element_def push_math_def extract_alttext_def)
next
  have same: "hs_skip_update (\<lambda>_. 0) st = st" using assms(2) by simp
  case (Script ws)
  then show ?thesis using assms(2) by (simp add: same walk_skipped is_skip_element_def)
qed (use assms in \<open>auto simp: walk_skipped is_skip_element_def plain_tag_def Let_def\<close>)

lemma walk_items:
  assumes "list_all wf_item xs" and "hs_skip st = 0"
  shows "html_walk st (items_events xs @ es) = html_walk (push_target (concat (map item_text xs)) st) es"
  using assms by (induction xs arbitrary: st) (simp_all add: items_events_def walk_item)

definition section_start :: "text_section list \<Rightarrow> string option \<Rightarrow> string option \<Rightarrow> html_state \<Rightarrow> bool" where
  "section_start ss heading t st \<longleftrightarrow> hs_sections st = ss \<and> hs_cur_heading st = heading \<and> hs_title st = t
     \<and> hs_cur_text st = [] \<and> \<not> hs_in_title st \<and> hs_skip st = 0 \<and> hs_in_heading st = 0"

lemma flush_body:
  assumes "section_start ss heading t st"
  shows "hs_sections (flush_section (push_target (concat (map item_text xs)) st)) = ss @ section_of heading (items_text xs)"
    and "section_start (ss @ section_of heading (items_text xs)) heading t (flush_section (push_target (concat (map item_text xs)) st))"
  using assms by (auto simp: section_start_def flush_section_def push_target_def section_of_def items_text_def Let_def)

lemma walk_section:
  assumes "pg_level sec \<in> {''h1'', ''h2'', ''h3'', ''h4'', ''h5'', ''h6''}"
    and "list_all wf_item (pg_heading sec)" and "list_all wf_item xs" and "section_start ss heading t st"
  shows "\<exists>st'. html_walk (push_target (concat (map item_text xs)) st)
        (HStart (pg_level sec) [] # items_events (pg_heading sec) @ HEnd (pg_level sec) # es) = html_walk st' es
    \<and> section_start (ss @ section_of heading (items_text xs)) (nonempty (Some (items_text (pg_heading sec)))) t st'"
proof -
  let ?st = "flush_section (push_target (concat (map item_text xs)) st)"
  from assms(1) obtain level where level: "heading_level (pg_level sec) = Some level" "0 < level"
      "\<not> is_skip_element (pg_level sec)" "html_local_name (pg_level sec) = pg_level sec"
    by (auto simp: heading_level_def is_skip_element_def)
  note start = flush_body(2) [OF assms(4), of xs]
  let ?in = "?st\<lparr>hs_in_heading := level, hs_heading_buf := []\<rparr>"
  from start have skip: "hs_skip ?in = 0" by (simp add: section_start_def)
  let ?out = "(push_target (concat (map item_text (pg_heading sec))) ?in)
      \<lparr>hs_cur_heading := nonempty (Some (items_text (pg_heading sec))), hs_in_heading := 0, hs_cur_text := []\<rparr>"
  have "html_walk (push_target (concat (map item_text xs)) st)
      (HStart (pg_level sec) [] # items_events (pg_heading sec) @ HEnd (pg_level sec) # es) = html_walk ?out es"
    using level start walk_items [OF assms(2) skip, of "HEnd (pg_level sec) # es"]
    by (simp add: section_start_def push_target_def items_text_def)
  moreover from start level have "section_start (ss @ section_of heading (items_text xs))
      (nonempty (Some (items_text (pg_heading sec)))) t ?out"
    by (simp add: section_start_def push_target_def)
  ultimately show ?thesis by blast
qed

lemma walk_sections:
  assumes "list_all (\<lambda>sec. pg_level sec \<in> {''h1'', ''h2'', ''h3'', ''h4'', ''h5'', ''h6''}
         \<and> list_all wf_item (pg_heading sec) \<and> list_all wf_item (pg_body sec)) secs"
    and "list_all wf_item xs" and "section_start ss heading t st"
  shows "\<exists>st'. html_walk st (items_events xs @ concat (map section_events secs) @ [HEof]) = st'
    \<and> hs_title (flush_section st') = t
    \<and> hs_sections (flush_section st') = ss @ section_of heading (items_text xs)
      @ concat (map (\<lambda>sec. section_of (nonempty (Some (items_text (pg_heading sec)))) (items_text (pg_body sec))) secs)"
  using assms
proof (induction secs arbitrary: xs ss heading st)
  case Nil
  from Nil.prems(3) have "hs_skip st = 0" by (simp add: section_start_def)
  from walk_items [OF Nil.prems(2) this] flush_body [OF Nil.prems(3), of xs] show ?case by (simp add: section_start_def)
next
  case (Cons sec secs)
  let ?rest = "concat (map section_events secs) @ [HEof]"
  from Cons.prems(3) have "hs_skip st = 0" by (simp add: section_start_def)
  note items = walk_items [OF Cons.prems(2) this]
  from Cons.prems(1) have wf: "pg_level sec \<in> {''h1'', ''h2'', ''h3'', ''h4'', ''h5'', ''h6''}"
      "list_all wf_item (pg_heading sec)" "list_all wf_item (pg_body sec)" by simp_all
  from walk_section [OF wf(1,2) Cons.prems(2,3), of "items_events (pg_body sec) @ ?rest"] obtain st' where
      st': "html_walk (push_target (concat (map item_text xs)) st)
        (HStart (pg_level sec) [] # items_events (pg_heading sec) @ HEnd (pg_level sec) # items_events (pg_body sec) @ ?rest)
        = html_walk st' (items_events (pg_body sec) @ ?rest)"
      and start: "section_start (ss @ section_of heading (items_text xs)) (nonempty (Some (items_text (pg_heading sec)))) t st'"
    by blast
  have "html_walk st (items_events xs @ concat (map section_events (sec # secs)) @ [HEof])
      = html_walk st' (items_events (pg_body sec) @ ?rest)"
    using st' by (simp add: items section_events_def [of sec] del: html_walk.simps)
  with Cons.IH [OF _ wf(3) start] Cons.prems(1) show ?case by simp
qed


subsection \<open>Asking ar5iv once\<close>

abbreviation text_fresh :: "text_env \<Rightarrow> paper_text_t \<Rightarrow> world \<Rightarrow> world \<Rightarrow> bool" where
  "text_fresh tx full w w2 \<equiv> document_fresh (tx_cache tx) (tx_codec tx) (tx_write tx) TEXT_CACHE_SCHEMA_VERSION
     TEXT_CACHE_TTL_DAYS full w w2
   \<and> (let now = utc_now (tx_cache tx) (effects w) in
      plus_seconds (tx_cache tx) now (TEXT_CACHE_TTL_DAYS * 86400) = Some (now + TEXT_CACHE_TTL_DAYS * 86400 * 10 ^ 9))"

interpretation text_cache: document_cache "text_cache_read tx root i" "text_cache_write tx root i"
    "text_cache_file (tx_fetch tx) root i" "text_fresh tx" for tx root i
proof
  show "text_cache_read tx root i w = (w', r) \<Longrightarrow> w' = w" for w w' r by (simp add: text_cache_read_def)
  show "text_cache_write tx root i a w = (w', q) \<Longrightarrow> q = Ok () \<and> effects w' = effects w" for a w w' q
    unfolding text_cache_write_def by (rule write_document_silent)
next
  fix a w w1 w2
  assume wr: "text_cache_write tx root i a w = (w1, Ok ())" and fresh: "text_fresh tx a w w2"
    and kept: "map_of (w_files w2) (text_cache_file (tx_fetch tx) root i) = map_of (w_files w1) (text_cache_file (tx_fetch tx) root i)"
  from written_document [OF wr [unfolded text_cache_write_def] conjunct1 [OF fresh] kept] fresh
  show "text_cache_read tx root i w2 = (w2, Ok (Some a))"
    by (auto simp: text_cache_read_def text_cache_read_at_def document_entry_def document_fresh_def Let_def)
qed

text \<open>A text is fetched once.  When a text was not cached and is fetched, any later request for the same paper in the
  next thirty days, with whatever cap, is answered from the cache without any effect, with what the cap leaves of the
  same text, as long as the entry is still there and the crates give back what they were given.\<close>

theorem second_read_is_free:
  assumes "paper_text tx (Some root) base i max1 w = (w1, Ok out)" and "text_cache_read tx root i w = (w, Ok None)"
    and "\<And>v full. fetch_and_parse tx base i w = (v, Ok full) \<Longrightarrow> text_fresh tx full v w2"
    and "map_of (w_files w2) (text_cache_file (tx_fetch tx) root i) = map_of (w_files w1) (text_cache_file (tx_fetch tx) root i)"
  shows "\<exists>full. out = apply_max_chars full max1 \<and> paper_text tx (Some root) base i max2 w2 = (w2, Ok (apply_max_chars full max2))"
proof -
  from assms(1) obtain full where
      first: "cached (text_cache_read tx root i) (text_cache_write tx root i) (fetch_and_parse tx base i) w = (w1, Ok full)"
      and out: "out = apply_max_chars full max1"
    by (auto simp: paper_text_def and_then_Ok return_ok_Ok)
  from text_cache.answered_again [OF first assms(2) assms(3) assms(4)]
  have "cached (text_cache_read tx root i) (text_cache_write tx root i) (fetch_and_parse tx base i) w2 = (w2, Ok full)" .
  with out show ?thesis by (auto simp: paper_text_def and_then_def return_ok_def)
qed

lemma fetch_and_parse_reads: "performs (\<lambda>e. own_effect ''ar5iv'' e \<and> reading_effect e) (fetch_and_parse tx base i)"
  unfolding fetch_and_parse_def Let_def
  by (intro performs_intros) (simp_all add: own_effect_def fetch_row_def)

subsection \<open>A run\<close>

definition demo_page :: page where
  "demo_page = \<lparr> pg_title = [Words ''On  spins''], pg_lead = [Script [''x()'']],
     pg_sections = [\<lparr> pg_level = ''h2'', pg_heading = [Words ''One''],
       pg_body = [OpenTag ''p'' [], Words ''Let'', Formula ''J>0'' [''J''], Words ''be'', CloseTag ''p''] \<rparr>] \<rparr>"

lemma demo_page_wf: "wf_page demo_page"
  by code_simp


definition demo_full :: paper_text_t where
  "demo_full = \<lparr> pt_arxiv_id = ''2401.12345'', pt_source = Ar5iv, pt_title = Some ''On spins'',
     pt_sections = [\<lparr> ts_heading = Some ''One'', ts_text = ''Let '' @ CHR 0x5C # ''(J>0'' @ CHR 0x5C # '') be'' \<rparr>],
     pt_char_count = 14, pt_truncated = False, pt_retrieved_from = ''/html/2401.12345'' \<rparr>"

definition demo_text :: text_env where
  "demo_text = \<lparr> tx_fetch = demo_fetch_env, tx_cache = demo_cache,
     tx_codec = \<lparr> entry_json = (\<lambda>_. Some ''entry''), json_entry = (\<lambda>_. Some
       \<lparr> de_schema_version = ''1.0'', de_fetched_at = ''iii'', de_ttl_seconds = 2592000, de_inner = demo_full \<rparr>) \<rparr>,
     tx_write = (\<lambda>_. None), tx_html = (\<lambda>_. page_events demo_page) \<rparr>"

definition ar5iv_base :: url where
  "ar5iv_base = demo_url ''https'' ''arxiv.org''"

definition text_after :: world where
  "text_after = fst (paper_text demo_text (Some ''c'') ar5iv_base (ArxivId ''2401.12345'') None demo_world)"

lemma demo_reads:
  "snd (paper_text demo_text (Some ''c'') ar5iv_base (ArxivId ''2401.12345'') None demo_world) = Ok demo_full
   \<and> length (effects text_after) = 3
   \<and> snd (fetch_and_parse demo_text ar5iv_base (ArxivId ''2401.12345'') demo_world) = Ok demo_full
   \<and> length (effects (fst (fetch_and_parse demo_text ar5iv_base (ArxivId ''2401.12345'') demo_world))) = 3
   \<and> text_cache_read demo_text ''c'' (ArxivId ''2401.12345'') demo_world = (demo_world, Ok None)
   \<and> document_entry demo_cache ''1.0'' 30 3 demo_full
      = \<lparr> de_schema_version = ''1.0'', de_fetched_at = ''iii'', de_ttl_seconds = 2592000, de_inner = demo_full \<rparr>
   \<and> is_utf8 ''entry'' \<and> chrono_plus 3 2592000 = Some 2592000000000003"
  by code_simp

theorem second_read_is_free_witness:
  "paper_text demo_text (Some ''c'') ar5iv_base (ArxivId ''2401.12345'') (Some 3) text_after
     = (text_after, Ok (apply_max_chars demo_full (Some 3)))"
proof -
  have first: "paper_text demo_text (Some ''c'') ar5iv_base (ArxivId ''2401.12345'') None demo_world = (text_after, Ok demo_full)"
    using demo_reads by (simp add: text_after_def prod_eq_iff)
  have cenv: "tx_cache demo_text = demo_cache" by (simp add: demo_text_def)
  have "text_fresh demo_text full v text_after"
    if "fetch_and_parse demo_text ar5iv_base (ArxivId ''2401.12345'') demo_world = (v, Ok full)" for v full
  proof -
    from that demo_reads have "full = demo_full" "length (effects v) = 3" by simp_all
    moreover have "length (effects text_after) = 3" using demo_reads by blast
    ultimately show ?thesis
      using demo_reads
      by (simp add: document_fresh_def Let_def demo_text_def TEXT_CACHE_TTL_DAYS_def TEXT_CACHE_SCHEMA_VERSION_def)
        (simp add: demo_cache_def)
  qed
  moreover have "text_cache_read demo_text ''c'' (ArxivId ''2401.12345'') demo_world = (demo_world, Ok None)"
    using demo_reads by blast
  ultimately obtain full where "demo_full = apply_max_chars full None"
      "paper_text demo_text (Some ''c'') ar5iv_base (ArxivId ''2401.12345'') (Some 3) text_after
        = (text_after, Ok (apply_max_chars full (Some 3)))"
    using second_read_is_free [OF first, of text_after "Some 3"] by blast
  then show ?thesis by (simp add: apply_max_chars_def)
qed

subsection \<open>Where it falls short\<close>

text \<open>A heading that is not closed takes all the text that follows with it.\<close>

theorem unclosed_heading_loses_the_text:
  assumes "list_all wf_item xs"
  shows "parse_ar5iv (HStart ''h2'' [] # items_events xs @ [HEof]) = (None, [])"
proof -
  let ?in = "html_init\<lparr>hs_in_heading := 2\<rparr>"
  have "html_walk html_init (HStart ''h2'' [] # items_events xs @ [HEof]) = push_target (concat (map item_text xs)) ?in"
    using walk_items [OF assms, of ?in "[HEof]"]
    by (simp add: is_skip_element_def heading_level_def html_init_def flush_section_def normalize_text_def
        split_whitespace_def split_where.simps)
  then show ?thesis
    by (simp add: parse_ar5iv_def push_target_def html_init_def flush_section_def normalize_text_def
        split_whitespace_def split_where.simps)
qed

text \<open>An entity is an event of its own, which the reader passes over.\<close>

theorem entity_vanishes:
  "parse_ar5iv [HText (Some ''R''), HOther, HText (Some ''D''), HEof] = (None, [\<lparr> ts_heading = None, ts_text = ''R D'' \<rparr>])"
  by code_simp

text \<open>The entry of another version of the cache is read like one of this.\<close>

theorem schema_version_is_not_read:
  assumes "read_text (tx_cache tx) files (text_cache_file (tx_fetch tx) root i) = Some t"
    and "json_entry (tx_codec tx) t = Some (entry\<lparr>de_schema_version := v\<rparr>)"
    and "parse_rfc3339 (tx_cache tx) (de_fetched_at entry) = Some fetched"
    and "plus_seconds (tx_cache tx) fetched (de_ttl_seconds entry) = Some expiry" and "now \<le> expiry"
  shows "text_cache_read_at tx root i now files = Ok (Some (de_inner entry))"
  using assms by (simp add: text_cache_read_at_def)

end
