(* ===== verification/Tex_Source.thy ===== *)
theory Tex_Source
  imports Paper_Text "HOL-Library.Multiset"
begin

text \<open>
  The source of an arXiv submission (\<^verbatim>\<open>crates/doiget-core/src/paper_tex_source.rs\<close>): the kind of an answer, the
  main file of an archive, the bundle of its files, the guard on their paths, the cache and the two fetches.  The
  crates \<^verbatim>\<open>flate2\<close> and \<^verbatim>\<open>tar\<close> are parameters: \<open>gunzip\<close> gives what a stream decodes to before it ends or fails, and
  \<open>untar\<close> the entries of an archive, each of which may be unreadable.
\<close>

subsection \<open>Archives\<close>

record tar_entry =
  te_is_file :: bool
  te_path :: "string option"
  te_bytes :: "string option"

record tex_source_t =
  xs_arxiv_id :: string
  xs_main_file :: "string option"
  xs_tex_source :: string
  xs_char_count :: nat
  xs_truncated :: bool
  xs_retrieved_from :: string

record tex_env =
  sx_fetch :: fetch_env
  sx_cache :: cache_env
  sx_codec :: "tex_source_t doc_codec"
  sx_write :: "effect list \<Rightarrow> string option option"
  duration_seconds :: "int \<Rightarrow> int option"
  gunzip :: "string \<Rightarrow> string \<times> bool"
  untar :: "string \<Rightarrow> tar_entry option list option"

datatype src_payload = PdfOnly | SingleFile string | Tar string

definition SRC_MAX_DECOMPRESSED_BYTES :: nat where
  "SRC_MAX_DECOMPRESSED_BYTES = 500000000"

text \<open>The output of a decoder, read up to one byte beyond a cap.\<close>

definition decompress :: "(string \<Rightarrow> string \<times> bool) \<Rightarrow> nat option \<Rightarrow> string \<Rightarrow> fetch_error + string" where
  "decompress gz most bytes = (case gz bytes of (out, ok) \<Rightarrow> (case most of
     Some n \<Rightarrow>
       if length (take (n + 1) out) \<le> n \<and> \<not> ok then Inl (SourceSchema ''gzip decompress of arXiv src failed'')
       else if n < length (take (n + 1) out) then Inl (SourceSchema ''arXiv src decompressed size exceeds the cap'')
       else Inr (take (n + 1) out)
   | None \<Rightarrow> if ok then Inr out else Inl (SourceSchema ''gzip decompress of arXiv src failed'')))"

definition classify_src :: "(string \<Rightarrow> string \<times> bool) \<Rightarrow> string \<Rightarrow> nat option \<Rightarrow> fetch_error + src_payload" where
  "classify_src gz bytes most =
     (if starts_with bytes ''%PDF-'' then Inr PdfOnly
      else if \<not> starts_with bytes [CHR 0x1F, CHR 0x8B] then Inr (SingleFile bytes)
      else (case decompress gz most bytes of
          Inl e \<Rightarrow> Inl e
        | Inr d \<Rightarrow> Inr (if 262 < length d \<and> take 5 (drop 257 d) = ''ustar'' then Tar d else SingleFile d)))"

subsection \<open>Paths\<close>

definition entry_segments :: "string \<Rightarrow> string list" where
  "entry_segments raw = filter (\<lambda>s. s \<noteq> [] \<and> s \<noteq> ''.'') (split_where (\<lambda>c. c = CHR ''/'' \<or> c = CHR 0x5C) raw)"

definition sanitize_entry_path :: "string \<Rightarrow> string option" where
  "sanitize_entry_path raw =
     (if raw = [] \<or> CHR 0x00 \<in> set raw then None
      else if hd raw = CHR ''/'' \<or> hd raw = CHR 0x5C then None
      else if 2 \<le> length raw \<and> is_ascii_alphabetic (raw ! 0) \<and> raw ! 1 = CHR '':'' then None
      else let ss = entry_segments raw in
        if list_ex (\<lambda>s. s = ''..'' \<or> CHR '':'' \<in> set s \<or> CHR 0x00 \<in> set s) ss \<or> ss = [] then None
        else Some (join_with ''/'' ss))"

definition FIGURE_EXTS :: "string list" where
  "FIGURE_EXTS = [''pdf'', ''eps'', ''ps'', ''png'', ''jpg'', ''jpeg'', ''gif'', ''svg'']"

definition is_figure :: "string \<Rightarrow> bool" where
  "is_figure path = (case path_extension path of Some x \<Rightarrow> to_ascii_lowercase x \<in> set FIGURE_EXTS | None \<Rightarrow> False)"

subsection \<open>The main file\<close>

record extracted_tex =
  et_main_file :: "string option"
  et_content :: string

text \<open>The candidates of an archive and the number of \<^verbatim>\<open>.tex\<close> entries that were tried.\<close>

fun tex_files :: "tar_entry option list \<Rightarrow> (string \<times> string) list \<times> nat" where
  "tex_files [] = ([], 0)"
| "tex_files (e # es) = (case tex_files es of (fs, n) \<Rightarrow>
     (case Option.bind e te_path of
        None \<Rightarrow> (fs, n)
      | Some raw \<Rightarrow> (case sanitize_entry_path raw of
          None \<Rightarrow> (fs, n)
        | Some path \<Rightarrow>
            if \<not> ends_with path ''.tex'' then (fs, n)
            else (case Option.bind e te_bytes of
                Some content \<Rightarrow> if is_utf8 content \<and> str_trim content \<noteq> [] then ((path, content) # fs, n + 1) else (fs, n + 1)
              | None \<Rightarrow> (fs, n + 1)))))"

definition saturating_add :: "int \<Rightarrow> int \<Rightarrow> int" where
  "saturating_add a b = min (2 ^ 63 - 1) (a + b)"

definition tex_score :: "string \<times> string \<Rightarrow> int" where
  "tex_score f = (case f of (name, content) \<Rightarrow>
     saturating_add (saturating_add
       (if contains_str content (CHR 0x5C # ''documentclass'') then 1000000 else 0)
       (if ends_with name ''main.tex'' \<or> name = ''main.tex'' then 100000 else 0))
       (min (int (length content)) (2 ^ 63 - 1)))"

text \<open>\<^verbatim>\<open>max_by_key\<close>: the last of the greatest.\<close>

fun max_by_key :: "('a \<Rightarrow> int) \<Rightarrow> 'a list \<Rightarrow> 'a option" where
  "max_by_key f [] = None"
| "max_by_key f (x # xs) = (case max_by_key f xs of
     None \<Rightarrow> Some x | Some y \<Rightarrow> if f y < f x then Some x else Some y)"

definition extract_from_tar :: "tex_env \<Rightarrow> arxiv_id \<Rightarrow> string \<Rightarrow> fetch_error + extracted_tex" where
  "extract_from_tar sx i bytes = (case untar sx bytes of
     None \<Rightarrow> Inl (SourceSchema ''tar read failed'')
   | Some es \<Rightarrow> (case tex_files es of (fs, tried) \<Rightarrow> (case max_by_key tex_score fs of
       None \<Rightarrow> Inl (if 0 < tried then SourceSchema (''tar contained '' @ nat_text tried @ '' .tex entries but all failed to read'')
         else FETextUnavailable i)
     | Some (name, content) \<Rightarrow> Inr \<lparr> et_main_file = Some name, et_content = content \<rparr>)))"

definition extract_tex :: "tex_env \<Rightarrow> arxiv_id \<Rightarrow> string \<Rightarrow> fetch_error + extracted_tex" where
  "extract_tex sx i bytes = (case classify_src (gunzip sx) bytes (Some SRC_MAX_DECOMPRESSED_BYTES) of
     Inl e \<Rightarrow> Inl e
   | Inr PdfOnly \<Rightarrow> Inl (FETextUnavailable i)
   | Inr (SingleFile d) \<Rightarrow>
       (let text = from_utf8_lossy d in
        if str_trim text = [] then Inl (FETextUnavailable i) else Inr \<lparr> et_main_file = None, et_content = text \<rparr>)
   | Inr (Tar d) \<Rightarrow> extract_from_tar sx i d)"

definition apply_max_chars_tex :: "tex_source_t \<Rightarrow> nat option \<Rightarrow> tex_source_t" where
  "apply_max_chars_tex full max_chars = (case max_chars of
     None \<Rightarrow> full
   | Some most \<Rightarrow> if xs_char_count full \<le> most then full
       else full\<lparr>xs_tex_source := cut_chars most (xs_tex_source full), xs_char_count := most, xs_truncated := True\<rparr>)"

subsection \<open>The bundle\<close>

datatype bundle_filter = BundleAll | FiguresOnly

record source_file =
  sf_path :: string
  sf_bytes :: string

definition no_files :: "arxiv_id \<Rightarrow> bundle_filter \<Rightarrow> fetch_error" where
  "no_files i flt = SourceUnavailable i (case flt of BundleAll \<Rightarrow> ''source bundle'' | FiguresOnly \<Rightarrow> ''figures'')"

text \<open>The selected files and the number of unreadable entries.\<close>

fun bundle_files :: "bundle_filter \<Rightarrow> tar_entry option list \<Rightarrow> source_file list \<times> nat" where
  "bundle_files flt [] = ([], 0)"
| "bundle_files flt (None # es) = (case bundle_files flt es of (fs, n) \<Rightarrow> (fs, n + 1))"
| "bundle_files flt (Some e # es) = (case bundle_files flt es of (fs, n) \<Rightarrow>
     if \<not> te_is_file e then (fs, n)
     else (case te_path e of
         None \<Rightarrow> (fs, n + 1)
       | Some raw \<Rightarrow> (case sanitize_entry_path raw of
           None \<Rightarrow> (fs, n)
         | Some safe \<Rightarrow>
             if flt = FiguresOnly \<and> \<not> is_figure safe then (fs, n)
             else (case te_bytes e of
                 Some b \<Rightarrow> (\<lparr> sf_path = safe, sf_bytes = b \<rparr> # fs, n)
               | None \<Rightarrow> (fs, n + 1)))))"

definition extract_bundle :: "tex_env \<Rightarrow> arxiv_id \<Rightarrow> string \<Rightarrow> bundle_filter \<Rightarrow> fetch_error + source_file list" where
  "extract_bundle sx i bytes flt = (case classify_src (gunzip sx) bytes (Some SRC_MAX_DECOMPRESSED_BYTES) of
     Inl e \<Rightarrow> Inl e
   | Inr (Tar d) \<Rightarrow> (case untar sx d of
       None \<Rightarrow> Inl (SourceSchema ''tar read failed'')
     | Some es \<Rightarrow> (case bundle_files flt es of (fs, unreadable) \<Rightarrow>
         if fs = [] then Inl (if 0 < unreadable
           then SourceSchema (''arXiv src tar had '' @ nat_text unreadable @ '' unreadable entr(y/ies) and no usable files'')
           else no_files i flt)
         else Inr fs))
   | Inr _ \<Rightarrow> Inl (no_files i flt))"

subsection \<open>The fetches\<close>

definition src_url :: "fetch_env \<Rightarrow> url \<Rightarrow> arxiv_id \<Rightarrow> url option" where
  "src_url env base i = url_join env base (''/src/'' @ arxiv_as_str i)"

definition source_row :: "fetch_env \<Rightarrow> string \<Rightarrow> arxiv_id \<Rightarrow> nat \<Rightarrow> row_input" where
  "source_row env label i sz = fetch_row env label Oa (RefArxiv i) sz (Some ''arxiv-default'')"

definition of_sum :: "fetch_error + 'a \<Rightarrow> 'a act" where
  "of_sum x = (case x of Inl e \<Rightarrow> throw e | Inr a \<Rightarrow> return_ok a)"

definition fetch_and_extract :: "tex_env \<Rightarrow> url \<Rightarrow> arxiv_id \<Rightarrow> tex_source_t act" where
  "fetch_and_extract sx base i =
     (let env = sx_fetch sx in
      and_then (acquire ''arxiv'') (\<lambda>_.
      and_then (ok_or (SourceSchema ''arXiv src URL construction failed'') (src_url env base i)) (\<lambda>u.
      and_then (fetch_bytes env ''arxiv'' u) (\<lambda>(body, final).
      and_then (of_sum (extract_tex sx i body)) (\<lambda>x.
      and_then (log_row_act env (source_row env ''arxiv-src'' i (length body))) (\<lambda>_.
      return_ok \<lparr> xs_arxiv_id = arxiv_as_str i, xs_main_file = et_main_file x, xs_tex_source = et_content x,
        xs_char_count = char_count (et_content x), xs_truncated = False, xs_retrieved_from = render env final \<rparr>))))))"

definition paper_source_bundle :: "tex_env \<Rightarrow> url \<Rightarrow> arxiv_id \<Rightarrow> bundle_filter \<Rightarrow> source_file list act" where
  "paper_source_bundle sx base i flt =
     (let env = sx_fetch sx in
      and_then (acquire ''arxiv'') (\<lambda>_.
      and_then (ok_or (SourceSchema ''arXiv src URL construction failed'') (src_url env base i)) (\<lambda>u.
      and_then (fetch_bytes env ''arxiv'' u) (\<lambda>(body, _).
      and_then (of_sum (extract_bundle sx i body flt)) (\<lambda>fs.
      and_then (log_row_act env (source_row env ''arxiv-src-bundle'' i (length body))) (\<lambda>_. return_ok fs))))))"

definition TEX_SRC_CACHE_TTL_DAYS :: int where "TEX_SRC_CACHE_TTL_DAYS = 7"
definition TEX_SRC_CACHE_SCHEMA_VERSION :: string where "TEX_SRC_CACHE_SCHEMA_VERSION = ''1.0''"

definition tex_cache_file :: "fetch_env \<Rightarrow> string \<Rightarrow> arxiv_id \<Rightarrow> string" where
  "tex_cache_file env root i =
     path_join (path_join root ''tex-src'') (safekey_as_str (ref_safekey (sha env) (hx env) (RefArxiv i)) @ ''.json'')"

definition tex_cache_read_at :: "tex_env \<Rightarrow> string \<Rightarrow> arxiv_id \<Rightarrow> int \<Rightarrow> fs \<Rightarrow> tex_source_t option res" where
  "tex_cache_read_at sx root i now files =
     (case Option.bind (file_bytes (sx_cache sx) files (tex_cache_file (sx_fetch sx) root i)) (json_entry (sx_codec sx)) of
        None \<Rightarrow> Ok None
      | Some entry \<Rightarrow>
          if de_schema_version entry \<noteq> TEX_SRC_CACHE_SCHEMA_VERSION then Ok None
          else (case parse_rfc3339 (sx_cache sx) (de_fetched_at entry) of
              None \<Rightarrow> Ok None
            | Some fetched \<Rightarrow> (case duration_seconds sx (de_ttl_seconds entry) of
                None \<Rightarrow> Panic
              | Some ttl \<Rightarrow> Ok (if ttl < now - fetched then None else Some (de_inner entry)))))"

definition tex_cache_read :: "tex_env \<Rightarrow> string \<Rightarrow> arxiv_id \<Rightarrow> tex_source_t option act" where
  "tex_cache_read sx root i w = (w, tex_cache_read_at sx root i (utc_now (sx_cache sx) (effects w)) (w_files w))"

definition tex_cache_write :: "tex_env \<Rightarrow> string \<Rightarrow> arxiv_id \<Rightarrow> tex_source_t \<Rightarrow> unit act" where
  "tex_cache_write sx root i = write_document (sx_cache sx) (sx_codec sx) (sx_write sx) TEX_SRC_CACHE_SCHEMA_VERSION
     TEX_SRC_CACHE_TTL_DAYS (tex_cache_file (sx_fetch sx) root i)"

definition paper_tex_source :: "tex_env \<Rightarrow> string option \<Rightarrow> url \<Rightarrow> arxiv_id \<Rightarrow> nat option \<Rightarrow> tex_source_t act" where
  "paper_tex_source sx cache_root base i max_chars =
     and_then (case cache_root of
         None \<Rightarrow> fetch_and_extract sx base i
       | Some root \<Rightarrow> cached (tex_cache_read sx root i) (tex_cache_write sx root i) (fetch_and_extract sx base i))
       (\<lambda>full. return_ok (apply_max_chars_tex full max_chars))"

subsection \<open>The guard on paths\<close>

definition safe_segment :: "string \<Rightarrow> bool" where
  "safe_segment s \<longleftrightarrow> s \<noteq> [] \<and> s \<noteq> ''.'' \<and> s \<noteq> ''..''
     \<and> CHR ''/'' \<notin> set s \<and> CHR 0x5C \<notin> set s \<and> CHR '':'' \<notin> set s \<and> CHR 0x00 \<notin> set s"

text \<open>A relative path that stays where it is joined.\<close>

definition safe_path :: "string \<Rightarrow> bool" where
  "safe_path p \<longleftrightarrow> split_char CHR ''/'' p \<noteq> [] \<and> list_all safe_segment (split_char CHR ''/'' p)"

lemma sanitize_segments:
  assumes "sanitize_entry_path raw = Some p"
  shows "p = join_with ''/'' (entry_segments raw)" and "entry_segments raw \<noteq> []" and "list_all safe_segment (entry_segments raw)"
proof -
  from assms have *: "p = join_with ''/'' (entry_segments raw)" "entry_segments raw \<noteq> []"
      "list_all (\<lambda>s. s \<noteq> ''..'' \<and> CHR '':'' \<notin> set s \<and> CHR 0x00 \<notin> set s) (entry_segments raw)"
    by (auto simp: sanitize_entry_path_def Let_def list_ex_iff list_all_iff split: if_splits)
  have "CHR ''/'' \<notin> set s \<and> CHR 0x5C \<notin> set s \<and> s \<noteq> [] \<and> s \<noteq> ''.''" if "s \<in> set (entry_segments raw)" for s
    using that split_where_free [of s "\<lambda>c. c = CHR ''/'' \<or> c = CHR 0x5C" raw]
    by (auto simp: entry_segments_def list_all_iff)
  with * show "p = join_with ''/'' (entry_segments raw)" and "entry_segments raw \<noteq> []"
    and "list_all safe_segment (entry_segments raw)"
    by (simp_all add: list_all_iff safe_segment_def)
qed

lemma split_segments:
  assumes "ss \<noteq> []" and "list_all safe_segment ss"
  shows "split_where (\<lambda>c. c = CHR ''/'' \<or> c = CHR 0x5C) (join_with ''/'' ss) = ss"
  using assms
proof (induction ss)
  case (Cons s ss)
  let ?sep = "\<lambda>c. c = CHR ''/'' \<or> c = CHR 0x5C"
  from Cons.prems have s: "\<not> list_ex ?sep s" by (auto simp: safe_segment_def list_ex_iff)
  show ?case
  proof (cases "ss = []")
    case True
    then show ?thesis using split_where_append [OF s, of "[]"] by simp
  next
    case False
    with Cons split_where_append [OF s, of "CHR ''/'' # join_with ''/'' ss"] show ?thesis by (simp add: join_with_Cons)
  qed
qed simp

lemma set_join_with: "set (join_with sep ls) \<subseteq> set sep \<union> (\<Union>l \<in> set ls. set l)"
proof (induction ls)
  case (Cons l ls)
  then show ?case by (cases "ls = []") (auto simp: join_with_Cons)
qed simp

lemma safe_segments_free:
  assumes "list_all safe_segment ss"
  shows "list_all (\<lambda>l. CHR ''/'' \<notin> set l) ss" and "filter (\<lambda>s. s \<noteq> [] \<and> s \<noteq> ''.'') ss = ss"
  using assms by (simp_all add: list_all_iff safe_segment_def filter_id_conv)

text \<open>A path from an archive stays where it is joined.  What the guard lets pass is a relative path of plain
  names: none is empty, a dot or two dots, and none holds a separator of either system, a colon or a NUL; such a path
  passes unchanged.\<close>

theorem guarded_path_is_safe:
  assumes "sanitize_entry_path raw = Some p"
  shows "safe_path p \<and> sanitize_entry_path p = Some p"
proof -
  let ?ss = "entry_segments raw"
  note ss = sanitize_segments [OF assms]
  then have segs: "entry_segments p = ?ss"
    using split_segments [OF ss(2,3)] safe_segments_free(2) [OF ss(3)] unfolding ss(1) entry_segments_def [of "join_with ''/'' ?ss"] by simp
  have "split_char CHR ''/'' p = ?ss"
    unfolding ss(1) by (rule split_join_char [OF ss(2) safe_segments_free(1) [OF ss(3)]])
  with ss have safe: "safe_path p" by (simp add: safe_path_def)
  obtain s rest where split: "?ss = s # rest" using ss(2) by (cases ?ss) auto
  with ss(3) obtain c cs where s: "s = c # cs" "safe_segment s" by (cases s) (auto simp: safe_segment_def)
  have p: "p = s @ (if rest = [] then [] else CHR ''/'' # join_with ''/'' rest)"
    unfolding ss(1) split by (simp add: join_with_Cons)
  have "CHR 0x00 \<notin> set p" "CHR '':'' \<notin> set p"
    unfolding ss(1) using set_join_with [of "''/''" ?ss] ss(3) by (auto simp: list_all_iff safe_segment_def)
  moreover have "hd p \<noteq> CHR ''/''" "hd p \<noteq> CHR 0x5C" "p \<noteq> []" using s by (auto simp: p safe_segment_def)
  moreover have "p ! 1 \<in> set p" if "2 \<le> length p" using that by (intro nth_mem) simp
  moreover have "\<not> list_ex (\<lambda>s. s = ''..'' \<or> CHR '':'' \<in> set s \<or> CHR 0x00 \<in> set s) ?ss"
    using ss(3) by (auto simp: list_ex_iff list_all_iff safe_segment_def)
  ultimately have "sanitize_entry_path p = Some (join_with ''/'' ?ss)"
    unfolding sanitize_entry_path_def segs Let_def using ss(2) by (simp only: simp_thms if_False) metis
  with safe ss(1) show ?thesis by simp
qed

theorem guarded_path_is_safe_witness:
  "sanitize_entry_path ''fig//./a.png'' = Some ''fig/a.png'' \<and> safe_path ''fig/a.png''
   \<and> sanitize_entry_path ''a/../b'' = None \<and> sanitize_entry_path ''C:a'' = None"
proof -
  have *: "sanitize_entry_path ''fig//./a.png'' = Some ''fig/a.png'' \<and> sanitize_entry_path ''a/../b'' = None
     \<and> sanitize_entry_path ''C:a'' = None"
    by code_simp
  then show ?thesis using guarded_path_is_safe [of "''fig//./a.png''" "''fig/a.png''"] by blast
qed

lemma sanitized_safe: "sanitize_entry_path raw = Some p \<Longrightarrow> safe_path p"
  using sanitize_segments [of raw p] safe_segments_free(1) [of "entry_segments raw"]
    split_join_char [of "entry_segments raw" "CHR ''/''"]
  by (simp add: safe_path_def)

subsection \<open>What is selected\<close>

definition bundled :: "bundle_filter \<Rightarrow> tar_entry option list \<Rightarrow> source_file \<Rightarrow> bool" where
  "bundled flt es f \<longleftrightarrow> (\<exists>e raw. Some e \<in> set es \<and> te_is_file e \<and> te_path e = Some raw
     \<and> sanitize_entry_path raw = Some (sf_path f) \<and> te_bytes e = Some (sf_bytes f)
     \<and> (flt = FiguresOnly \<longrightarrow> is_figure (sf_path f)))"

definition tex_candidate :: "tar_entry option list \<Rightarrow> string \<times> string \<Rightarrow> bool" where
  "tex_candidate es c \<longleftrightarrow> (\<exists>e raw. Some e \<in> set es \<and> te_path e = Some raw
     \<and> sanitize_entry_path raw = Some (fst c) \<and> ends_with (fst c) ''.tex''
     \<and> te_bytes e = Some (snd c) \<and> is_utf8 (snd c) \<and> str_trim (snd c) \<noteq> [])"

lemma bundled_Nil: "\<not> bundled flt [] f" and tex_candidate_Nil: "\<not> tex_candidate [] c"
  by (simp_all add: bundled_def tex_candidate_def)

lemma bundled_Cons: "bundled flt (e # es) f \<longleftrightarrow> (e \<noteq> None \<and> bundled flt [e] f) \<or> bundled flt es f"
  by (auto simp: bundled_def)

lemma tex_candidate_Cons: "tex_candidate (e # es) c \<longleftrightarrow> tex_candidate [e] c \<or> tex_candidate es c"
  by (auto simp: tex_candidate_def)

lemma bundle_files_set: "f \<in> set (fst (bundle_files flt es)) \<longleftrightarrow> bundled flt es f"
proof (induction es)
  case (Cons e es)
  show ?case
    unfolding bundled_Cons [of flt e es] Cons.IH [symmetric]
    by (cases e; cases f) (auto simp: bundled_def split: prod.splits option.splits)
qed (simp add: bundled_Nil)

lemma tex_files_set: "c \<in> set (fst (tex_files es)) \<longleftrightarrow> tex_candidate es c"
proof (induction es)
  case (Cons e es)
  show ?case
    unfolding tex_candidate_Cons [of e es] Cons.IH [symmetric]
    by (cases e; cases c) (auto simp: tex_candidate_def split: prod.splits option.splits)
qed (simp add: tex_candidate_Nil)

lemma max_by_key_None [simp]: "max_by_key f xs = None \<longleftrightarrow> xs = []"
  by (cases xs) (auto split: option.splits)

lemma max_by_key_max: "max_by_key f xs = Some x \<Longrightarrow> x \<in> set xs \<and> (\<forall>y \<in> set xs. f y \<le> f x)"
proof (induction xs arbitrary: x)
  case (Cons a xs)
  show ?case
  proof (cases "max_by_key f xs")
    case None
    with Cons.prems show ?thesis by auto
  next
    case (Some y)
    with Cons.IH [OF Some] Cons.prems show ?thesis by (auto split: if_splits)
  qed
qed simp

lemma classify_Tar:
  assumes "classify_src gz bytes (Some n) = Inr (Tar d)"
  shows "length d \<le> n \<and> gz bytes = (d, True)"
proof -
  obtain out ok where gz: "gz bytes = (out, ok)" by (cases "gz bytes")
  from assms have "take (n + 1) out = d \<and> length (take (n + 1) out) \<le> n \<and> ok"
    by (auto simp: classify_src_def decompress_def gz split: if_splits sum.splits)
  then show ?thesis by (auto simp: gz)
qed

text \<open>C34: What a bundle returns may be written out.  A bundle is one the archive really holds: the body was a gzip stream
  that ended within the cap and held an archive; the files returned are exactly the regular, readable entries whose
  path passes the guard (those of a figure, where only figures were asked for), each with the bytes of its entry; there
  is at least one; and no path of theirs leaves the directory it is joined to.\<close>

theorem bundle_stays_inside:
  assumes "extract_bundle sx i bytes flt = Inr fs"
  shows "fs \<noteq> [] \<and> (\<exists>d es. gunzip sx bytes = (d, True) \<and> length d \<le> SRC_MAX_DECOMPRESSED_BYTES \<and> untar sx d = Some es
    \<and> (\<forall>f. (f \<in> set fs) = bundled flt es f) \<and> (\<forall>f \<in> set fs. safe_path (sf_path f)))"
proof -
  from assms obtain d es where d: "classify_src (gunzip sx) bytes (Some SRC_MAX_DECOMPRESSED_BYTES) = Inr (Tar d)"
      "untar sx d = Some es" and fs: "fs = fst (bundle_files flt es)" "fs \<noteq> []"
    by (auto simp: extract_bundle_def split: sum.splits src_payload.splits option.splits prod.splits if_splits)
  have "safe_path (sf_path f)" if "bundled flt es f" for f
    using that sanitized_safe by (auto simp: bundled_def)
  with fs classify_Tar [OF d(1)] d(2) show ?thesis by (simp add: bundle_files_set)
qed

text \<open>The source returned is the one with the best claim.  It is the content of a readable, non-empty \<^verbatim>\<open>.tex\<close> file of
  the archive, under a name that stays where it is joined, and no such file of the archive scores higher.\<close>

theorem main_file_has_the_best_score:
  assumes "extract_from_tar sx i bytes = Inr x"
  shows "\<exists>es name. untar sx bytes = Some es \<and> et_main_file x = Some name \<and> safe_path name
    \<and> tex_candidate es (name, et_content x) \<and> (\<forall>c. tex_candidate es c \<longrightarrow> tex_score c \<le> tex_score (name, et_content x))"
proof -
  from assms obtain es fs n name content where es: "untar sx bytes = Some es" "tex_files es = (fs, n)"
      and best: "max_by_key tex_score fs = Some (name, content)" and x: "x = \<lparr> et_main_file = Some name, et_content = content \<rparr>"
    by (auto simp: extract_from_tar_def split: option.splits prod.splits)
  have cands: "c \<in> set fs \<longleftrightarrow> tex_candidate es c" for c using tex_files_set [of c es] es(2) by simp
  from max_by_key_max [OF best] have "tex_candidate es (name, content)"
      and "\<forall>c. tex_candidate es c \<longrightarrow> tex_score c \<le> tex_score (name, content)"
    by (simp_all add: cands)
  moreover from this(1) have "safe_path name" using sanitized_safe by (auto simp: tex_candidate_def)
  ultimately show ?thesis using es(1) by (simp add: x)
qed

text \<open>The weights are above what files of less than 900000 bytes weigh.\<close>

lemma documentclass_wins:
  assumes "contains_str (snd c) (CHR 0x5C # ''documentclass'')" and "tex_score c \<le> tex_score c'"
    and "length (snd c) < 900000" and "length (snd c') < 900000"
  shows "contains_str (snd c') (CHR 0x5C # ''documentclass'')"
  using assms by (cases c; cases c') (auto simp: tex_score_def saturating_add_def split: if_splits)

subsection \<open>An archive\<close>

definition demo_tar :: string where
  "demo_tar = replicate 257 CHR ''x'' @ ''ustar!''"

definition demo_entries :: "tar_entry option list" where
  "demo_entries =
    [Some \<lparr> te_is_file = True, te_path = Some ''./paper.tex'', te_bytes = Some (CHR 0x5C # ''documentclass'') \<rparr>, None,
     Some \<lparr> te_is_file = True, te_path = Some ''fig/a.PNG'', te_bytes = Some ''P'' \<rparr>,
     Some \<lparr> te_is_file = True, te_path = Some ''../b.png'', te_bytes = Some ''Q'' \<rparr>,
     Some \<lparr> te_is_file = True, te_path = Some ''s/main.tex'', te_bytes = Some ''text'' \<rparr>]"

definition demo_tex :: tex_env where
  "demo_tex = \<lparr> sx_fetch = demo_fetch_env, sx_cache = demo_cache,
     sx_codec = \<lparr> entry_json = (\<lambda>_. None), json_entry = (\<lambda>_. None) \<rparr>, sx_write = (\<lambda>_. None),
     duration_seconds = (\<lambda>s. Some (s * 10 ^ 9)), gunzip = (\<lambda>_. (demo_tar, True)), untar = (\<lambda>_. Some demo_entries) \<rparr>"

lemma demo_classified:
  "classify_src (gunzip demo_tex) [CHR 0x1F, CHR 0x8B] (Some SRC_MAX_DECOMPRESSED_BYTES) = Inr (Tar demo_tar)"
  by (simp add: classify_src_def decompress_def demo_tex_def demo_tar_def SRC_MAX_DECOMPRESSED_BYTES_def starts_with_def)

lemma demo_selected:
  "bundle_files FiguresOnly demo_entries = ([\<lparr> sf_path = ''fig/a.PNG'', sf_bytes = ''P'' \<rparr>], 1)
   \<and> extract_from_tar demo_tex (ArxivId ''2401.12345'') []
      = Inr \<lparr> et_main_file = Some ''paper.tex'', et_content = CHR 0x5C # ''documentclass'' \<rparr>"
  by code_simp

theorem bundle_stays_inside_witness:
  "extract_bundle demo_tex (ArxivId ''2401.12345'') [CHR 0x1F, CHR 0x8B] FiguresOnly = Inr [\<lparr> sf_path = ''fig/a.PNG'', sf_bytes = ''P'' \<rparr>]
   \<and> safe_path ''fig/a.PNG''"
proof -
  have *: "extract_bundle demo_tex (ArxivId ''2401.12345'') [CHR 0x1F, CHR 0x8B] FiguresOnly
      = Inr [\<lparr> sf_path = ''fig/a.PNG'', sf_bytes = ''P'' \<rparr>]"
    using demo_selected by (simp add: extract_bundle_def demo_classified) (simp add: demo_tex_def)
  from bundle_stays_inside [OF this] * show ?thesis by auto
qed

theorem main_file_has_the_best_score_witness:
  "extract_from_tar demo_tex (ArxivId ''2401.12345'') []
      = Inr \<lparr> et_main_file = Some ''paper.tex'', et_content = CHR 0x5C # ''documentclass'' \<rparr>
   \<and> tex_candidate demo_entries (''paper.tex'', CHR 0x5C # ''documentclass'')"
proof -
  note * = conjunct2 [OF demo_selected]
  from main_file_has_the_best_score [OF this] * show ?thesis by (auto simp: demo_tex_def)
qed

subsection \<open>The cache and the log\<close>

definition tex_fresh :: "tex_env \<Rightarrow> tex_source_t \<Rightarrow> world \<Rightarrow> world \<Rightarrow> bool" where
  "tex_fresh sx a w w2 \<longleftrightarrow>
     document_fresh (sx_cache sx) (sx_codec sx) (sx_write sx) TEX_SRC_CACHE_SCHEMA_VERSION TEX_SRC_CACHE_TTL_DAYS a w w2
     \<and> duration_seconds sx (TEX_SRC_CACHE_TTL_DAYS * 86400) = Some (TEX_SRC_CACHE_TTL_DAYS * 86400 * 10 ^ 9)"

interpretation tex_cache: document_cache "tex_cache_read sx root i" "tex_cache_write sx root i"
    "tex_cache_file (sx_fetch sx) root i" "tex_fresh sx" for sx root i
proof
  show "tex_cache_read sx root i w = (w', r) \<Longrightarrow> w' = w" for w w' r by (simp add: tex_cache_read_def)
  show "tex_cache_write sx root i a w = (w', q) \<Longrightarrow> q = Ok () \<and> effects w' = effects w" for a w w' q
    unfolding tex_cache_write_def by (rule write_document_silent)
next
  fix a w w1 w2
  assume wr: "tex_cache_write sx root i a w = (w1, Ok ())" and fresh: "tex_fresh sx a w w2"
    and kept: "map_of (w_files w2) (tex_cache_file (sx_fetch sx) root i) = map_of (w_files w1) (tex_cache_file (sx_fetch sx) root i)"
  note fresh = fresh [unfolded tex_fresh_def]
  from written_document [OF wr [unfolded tex_cache_write_def] conjunct1 [OF fresh] kept] fresh
  show "tex_cache_read sx root i w2 = (w2, Ok (Some a))"
    by (auto simp: tex_cache_read_def tex_cache_read_at_def document_entry_def document_fresh_def Let_def)
qed

lemma tex_source_again:
  assumes "paper_tex_source sx (Some root) base i max1 w = (w1, Ok out)" and "tex_cache_read sx root i w = (w, Ok None)"
    and "\<And>v full. fetch_and_extract sx base i w = (v, Ok full) \<Longrightarrow> tex_fresh sx full v w2"
    and "map_of (w_files w2) (tex_cache_file (sx_fetch sx) root i) = map_of (w_files w1) (tex_cache_file (sx_fetch sx) root i)"
  shows "\<exists>full. out = apply_max_chars_tex full max1
    \<and> paper_tex_source sx (Some root) base i max2 w2 = (w2, Ok (apply_max_chars_tex full max2))"
proof -
  from assms(1) obtain full where
      first: "cached (tex_cache_read sx root i) (tex_cache_write sx root i) (fetch_and_extract sx base i) w = (w1, Ok full)"
      and out: "out = apply_max_chars_tex full max1"
    by (auto simp: paper_tex_source_def and_then_Ok return_ok_Ok)
  from tex_cache.answered_again [OF first assms(2) assms(3) assms(4)]
  have "cached (tex_cache_read sx root i) (tex_cache_write sx root i) (fetch_and_extract sx base i) w2 = (w2, Ok full)" .
  with out show ?thesis by (auto simp: paper_tex_source_def and_then_def return_ok_def)
qed

subsection \<open>Where it falls short\<close>

lemma main_tex_passes: "sanitize_entry_path ''main.tex'' = Some ''main.tex'' \<and> ends_with ''main.tex'' ''.tex''
    \<and> is_utf8 [] \<and> str_trim [] = []"
  by code_simp

text \<open>An archive whose only \<^verbatim>\<open>.tex\<close> file is empty, and was read, is reported as one that could not be read.\<close>

theorem empty_tex_is_called_unreadable:
  assumes "untar sx bytes = Some [Some \<lparr> te_is_file = True, te_path = Some ''main.tex'', te_bytes = Some [] \<rparr>]"
  shows "extract_from_tar sx i bytes = Inl (SourceSchema (''tar contained '' @ nat_text 1 @ '' .tex entries but all failed to read''))"
  using main_tex_passes by (simp add: extract_from_tar_def assms)

text \<open>A PDF that is sent compressed is not seen to be one: its bytes are returned as the source.\<close>

theorem gzipped_pdf_is_tex:
  assumes "starts_with bytes [CHR 0x1F, CHR 0x8B]" and "gunzip sx bytes = (''%PDF-1.4'', True)"
  shows "extract_tex sx i bytes = Inr \<lparr> et_main_file = None, et_content = ''%PDF-1.4'' \<rparr>"
proof -
  have "from_utf8_lossy ''%PDF-1.4'' = ''%PDF-1.4'' \<and> str_trim ''%PDF-1.4'' = ''%PDF-1.4''" by code_simp
  moreover have "\<not> starts_with bytes ''%PDF-''" using assms(1) by (cases bytes) (auto simp: starts_with_def)
  ultimately show ?thesis using assms
    by (simp add: extract_tex_def classify_src_def decompress_def SRC_MAX_DECOMPRESSED_BYTES_def)
qed

end
