(* ===== verification/Spec2Isabelle.thy ===== *)
theory Spec2Isabelle
  imports Refs Canonical Errors Capability Allowlist Http Repeat Rate_Limiter Provenance
    Json Markup Metadata Metadata_Quality Store Fetch_Context Sources Arxiv Citation_Graph
    Orch_Env Preprint Attempts Records Orchestrator Fetch_Safety
    User_Extension Remediation Client_Setup Dry_Run Source_Catalog Exchange Software Bibliography Pubmed
    Resolver_Cache Citation_Render Cli_Env Fetch_Command Export Resolve_Safety Cite Verify User_Pdf
    Discovery Document_Cache Paper_Text Tex_Source
begin

text \<open>
  A model of doiget: a program that resolves a DOI or an arXiv identifier, fetches an open copy of the paper
  under a capability profile and strict host allowlists, stores metadata and PDF, keeps a hash-chained
  provenance log, and cites and exports what it resolved.  The core is \<^verbatim>\<open>crates/doiget-core/src\<close>; the commands
  are \<^verbatim>\<open>crates/doiget-cli/src/commands\<close>.

  \<^bold>\<open>How the parts interact.\<close>  A reference is parsed (\<open>Refs\<close>) and promoted to a canonical reference with a
  digest (\<open>Canonical\<close>).  A profile is read from the environment and the credentials file (\<open>Capability\<close>).  A
  fetch first asks the repeat index of the session (\<open>Repeat\<close>), then its sources (\<open>Sources\<close>, \<open>Arxiv\<close>), each
  through the rate limiter (\<open>Rate_Limiter\<close>) and the HTTP client (\<open>Http\<close>), whose redirects are confined to
  the allowlists (\<open>Allowlist\<close>); every answer is recorded in the log (\<open>Provenance\<close>).  The orchestrator combines
  the answers (\<open>Attempts\<close>, \<open>Preprint\<close>, \<open>Records\<close>, \<open>Orchestrator\<close>), repairs damaged text
  (\<open>Metadata_Quality\<close>) and writes the store (\<open>Metadata\<close>, \<open>Store\<close>).  Errors have one closed set of codes
  (\<open>Errors\<close>).  A command sets up a client whose gate is the built-in tables and the user's configuration
  (\<open>User_Extension\<close>, \<open>Client_Setup\<close>), runs an operation between two session rows (\<open>Fetch_Command\<close>) and turns its
  end into an exit status (\<open>Cli_Env\<close>); the citing and exporting commands render records (\<open>Citation_Render\<close>) that
  come from the store, the cache (\<open>Resolver_Cache\<close>) or a live resolve.

  \<^bold>\<open>Theories and files.\<close>
    \<^item> \<open>Prelude\<close>: strings as byte lists, ASCII classes, splitting and trimming, hex, percent sets, lemmas shared
      by all components.
    \<^item> \<open>Refs\<close>, \<open>Canonical\<close>, \<open>Errors\<close>, \<open>Capability\<close>: \<^verbatim>\<open>lib.rs\<close>, \<^verbatim>\<open>canonical.rs\<close>, \<^verbatim>\<open>credentials.rs\<close> and the
      error types of \<^verbatim>\<open>source.rs\<close>, \<^verbatim>\<open>http.rs\<close>, \<^verbatim>\<open>provenance.rs\<close>, \<^verbatim>\<open>citation_graph.rs\<close>.
    \<^item> \<open>Allowlist\<close>, \<open>Http\<close>: \<^verbatim>\<open>http.rs\<close>.  \<open>Repeat\<close>: \<^verbatim>\<open>repeat.rs\<close>.  \<open>Rate_Limiter\<close>: \<^verbatim>\<open>rate_limiter.rs\<close>, as a
      transition system of tasks.  \<open>Provenance\<close>: \<^verbatim>\<open>provenance.rs\<close>, over a directory of log files in which any
      input/output step may fail.
    \<^item> \<open>Markup\<close>: \<^verbatim>\<open>markup.rs\<close>.  \<open>Metadata\<close>, \<open>Store\<close>: \<^verbatim>\<open>store/metadata.rs\<close>, \<^verbatim>\<open>store/mod.rs\<close>,
      \<^verbatim>\<open>store/fs_store.rs\<close>, over a file map in which a write may tear.  \<open>Metadata_Quality\<close>:
      \<^verbatim>\<open>metadata_quality.rs\<close>.
    \<^item> \<open>Json\<close>, \<open>Fetch_Context\<close>: JSON values and the \<^verbatim>\<open>FetchContext\<close> of \<^verbatim>\<open>source.rs\<close>; an operation is a function
      of a \<open>world\<close> (log, store, trace of effects) with a result \<open>Ok\<close>, \<open>Err\<close> or \<open>Panic\<close>, sequenced by
      \<open>and_then\<close> and \<open>catch\<close>.  \<open>Sources\<close>, \<open>Arxiv\<close>: the fourteen sources under \<^verbatim>\<open>sources/\<close>.
    \<^item> \<open>Citation_Graph\<close>: \<^verbatim>\<open>citation_graph.rs\<close>.
    \<^item> \<open>Orch_Env\<close>, \<open>Attempts\<close>, \<open>Records\<close>, \<open>Orchestrator\<close>: \<^verbatim>\<open>orchestrator.rs\<close>, in this order: contacts and
      sources, the optional and text-mining chains with their trace, the records, the two fetch paths, the gate
      and the batch.  \<open>Preprint\<close>: \<^verbatim>\<open>preprint.rs\<close>.  \<open>Fetch_Safety\<close>: what holds of every fetch.
    \<^item> \<open>User_Extension\<close>: \<^verbatim>\<open>user_extension.rs\<close>, \<^verbatim>\<open>verify_config.rs\<close>.  \<open>Remediation\<close>: \<^verbatim>\<open>remediation.rs\<close>.
      \<open>Client_Setup\<close>: \<^verbatim>\<open>base_override.rs\<close> and the client builders of the two front ends.  \<open>Dry_Run\<close>: \<^verbatim>\<open>dry_run.rs\<close>.
      \<open>Source_Catalog\<close>: \<^verbatim>\<open>source_catalog.rs\<close>.
    \<^item> \<open>Exchange\<close>: bounds on the exchanges of an operation with a service, shared by \<open>Software\<close> (\<^verbatim>\<open>software.rs\<close>).
      \<open>Bibliography\<close>: \<^verbatim>\<open>refs.rs\<close>.  \<open>Pubmed\<close>: \<^verbatim>\<open>pubmed.rs\<close>.  \<open>Resolver_Cache\<close>: \<^verbatim>\<open>resolver_cache.rs\<close>.
      \<open>Citation_Render\<close>: \<^verbatim>\<open>store/render.rs\<close>, \<^verbatim>\<open>store/citekey.rs\<close>.
    \<^item> \<open>Cli_Env\<close>, \<open>Fetch_Command\<close>: \<^verbatim>\<open>commands/mod.rs\<close> and \<^verbatim>\<open>commands/fetch.rs\<close>, with the store, the log and the user's
      directories as the state of a run.  \<open>Export\<close>: \<^verbatim>\<open>commands/bib.rs\<close>, \<^verbatim>\<open>commands/csl.rs\<close>.  \<open>Cite\<close>:
      \<^verbatim>\<open>commands/cite.rs\<close>.  \<open>Resolve_Safety\<close>: what a resolve asks for and leaves alone.  \<open>Verify\<close>:
      \<^verbatim>\<open>commands/verify.rs\<close>.  \<open>User_Pdf\<close>: \<^verbatim>\<open>user_pdf.rs\<close> and \<^verbatim>\<open>commands/add.rs\<close>.
    \<^item> \<open>Discovery\<close>: \<^verbatim>\<open>discovery.rs\<close>, the searches at OpenAlex.  \<open>Document_Cache\<close>: what the caches of texts share.
      \<open>Paper_Text\<close>: \<^verbatim>\<open>paper_text.rs\<close>, over the events of the XML reader.  \<open>Tex_Source\<close>: \<^verbatim>\<open>paper_tex_source.rs\<close>, over
      the entries of an archive.

  \<^bold>\<open>What the lemmas show.\<close>  Per component: round trips and exactness of the reference grammar; safety of file
  names; consent before any text-mining grant; closed host gates and bounded, confined redirects; one complete
  response per successful fetch; bounds on the limiter in every reachable state; tamper evidence, recovery,
  rotation and migration of the log under every failing step; crash consistency of the store and its refinement
  of a map from safekeys to records; the alignment that admits a repair.  Across components: a fetch contacts
  only services its profile permits, a reported success is on disk and on the log, no stub is stored, the
  resolution trace is honest, a repeated reference is asked once, and the citation graph is breadth-first,
  capped and confined to OpenAlex.  Around a fetch: the user's patterns are the documented ones and the client's
  gate stays closed, advice that is followed works, a preview names the files that are written, the catalog
  agrees with the sources; a cached resolve is free and expires; lookups of software and PubMed identifiers stay
  on their service.  Of the commands: the exit status agrees with the log, a dry run changes nothing, links
  spare the user's files, and what is exported or cited reads back under distinct valid keys; a verification accounts
  for every entry and only reads; a file of the user's is stored only after the checks of a fetch.  Of the readers: a search asks for exactly what
  was asked and only reads, a frontier is ranked, the reader of a page computes the text its structure gives, a cap returns
  the beginning of it, and a bundle of sources holds only paths that stay where they are joined.  The contract of a source is the locale \<open>source_contract\<close>, interpreted for
  each of the fourteen; that of a chain is \<open>source_chain\<close>, interpreted for both chains; that of a cache of texts is
  \<open>document_cache\<close>, interpreted for both caches.

  \<^bold>\<open>Parameters.\<close>  Code outside the repository is a parameter of the definitions that use it: SHA-256 and hex
  encoding, the \<^verbatim>\<open>url\<close>, \<^verbatim>\<open>reqwest\<close>, \<^verbatim>\<open>serde_json\<close>, \<^verbatim>\<open>quick_xml\<close>, \<^verbatim>\<open>flate2\<close>, \<^verbatim>\<open>tar\<close>, \<^verbatim>\<open>toml\<close> and \<^verbatim>\<open>chrono\<close> crates, Unicode tables,
  clocks, the environment, the servers and the file system's failures.  What the outside answers may depend on
  the whole trace of effects so far.  Where a theorem relies on such code, the reliance is a named hypothesis.

  \<^bold>\<open>Bounds and fuel.\<close>  No definition uses fuel; loops are structural or have a measure (the retry loop is
  bounded by \<open>MAX_FETCH_RETRIES\<close>, the graph walk by its caps, lock polling by its deadline).  Byte counts and
  years are unbounded; \<^verbatim>\<open>as_i32\<close> writes out the check of the width.

  \<^bold>\<open>Not modelled.\<close>  Install information; argument parsing and the remaining commands; the transport and tool schemas of the MCP
  server; the wire forms of resolution traces; \<^verbatim>\<open>CrossrefSource::resolve_citation\<close>; constructors that read
  \<^verbatim>\<open>*_BASE\<close> variables inside the sources; message texts, and the notes the citing and exporting commands print on
  standard error; failures of the construction of a command's context other than those of its paths; builds
  without the optional features.
\<close>

end
